(* ===== verification/KF_Prelude.thy ===== *)
theory KF_Prelude
  imports Main "HOL-Library.Word" "HOL-Library.Sublist" "HOL-Library.Char_ord"
    "HOL-Library.List_Lexorder" "HOL-Library.Option_ord" "HOL-Library.Multiset"
begin

text \<open>
  Shared vocabulary of the development: Rust's \<open>Result\<close> as a sum (\<open>Inl\<close> the error),
  the \<open>?\<close> operator as \<open>and_then\<close>, loops that stop at the first error as \<open>try_fold\<close> and
  \<open>try_each\<close>, strings as their UTF-8 bytes, 64-bit integers with checked and saturating
  operations, and the lemmas on them that every component uses.
  The collection \<open>result_simps\<close> holds the equations that take a successful pipeline apart.
\<close>

named_theorems result_simps "what a successful Result pipeline says of its stages"
named_theorems narrow_intros "introduction rules for the narrowing orders"

section \<open>Results\<close>

type_synonym ('e, 'a) result = "'e + 'a"

definition and_then :: "('e, 'a) result \<Rightarrow> ('a \<Rightarrow> ('e, 'b) result) \<Rightarrow> ('e, 'b) result" where
  "and_then r f = (case r of Inl e \<Rightarrow> Inl e | Inr x \<Rightarrow> f x)"

definition map_ok :: "('a \<Rightarrow> 'b) \<Rightarrow> ('e, 'a) result \<Rightarrow> ('e, 'b) result" where
  "map_ok f r = (case r of Inl e \<Rightarrow> Inl e | Inr x \<Rightarrow> Inr (f x))"

definition map_err :: "('e \<Rightarrow> 'f) \<Rightarrow> ('e, 'a) result \<Rightarrow> ('f, 'a) result" where
  "map_err f r = (case r of Inl e \<Rightarrow> Inl (f e) | Inr x \<Rightarrow> Inr x)"

definition ok_or :: "'e \<Rightarrow> 'a option \<Rightarrow> ('e, 'a) result" where
  "ok_or e m = (case m of None \<Rightarrow> Inl e | Some x \<Rightarrow> Inr x)"

definition ensure :: "bool \<Rightarrow> 'e \<Rightarrow> ('e, unit) result" where
  "ensure b e = (if b then Inr () else Inl e)"

definition is_ok :: "('e, 'a) result \<Rightarrow> bool" where
  "is_ok r = (case r of Inl _ \<Rightarrow> False | Inr _ \<Rightarrow> True)"

definition result_ok :: "('e, 'a) result \<Rightarrow> 'a option" where
  "result_ok r = (case r of Inl _ \<Rightarrow> None | Inr x \<Rightarrow> Some x)"

lemma and_then_simps [simp]:
  "and_then (Inl e) f = Inl e"
  "and_then (Inr x) f = f x"
  by (simp_all add: and_then_def)

lemma map_ok_simps [simp]:
  "map_ok f (Inl e) = Inl e"
  "map_ok f (Inr x) = Inr (f x)"
  by (simp_all add: map_ok_def)

lemma map_err_simps [simp]:
  "map_err f (Inl e) = Inl (f e)"
  "map_err f (Inr x) = Inr x"
  by (simp_all add: map_err_def)

lemma ok_or_simps [simp]:
  "ok_or e None = Inl e"
  "ok_or e (Some x) = Inr x"
  by (simp_all add: ok_or_def)

lemma ensure_simps [simp]:
  "ensure True e = Inr ()"
  "ensure False e = Inl e"
  by (simp_all add: ensure_def)

lemma is_ok_simps [simp]:
  "is_ok (Inr x)"
  "\<not> is_ok (Inl e)"
  by (simp_all add: is_ok_def)

lemma result_ok_simps [simp]:
  "result_ok (Inr x) = Some x"
  "result_ok (Inl e) = None"
  by (simp_all add: result_ok_def)

lemma and_then_cong [fundef_cong]:
  "r = s \<Longrightarrow> (\<And>x. s = Inr x \<Longrightarrow> f x = g x) \<Longrightarrow> and_then r f = and_then s g"
  by (cases s) auto

lemma and_then_Inr_iff [simp, result_simps]:
  "and_then r f = Inr y \<longleftrightarrow> (\<exists>x. r = Inr x \<and> f x = Inr y)"
  by (cases r) auto

lemma and_then_Inl_iff:
  "and_then r f = Inl e \<longleftrightarrow> r = Inl e \<or> (\<exists>x. r = Inr x \<and> f x = Inl e)"
  by (cases r) auto

lemma map_ok_Inr_iff [simp, result_simps]:
  "map_ok f r = Inr y \<longleftrightarrow> (\<exists>x. r = Inr x \<and> y = f x)"
  by (cases r) auto

lemma map_err_Inr_iff [simp, result_simps]:
  "map_err f r = Inr y \<longleftrightarrow> r = Inr y"
  by (cases r) auto

lemma ok_or_Inr_iff [simp, result_simps]:
  "ok_or e m = Inr y \<longleftrightarrow> m = Some y"
  by (cases m) auto

lemma ensure_Inr_iff [simp, result_simps]:
  "ensure b e = Inr u \<longleftrightarrow> b"
  by (simp add: ensure_def)

lemma ensure_Inl_iff [simp]:
  "ensure b e = Inl d \<longleftrightarrow> \<not> b \<and> d = e"
  by (auto simp: ensure_def)

lemma result_Inr_iff_sym [simp]:
  "Inr y = and_then r f \<longleftrightarrow> (\<exists>x. r = Inr x \<and> f x = Inr y)"
  "Inr z = map_ok g s \<longleftrightarrow> (\<exists>x. s = Inr x \<and> z = g x)"
  "Inr w = map_err h t \<longleftrightarrow> t = Inr w"
  by (auto simp: and_then_def map_ok_def map_err_def split: sum.splits)

lemma is_ok_iff: "is_ok r \<longleftrightarrow> (\<exists>x. r = Inr x)"
  by (cases r) auto

lemma is_ok_pipeline [simp]:
  "is_ok (map_err f r) = is_ok r"
  "is_ok (map_ok g r) = is_ok r"
  "is_ok (ensure b e) = b"
  "is_ok (ok_or e m) = (m \<noteq> None)"
  by (simp_all add: is_ok_def ensure_def map_err_def map_ok_def ok_or_def split: sum.splits option.splits)

lemma is_ok_and_then:
  "is_ok (and_then r f) \<longleftrightarrow> (\<exists>x. r = Inr x \<and> is_ok (f x))"
  by (cases r) auto

section \<open>Loops with an early error\<close>

fun try_fold :: "('a \<Rightarrow> 'b \<Rightarrow> ('e, 'a) result) \<Rightarrow> 'b list \<Rightarrow> 'a \<Rightarrow> ('e, 'a) result" where
  "try_fold f [] a = Inr a"
| "try_fold f (x # xs) a = and_then (f a x) (try_fold f xs)"

fun try_each :: "('a \<Rightarrow> ('e, unit) result) \<Rightarrow> 'a list \<Rightarrow> ('e, unit) result" where
  "try_each f [] = Inr ()"
| "try_each f (x # xs) = and_then (f x) (\<lambda>_. try_each f xs)"

fun try_map :: "('a \<Rightarrow> ('e, 'b) result) \<Rightarrow> 'a list \<Rightarrow> ('e, 'b list) result" where
  "try_map f [] = Inr []"
| "try_map f (x # xs) = and_then (f x) (\<lambda>y. map_ok (\<lambda>ys. y # ys) (try_map f xs))"

lemma try_each_Inr_iff [simp, result_simps]:
  "try_each f xs = Inr u \<longleftrightarrow> (\<forall>x \<in> set xs. f x = Inr ())"
  by (induction xs) auto

lemma try_each_cong [fundef_cong]:
  "xs = ys \<Longrightarrow> (\<And>x. x \<in> set ys \<Longrightarrow> f x = g x) \<Longrightarrow> try_each f xs = try_each g ys"
  by (induction ys arbitrary: xs) auto

lemma try_map_Inr_iff:
  "try_map f xs = Inr ys \<longleftrightarrow> list_all2 (\<lambda>x y. f x = Inr y) xs ys"
  by (induction xs arbitrary: ys) (auto simp: list_all2_Cons1)

lemma try_map_elements:
  assumes "try_map f xs = Inr ys"
  shows "\<forall>x \<in> set xs. \<exists>y \<in> set ys. f x = Inr y" "\<forall>y \<in> set ys. \<exists>x \<in> set xs. f x = Inr y"
  using assms by (induction xs arbitrary: ys) (auto, metis)

lemma try_map_total:
  "(\<And>x. x \<in> set xs \<Longrightarrow> f x = Inr (g x)) \<Longrightarrow> try_map f xs = Inr (map g xs)"
  by (induction xs) auto

lemma try_fold_append:
  "try_fold f (xs @ ys) a = and_then (try_fold f xs a) (try_fold f ys)"
proof (induction xs arbitrary: a)
  case (Cons x xs)
  then show ?case by (cases "f a x") auto
qed simp

lemma try_fold_total:
  "try_fold (\<lambda>a b. Inr (f a b)) (map k xs) a = Inr (fold (\<lambda>x a. f a (k x)) xs a)"
  by (induction xs arbitrary: a) auto

lemma try_fold_invariant:
  assumes "try_fold f xs a = Inr b" and "P a"
    and "\<And>a x b. x \<in> set xs \<Longrightarrow> P a \<Longrightarrow> f a x = Inr b \<Longrightarrow> P b"
  shows "P b"
  using assms
proof (induction xs arbitrary: a)
  case (Cons x xs)
  then obtain c where "f a x = Inr c" "try_fold f xs c = Inr b" by auto
  with Cons show ?case by (metis list.set_intros)
qed simp

section \<open>Partial meets\<close>

text \<open>
  Authority is narrowed dimension by dimension: resources, modes, effect, evidence and
  freshness each have an order "grants no more than" and an operation that combines two
  bounds and may fail. What the code relies on is that the result is the greatest lower
  bound; folding the operation over any number of bounds then keeps that law.
\<close>

locale partial_meet =
  fixes leq :: "'a \<Rightarrow> 'a \<Rightarrow> bool"
    and meet :: "'a \<Rightarrow> 'a \<Rightarrow> ('e, 'a) result"
  assumes leq_refl: "leq x x"
    and leq_trans: "leq x y \<Longrightarrow> leq y z \<Longrightarrow> leq x z"
    and meet_greatest: "meet x y = Inr m \<Longrightarrow> leq c m \<longleftrightarrow> leq c x \<and> leq c y"
begin

lemma meet_lower:
  assumes "meet x y = Inr m" shows "leq m x" "leq m y"
  using meet_greatest [OF assms, of m] leq_refl by auto

lemma fold_greatest:
  "try_fold meet xs a = Inr m \<Longrightarrow> leq c m \<longleftrightarrow> leq c a \<and> (\<forall>x \<in> set xs. leq c x)"
proof (induction xs arbitrary: a)
  case (Cons x xs)
  then obtain b where "meet a x = Inr b" "try_fold meet xs b = Inr m" by auto
  with Cons.IH [of b] meet_greatest [of a x b c] show ?case by auto
qed simp

lemma fold_lower:
  assumes "try_fold meet xs a = Inr m"
  shows "leq m a" "x \<in> set xs \<Longrightarrow> leq m x"
  using fold_greatest [OF assms, of m] leq_refl by auto

end

section \<open>Strings as bytes\<close>

text \<open>
  A Rust \<open>String\<close> is its UTF-8 byte sequence: \<open>len()\<close> is the length of that list, the
  order is the bytewise lexicographic one, and a search for ASCII characters may look at bytes.
  \<open>is_blank s\<close> is \<open>s.trim().is_empty()\<close>: every character of \<open>s\<close> is Unicode
  \<open>White_Space\<close>, here recognised on the encoded bytes.
\<close>

definition ascii_white :: "nat \<Rightarrow> bool" where
  "ascii_white b = (b \<in> {9, 10, 11, 12, 13, 32})"

definition white2 :: "nat \<Rightarrow> nat \<Rightarrow> bool" where
  "white2 a b = (a = 194 \<and> (b = 133 \<or> b = 160))"

definition white3 :: "nat \<Rightarrow> nat \<Rightarrow> nat \<Rightarrow> bool" where
  "white3 a b c =
     (a = 225 \<and> b = 154 \<and> c = 128 \<or>
      a = 226 \<and> b = 128 \<and> (128 \<le> c \<and> c \<le> 138 \<or> c = 168 \<or> c = 169 \<or> c = 175) \<or>
      a = 226 \<and> b = 129 \<and> c = 159 \<or>
      a = 227 \<and> b = 128 \<and> c = 128)"

fun blank_bytes :: "nat list \<Rightarrow> bool" where
  "blank_bytes [] = True"
| "blank_bytes [a] = ascii_white a"
| "blank_bytes [a, b] = (if ascii_white a then blank_bytes [b] else white2 a b)"
| "blank_bytes (a # b # c # rest) =
     (if ascii_white a then blank_bytes (b # c # rest)
      else if white2 a b then blank_bytes (c # rest)
      else white3 a b c \<and> blank_bytes rest)"

definition is_blank :: "string \<Rightarrow> bool" where
  "is_blank s = blank_bytes (map of_char s)"

definition char_in :: "nat \<Rightarrow> nat \<Rightarrow> char \<Rightarrow> bool" where
  "char_in lo hi c = (lo \<le> of_char c \<and> of_char c \<le> hi)"

definition is_ascii_digit :: "char \<Rightarrow> bool" where "is_ascii_digit c = char_in 48 57 c"
definition is_ascii_lower :: "char \<Rightarrow> bool" where "is_ascii_lower c = char_in 97 122 c"
definition is_ascii_upper :: "char \<Rightarrow> bool" where "is_ascii_upper c = char_in 65 90 c"
definition is_ascii_alnum :: "char \<Rightarrow> bool" where
  "is_ascii_alnum c = (is_ascii_digit c \<or> is_ascii_lower c \<or> is_ascii_upper c)"

lemma is_blank_Nil [simp]: "is_blank []"
  by (simp add: is_blank_def)

lemma not_blank_nonempty [simp, dest]: "\<not> is_blank s \<Longrightarrow> s \<noteq> []"
  by auto

section \<open>Validated reference strings\<close>

definition string_ref_new :: "string \<Rightarrow> string \<Rightarrow> (string, string) result" where
  "string_ref_new message value = (if is_blank value then Inl message else Inr value)"

lemma string_ref_new_Inr_iff [simp]:
  "string_ref_new message value = Inr r \<longleftrightarrow> \<not> is_blank value \<and> r = value"
  by (auto simp: string_ref_new_def)

section \<open>64-bit integers\<close>

type_synonym u64 = "64 word"

definition u64_max :: u64 where "u64_max = - 1"

definition checked_add :: "u64 \<Rightarrow> u64 \<Rightarrow> u64 option" where
  "checked_add a b = (if unat a + unat b < 2 ^ 64 then Some (a + b) else None)"

definition checked_sub :: "u64 \<Rightarrow> u64 \<Rightarrow> u64 option" where
  "checked_sub a b = (if b \<le> a then Some (a - b) else None)"

definition saturating_add :: "u64 \<Rightarrow> u64 \<Rightarrow> u64" where
  "saturating_add a b = (if unat a + unat b < 2 ^ 64 then a + b else u64_max)"

definition saturating_sub :: "u64 \<Rightarrow> u64 \<Rightarrow> u64" where
  "saturating_sub a b = (if b \<le> a then a - b else 0)"

lemma u64_le_max [simp]: "(a :: u64) \<le> u64_max"
  by (simp add: u64_max_def)

lemma checked_add_Some_iff:
  "checked_add a b = Some c \<longleftrightarrow> unat c = unat a + unat b"
proof -
  have "unat a + unat b < 2 ^ 64 \<Longrightarrow> unat (a + b) = unat a + unat b"
    by (simp add: unat_word_ariths)
  moreover have "unat c < 2 ^ 64" using unsigned_less [of c] by simp
  ultimately show ?thesis
    by (auto simp: checked_add_def intro!: word_unat_eq_iff [THEN iffD2])
qed

lemma checked_sub_Some_iff:
  "checked_sub a b = Some c \<longleftrightarrow> unat a = unat b + unat c"
proof -
  have "b \<le> a \<Longrightarrow> unat (a - b) = unat a - unat b"
    by (simp add: unat_sub)
  moreover have "b \<le> a \<longleftrightarrow> unat b \<le> unat a"
    by (simp add: word_le_nat_alt)
  ultimately show ?thesis
    by (auto simp: checked_sub_def intro!: word_unat_eq_iff [THEN iffD2])
qed

lemma unat_saturating_add:
  "unat (saturating_add a b) = min (unat a + unat b) (2 ^ 64 - 1)"
proof (cases "unat a + unat b < 2 ^ 64")
  case True
  then show ?thesis by (simp add: saturating_add_def unat_word_ariths min_def)
next
  case False
  then show ?thesis by (simp add: saturating_add_def u64_max_def unsigned_minus_1_eq_mask mask_eq_exp_minus_1 min_def)
qed

section \<open>Sorted collections\<close>

definition sort_dedup :: "'a :: linorder list \<Rightarrow> 'a list" where
  "sort_dedup xs = remdups_adj (sort xs)"

definition btree_set :: "'a :: linorder list \<Rightarrow> 'a list" where
  "btree_set xs = sort (remdups xs)"

lemma set_sort_dedup [simp]: "set (sort_dedup xs) = set xs"
  by (simp add: sort_dedup_def)

lemma set_btree_set [simp]: "set (btree_set xs) = set xs"
  by (simp add: btree_set_def)

lemma btree_set_distinct [simp]: "distinct (btree_set xs)" "sorted (btree_set xs)"
  by (simp_all add: btree_set_def)

lemma btree_set_Nil_iff [simp]: "btree_set xs = [] \<longleftrightarrow> xs = []"
  using set_btree_set [of xs] by (metis set_empty)

lemma find_SomeD: "find P xs = Some x \<Longrightarrow> x \<in> set xs \<and> P x"
  by (induction xs) (auto split: if_splits)

lemma find_in_set: "x \<in> set xs \<Longrightarrow> P x \<Longrightarrow> \<exists>y. find P xs = Some y"
  by (induction xs) auto

lemma distinct_map_sort_key [simp]: "distinct (map f (sort_key k xs)) = distinct (map f xs)"
  using mset_map [of f "sort_key k xs"] mset_map [of f xs]
  by (metis mset_eq_imp_distinct_iff mset_sort)

fun strictly_sorted_by :: "('a \<Rightarrow> 'b :: linorder) \<Rightarrow> 'a list \<Rightarrow> bool" where
  "strictly_sorted_by k (x # y # zs) = (k x < k y \<and> strictly_sorted_by k (y # zs))"
| "strictly_sorted_by k _ = True"

lemma strictly_sorted_by_sorted_wrt:
  "strictly_sorted_by k xs \<longleftrightarrow> sorted_wrt (<) (map k xs)"
  by (induction k xs rule: strictly_sorted_by.induct) (auto, fastforce+)

lemma strictly_sorted_by_distinct:
  "strictly_sorted_by k xs \<Longrightarrow> distinct (map k xs)"
  by (simp add: strictly_sorted_by_sorted_wrt strict_sorted_iff)

section \<open>Ordered maps\<close>

text \<open>
  A \<open>BTreeMap\<close> is its entries in strictly increasing key order.
\<close>

fun btree_insert :: "'k :: linorder \<Rightarrow> 'v \<Rightarrow> ('k \<times> 'v) list \<Rightarrow> ('k \<times> 'v) list" where
  "btree_insert k v [] = [(k, v)]"
| "btree_insert k v ((k', v') # m) =
     (if k < k' then (k, v) # (k', v') # m
      else if k = k' then (k, v) # m
      else (k', v') # btree_insert k v m)"

definition btree_ok :: "('k :: linorder \<times> 'v) list \<Rightarrow> bool" where
  "btree_ok m = sorted_wrt (<) (map fst m)"

lemma btree_ok_simps [simp]:
  "btree_ok []"
  "btree_ok (e # m) \<longleftrightarrow> (\<forall>x \<in> set m. fst e < fst x) \<and> btree_ok m"
  by (simp_all add: btree_ok_def)

lemma btree_ok_distinct: "btree_ok m \<Longrightarrow> distinct (map fst m)"
  by (simp add: btree_ok_def strict_sorted_iff)

lemma btree_ok_filter: "btree_ok m \<Longrightarrow> btree_ok (filter P m)"
  by (induction m) auto

lemma set_btree_insert:
  "btree_ok m \<Longrightarrow> set (btree_insert k v m) = insert (k, v) {e \<in> set m. fst e \<noteq> k}"
  by (induction k v m rule: btree_insert.induct) auto

lemma btree_ok_insert: "btree_ok m \<Longrightarrow> btree_ok (btree_insert k v m)"
  by (induction k v m rule: btree_insert.induct) (auto simp: set_btree_insert)

lemma map_of_btree_insert: "btree_ok m \<Longrightarrow> map_of (btree_insert k v m) = (map_of m)(k \<mapsto> v)"
  by (induction k v m rule: btree_insert.induct) (auto simp: fun_eq_iff)

lemma map_of_btree: "btree_ok m \<Longrightarrow> map_of m k = Some v \<longleftrightarrow> (k, v) \<in> set m"
  by (simp add: btree_ok_distinct)

lemma btree_ext: "btree_ok a \<Longrightarrow> btree_ok b \<Longrightarrow> set a = set b \<Longrightarrow> a = b"
proof (induction a arbitrary: b)
  case (Cons e a)
  then obtain e' b' where b: "b = e' # b'" by (cases b) auto
  have "e = e'"
  proof (rule ccontr)
    assume "e \<noteq> e'"
    with Cons.prems b have "e' \<in> set a" "e \<in> set b'" by auto
    with Cons.prems b have "fst e < fst e'" "fst e' < fst e" by auto
    then show False by simp
  qed
  moreover have "e \<notin> set a" "e \<notin> set b'" using Cons.prems(1,2) b \<open>e = e'\<close> by auto
  ultimately have "set a = set b'" using Cons.prems(3) b by auto
  with Cons \<open>e = e'\<close> b show ?case by simp
qed simp

text \<open>
  The loop that indexes a vector by key and stops when an insertion displaces an entry.
\<close>

definition index_step :: "('a \<Rightarrow> 'k :: linorder) \<Rightarrow> 'e \<Rightarrow> ('k \<times> 'a) list \<Rightarrow> 'a \<Rightarrow> ('e, ('k \<times> 'a) list) result" where
  "index_step key e m x =
     (if map_of m (key x) \<noteq> None then Inl e else Inr (btree_insert (key x) x m))"

definition btree_index ::
  "('a \<Rightarrow> 'k :: linorder) \<Rightarrow> 'e \<Rightarrow> 'a list \<Rightarrow> ('e, ('k \<times> 'a) list) result" where
  "btree_index key e xs = try_fold (index_step key e) xs []"

lemma index_step_Inr [simp]:
  "index_step key e m x = Inr m' \<longleftrightarrow> map_of m (key x) = None \<and> m' = btree_insert (key x) x m"
  by (auto simp: index_step_def)

lemma set_btree_insert_new:
  assumes "btree_ok m" "map_of m k = None"
  shows "set (btree_insert k v m) = insert (k, v) (set m)"
proof -
  have "fst e \<noteq> k" if "e \<in> set m" for e using that assms(2) by (auto simp: map_of_eq_None_iff)
  then have "{e \<in> set m. fst e \<noteq> k} = set m" by blast
  with assms(1) show ?thesis by (simp add: set_btree_insert)
qed

lemma index_fold:
  assumes "try_fold (index_step key e) xs a = Inr m" and "btree_ok a"
  shows "btree_ok m \<and> set m = set a \<union> (\<lambda>x. (key x, x)) ` set xs \<and> distinct (map key xs)
    \<and> (\<forall>x \<in> set xs. map_of a (key x) = None)"
  using assms
proof (induction xs arbitrary: a)
  case (Cons x xs)
  then have run: "try_fold (index_step key e) xs (btree_insert (key x) x a) = Inr m"
    and new: "map_of a (key x) = None" by auto
  note ih = Cons.IH [OF run btree_ok_insert [OF Cons.prems(2)]]
  have "key y \<noteq> key x \<and> map_of a (key y) = None" if "y \<in> set xs" for y
    using ih that by (auto simp: map_of_btree_insert Cons.prems(2) split: if_splits)
  then have "key x \<notin> key ` set xs" "\<forall>y \<in> set xs. map_of a (key y) = None" by fastforce+
  with ih new set_btree_insert_new [OF Cons.prems(2) new] show ?case by simp
qed simp

lemma btree_index_Inr:
  assumes "btree_index key e xs = Inr m"
  shows "btree_ok m" "set m = (\<lambda>x. (key x, x)) ` set xs" "distinct (map key xs)"
  using index_fold [OF assms [unfolded btree_index_def]] by simp_all

lemma btree_index_lookup:
  assumes "btree_index key e xs = Inr m"
  shows "map_of m k = Some x \<longleftrightarrow> x \<in> set xs \<and> key x = k"
  using btree_index_Inr [OF assms] by (auto simp: map_of_btree)

lemma index_total:
  "btree_ok a \<Longrightarrow> \<forall>x \<in> set xs. map_of a (key x) = None \<Longrightarrow> distinct (map key xs) \<Longrightarrow>
   \<exists>m. try_fold (index_step key e) xs a = Inr m"
proof (induction xs arbitrary: a)
  case (Cons x xs)
  have "key y \<noteq> key x" if "y \<in> set xs" for y using Cons.prems(3) that by (auto simp: image_iff)
  then have "\<forall>y \<in> set xs. map_of (btree_insert (key x) x a) (key y) = None"
    using Cons.prems(2) by (simp add: map_of_btree_insert [OF Cons.prems(1)])
  then have "\<exists>m. try_fold (index_step key e) xs (btree_insert (key x) x a) = Inr m"
    using Cons.IH [OF btree_ok_insert [OF Cons.prems(1)]] Cons.prems(3) by simp
  with Cons.prems(2) show ?case by simp
qed simp

lemma btree_index_total: "distinct (map key xs) \<Longrightarrow> \<exists>m. btree_index key e xs = Inr m"
  unfolding btree_index_def by (rule index_total) simp_all

end
