(* ===== verification/KF_Diagnostic.thy ===== *)
theory KF_Diagnostic
  imports KF_Prelude "HOL-Library.Product_Lexorder"
begin

text \<open>
  The portable diagnostics of \<open>crates/kiteframe-contract/src/diagnostic.rs\<close> and the JSON
  values they and the rest of the contract carry. Enumerations get the order of their
  declaration (\<open>derive(Ord)\<close>) through a rank; a diagnostic is compared by stage, package
  path, source range and code only, as its hand-written \<open>Ord\<close> says.
\<close>

section \<open>JSON values\<close>

text \<open>
  \<open>serde_json::Value\<close> without the \<open>preserve_order\<close> feature: an object is a map, kept here
  as its entries; a number is an integer or the bits of a double.
\<close>

datatype json =
    JNull
  | JBool bool
  | JInt int
  | JFloat "64 word"
  | JStr string
  | JArr "json list"
  | JObj "(string \<times> json) list"

definition opt_json :: "('a \<Rightarrow> json) \<Rightarrow> 'a option \<Rightarrow> json" where
  "opt_json f m = (case m of None \<Rightarrow> JNull | Some x \<Rightarrow> f x)"

definition u64_json :: "u64 \<Rightarrow> json" where
  "u64_json n = JInt (uint n)"

definition json_get :: "string \<Rightarrow> json \<Rightarrow> json option" where
  "json_get k j = (case j of JObj entries \<Rightarrow> map_of entries k | _ \<Rightarrow> None)"

section \<open>Codes and classes\<close>

datatype diagnostic_code =
    PackageInvalid | PackageContainment | LockStale | LockTampered | CatalogIncompatible
  | FeatureUnsupported | AdmissionDenied | AdmissionExpired | InvocationDenied | PolicyStale
  | PreconditionMissing | ResultInvalid | OutcomeUnknown | AuditUnavailable
  | ComponentUnresolved | RuntimeConstruction | CompileOutput | LockOutput

definition all_codes :: "diagnostic_code list" where
  "all_codes =
     [PackageInvalid, PackageContainment, LockStale, LockTampered, CatalogIncompatible,
      FeatureUnsupported, AdmissionDenied, AdmissionExpired, InvocationDenied, PolicyStale,
      PreconditionMissing, ResultInvalid, OutcomeUnknown, AuditUnavailable,
      ComponentUnresolved, RuntimeConstruction, CompileOutput, LockOutput]"

fun code_str :: "diagnostic_code \<Rightarrow> string" where
  "code_str PackageInvalid = ''KF-PKG-001''"
| "code_str PackageContainment = ''KF-PKG-002''"
| "code_str LockStale = ''KF-LOCK-001''"
| "code_str LockTampered = ''KF-LOCK-002''"
| "code_str CatalogIncompatible = ''KF-CAT-001''"
| "code_str FeatureUnsupported = ''KF-FEAT-001''"
| "code_str AdmissionDenied = ''KF-AUTH-001''"
| "code_str AdmissionExpired = ''KF-AUTH-002''"
| "code_str InvocationDenied = ''KF-AUTH-003''"
| "code_str PolicyStale = ''KF-AUTH-004''"
| "code_str PreconditionMissing = ''KF-CAP-001''"
| "code_str ResultInvalid = ''KF-CAP-002''"
| "code_str OutcomeUnknown = ''KF-CAP-003''"
| "code_str AuditUnavailable = ''KF-AUDIT-001''"
| "code_str ComponentUnresolved = ''KF-RUNTIME-001''"
| "code_str RuntimeConstruction = ''KF-RUNTIME-002''"
| "code_str CompileOutput = ''KF-CLI-001''"
| "code_str LockOutput = ''KF-CLI-002''"

datatype diagnostic_category =
  CatPackage | CatLock | CatCatalog | CatFeature | CatAuthorization | CatCapability | CatAudit
  | CatRuntime

datatype diagnostic_severity = SevError | SevWarning

datatype diagnostic_stage =
  StageParse | StageValidate | StageLock | StageResolve | StageAdmit | StageInvoke | StageAudit
  | StageRuntime

datatype retry_class = RetryNever | RetryAfterRefresh | RetryAfterUserAction | RetryStatusFirst

definition all_stages :: "diagnostic_stage list" where
  "all_stages =
     [StageParse, StageValidate, StageLock, StageResolve, StageAdmit, StageInvoke, StageAudit,
      StageRuntime]"

definition all_retries :: "retry_class list" where
  "all_retries = [RetryNever, RetryAfterRefresh, RetryAfterUserAction, RetryStatusFirst]"

fun index_of :: "'a list \<Rightarrow> 'a \<Rightarrow> nat" where
  "index_of [] x = 0"
| "index_of (y # ys) x = (if x = y then 0 else Suc (index_of ys x))"

lemma index_of_inj:
  "x \<in> set xs \<Longrightarrow> y \<in> set xs \<Longrightarrow> index_of xs x = index_of xs y \<Longrightarrow> x = y"
  by (induction xs) (auto split: if_splits)

lemma code_enumerated [simp]: "c \<in> set all_codes"
  by (cases c) (simp_all add: all_codes_def)

lemma stage_enumerated [simp]: "s \<in> set all_stages"
  by (cases s) (simp_all add: all_stages_def)

lemma retry_enumerated [simp]: "r \<in> set all_retries"
  by (cases r) (simp_all add: all_retries_def)

instantiation diagnostic_code :: linorder
begin
definition less_eq_diagnostic_code :: "diagnostic_code \<Rightarrow> diagnostic_code \<Rightarrow> bool" where
  "less_eq_diagnostic_code a b = (index_of all_codes a \<le> index_of all_codes b)"
definition less_diagnostic_code :: "diagnostic_code \<Rightarrow> diagnostic_code \<Rightarrow> bool" where
  "less_diagnostic_code a b = (index_of all_codes a < index_of all_codes b)"
instance
  by standard
     (auto simp: less_eq_diagnostic_code_def less_diagnostic_code_def intro: index_of_inj [of _ all_codes])
end

instantiation diagnostic_stage :: linorder
begin
definition less_eq_diagnostic_stage :: "diagnostic_stage \<Rightarrow> diagnostic_stage \<Rightarrow> bool" where
  "less_eq_diagnostic_stage a b = (index_of all_stages a \<le> index_of all_stages b)"
definition less_diagnostic_stage :: "diagnostic_stage \<Rightarrow> diagnostic_stage \<Rightarrow> bool" where
  "less_diagnostic_stage a b = (index_of all_stages a < index_of all_stages b)"
instance
  by standard
     (auto simp: less_eq_diagnostic_stage_def less_diagnostic_stage_def intro: index_of_inj [of _ all_stages])
end

instantiation retry_class :: linorder
begin
definition less_eq_retry_class :: "retry_class \<Rightarrow> retry_class \<Rightarrow> bool" where
  "less_eq_retry_class a b = (index_of all_retries a \<le> index_of all_retries b)"
definition less_retry_class :: "retry_class \<Rightarrow> retry_class \<Rightarrow> bool" where
  "less_retry_class a b = (index_of all_retries a < index_of all_retries b)"
instance
  by standard
     (auto simp: less_eq_retry_class_def less_retry_class_def intro: index_of_inj [of _ all_retries])
end

section \<open>Diagnostics\<close>

record source_range =
  sr_start :: "32 word"
  sr_end :: "32 word"

record diagnostic =
  d_code :: diagnostic_code
  d_category :: diagnostic_category
  d_severity :: diagnostic_severity
  d_stage :: diagnostic_stage
  d_package_path :: "string option"
  d_source_range :: "source_range option"
  d_message :: string
  d_help :: "string option"
  d_retry :: retry_class
  d_details :: "(string \<times> json) list"

definition diagnostic_error ::
  "diagnostic_code \<Rightarrow> diagnostic_category \<Rightarrow> diagnostic_stage \<Rightarrow> string \<Rightarrow> diagnostic" where
  "diagnostic_error code category stage message =
     \<lparr>d_code = code, d_category = category, d_severity = SevError, d_stage = stage,
      d_package_path = None, d_source_range = None, d_message = message, d_help = None,
      d_retry = RetryNever, d_details = []\<rparr>"

definition diagnostic_outcome_unknown :: "string \<Rightarrow> diagnostic" where
  "diagnostic_outcome_unknown message =
     (diagnostic_error OutcomeUnknown CatCapability StageInvoke message)\<lparr>d_retry := RetryStatusFirst\<rparr>"

definition diagnostic_key ::
  "diagnostic \<Rightarrow> diagnostic_stage \<times> string option \<times> (32 word \<times> 32 word) option \<times> diagnostic_code" where
  "diagnostic_key d =
     (d_stage d, d_package_path d,
      map_option (\<lambda>r. (sr_start r, sr_end r)) (d_source_range d), d_code d)"

definition diagnostic_le :: "diagnostic \<Rightarrow> diagnostic \<Rightarrow> bool" where
  "diagnostic_le a b = (diagnostic_key a \<le> diagnostic_key b)"

definition diagnostic_eq :: "diagnostic \<Rightarrow> diagnostic \<Rightarrow> bool" where
  "diagnostic_eq a b = (diagnostic_key a = diagnostic_key b)"

lemma diagnostic_error_simps [simp]:
  "d_code (diagnostic_error c k s m) = c"
  "d_category (diagnostic_error c k s m) = k"
  "d_stage (diagnostic_error c k s m) = s"
  "d_severity (diagnostic_error c k s m) = SevError"
  "d_retry (diagnostic_error c k s m) = RetryNever"
  "d_message (diagnostic_error c k s m) = m"
  "d_package_path (diagnostic_error c k s m) = None"
  "d_source_range (diagnostic_error c k s m) = None"
  by (simp_all add: diagnostic_error_def)

lemma diagnostic_outcome_unknown_simps [simp]:
  "d_code (diagnostic_outcome_unknown m) = OutcomeUnknown"
  "d_retry (diagnostic_outcome_unknown m) = RetryStatusFirst"
  "d_category (diagnostic_outcome_unknown m) = CatCapability"
  "d_stage (diagnostic_outcome_unknown m) = StageInvoke"
  by (simp_all add: diagnostic_outcome_unknown_def)

lemma diagnostic_error_inject:
  "diagnostic_error c k s m = diagnostic_error c' k' s' m' \<longleftrightarrow>
     c = c' \<and> k = k' \<and> s = s' \<and> m = m'"
  by (auto simp: diagnostic_error_def)

lemma diagnostic_order:
  "diagnostic_le a a"
  "diagnostic_le a b \<Longrightarrow> diagnostic_le b c \<Longrightarrow> diagnostic_le a c"
  "diagnostic_le a b \<or> diagnostic_le b a"
  "diagnostic_le a b \<and> diagnostic_le b a \<longleftrightarrow> diagnostic_eq a b"
  by (auto simp: diagnostic_le_def diagnostic_eq_def)

end
