(* ===== verification/KF_Digest.thy ===== *)
theory KF_Digest
  imports KF_Diagnostic
begin

text \<open>
  \<open>Sha256Digest\<close> (\<open>crates/kiteframe-contract/src/digest.rs\<close>): 32 bytes, printed and parsed
  as exactly 64 lowercase hexadecimal characters; and the code the workspace does not hold:
  the JSON canonicalizer, SHA-256, the JSON Schema engine and the version parser, gathered in
  the record \<open>externals\<close> that the definitions using them take as an argument.
\<close>

section \<open>The digest and its text form\<close>

datatype sha256_digest = Sha256Digest (digest_bytes: "8 word list")

definition digest_byte_length :: nat where "digest_byte_length = 32"

definition wf_digest :: "sha256_digest \<Rightarrow> bool" where
  "wf_digest d = (length (digest_bytes d) = digest_byte_length)"

definition hex_nibble :: "8 word \<Rightarrow> 8 word option" where
  "hex_nibble byte =
     (if 48 \<le> byte \<and> byte \<le> 57 then Some (byte - 48)
      else if 97 \<le> byte \<and> byte \<le> 102 then Some (byte - 97 + 10)
      else None)"

definition checked_mul8 :: "8 word \<Rightarrow> 8 word \<Rightarrow> 8 word option" where
  "checked_mul8 a b = (if unat a * unat b < 256 then Some (a * b) else None)"

definition checked_add8 :: "8 word \<Rightarrow> 8 word \<Rightarrow> 8 word option" where
  "checked_add8 a b = (if unat a + unat b < 256 then Some (a + b) else None)"

definition char_byte :: "char \<Rightarrow> 8 word" where "char_byte c = of_nat (of_char c)"
definition byte_char :: "8 word \<Rightarrow> char" where "byte_char b = char_of (unat b)"

fun hex_pairs :: "8 word list \<Rightarrow> 8 word list option" where
  "hex_pairs (a # b # rest) =
     Option.bind (hex_nibble a) (\<lambda>hi. Option.bind (checked_mul8 hi 16) (\<lambda>shifted.
     Option.bind (hex_nibble b) (\<lambda>lo. Option.bind (checked_add8 shifted lo) (\<lambda>byte.
     map_option ((#) byte) (hex_pairs rest)))))"
| "hex_pairs _ = Some []"

definition digest_from_hex :: "string \<Rightarrow> sha256_digest option" where
  "digest_from_hex value =
     (if length value \<noteq> digest_byte_length * 2 then None
      else map_option Sha256Digest (hex_pairs (map char_byte value)))"

definition hex_digit :: "8 word \<Rightarrow> char" where
  "hex_digit n = byte_char (if n < 10 then 48 + n else 87 + n)"

definition digest_display :: "sha256_digest \<Rightarrow> string" where
  "digest_display d = concat (map (\<lambda>b. [hex_digit (b div 16), hex_digit (b mod 16)]) (digest_bytes d))"

definition is_hex_lower :: "char \<Rightarrow> bool" where
  "is_hex_lower c = (is_ascii_digit c \<or> char_in 97 102 c)"

section \<open>Round trip\<close>

lemma char_byte_inverse [simp]: "byte_char (char_byte c) = c"
proof -
  have "(of_char c :: nat) < 256" by (rule nat_of_char_less_256)
  then show ?thesis by (simp add: char_byte_def byte_char_def unsigned_of_nat take_bit_eq_mod)
qed

lemma byte_char_inverse [simp]: "char_byte (byte_char b) = b"
proof -
  have "unat b < 256" using unsigned_less [of b] by simp
  then show ?thesis by (simp add: char_byte_def byte_char_def)
qed

lemma nibble_cases:
  assumes "unat (n :: 8 word) < 16"
  shows "n \<in> {0, 1, 2, 3, 4, 5, 6, 7, 8, 9, 10, 11, 12, 13, 14, 15}"
proof -
  have "unat n \<in> set [0..<16]" using assms by simp
  then have "(of_nat (unat n) :: 8 word) \<in> of_nat ` set [0..<16]" by (rule imageI)
  then show ?thesis by (simp add: upt_rec)
qed

lemma hex_nibble_digit:
  assumes "unat n < 16" shows "hex_nibble (char_byte (hex_digit n)) = Some n"
  using nibble_cases [OF assms] by (auto simp: hex_nibble_def hex_digit_def)

lemma hex_nibble_Some:
  assumes "hex_nibble b = Some n"
  shows "unat n < 16" "char_byte (hex_digit n) = b" "is_hex_lower (byte_char b)"
proof -
  have n: "48 \<le> b \<and> b \<le> 57 \<and> n = b - 48 \<or> 97 \<le> b \<and> b \<le> 102 \<and> n = b - 97 + 10"
    using assms by (auto simp: hex_nibble_def split: if_splits)
  have "unat n < 16 \<and> b = (if n < 10 then 48 + n else 87 + n)"
    using n
  proof (elim disjE conjE)
    assume b: "48 \<le> b" "b \<le> 57" "n = b - 48"
    then have "unat n = unat b - 48" "unat b \<le> 57"
      by (simp_all add: unat_sub word_le_nat_alt)
    then show ?thesis using b by (simp add: word_less_nat_alt)
  next
    assume b: "97 \<le> b" "b \<le> 102" "n = b - 97 + 10"
    then have *: "unat (b - 97) = unat b - 97" "97 \<le> unat b" "unat b \<le> 102"
      by (simp_all add: unat_sub word_le_nat_alt)
    then have "unat n = unat b - 87"
      unfolding b(3) unat_word_ariths by simp
    with * b show ?thesis by (simp add: word_less_nat_alt) arith
  qed
  then show "unat n < 16" "char_byte (hex_digit n) = b" by (simp_all add: hex_digit_def)
  show "is_hex_lower (byte_char b)"
    using n by (auto simp: is_hex_lower_def is_ascii_digit_def char_in_def byte_char_def
        word_le_nat_alt)
qed

lemma join_nibbles:
  assumes "unat hi < 16" "unat lo < 16"
  shows "Option.bind (checked_mul8 hi 16) (\<lambda>s. checked_add8 s lo) = Some (hi * 16 + lo)"
    and "(hi * 16 + lo) div 16 = hi" "(hi * 16 + lo) mod 16 = lo"
proof -
  have *: "unat (hi * 16) = unat hi * 16" "unat (hi * 16 + lo) = unat hi * 16 + unat lo"
    using assms by (simp_all add: unat_word_ariths)
  then show "Option.bind (checked_mul8 hi 16) (\<lambda>s. checked_add8 s lo) = Some (hi * 16 + lo)"
    using assms by (simp add: checked_mul8_def checked_add8_def)
  show "(hi * 16 + lo) div 16 = hi" "(hi * 16 + lo) mod 16 = lo"
    using * assms by (simp_all add: word_unat_eq_iff unat_div unat_mod)
qed

lemma split_nibbles:
  "unat (b div 16 :: 8 word) < 16" "unat (b mod 16 :: 8 word) < 16"
  "b div 16 * 16 + b mod 16 = (b :: 8 word)"
proof -
  have "unat b < 256" using unsigned_less [of b] by simp
  then show "unat (b div 16 :: 8 word) < 16" by (simp add: unat_div)
  show "unat (b mod 16 :: 8 word) < 16" by (simp add: unat_mod)
  show "b div 16 * 16 + b mod 16 = b" by (rule div_mult_mod_eq)
qed

lemma hex_pairs_step:
  assumes "unat hi < 16" "unat lo < 16" "hex_nibble a = Some hi" "hex_nibble b = Some lo"
  shows "hex_pairs (a # b # rest) = map_option ((#) (hi * 16 + lo)) (hex_pairs rest)"
  using join_nibbles(1) [OF assms(1,2)] assms(3,4)
  by (cases "checked_mul8 hi 16") auto

lemma hex_pairs_display:
  "hex_pairs (map char_byte (digest_display (Sha256Digest bs))) = Some bs"
proof (induction bs)
  case (Cons b bs)
  have "hex_pairs (char_byte (hex_digit (b div 16)) # char_byte (hex_digit (b mod 16)) #
          map char_byte (digest_display (Sha256Digest bs))) =
        map_option ((#) (b div 16 * 16 + b mod 16)) (Some bs)"
    using split_nibbles [of b] Cons.IH
    by (subst hex_pairs_step [where hi = "b div 16" and lo = "b mod 16"])
       (simp_all add: hex_nibble_digit)
  then show ?case by (simp add: digest_display_def split_nibbles)
qed (simp add: digest_display_def)

lemma digest_display_inject: "digest_display a = digest_display b \<longleftrightarrow> a = b"
  by (metis hex_pairs_display option.inject sha256_digest.collapse)

lemma hex_pairs_sound:
  "hex_pairs bs = Some ds \<Longrightarrow> even (length bs) \<Longrightarrow>
   digest_display (Sha256Digest ds) = map byte_char bs \<and> list_all is_hex_lower (map byte_char bs)"
proof (induction bs arbitrary: ds rule: induct_list012)
  case (3 a b rest)
  then obtain hi lo where n: "hex_nibble a = Some hi" "hex_nibble b = Some lo"
    by (cases "hex_nibble a"; cases "hex_nibble b") (auto split: bind_splits)
  note h = hex_nibble_Some [OF n(1)] and l = hex_nibble_Some [OF n(2)]
  obtain es where es: "hex_pairs rest = Some es" "ds = (hi * 16 + lo) # es"
    using 3(3) hex_pairs_step [OF h(1) l(1) n, of rest] by (cases "hex_pairs rest") auto
  have "digest_display (Sha256Digest es) = map byte_char rest \<and> list_all is_hex_lower (map byte_char rest)"
    using 3(1) [OF es(1)] 3(4) by simp
  moreover have "hex_digit hi = byte_char a" "hex_digit lo = byte_char b"
    using h(2) l(2) char_byte_inverse by metis+
  ultimately show ?case
    using es h l by (simp add: digest_display_def join_nibbles)
qed (auto simp: digest_display_def)

section \<open>64-bit integers as big-endian bytes\<close>

definition be_bytes :: "u64 \<Rightarrow> string" where
  "be_bytes n = map (\<lambda>i. byte_char (ucast (drop_bit (8 * i) n))) [7, 6, 5, 4, 3, 2, 1, 0]"

lemma byte_char_inject [simp]: "byte_char a = byte_char b \<longleftrightarrow> a = b"
  by (metis byte_char_inverse)

lemma drop_bit_byte:
  "ucast (drop_bit (8 * i) (m :: u64)) = (ucast (drop_bit (8 * i) n) :: 8 word) \<Longrightarrow>
   k < 8 \<Longrightarrow> bit m (8 * i + k) = bit n (8 * i + k)"
proof -
  assume "ucast (drop_bit (8 * i) m) = (ucast (drop_bit (8 * i) n) :: 8 word)" and k: "k < 8"
  then have "bit (ucast (drop_bit (8 * i) m) :: 8 word) k = bit (ucast (drop_bit (8 * i) n) :: 8 word) k"
    by simp
  with k show ?thesis by (simp add: bit_simps add.commute)
qed

lemma be_bytes_inject: "be_bytes m = be_bytes n \<longleftrightarrow> m = n"
proof
  assume "be_bytes m = be_bytes n"
  then have bytes: "ucast (drop_bit (8 * i) m) = (ucast (drop_bit (8 * i) n) :: 8 word)"
    if "i \<in> {0, 1, 2, 3, 4, 5, 6, 7}" for i
    using that unfolding be_bytes_def by fastforce
  show "m = n"
  proof (rule bit_eqI)
    fix b
    show "bit m b = bit n b"
    proof (cases "b < 64")
      case True
      then have "b div 8 < 8" by simp
      then have "b div 8 \<in> {0, 1, 2, 3, 4, 5, 6, 7}" by auto
      from drop_bit_byte [OF bytes [OF this], of "b mod 8"] show ?thesis by simp
    next
      case False
      then show ?thesis by (simp add: bit_word.rep_eq not_less bit_imp_le_length)
    qed
  qed
qed simp

lemma length_be_bytes [simp]: "length (be_bytes n) = 8"
  by (simp add: be_bytes_def)

section \<open>Code outside the workspace\<close>

text \<open>
  \<open>x_canonical\<close> is \<open>serde_json_canonicalizer::to_vec\<close>, \<open>x_sha256\<close> is
  \<open>sha2::Sha256::digest\<close>, \<open>x_schema_valid\<close> is \<open>jsonschema::draft202012::meta::is_valid\<close>,
  \<open>x_schema_builds\<close> says that its validator compiles a schema, \<open>x_instance_valid\<close> is the
  compiled validator and \<open>x_version_ok\<close> is \<open>semver::Version::parse(..).is_ok()\<close>.
\<close>

record externals =
  x_canonical :: "json \<Rightarrow> string option"
  x_sha256 :: "string \<Rightarrow> sha256_digest"
  x_schema_valid :: "json \<Rightarrow> bool"
  x_schema_builds :: "json \<Rightarrow> bool"
  x_instance_valid :: "json \<Rightarrow> json \<Rightarrow> bool"
  x_version_ok :: "string \<Rightarrow> bool"

definition digest :: "externals \<Rightarrow> json \<Rightarrow> (string, sha256_digest) result" where
  "digest X value =
     map_ok (x_sha256 X) (ok_or ''value cannot be canonicalized'' (x_canonical X value))"

definition digest_json :: "sha256_digest \<Rightarrow> json" where
  "digest_json d = JStr (digest_display d)"

lemma digest_json_inject [simp]: "digest_json a = digest_json b \<longleftrightarrow> a = b"
  by (simp add: digest_json_def digest_display_inject)

section \<open>Properties\<close>

text \<open>
  The text form of a digest is exact: a string parses to a digest precisely when it is
  64 lowercase hexadecimal characters that print back from that digest, and every 32-byte
  digest prints to a string that parses to itself (no two texts name one digest).
\<close>

lemma digest_hex_round_trip:
  "digest_from_hex value = Some d \<longleftrightarrow> wf_digest d \<and> value = digest_display d"
proof
  assume *: "digest_from_hex value = Some d"
  then obtain bs where len: "length value = 64" and bs: "hex_pairs (map char_byte value) = Some bs"
    and d: "d = Sha256Digest bs"
    by (auto simp: digest_from_hex_def digest_byte_length_def split: if_splits)
  have shown: "digest_display d = value"
    using hex_pairs_sound [OF bs] len d by (simp add: o_def)
  have "length (digest_display d) = 2 * length bs"
    by (simp add: digest_display_def d length_concat comp_def sum_list_triv)
  with shown len d show "wf_digest d \<and> value = digest_display d"
    by (simp add: wf_digest_def digest_byte_length_def)
next
  assume "wf_digest d \<and> value = digest_display d"
  moreover have "length (digest_display d) = 2 * length (digest_bytes d)"
    by (simp add: digest_display_def length_concat comp_def sum_list_triv)
  ultimately show "digest_from_hex value = Some d"
    using hex_pairs_display [of "digest_bytes d"]
    by (simp add: digest_from_hex_def wf_digest_def digest_byte_length_def)
qed

end
