(* ===== verification/KF_Capability.thy ===== *)
theory KF_Capability
  imports KF_Digest
begin

text \<open>
  Capability descriptors and their locked form: \<open>capability.rs\<close>, \<open>lock.rs\<close>, \<open>catalog.rs\<close> and
  the resolved requirement of \<open>ir.rs\<close> in \<open>crates/kiteframe-contract/src\<close>. Types whose
  \<open>derive(Ord)\<close> the code uses are datatypes with named fields, so that the library's
  \<open>sort\<close> applies to them; the others are records. Serialized forms are written out, because
  digests are computed over them.
\<close>

section \<open>Identities and enumerations\<close>

datatype capability_identity = CapabilityIdentity (ci_name: string) (ci_version: string)

definition release_version_new :: "externals \<Rightarrow> string \<Rightarrow> (string, string) result" where
  "release_version_new X value =
     (if x_version_ok X value then Inr value else Inl ''invalid capability release version'')"

definition identity_json :: "capability_identity \<Rightarrow> json" where
  "identity_json i = JObj [(''name'', JStr (ci_name i)), (''version'', JStr (ci_version i))]"

instantiation capability_identity :: linorder
begin
definition less_eq_capability_identity :: "capability_identity \<Rightarrow> capability_identity \<Rightarrow> bool" where
  "less_eq_capability_identity a b = ((ci_name a, ci_version a) \<le> (ci_name b, ci_version b))"
definition less_capability_identity :: "capability_identity \<Rightarrow> capability_identity \<Rightarrow> bool" where
  "less_capability_identity a b = ((ci_name a, ci_version a) < (ci_name b, ci_version b))"
instance
  by standard
     (auto simp: less_eq_capability_identity_def less_capability_identity_def
       intro: capability_identity.expand)
end

datatype execution_mode = ModeImmediate | ModeDeferred | ModeSuspendable

datatype effect_classification =
  ReadOnly | ReversibleWrite | IrreversibleWrite | ExternalSideEffect

fun mode_str :: "execution_mode \<Rightarrow> string" where
  "mode_str ModeImmediate = ''immediate''"
| "mode_str ModeDeferred = ''deferred''"
| "mode_str ModeSuspendable = ''suspendable''"

fun effect_str :: "effect_classification \<Rightarrow> string" where
  "effect_str ReadOnly = ''read_only''"
| "effect_str ReversibleWrite = ''reversible_write''"
| "effect_str IrreversibleWrite = ''irreversible_write''"
| "effect_str ExternalSideEffect = ''external_side_effect''"

definition effectful :: "effect_classification \<Rightarrow> bool" where
  "effectful e = (e \<noteq> ReadOnly)"

definition all_modes :: "execution_mode list" where
  "all_modes = [ModeImmediate, ModeDeferred, ModeSuspendable]"

definition all_effects :: "effect_classification list" where
  "all_effects = [ReadOnly, ReversibleWrite, IrreversibleWrite, ExternalSideEffect]"

lemma mode_enumerated [simp]: "m \<in> set all_modes"
  by (cases m) (simp_all add: all_modes_def)

lemma effect_enumerated [simp]: "e \<in> set all_effects"
  by (cases e) (simp_all add: all_effects_def)

instantiation effect_classification :: linorder
begin
definition less_eq_effect_classification :: "effect_classification \<Rightarrow> effect_classification \<Rightarrow> bool" where
  "less_eq_effect_classification a b = (index_of all_effects a \<le> index_of all_effects b)"
definition less_effect_classification :: "effect_classification \<Rightarrow> effect_classification \<Rightarrow> bool" where
  "less_effect_classification a b = (index_of all_effects a < index_of all_effects b)"
instance
  by standard
     (auto simp: less_eq_effect_classification_def less_effect_classification_def
       intro: index_of_inj [of _ all_effects])
end

section \<open>Requirements of a capability\<close>

datatype idempotency_scope = ActorCapabilityResourceOperation

datatype idempotency_requirement =
  IdempotencyNone | IdempotencyRequired idempotency_scope (idem_retention: u64)

record freshness_requirement =
  fr_max_admission_age :: "u64 option"
  fr_policy_revision_required :: bool
  fr_max_input_age :: "u64 option"

datatype precondition_kind = EntityVersion | Etag

datatype precondition_descriptor =
  PreconditionDescriptor (pd_name: string) (pd_kind: precondition_kind) (pd_required: bool)

record evidence_requirement =
  er_kind :: string
  er_issuer :: "string option"

datatype confirmation_requirement = ConfirmationNone | ConfirmationRequired evidence_requirement
datatype approval_requirement = ApprovalNone | ApprovalRequired evidence_requirement
datatype consent_requirement = ConsentNone | ConsentRequired evidence_requirement

fun precondition_kind_str :: "precondition_kind \<Rightarrow> string" where
  "precondition_kind_str EntityVersion = ''entity_version''"
| "precondition_kind_str Etag = ''etag''"

instantiation precondition_descriptor :: linorder
begin
definition pd_key :: "precondition_descriptor \<Rightarrow> string \<times> bool \<times> bool" where
  "pd_key p = (pd_name p, pd_kind p = Etag, pd_required p)"
definition less_eq_precondition_descriptor ::
  "precondition_descriptor \<Rightarrow> precondition_descriptor \<Rightarrow> bool" where
  "less_eq_precondition_descriptor a b = (pd_key a \<le> pd_key b)"
definition less_precondition_descriptor ::
  "precondition_descriptor \<Rightarrow> precondition_descriptor \<Rightarrow> bool" where
  "less_precondition_descriptor a b = (pd_key a < pd_key b)"
instance
proof
  fix a b :: precondition_descriptor
  assume "a \<le> b" "b \<le> a"
  then have "pd_key a = pd_key b" by (simp add: less_eq_precondition_descriptor_def)
  then show "a = b"
    by (cases a; cases b; cases "pd_kind a"; cases "pd_kind b") (simp_all add: pd_key_def)
qed (auto simp: less_eq_precondition_descriptor_def less_precondition_descriptor_def)
end

fun retry_str :: "retry_class \<Rightarrow> string" where
  "retry_str RetryNever = ''never''"
| "retry_str RetryAfterRefresh = ''after_refresh''"
| "retry_str RetryAfterUserAction = ''after_user_action''"
| "retry_str RetryStatusFirst = ''status_first''"

datatype error_descriptor =
  ErrorDescriptor (ed_code: string) (ed_category: string) (ed_retry: retry_class) (ed_message: string)

definition error_descriptor_try_new ::
  "string \<Rightarrow> string \<Rightarrow> string \<Rightarrow> string \<Rightarrow> (string, error_descriptor) result" where
  "error_descriptor_try_new code category retry message =
     and_then
       (if retry = ''never'' then Inr RetryNever
        else if retry = ''after_refresh'' then Inr RetryAfterRefresh
        else if retry = ''after_user_action'' then Inr RetryAfterUserAction
        else if retry = ''status_first'' then Inr RetryStatusFirst
        else Inl ''invalid stable error retry class'')
       (\<lambda>class. if code = [] \<or> category = []
                 then Inl ''stable error code and category are required''
                 else Inr (ErrorDescriptor code category class message))"

instantiation error_descriptor :: linorder
begin
definition ed_key :: "error_descriptor \<Rightarrow> string \<times> string \<times> retry_class \<times> string" where
  "ed_key e = (ed_code e, ed_category e, ed_retry e, ed_message e)"
definition less_eq_error_descriptor :: "error_descriptor \<Rightarrow> error_descriptor \<Rightarrow> bool" where
  "less_eq_error_descriptor a b = (ed_key a \<le> ed_key b)"
definition less_error_descriptor :: "error_descriptor \<Rightarrow> error_descriptor \<Rightarrow> bool" where
  "less_error_descriptor a b = (ed_key a < ed_key b)"
instance
proof
  fix a b :: error_descriptor
  assume "a \<le> b" "b \<le> a"
  then have "ed_key a = ed_key b" by (simp add: less_eq_error_descriptor_def)
  then show "a = b" by (simp add: ed_key_def error_descriptor.expand)
qed (auto simp: less_eq_error_descriptor_def less_error_descriptor_def)
end

section \<open>Serialized forms\<close>

definition freshness_json :: "freshness_requirement \<Rightarrow> json" where
  "freshness_json f = JObj
     [(''maxAdmissionAgeSeconds'', opt_json u64_json (fr_max_admission_age f)),
      (''policyRevisionRequired'', JBool (fr_policy_revision_required f)),
      (''maxInputAgeSeconds'', opt_json u64_json (fr_max_input_age f))]"

definition precondition_json :: "precondition_descriptor \<Rightarrow> json" where
  "precondition_json p = JObj
     [(''name'', JStr (pd_name p)), (''kind'', JStr (precondition_kind_str (pd_kind p))),
      (''required'', JBool (pd_required p))]"

definition evidence_requirement_json :: "evidence_requirement \<Rightarrow> json" where
  "evidence_requirement_json e = JObj
     [(''kind'', JStr (er_kind e)), (''issuer'', opt_json JStr (er_issuer e))]"

definition tagged_evidence_json :: "evidence_requirement option \<Rightarrow> json" where
  "tagged_evidence_json m =
     (case m of None \<Rightarrow> JObj [(''kind'', JStr ''none'')]
      | Some e \<Rightarrow> JObj [(''kind'', JStr ''required''), (''evidence'', evidence_requirement_json e)])"

fun confirmation_evidence :: "confirmation_requirement \<Rightarrow> evidence_requirement option" where
  "confirmation_evidence ConfirmationNone = None"
| "confirmation_evidence (ConfirmationRequired e) = Some e"

fun approval_evidence :: "approval_requirement \<Rightarrow> evidence_requirement option" where
  "approval_evidence ApprovalNone = None"
| "approval_evidence (ApprovalRequired e) = Some e"

fun consent_evidence :: "consent_requirement \<Rightarrow> evidence_requirement option" where
  "consent_evidence ConsentNone = None"
| "consent_evidence (ConsentRequired e) = Some e"

fun idempotency_json :: "idempotency_requirement \<Rightarrow> json" where
  "idempotency_json IdempotencyNone = JObj [(''kind'', JStr ''none'')]"
| "idempotency_json (IdempotencyRequired _ retention) = JObj
     [(''kind'', JStr ''required''), (''scope'', JStr ''actor_capability_resource_operation''),
      (''retention_seconds'', u64_json retention)]"

definition error_descriptor_json :: "error_descriptor \<Rightarrow> json" where
  "error_descriptor_json e = JObj
     [(''code'', JStr (ed_code e)), (''category'', JStr (ed_category e)),
      (''retry'', JStr (retry_str (ed_retry e))), (''message'', JStr (ed_message e))]"

definition modes_json :: "execution_mode set \<Rightarrow> json" where
  "modes_json ms = JArr (map (\<lambda>m. JStr (mode_str m)) (filter (\<lambda>m. m \<in> ms) all_modes))"

lemma identity_json_inject [simp]: "identity_json a = identity_json b \<longleftrightarrow> a = b"
  by (auto simp: identity_json_def intro: capability_identity.expand)

lemma effect_str_inject [simp]: "effect_str a = effect_str b \<longleftrightarrow> a = b"
  by (cases a; cases b) simp_all

lemma opt_json_str_inject [simp]: "opt_json JStr a = opt_json JStr b \<longleftrightarrow> a = b"
  by (cases a; cases b) (simp_all add: opt_json_def)

section \<open>Schemas\<close>

definition json_schema_uri :: string where
  "json_schema_uri = ''https://json-schema.org/draft/2020-12/schema''"

definition reference_keyword :: "string \<Rightarrow> bool" where
  "reference_keyword k = (k = ''$ref'' \<or> k = ''$dynamicRef'' \<or> k = ''$recursiveRef'')"

definition check_reference :: "string \<times> json \<Rightarrow> (string, unit) result" where
  "check_reference field =
     (if reference_keyword (fst field)
      then (case snd field of
              JStr reference \<Rightarrow>
                (if prefix ''#'' reference then Inr ()
                 else Inl ''remote schema reference is forbidden'')
            | _ \<Rightarrow> Inl ''schema reference must be a string'')
      else Inr ())"

fun visit_schema :: "json \<Rightarrow> (string, unit) result" where
  "visit_schema (JObj entries) =
     and_then (try_each check_reference entries)
       (\<lambda>_. try_each (\<lambda>field. visit_schema (snd field)) entries)"
| "visit_schema (JArr values) = try_each visit_schema values"
| "visit_schema _ = Inr ()"

definition validate_schema :: "externals \<Rightarrow> json \<Rightarrow> (string, unit) result" where
  "validate_schema X value =
     (case value of
        JObj entries \<Rightarrow>
          (if map_of entries ''$schema'' \<noteq> None
              \<and> map_of entries ''$schema'' \<noteq> Some (JStr json_schema_uri)
           then Inl ''schema must use JSON Schema 2020-12''
           else if \<not> x_schema_valid X value
           then Inl ''schema is not valid Draft 2020-12 JSON Schema''
           else and_then (visit_schema value)
             (\<lambda>_. ensure (x_schema_builds X value)
                ''schema references must resolve from its bundled definitions''))
      | _ \<Rightarrow> Inl ''JSON Schema must be an object'')"

definition schema_try_new :: "externals \<Rightarrow> json \<Rightarrow> (string, json) result" where
  "schema_try_new X value = map_ok (\<lambda>_. value) (validate_schema X value)"

section \<open>Descriptors\<close>

record capability_descriptor =
  cd_identity :: capability_identity
  cd_summary :: string
  cd_input_schema :: json
  cd_output_schema :: json
  cd_stable_errors :: "error_descriptor list"
  cd_execution_modes :: "execution_mode set"
  cd_resource_selector_schema :: json
  cd_effect :: effect_classification
  cd_idempotency :: idempotency_requirement
  cd_freshness :: freshness_requirement
  cd_preconditions :: "precondition_descriptor list"
  cd_confirmation :: confirmation_requirement
  cd_approval :: approval_requirement
  cd_consent :: consent_requirement
  cd_descriptor_digest :: sha256_digest

record descriptor_parts =
  cp_identity :: capability_identity
  cp_summary :: string
  cp_input_schema :: json
  cp_output_schema :: json
  cp_stable_errors :: "error_descriptor list"
  cp_execution_modes :: "execution_mode set"
  cp_resource_selector_schema :: json
  cp_effect :: effect_classification
  cp_idempotency :: idempotency_requirement
  cp_freshness :: freshness_requirement
  cp_preconditions :: "precondition_descriptor list"
  cp_confirmation :: confirmation_requirement
  cp_approval :: approval_requirement
  cp_consent :: consent_requirement

definition descriptor_wire :: "descriptor_parts \<Rightarrow> json" where
  "descriptor_wire p = JObj
     [(''identity'', identity_json (cp_identity p)), (''summary'', JStr (cp_summary p)),
      (''inputSchema'', cp_input_schema p), (''outputSchema'', cp_output_schema p),
      (''stableErrors'', JArr (map error_descriptor_json (cp_stable_errors p))),
      (''executionModes'', modes_json (cp_execution_modes p)),
      (''resourceSelectorSchema'', cp_resource_selector_schema p),
      (''effect'', JStr (effect_str (cp_effect p))),
      (''idempotency'', idempotency_json (cp_idempotency p)),
      (''freshness'', freshness_json (cp_freshness p)),
      (''preconditions'', JArr (map precondition_json (cp_preconditions p))),
      (''confirmation'', tagged_evidence_json (confirmation_evidence (cp_confirmation p))),
      (''approval'', tagged_evidence_json (approval_evidence (cp_approval p))),
      (''consent'', tagged_evidence_json (consent_evidence (cp_consent p)))]"

definition package_invalid :: "string \<Rightarrow> diagnostic" where
  "package_invalid message = diagnostic_error PackageInvalid CatPackage StageValidate message"

definition descriptor_errors :: "descriptor_parts \<Rightarrow> diagnostic list" where
  "descriptor_errors p =
     (if is_blank (cp_summary p) then [package_invalid ''capability summary is required''] else [])
     @ (if distinct (map ed_code (cp_stable_errors p)) then []
        else [package_invalid ''stable error machine codes must be unique''])
     @ (if effectful (cp_effect p) \<and> cp_idempotency p = IdempotencyNone
        then [package_invalid ''effectful capability requires idempotency''] else [])"

definition descriptor_of_parts :: "descriptor_parts \<Rightarrow> sha256_digest \<Rightarrow> capability_descriptor" where
  "descriptor_of_parts p d =
     \<lparr>cd_identity = cp_identity p, cd_summary = cp_summary p,
      cd_input_schema = cp_input_schema p, cd_output_schema = cp_output_schema p,
      cd_stable_errors = cp_stable_errors p, cd_execution_modes = cp_execution_modes p,
      cd_resource_selector_schema = cp_resource_selector_schema p, cd_effect = cp_effect p,
      cd_idempotency = cp_idempotency p, cd_freshness = cp_freshness p,
      cd_preconditions = cp_preconditions p, cd_confirmation = cp_confirmation p,
      cd_approval = cp_approval p, cd_consent = cp_consent p, cd_descriptor_digest = d\<rparr>"

definition descriptor_try_new ::
  "externals \<Rightarrow> descriptor_parts \<Rightarrow> (diagnostic list, capability_descriptor) result" where
  "descriptor_try_new X p =
     (let errors = descriptor_errors p;
          failed = (\<lambda>message. errors @ [package_invalid message])
      in and_then (map_err failed (schema_try_new X (cp_input_schema p))) (\<lambda>input.
         and_then (map_err failed (schema_try_new X (cp_output_schema p))) (\<lambda>output.
         if errors \<noteq> [] then Inl errors
         else
           let wire = p\<lparr>cp_input_schema := input, cp_output_schema := output,
                        cp_stable_errors := sort_dedup (cp_stable_errors p),
                        cp_preconditions := sort_dedup (cp_preconditions p)\<rparr>
           in map_ok (descriptor_of_parts wire)
                (map_err (\<lambda>message. [package_invalid message]) (digest X (descriptor_wire wire))))))"

definition parts_of_descriptor :: "capability_descriptor \<Rightarrow> descriptor_parts" where
  "parts_of_descriptor d =
     \<lparr>cp_identity = cd_identity d, cp_summary = cd_summary d,
      cp_input_schema = cd_input_schema d, cp_output_schema = cd_output_schema d,
      cp_stable_errors = cd_stable_errors d, cp_execution_modes = cd_execution_modes d,
      cp_resource_selector_schema = cd_resource_selector_schema d, cp_effect = cd_effect d,
      cp_idempotency = cd_idempotency d, cp_freshness = cd_freshness d,
      cp_preconditions = cd_preconditions d, cp_confirmation = cd_confirmation d,
      cp_approval = cd_approval d, cp_consent = cd_consent d\<rparr>"

definition first_message :: "diagnostic list \<Rightarrow> string" where
  "first_message errors = (case errors of [] \<Rightarrow> [] | d # _ \<Rightarrow> d_message d)"

definition descriptor_deserialize ::
  "externals \<Rightarrow> capability_descriptor \<Rightarrow> (string, capability_descriptor) result" where
  "descriptor_deserialize X raw =
     and_then (map_err first_message (descriptor_try_new X (parts_of_descriptor raw))) (\<lambda>d.
       if cd_descriptor_digest d \<noteq> cd_descriptor_digest raw
       then Inl ''descriptor digest does not match canonical descriptor''
       else Inr d)"

section \<open>Locked capabilities and resolved requirements\<close>

record locked_capability =
  lc_identity :: capability_identity
  lc_descriptor :: capability_descriptor
  lc_descriptor_digest :: sha256_digest
  lc_input_schema_digest :: sha256_digest
  lc_output_schema_digest :: sha256_digest
  lc_stable_error_set_digest :: sha256_digest
  lc_safety_metadata_digest :: sha256_digest

definition locked_capability_try_new ::
  "locked_capability \<Rightarrow> (string, locked_capability) result" where
  "locked_capability_try_new raw =
     (if lc_identity raw \<noteq> cd_identity (lc_descriptor raw)
         \<or> lc_descriptor_digest raw \<noteq> cd_descriptor_digest (lc_descriptor raw)
      then Inl ''locked capability descriptor identity or digest does not match''
      else Inr raw)"

record resolved_requirement =
  rr_locked_capability :: locked_capability
  rr_required :: bool
  rr_resources :: "string list"

definition resolved_requirement_try_new ::
  "locked_capability \<Rightarrow> bool \<Rightarrow> string list \<Rightarrow> (string, resolved_requirement) result" where
  "resolved_requirement_try_new locked required resources =
     (let sorted = sort_dedup resources
      in if sorted = [] then Inl ''resolved capability requires at least one resource selector''
         else Inr \<lparr>rr_locked_capability = locked, rr_required = required, rr_resources = sorted\<rparr>)"

abbreviation rr_identity :: "resolved_requirement \<Rightarrow> capability_identity" where
  "rr_identity r \<equiv> lc_identity (rr_locked_capability r)"

abbreviation rr_descriptor :: "resolved_requirement \<Rightarrow> capability_descriptor" where
  "rr_descriptor r \<equiv> lc_descriptor (rr_locked_capability r)"

record catalog_identity =
  cat_name :: string
  cat_revision :: string

section \<open>Runtime checks against a descriptor\<close>

definition capability_result_invalid :: "string \<Rightarrow> diagnostic" where
  "capability_result_invalid message = diagnostic_error ResultInvalid CatCapability StageInvoke message"

definition validate_instance ::
  "externals \<Rightarrow> json \<Rightarrow> json \<Rightarrow> string \<Rightarrow> (diagnostic, unit) result" where
  "validate_instance X schema inst message =
     and_then (ensure (x_schema_builds X schema)
                 (capability_result_invalid ''locked capability schema is invalid''))
       (\<lambda>_. if x_instance_valid X schema inst then Inr ()
             else Inl (capability_result_invalid message))"

definition validate_input ::
  "externals \<Rightarrow> capability_descriptor \<Rightarrow> json \<Rightarrow> (diagnostic, unit) result" where
  "validate_input X d input =
     validate_instance X (cd_input_schema d) input
       ''capability input does not match its locked schema''"

definition validate_output ::
  "externals \<Rightarrow> capability_descriptor \<Rightarrow> json \<Rightarrow> (diagnostic, unit) result" where
  "validate_output X d output =
     validate_instance X (cd_output_schema d) output
       ''capability output does not match its locked schema''"

definition supports_execution_mode :: "capability_descriptor \<Rightarrow> execution_mode \<Rightarrow> bool" where
  "supports_execution_mode d m = (m \<in> cd_execution_modes d)"

definition require_mode ::
  "capability_descriptor \<Rightarrow> execution_mode \<Rightarrow> (diagnostic, unit) result" where
  "require_mode d m =
     (if supports_execution_mode d m then Inr ()
      else Inl (capability_result_invalid
             ''provider response requires an unsupported execution mode''))"

end
