(* ===== verification/KF_Grants.thy ===== *)
theory KF_Grants
  imports KF_Capability
begin

text \<open>
  The admission half of \<open>crates/kiteframe-contract/src/service.rs\<close>: trace contexts, evidence
  references, delegation ancestry, admission requests, effective grants and grant sets, with
  the digests that bind them.
\<close>

section \<open>Trace context\<close>

definition baggage_id_new :: "string \<Rightarrow> (string, string) result" where
  "baggage_id_new value =
     (if length value \<noteq> 32 \<or> \<not> list_all is_hex_lower value
      then Inl ''baggage correlation ID must be 32 lowercase hexadecimal characters''
      else Inr value)"

record trace_context =
  tc_traceparent :: string
  tc_tracestate :: "string option"
  tc_baggage :: "(string \<times> string) list"

fun split_on :: "char \<Rightarrow> string \<Rightarrow> string list" where
  "split_on sep [] = [[]]"
| "split_on sep (c # cs) =
     (if c = sep then [] # split_on sep cs
      else (case split_on sep cs of [] \<Rightarrow> [[c]] | part # parts \<Rightarrow> (c # part) # parts))"

lemma split_on_append: "split_on c (xs @ c # ys) = split_on c xs @ split_on c ys"
proof (induction xs)
  case (Cons x xs)
  moreover have "split_on c xs \<noteq> []" by (induction xs) (auto split: list.splits)
  ultimately show ?case by (auto split: list.splits)
qed simp

lemma split_on_absent: "c \<notin> set xs \<Longrightarrow> split_on c xs = [xs]"
  by (induction xs) auto

fun join_with :: "string \<Rightarrow> string list \<Rightarrow> string" where
  "join_with sep [] = []"
| "join_with sep [s] = s"
| "join_with sep (s # t # ss) = s @ sep @ join_with sep (t # ss)"

fun split_once :: "char \<Rightarrow> string \<Rightarrow> (string \<times> string) option" where
  "split_once sep [] = None"
| "split_once sep (c # cs) =
     (if c = sep then Some ([], cs)
      else map_option (\<lambda>(a, b). (c # a, b)) (split_once sep cs))"

definition valid_traceparent :: "string \<Rightarrow> bool" where
  "valid_traceparent value =
     (case split_on CHR ''-'' value of
        [version, trace, parent, flags] \<Rightarrow>
          version = ''00'' \<and> length trace = 32 \<and> length parent = 16 \<and> length flags = 2
          \<and> list_all (list_all is_hex_lower) [trace, parent, flags]
          \<and> list_ex (\<lambda>c. c \<noteq> CHR ''0'') trace \<and> list_ex (\<lambda>c. c \<noteq> CHR ''0'') parent
      | _ \<Rightarrow> False)"

definition valid_tracestate_key_part :: "string \<Rightarrow> nat \<Rightarrow> bool \<Rightarrow> bool" where
  "valid_tracestate_key_part value max_length digit_first =
     (case value of
        [] \<Rightarrow> False
      | first # rest \<Rightarrow>
          length value \<le> max_length
          \<and> (is_ascii_lower first \<or> digit_first \<and> is_ascii_digit first)
          \<and> list_all (\<lambda>c. is_ascii_lower c \<or> is_ascii_digit c \<or> c \<in> set ''_-*/'') rest)"

definition valid_tracestate_key :: "string \<Rightarrow> bool" where
  "valid_tracestate_key key =
     (case split_once CHR ''@'' key of
        Some (tenant, system) \<Rightarrow>
          valid_tracestate_key_part tenant 241 True \<and> valid_tracestate_key_part system 14 False
      | None \<Rightarrow> valid_tracestate_key_part key 256 False)"

definition valid_tracestate_non_space :: "char \<Rightarrow> bool" where
  "valid_tracestate_non_space c = (char_in 33 43 c \<or> char_in 45 60 c \<or> char_in 62 126 c)"

definition valid_tracestate_value :: "string \<Rightarrow> bool" where
  "valid_tracestate_value value =
     (value \<noteq> [] \<and> length value \<le> 256
      \<and> valid_tracestate_non_space (hd value) \<and> valid_tracestate_non_space (last value)
      \<and> list_all (\<lambda>c. c = CHR '' '' \<or> valid_tracestate_non_space c) value)"

definition trims_to_itself :: "string \<Rightarrow> bool" where
  "trims_to_itself s =
     (s = [] \<or> \<not> ascii_white (of_char (hd s)) \<and> \<not> ascii_white (of_char (last s)))"

fun valid_members :: "string set \<Rightarrow> nat \<Rightarrow> string list \<Rightarrow> bool" where
  "valid_members seen n [] = True"
| "valid_members seen n (member # rest) =
     (if Suc n > 32 \<or> \<not> trims_to_itself member then False
      else (case split_once CHR ''='' member of
              None \<Rightarrow> False
            | Some (key, value) \<Rightarrow>
                if CHR ''='' \<in> set value \<or> \<not> valid_tracestate_key key
                   \<or> \<not> valid_tracestate_value value \<or> key \<in> seen
                then False else valid_members (insert key seen) (Suc n) rest))"

definition valid_tracestate :: "string \<Rightarrow> bool" where
  "valid_tracestate value =
     (if value = [] \<or> length value > 512 \<or> \<not> list_all (char_in 0 127) value then False
      else valid_members {} 0 (split_on CHR '','' value))"

definition allowed_baggage_keys :: "string list" where
  "allowed_baggage_keys =
     [''kiteframe.agent_id'', ''kiteframe.request_id'', ''kiteframe.session_id'', ''kiteframe.task_id'']"

definition trace_context_try_new ::
  "string \<Rightarrow> string option \<Rightarrow> (string \<times> string) list \<Rightarrow> (string, trace_context) result" where
  "trace_context_try_new traceparent tracestate baggage =
     (if \<not> valid_traceparent traceparent
      then Inl ''traceparent must be a valid W3C trace context header''
      else if (case tracestate of None \<Rightarrow> False | Some value \<Rightarrow> \<not> valid_tracestate value)
      then Inl ''tracestate must use the canonical W3C subset''
      else and_then
        (try_each (\<lambda>(key, value).
           if key \<notin> set allowed_baggage_keys then Inl ''baggage key is not allowlisted''
           else map_ok (\<lambda>_. ()) (baggage_id_new value)) baggage)
        (\<lambda>_. map_ok (\<lambda>entries.
           \<lparr>tc_traceparent = traceparent, tc_tracestate = tracestate, tc_baggage = entries\<rparr>)
           (try_map (\<lambda>(key, value). map_ok (\<lambda>v. (key, v)) (baggage_id_new value)) baggage)))"

definition string_map_json :: "(string \<times> string) list \<Rightarrow> json" where
  "string_map_json m = JObj (map (\<lambda>(k, v). (k, JStr v)) m)"

definition trace_context_json :: "trace_context \<Rightarrow> json" where
  "trace_context_json t = JObj
     ([(''traceparent'', JStr (tc_traceparent t))]
      @ (case tc_tracestate t of None \<Rightarrow> [] | Some s \<Rightarrow> [(''tracestate'', JStr s)])
      @ (if tc_baggage t = [] then [] else [(''baggage'', string_map_json (tc_baggage t))]))"

section \<open>Evidence references and delegation\<close>

definition evidence_reference_check :: "string \<times> json \<Rightarrow> (string, string \<times> string) result" where
  "evidence_reference_check entry =
     (if is_blank (fst entry) then Inl ''evidence reference kind is required''
      else (case snd entry of
              JStr reference \<Rightarrow>
                (if is_blank reference then Inl ''evidence reference is required''
                 else Inr (fst entry, reference))
            | _ \<Rightarrow> Inl ''evidence must be supplied as an opaque reference''))"

definition evidence_references_try_new ::
  "(string \<times> json) list \<Rightarrow> (string, (string \<times> string) list) result" where
  "evidence_references_try_new values = try_map evidence_reference_check values"

record delegation_edge =
  de_parent_agent :: string
  de_child_agent :: string
  de_delegated_capabilities :: "string list"

definition delegation_edge_try_new ::
  "string \<Rightarrow> string \<Rightarrow> string list \<Rightarrow> (string, delegation_edge) result" where
  "delegation_edge_try_new parent child capabilities =
     (if parent = child then Inl ''delegation edge cannot target its parent agent''
      else if \<not> distinct (sort capabilities) then Inl ''delegated capabilities must be unique''
      else Inr \<lparr>de_parent_agent = parent, de_child_agent = child,
                de_delegated_capabilities = sort capabilities\<rparr>)"

fun ancestry_path :: "string set \<Rightarrow> string option \<Rightarrow> delegation_edge list \<Rightarrow> (string, unit) result" where
  "ancestry_path seen previous [] = Inr ()"
| "ancestry_path seen previous (edge # edges) =
     (if previous \<noteq> None \<and> previous \<noteq> Some (de_parent_agent edge)
      then Inl ''delegation ancestry edges must form one ordered path''
      else if previous = None \<and> de_parent_agent edge \<in> seen
      then Inl ''delegation ancestry must not contain duplicate agents''
      else
        let seen' = (if previous = None then insert (de_parent_agent edge) seen else seen)
        in if de_child_agent edge \<in> seen'
           then Inl ''delegation ancestry must not contain duplicate agents''
           else ancestry_path (insert (de_child_agent edge) seen') (Some (de_child_agent edge)) edges)"

definition delegation_ancestry_try_new ::
  "delegation_edge list \<Rightarrow> (string, delegation_edge list) result" where
  "delegation_ancestry_try_new edges = map_ok (\<lambda>_. edges) (ancestry_path {} None edges)"

definition canonical_digest :: "externals \<Rightarrow> string \<Rightarrow> json \<Rightarrow> (string, sha256_digest) result" where
  "canonical_digest X domain value =
     map_ok (\<lambda>canonical. x_sha256 X (domain @ canonical))
       (ok_or ''value cannot be canonicalized'' (x_canonical X value))"

definition delegation_edge_json :: "delegation_edge \<Rightarrow> json" where
  "delegation_edge_json e = JObj
     [(''parentAgent'', JStr (de_parent_agent e)), (''childAgent'', JStr (de_child_agent e)),
      (''delegatedCapabilities'', JArr (map JStr (de_delegated_capabilities e)))]"

definition nul :: string where "nul = [CHR 0x00]"

definition ancestry_digest :: "externals \<Rightarrow> delegation_edge list \<Rightarrow> (string, sha256_digest) result" where
  "ancestry_digest X edges =
     canonical_digest X (''kiteframe:delegation-ancestry:v1'' @ nul)
       (JArr (map delegation_edge_json edges))"

section \<open>Admission requests\<close>

record requested_capability =
  rq_capability :: capability_identity
  rq_resources :: "string list"

definition requested_capability_try_new ::
  "capability_identity \<Rightarrow> string list \<Rightarrow> (string, requested_capability) result" where
  "requested_capability_try_new capability resources =
     Inr \<lparr>rq_capability = capability, rq_resources = sort_dedup resources\<rparr>"

definition resource_selector_is_subset_of :: "string \<Rightarrow> string \<Rightarrow> bool" where
  "resource_selector_is_subset_of requested allowed =
     (requested = allowed
      \<or> suffix '':*'' allowed
        \<and> prefix (take (length allowed - 2) allowed @ '':'') requested)"

record admission_parts =
  ap_actor :: string
  ap_agent :: string
  ap_task :: string
  ap_session :: string
  ap_portable_digest :: sha256_digest
  ap_lock_digest :: sha256_digest
  ap_resolved_digest :: sha256_digest
  ap_catalog_identity :: catalog_identity
  ap_catalog_digest :: sha256_digest
  ap_required_capabilities :: "requested_capability list"
  ap_optional_capabilities :: "requested_capability list"
  ap_resolved_requirements :: "resolved_requirement list"
  ap_delegation_ancestry :: "delegation_edge list"
  ap_contextual_facts :: "(string \<times> string) list"
  ap_trace_context :: trace_context

record admission_request =
  ar_actor :: string
  ar_agent :: string
  ar_task :: string
  ar_session :: string
  ar_portable_digest :: sha256_digest
  ar_lock_digest :: sha256_digest
  ar_resolved_digest :: sha256_digest
  ar_catalog_identity :: catalog_identity
  ar_catalog_digest :: sha256_digest
  ar_required_capabilities :: "requested_capability list"
  ar_optional_capabilities :: "requested_capability list"
  ar_resolved_requirements :: "resolved_requirement list"
  ar_delegation_ancestry :: "delegation_edge list"
  ar_delegation_ancestry_digest :: sha256_digest
  ar_contextual_facts :: "(string \<times> string) list"
  ar_trace_context :: trace_context
  ar_request_digest :: sha256_digest

definition normalize_requests :: "requested_capability list \<Rightarrow> requested_capability list" where
  "normalize_requests requests = sort_key rq_capability requests"

definition service_invalid :: "string \<Rightarrow> diagnostic" where
  "service_invalid message = diagnostic_error PackageInvalid CatPackage StageValidate message"

definition result_invalid :: "diagnostic_stage \<Rightarrow> string \<Rightarrow> diagnostic" where
  "result_invalid stage message = diagnostic_error ResultInvalid CatCapability stage message"

definition grant_invalid :: "string \<Rightarrow> diagnostic" where
  "grant_invalid message = result_invalid StageAdmit message"

definition find_resolved ::
  "resolved_requirement list \<Rightarrow> capability_identity \<Rightarrow> resolved_requirement option" where
  "find_resolved rs i = find (\<lambda>r. rr_identity r = i) rs"

definition check_requested ::
  "resolved_requirement list \<Rightarrow> requested_capability \<Rightarrow> (diagnostic list, unit) result" where
  "check_requested resolved request =
     (case find_resolved resolved (rq_capability request) of
        None \<Rightarrow> Inl [service_invalid ''requested capability is not a resolved requirement'']
      | Some r \<Rightarrow>
          (if \<exists>q \<in> set (rq_resources request).
                \<not> (\<exists>a \<in> set (rr_resources r). resource_selector_is_subset_of q a)
           then Inl [service_invalid
             ''requested resource selector is broader than the resolved requirement'']
           else Inr ()))"

definition catalog_identity_json :: "catalog_identity \<Rightarrow> json" where
  "catalog_identity_json c = JObj [(''name'', JStr (cat_name c)), (''revision'', JStr (cat_revision c))]"

definition requested_capability_json :: "requested_capability \<Rightarrow> json" where
  "requested_capability_json r = JObj
     [(''capability'', identity_json (rq_capability r)), (''resources'', JArr (map JStr (rq_resources r)))]"

definition add_entry :: "string \<Rightarrow> json \<Rightarrow> json \<Rightarrow> json" where
  "add_entry k v j = (case j of JObj entries \<Rightarrow> JObj (entries @ [(k, v)]) | _ \<Rightarrow> j)"

definition descriptor_json :: "capability_descriptor \<Rightarrow> json" where
  "descriptor_json d = add_entry ''descriptorDigest'' (digest_json (cd_descriptor_digest d))
     (descriptor_wire (parts_of_descriptor d))"

definition locked_capability_json :: "locked_capability \<Rightarrow> json" where
  "locked_capability_json c = JObj
     [(''identity'', identity_json (lc_identity c)), (''descriptor'', descriptor_json (lc_descriptor c)),
      (''descriptorDigest'', digest_json (lc_descriptor_digest c)),
      (''inputSchemaDigest'', digest_json (lc_input_schema_digest c)),
      (''outputSchemaDigest'', digest_json (lc_output_schema_digest c)),
      (''stableErrorSetDigest'', digest_json (lc_stable_error_set_digest c)),
      (''safetyMetadataDigest'', digest_json (lc_safety_metadata_digest c))]"

definition resolved_requirement_json :: "resolved_requirement \<Rightarrow> json" where
  "resolved_requirement_json r = JObj
     [(''lockedCapability'', locked_capability_json (rr_locked_capability r)),
      (''required'', JBool (rr_required r)), (''resources'', JArr (map JStr (rr_resources r)))]"

definition admission_request_digest ::
  "externals \<Rightarrow> admission_parts \<Rightarrow> (string, sha256_digest) result" where
  "admission_request_digest X p =
     and_then (ancestry_digest X (ap_delegation_ancestry p)) (\<lambda>ancestry.
     canonical_digest X (''kiteframe:admission-request:v1'' @ nul) (JObj
       [(''actor'', JStr (ap_actor p)), (''agent'', JStr (ap_agent p)), (''task'', JStr (ap_task p)),
        (''session'', JStr (ap_session p)),
        (''portableDigest'', digest_json (ap_portable_digest p)),
        (''lockDigest'', digest_json (ap_lock_digest p)),
        (''resolvedDigest'', digest_json (ap_resolved_digest p)),
        (''catalogIdentity'', catalog_identity_json (ap_catalog_identity p)),
        (''catalogDigest'', digest_json (ap_catalog_digest p)),
        (''requiredCapabilities'', JArr (map requested_capability_json (ap_required_capabilities p))),
        (''optionalCapabilities'', JArr (map requested_capability_json (ap_optional_capabilities p))),
        (''resolvedRequirements'', JArr (map resolved_requirement_json (ap_resolved_requirements p))),
        (''delegationAncestry'', JArr (map delegation_edge_json (ap_delegation_ancestry p))),
        (''delegationAncestryDigest'', digest_json ancestry),
        (''contextualFacts'', string_map_json (ap_contextual_facts p)),
        (''traceContext'', trace_context_json (ap_trace_context p))]))"

definition admission_request_try_new ::
  "externals \<Rightarrow> admission_parts \<Rightarrow> (diagnostic list, admission_request) result" where
  "admission_request_try_new X raw =
     (let p = raw\<lparr>ap_required_capabilities := normalize_requests (ap_required_capabilities raw),
                  ap_optional_capabilities := normalize_requests (ap_optional_capabilities raw)\<rparr>;
          requests = ap_required_capabilities p @ ap_optional_capabilities p
      in if length (remdups (map rq_capability requests))
            \<noteq> length (ap_required_capabilities p) + length (ap_optional_capabilities p)
         then Inl [service_invalid ''requested capability versions must be unique'']
         else and_then (try_each (check_requested (ap_resolved_requirements p)) requests) (\<lambda>_.
           and_then (map_err (\<lambda>m. [service_invalid m]) (ancestry_digest X (ap_delegation_ancestry p)))
             (\<lambda>ancestry.
           and_then (map_err (\<lambda>m. [service_invalid m]) (admission_request_digest X p)) (\<lambda>rdigest.
           Inr \<lparr>ar_actor = ap_actor p, ar_agent = ap_agent p, ar_task = ap_task p,
                ar_session = ap_session p, ar_portable_digest = ap_portable_digest p,
                ar_lock_digest = ap_lock_digest p, ar_resolved_digest = ap_resolved_digest p,
                ar_catalog_identity = ap_catalog_identity p, ar_catalog_digest = ap_catalog_digest p,
                ar_required_capabilities = ap_required_capabilities p,
                ar_optional_capabilities = ap_optional_capabilities p,
                ar_resolved_requirements = ap_resolved_requirements p,
                ar_delegation_ancestry = ap_delegation_ancestry p,
                ar_delegation_ancestry_digest = ancestry,
                ar_contextual_facts = ap_contextual_facts p, ar_trace_context = ap_trace_context p,
                ar_request_digest = rdigest\<rparr>))))"

definition admission_parts_of :: "admission_request \<Rightarrow> admission_parts" where
  "admission_parts_of r =
     \<lparr>ap_actor = ar_actor r, ap_agent = ar_agent r, ap_task = ar_task r, ap_session = ar_session r,
      ap_portable_digest = ar_portable_digest r, ap_lock_digest = ar_lock_digest r,
      ap_resolved_digest = ar_resolved_digest r, ap_catalog_identity = ar_catalog_identity r,
      ap_catalog_digest = ar_catalog_digest r,
      ap_required_capabilities = ar_required_capabilities r,
      ap_optional_capabilities = ar_optional_capabilities r,
      ap_resolved_requirements = ar_resolved_requirements r,
      ap_delegation_ancestry = ar_delegation_ancestry r,
      ap_contextual_facts = ar_contextual_facts r, ap_trace_context = ar_trace_context r\<rparr>"

definition admission_request_deserialize ::
  "externals \<Rightarrow> admission_request \<Rightarrow> (string, admission_request) result" where
  "admission_request_deserialize X raw =
     and_then (map_err first_message (admission_request_try_new X (admission_parts_of raw))) (\<lambda>r.
       if ar_delegation_ancestry_digest r \<noteq> ar_delegation_ancestry_digest raw
       then Inl ''delegation ancestry digest does not match its ordered edges''
       else if ar_request_digest r \<noteq> ar_request_digest raw
       then Inl ''request digest does not match canonical admission request''
       else Inr r)"

section \<open>Effective grants\<close>

record required_evidence =
  re_confirmation :: confirmation_requirement
  re_approval :: approval_requirement
  re_consent :: consent_requirement

record effective_grant =
  eg_capability :: capability_identity
  eg_resources :: "string list"
  eg_execution_modes :: "execution_mode set"
  eg_maximum_effect :: effect_classification
  eg_expires_at :: u64
  eg_required_evidence :: required_evidence
  eg_freshness :: freshness_requirement
  eg_preconditions :: "precondition_descriptor list"

definition effective_grant_try_new :: "effective_grant \<Rightarrow> (string, effective_grant) result" where
  "effective_grant_try_new parts =
     (let resources = sort_dedup (eg_resources parts)
      in if resources = []
         then Inl ''effective capability grant must have at least one resource selector''
         else Inr (parts\<lparr>eg_resources := resources,
                         eg_preconditions := sort_dedup (eg_preconditions parts)\<rparr>))"

definition select_is_allowed :: "resolved_requirement \<Rightarrow> effective_grant \<Rightarrow> string \<Rightarrow> bool" where
  "select_is_allowed requirement grant candidate =
     ((\<exists>a \<in> set (rr_resources requirement). resource_selector_is_subset_of candidate a)
      \<and> (\<exists>a \<in> set (eg_resources grant). resource_selector_is_subset_of candidate a))"

definition select_invocation_resource ::
  "resolved_requirement \<Rightarrow> effective_grant \<Rightarrow> string option \<Rightarrow> (string, string) result" where
  "select_invocation_resource requirement grant selected =
     (if rr_identity requirement \<noteq> eg_capability grant
      then Inl ''capability grant does not match the resolved requirement''
      else (case selected of
        Some s \<Rightarrow>
          and_then (string_ref_new ''resource selector is required'' s) (\<lambda>normalized.
            if suffix '':*'' normalized \<or> \<not> select_is_allowed requirement grant normalized
            then Inl ''selected resource must be concrete and within current authority''
            else Inr normalized)
      | None \<Rightarrow>
          (case remdups (filter (\<lambda>c. \<not> suffix '':*'' c \<and> select_is_allowed requirement grant c)
                           (rr_resources requirement @ eg_resources grant)) of
             [candidate] \<Rightarrow> string_ref_new ''resource selector is required'' candidate
           | _ \<Rightarrow> Inl ''selected resource must be explicit and concrete'')))"

section \<open>Authority revisions and denials\<close>

datatype authority_revision = AuthorityRevision (av_source: string) (av_revision: string)

definition authority_revision_try_new :: "string \<Rightarrow> string \<Rightarrow> (string, authority_revision) result" where
  "authority_revision_try_new source revision =
     (if is_blank source \<or> is_blank revision
      then Inl ''authority revision source and revision are required''
      else Inr (AuthorityRevision source revision))"

instantiation authority_revision :: linorder
begin
definition less_eq_authority_revision :: "authority_revision \<Rightarrow> authority_revision \<Rightarrow> bool" where
  "less_eq_authority_revision a b = ((av_source a, av_revision a) \<le> (av_source b, av_revision b))"
definition less_authority_revision :: "authority_revision \<Rightarrow> authority_revision \<Rightarrow> bool" where
  "less_authority_revision a b = ((av_source a, av_revision a) < (av_source b, av_revision b))"
instance
  by standard
     (auto simp: less_eq_authority_revision_def less_authority_revision_def
       intro: authority_revision.expand)
end

record authority_revision_set =
  ars_entries :: "authority_revision list"
  ars_digest :: sha256_digest

definition authority_revision_json :: "authority_revision \<Rightarrow> json" where
  "authority_revision_json r = JObj
     [(''source'', JStr (av_source r)), (''revision'', JStr (av_revision r))]"

fun adjacent_equal :: "('a \<Rightarrow> 'b) \<Rightarrow> 'a list \<Rightarrow> bool" where
  "adjacent_equal f (x # y # zs) = (f x = f y \<or> adjacent_equal f (y # zs))"
| "adjacent_equal f _ = False"

definition authority_revision_set_try_new ::
  "externals \<Rightarrow> authority_revision list \<Rightarrow> (string, authority_revision_set) result" where
  "authority_revision_set_try_new X raw =
     (let entries = sort raw
      in if adjacent_equal av_source entries
         then Inl ''authority revision sources must be unique''
         else map_ok (\<lambda>d. \<lparr>ars_entries = entries, ars_digest = d\<rparr>)
           (canonical_digest X (''kiteframe:authority-revision-set:v1'' @ nul)
              (JArr (map authority_revision_json entries))))"

definition authority_revision_set_deserialize ::
  "externals \<Rightarrow> authority_revision_set \<Rightarrow> (string, authority_revision_set) result" where
  "authority_revision_set_deserialize X raw =
     and_then (authority_revision_set_try_new X (ars_entries raw)) (\<lambda>value.
       if ars_digest value \<noteq> ars_digest raw
       then Inl ''authority revision digest does not match canonical entries''
       else Inr value)"

record capability_denial =
  dn_capability :: capability_identity
  dn_diagnostic :: diagnostic

definition capability_denial_try_new ::
  "capability_identity \<Rightarrow> diagnostic \<Rightarrow> (string, capability_denial) result" where
  "capability_denial_try_new capability d =
     (if d_code d \<noteq> AdmissionDenied \<or> d_category d \<noteq> CatAuthorization
         \<or> d_severity d \<notin> {SevWarning, SevError}
         \<or> d_stage d \<noteq> StageAdmit \<or> d_retry d \<noteq> RetryNever
      then Inl ''capability denial diagnostic must use the admission denial contract''
      else Inr \<lparr>dn_capability = capability, dn_diagnostic = d\<rparr>)"

section \<open>Grant sets\<close>

record grant_set =
  gs_admission_id :: string
  gs_admission_request_digest :: sha256_digest
  gs_delegation_ancestry_digest :: sha256_digest
  gs_actor :: string
  gs_agent :: string
  gs_task :: string
  gs_session :: string
  gs_policy_revision :: string
  gs_catalog_identity :: catalog_identity
  gs_catalog_digest :: sha256_digest
  gs_authority_revisions :: authority_revision_set
  gs_issued_at :: u64
  gs_expires_at :: u64
  gs_grants :: "effective_grant list"
  gs_optional_denials :: "capability_denial list"
  gs_grant_digest :: sha256_digest

definition required_evidence_json :: "required_evidence \<Rightarrow> json" where
  "required_evidence_json e = JObj
     [(''confirmation'', tagged_evidence_json (confirmation_evidence (re_confirmation e))),
      (''approval'', tagged_evidence_json (approval_evidence (re_approval e))),
      (''consent'', tagged_evidence_json (consent_evidence (re_consent e)))]"

definition effective_grant_json :: "effective_grant \<Rightarrow> json" where
  "effective_grant_json g = JObj
     [(''capability'', identity_json (eg_capability g)),
      (''resources'', JArr (map JStr (eg_resources g))),
      (''executionModes'', modes_json (eg_execution_modes g)),
      (''maximumEffect'', JStr (effect_str (eg_maximum_effect g))),
      (''expiresAt'', u64_json (eg_expires_at g)),
      (''requiredEvidence'', required_evidence_json (eg_required_evidence g)),
      (''freshness'', freshness_json (eg_freshness g)),
      (''preconditions'', JArr (map precondition_json (eg_preconditions g)))]"

fun category_str :: "diagnostic_category \<Rightarrow> string" where
  "category_str CatPackage = ''package''"
| "category_str CatLock = ''lock''"
| "category_str CatCatalog = ''catalog''"
| "category_str CatFeature = ''feature''"
| "category_str CatAuthorization = ''authorization''"
| "category_str CatCapability = ''capability''"
| "category_str CatAudit = ''audit''"
| "category_str CatRuntime = ''runtime''"

fun severity_str :: "diagnostic_severity \<Rightarrow> string" where
  "severity_str SevError = ''error''"
| "severity_str SevWarning = ''warning''"

fun stage_str :: "diagnostic_stage \<Rightarrow> string" where
  "stage_str StageParse = ''parse''"
| "stage_str StageValidate = ''validate''"
| "stage_str StageLock = ''lock''"
| "stage_str StageResolve = ''resolve''"
| "stage_str StageAdmit = ''admit''"
| "stage_str StageInvoke = ''invoke''"
| "stage_str StageAudit = ''audit''"
| "stage_str StageRuntime = ''runtime''"

definition source_range_json :: "source_range \<Rightarrow> json" where
  "source_range_json r = JObj
     [(''start'', JInt (uint (sr_start r))), (''end'', JInt (uint (sr_end r)))]"

definition diagnostic_json :: "diagnostic \<Rightarrow> json" where
  "diagnostic_json d = JObj
     [(''code'', JStr (code_str (d_code d))), (''category'', JStr (category_str (d_category d))),
      (''severity'', JStr (severity_str (d_severity d))), (''stage'', JStr (stage_str (d_stage d))),
      (''package_path'', opt_json JStr (d_package_path d)),
      (''source_range'', opt_json source_range_json (d_source_range d)),
      (''message'', JStr (d_message d)), (''help'', opt_json JStr (d_help d)),
      (''retry'', JStr (retry_str (d_retry d))), (''details'', JObj (d_details d))]"

definition capability_denial_json :: "capability_denial \<Rightarrow> json" where
  "capability_denial_json c = JObj
     [(''capability'', identity_json (dn_capability c)),
      (''diagnostic'', diagnostic_json (dn_diagnostic c))]"

definition authority_revision_set_json :: "authority_revision_set \<Rightarrow> json" where
  "authority_revision_set_json s = JObj
     [(''entries'', JArr (map authority_revision_json (ars_entries s))),
      (''authorityRevisionDigest'', digest_json (ars_digest s))]"

definition grant_digest :: "externals \<Rightarrow> grant_set \<Rightarrow> (string, sha256_digest) result" where
  "grant_digest X p = canonical_digest X (''kiteframe:capability-grant-set:v1'' @ nul) (JObj
     [(''admissionId'', JStr (gs_admission_id p)),
      (''admissionRequestDigest'', digest_json (gs_admission_request_digest p)),
      (''delegationAncestryDigest'', digest_json (gs_delegation_ancestry_digest p)),
      (''actor'', JStr (gs_actor p)), (''agent'', JStr (gs_agent p)), (''task'', JStr (gs_task p)),
      (''session'', JStr (gs_session p)), (''policyRevision'', JStr (gs_policy_revision p)),
      (''catalogIdentity'', catalog_identity_json (gs_catalog_identity p)),
      (''catalogDigest'', digest_json (gs_catalog_digest p)),
      (''authorityRevisions'', authority_revision_set_json (gs_authority_revisions p)),
      (''issuedAt'', u64_json (gs_issued_at p)), (''expiresAt'', u64_json (gs_expires_at p)),
      (''grants'', JArr (map effective_grant_json (gs_grants p))),
      (''optionalDenials'', JArr (map capability_denial_json (gs_optional_denials p)))])"

definition grant_set_try_new :: "externals \<Rightarrow> grant_set \<Rightarrow> (diagnostic list, grant_set) result" where
  "grant_set_try_new X parts =
     (if gs_expires_at parts \<le> gs_issued_at parts
      then Inl [service_invalid ''grant expiry must be after its issue time'']
      else
        let grants = sort_key eg_capability (gs_grants parts)
        in if adjacent_equal eg_capability grants
           then Inl [service_invalid ''capability grant versions must be unique'']
           else
             let denials = sort_key dn_capability (gs_optional_denials parts)
             in if adjacent_equal dn_capability denials
                then Inl [service_invalid ''optional capability denial versions must be unique'']
                else
                  let p = parts\<lparr>gs_grants := grants, gs_optional_denials := denials\<rparr>
                  in map_ok (\<lambda>d. p\<lparr>gs_grant_digest := d\<rparr>)
                       (map_err (\<lambda>m. [service_invalid m]) (grant_digest X p)))"

definition grant_set_deserialize :: "externals \<Rightarrow> grant_set \<Rightarrow> (string, grant_set) result" where
  "grant_set_deserialize X raw =
     and_then (map_err first_message (grant_set_try_new X raw)) (\<lambda>value.
       if gs_grant_digest value \<noteq> gs_grant_digest raw
       then Inl ''grant digest does not match canonical grant set''
       else Inr value)"

section \<open>Grants against their descriptor and request\<close>

fun evidence_not_weaker :: "confirmation_requirement \<Rightarrow> confirmation_requirement \<Rightarrow> bool" where
  "evidence_not_weaker effective ConfirmationNone = True"
| "evidence_not_weaker effective (ConfirmationRequired e) = (effective = ConfirmationRequired e)"

fun approval_not_weaker :: "approval_requirement \<Rightarrow> approval_requirement \<Rightarrow> bool" where
  "approval_not_weaker effective ApprovalNone = True"
| "approval_not_weaker effective (ApprovalRequired e) = (effective = ApprovalRequired e)"

fun consent_not_weaker :: "consent_requirement \<Rightarrow> consent_requirement \<Rightarrow> bool" where
  "consent_not_weaker effective ConsentNone = True"
| "consent_not_weaker effective (ConsentRequired e) = (effective = ConsentRequired e)"

fun maximum_not_larger :: "u64 option \<Rightarrow> u64 option \<Rightarrow> bool" where
  "maximum_not_larger effective None = True"
| "maximum_not_larger (Some e) (Some l) = (e \<le> l)"
| "maximum_not_larger None (Some l) = False"

definition freshness_not_weaker :: "freshness_requirement \<Rightarrow> freshness_requirement \<Rightarrow> bool" where
  "freshness_not_weaker effective locked =
     (maximum_not_larger (fr_max_admission_age effective) (fr_max_admission_age locked)
      \<and> maximum_not_larger (fr_max_input_age effective) (fr_max_input_age locked)
      \<and> (\<not> fr_policy_revision_required locked \<or> fr_policy_revision_required effective))"

definition effective_grant_narrows :: "effective_grant \<Rightarrow> capability_descriptor \<Rightarrow> u64 \<Rightarrow> bool" where
  "effective_grant_narrows g d expiry =
     (eg_execution_modes g \<subseteq> cd_execution_modes d
      \<and> eg_maximum_effect g \<le> cd_effect d
      \<and> eg_expires_at g \<le> expiry
      \<and> evidence_not_weaker (re_confirmation (eg_required_evidence g)) (cd_confirmation d)
      \<and> approval_not_weaker (re_approval (eg_required_evidence g)) (cd_approval d)
      \<and> consent_not_weaker (re_consent (eg_required_evidence g)) (cd_consent d)
      \<and> freshness_not_weaker (eg_freshness g) (cd_freshness d)
      \<and> (\<forall>p \<in> set (cd_preconditions d). pd_required p \<longrightarrow> p \<in> set (eg_preconditions g)))"

definition count_grants :: "grant_set \<Rightarrow> capability_identity \<Rightarrow> nat" where
  "count_grants gs i = length (filter (\<lambda>g. eg_capability g = i) (gs_grants gs))"

definition count_denials :: "grant_set \<Rightarrow> capability_identity \<Rightarrow> nat" where
  "count_denials gs i = length (filter (\<lambda>d. dn_capability d = i) (gs_optional_denials gs))"

definition check_grant ::
  "admission_request \<Rightarrow> u64 \<Rightarrow> effective_grant \<Rightarrow> (diagnostic, unit) result" where
  "check_grant r expiry g =
     (case find (\<lambda>q. rq_capability q = eg_capability g)
             (ar_required_capabilities r @ ar_optional_capabilities r) of
        None \<Rightarrow> Inl (result_invalid StageAdmit ''capability grant exceeds the admission request'')
      | Some requested \<Rightarrow>
          (if \<exists>granted \<in> set (eg_resources g).
                \<not> (\<exists>q \<in> set (rq_resources requested). resource_selector_is_subset_of granted q)
           then Inl (result_invalid StageAdmit
             ''capability grant resources exceed the admission request'')
           else (case find_resolved (ar_resolved_requirements r) (eg_capability g) of
              None \<Rightarrow> Inl (grant_invalid ''capability grant has no locked descriptor'')
            | Some resolved \<Rightarrow>
                ensure (effective_grant_narrows g (rr_descriptor resolved) expiry)
                  (grant_invalid ''effective capability grant exceeds its locked descriptor''))))"

definition grant_set_validate_against ::
  "grant_set \<Rightarrow> admission_request \<Rightarrow> (diagnostic, unit) result" where
  "grant_set_validate_against gs r =
     (if gs_actor gs \<noteq> ar_actor r \<or> gs_agent gs \<noteq> ar_agent r \<or> gs_task gs \<noteq> ar_task r
         \<or> gs_session gs \<noteq> ar_session r
         \<or> gs_admission_request_digest gs \<noteq> ar_request_digest r
         \<or> gs_delegation_ancestry_digest gs \<noteq> ar_delegation_ancestry_digest r
         \<or> gs_catalog_identity gs \<noteq> ar_catalog_identity r
         \<or> gs_catalog_digest gs \<noteq> ar_catalog_digest r
      then Inl (result_invalid StageAdmit
        ''capability grant identity does not match its admission request'')
      else
        and_then (try_each (\<lambda>q. ensure (count_grants gs (rq_capability q) = 1)
            (grant_invalid ''required capability must have exactly one grant''))
          (ar_required_capabilities r)) (\<lambda>_.
        and_then (try_each (\<lambda>q. ensure
            (count_grants gs (rq_capability q) + count_denials gs (rq_capability q) = 1)
            (grant_invalid ''optional capability must have exactly one grant or denial''))
          (ar_optional_capabilities r)) (\<lambda>_.
        and_then (ensure
            (\<forall>d \<in> set (gs_optional_denials gs).
               \<exists>q \<in> set (ar_optional_capabilities r). rq_capability q = dn_capability d)
            (grant_invalid ''capability denial does not match an optional request'')) (\<lambda>_.
        try_each (check_grant r (gs_expires_at gs)) (gs_grants gs)))))"

section \<open>Laws of the contract's selector test\<close>

lemma subset_of_colon:
  "resource_selector_is_subset_of r a \<longleftrightarrow>
     r = a \<or> (\<exists>p. a = p @ '':*'' \<and> prefix (p @ '':'') r)"
proof -
  have "take (length a - 2) a = p" if "a = p @ '':*''" for p
    using that by simp
  then show ?thesis
    by (auto simp: resource_selector_is_subset_of_def suffix_def)
qed

lemma subset_of_refl [simp]: "resource_selector_is_subset_of a a"
  by (simp add: resource_selector_is_subset_of_def)

lemma subset_of_trans:
  assumes "resource_selector_is_subset_of a b" "resource_selector_is_subset_of b c"
  shows "resource_selector_is_subset_of a c"
proof (cases "a = b \<or> b = c")
  case False
  then obtain p q where p: "b = p @ '':*''" "prefix (p @ '':'') a"
    and q: "c = q @ '':*''" "prefix (q @ '':'') b"
    using assms by (auto simp: subset_of_colon)
  have "prefix (q @ '':'') (p @ '':'')"
  proof -
    have "prefix (q @ '':'') ((p @ '':'') @ ''*'')" using p(1) q(2) by simp
    then consider "q @ '':'' = (p @ '':'') @ ''*''" | "prefix (q @ '':'') (p @ '':'')"
      unfolding prefix_snoc by blast
    then show ?thesis
    proof cases
      case 1
      then have "last (q @ '':'') = last ((p @ '':'') @ ''*'')" by (rule arg_cong)
      then show ?thesis by simp
    qed
  qed
  with p(2) have "prefix (q @ '':'') a" using prefix_order.trans by blast
  with q(1) show ?thesis by (auto simp: subset_of_colon)
qed (use assms in auto)

lemma find_resolved_Some:
  "find_resolved rs i = Some r \<Longrightarrow> r \<in> set rs \<and> rr_identity r = i"
  by (auto simp: find_resolved_def dest: find_SomeD)

lemma maximum_not_larger_iff:
  "maximum_not_larger e l \<longleftrightarrow> (\<forall>m. l = Some m \<longrightarrow> (\<exists>n. e = Some n \<and> n \<le> m))"
  by (cases "(e, l)" rule: maximum_not_larger.cases) auto

lemma maximum_not_larger_refl [simp]: "maximum_not_larger b b"
  by (simp add: maximum_not_larger_iff)

lemma maximum_not_larger_trans:
  "maximum_not_larger a b \<Longrightarrow> maximum_not_larger b c \<Longrightarrow> maximum_not_larger a c"
  by (cases a; cases b; cases c) auto

section \<open>Sorting and uniqueness\<close>

lemma adjacent_equal_sorted:
  "sorted (map f xs) \<Longrightarrow> \<not> adjacent_equal f xs \<longleftrightarrow> distinct (map f xs)"
proof (induction f xs rule: adjacent_equal.induct)
  case (1 f x y zs)
  then have "f x \<le> f y" "\<forall>z \<in> set zs. f y \<le> f z" by auto
  with 1 show ?case by fastforce
qed auto

lemma authority_revision_sources_sorted:
  "sorted xs \<Longrightarrow> sorted (map av_source xs)"
  by (induction xs) (auto simp: less_eq_authority_revision_def)

lemma adjacent_equal_sort_key:
  "\<not> adjacent_equal f (sort_key f xs) \<longleftrightarrow> distinct (map f xs)"
  using adjacent_equal_sorted [of f "sort_key f xs"] by simp

lemma sorted_sort_key [simp]: "sorted (map f xs) \<Longrightarrow> sort_key f xs = xs"
  by (rule sort_key_id_if_sorted)

lemma grant_digest_own [simp]: "grant_digest X (g\<lparr>gs_grant_digest := d\<rparr>) = grant_digest X g"
  by (simp add: grant_digest_def)

lemma grant_set_try_new_Inr:
  assumes "grant_set_try_new X p = Inr g"
  shows "gs_issued_at g < gs_expires_at g"
    and "sorted (map eg_capability (gs_grants g))" "distinct (map eg_capability (gs_grants g))"
    and "sorted (map dn_capability (gs_optional_denials g))"
    and "distinct (map dn_capability (gs_optional_denials g))"
    and "grant_digest X g = Inr (gs_grant_digest g)"
    and "g = p\<lparr>gs_grants := gs_grants g, gs_optional_denials := gs_optional_denials g,
               gs_grant_digest := gs_grant_digest g\<rparr>"
    and "mset (gs_grants g) = mset (gs_grants p)"
    and "mset (gs_optional_denials g) = mset (gs_optional_denials p)"
proof -
  let ?gs = "sort_key eg_capability (gs_grants p)"
  let ?ds = "sort_key dn_capability (gs_optional_denials p)"
  let ?q = "p\<lparr>gs_grants := ?gs, gs_optional_denials := ?ds\<rparr>"
  from assms have less: "gs_issued_at p < gs_expires_at p"
    and grants: "\<not> adjacent_equal eg_capability ?gs" and denials: "\<not> adjacent_equal dn_capability ?ds"
    unfolding grant_set_try_new_def Let_def by (simp_all split: if_split_asm)
  with assms obtain d where d: "grant_digest X ?q = Inr d" "g = ?q\<lparr>gs_grant_digest := d\<rparr>"
    unfolding grant_set_try_new_def Let_def by (auto split: if_split_asm simp del: sort_key_simps)
  show "gs_issued_at g < gs_expires_at g" "sorted (map eg_capability (gs_grants g))"
    "sorted (map dn_capability (gs_optional_denials g))"
    "mset (gs_grants g) = mset (gs_grants p)"
    "mset (gs_optional_denials g) = mset (gs_optional_denials p)"
    "g = p\<lparr>gs_grants := gs_grants g, gs_optional_denials := gs_optional_denials g,
               gs_grant_digest := gs_grant_digest g\<rparr>"
    using less by (simp_all add: d(2))
  show "distinct (map eg_capability (gs_grants g))" "distinct (map dn_capability (gs_optional_denials g))"
    using grants denials by (simp_all add: d(2) adjacent_equal_sort_key)
  show "grant_digest X g = Inr (gs_grant_digest g)" using d by simp
qed

lemma grant_set_normal:
  assumes "gs_issued_at g < gs_expires_at g"
    and "sorted (map eg_capability (gs_grants g))" "distinct (map eg_capability (gs_grants g))"
    and "sorted (map dn_capability (gs_optional_denials g))"
    and "distinct (map dn_capability (gs_optional_denials g))"
    and "grant_digest X g = Inr d"
  shows "grant_set_try_new X g = Inr (g\<lparr>gs_grant_digest := d\<rparr>)"
  using assms
  by (simp add: grant_set_try_new_def Let_def adjacent_equal_sorted not_le)

lemma check_requested_Inr:
  "check_requested resolved q = Inr () \<Longrightarrow>
   \<exists>r. find_resolved resolved (rq_capability q) = Some r
     \<and> (\<forall>x \<in> set (rq_resources q). \<exists>a \<in> set (rr_resources r). resource_selector_is_subset_of x a)"
  by (auto simp: check_requested_def split: option.splits if_splits)

lemma admission_request_try_new_Inr:
  assumes "admission_request_try_new X p = Inr r"
  shows "ar_resolved_requirements r = ap_resolved_requirements p"
    and "\<forall>q \<in> set (ar_required_capabilities r @ ar_optional_capabilities r).
           check_requested (ar_resolved_requirements r) q = Inr ()"
  using assms by (auto simp: admission_request_try_new_def Let_def split: if_splits)

lemma check_grant_Inr:
  assumes "check_grant r expiry g = Inr ()"
  obtains q resolved where
    "q \<in> set (ar_required_capabilities r @ ar_optional_capabilities r)"
    "rq_capability q = eg_capability g"
    "\<forall>x \<in> set (eg_resources g). \<exists>a \<in> set (rq_resources q). resource_selector_is_subset_of x a"
    "find_resolved (ar_resolved_requirements r) (eg_capability g) = Some resolved"
    "effective_grant_narrows g (rr_descriptor resolved) expiry"
proof -
  from assms obtain q where
    q: "find (\<lambda>q. rq_capability q = eg_capability g)
          (ar_required_capabilities r @ ar_optional_capabilities r) = Some q"
    by (auto simp: check_grant_def split: option.splits)
  then have "q \<in> set (ar_required_capabilities r @ ar_optional_capabilities r)"
    "rq_capability q = eg_capability g"
    by (auto dest: find_SomeD)
  with assms q show thesis
    by (auto simp: check_grant_def intro!: that split: option.splits if_splits)
qed

section \<open>A sample admission\<close>

text \<open>
  Concrete values for the witnesses: a capability \<open>docs.read@1.0.0\<close> locked with two selectors,
  a request for one of them and a grant set that answers it. The stand-ins for the external
  functions are constant; only the witnesses use them.
\<close>

definition sample_digest :: sha256_digest where
  "sample_digest = Sha256Digest (replicate 32 7)"

definition sample_externals :: externals where
  "sample_externals =
     \<lparr>x_canonical = \<lambda>_. Some ''json'', x_sha256 = \<lambda>_. sample_digest, x_schema_valid = \<lambda>_. True,
      x_schema_builds = \<lambda>_. True, x_instance_valid = \<lambda>_ _. True, x_version_ok = \<lambda>_. True\<rparr>"

definition sample_identity :: capability_identity where
  "sample_identity = CapabilityIdentity ''docs.read'' ''1.0.0''"

definition sample_freshness :: freshness_requirement where
  "sample_freshness = \<lparr>fr_max_admission_age = Some 60, fr_policy_revision_required = True,
     fr_max_input_age = None\<rparr>"

definition sample_descriptor :: capability_descriptor where
  "sample_descriptor =
     \<lparr>cd_identity = sample_identity, cd_summary = ''read'', cd_input_schema = JObj [],
      cd_output_schema = JObj [],
      cd_stable_errors = [ErrorDescriptor ''missing'' ''docs'' RetryNever ''not there''],
      cd_execution_modes = {ModeImmediate, ModeSuspendable}, cd_resource_selector_schema = JObj [],
      cd_effect = IrreversibleWrite,
      cd_idempotency = IdempotencyRequired ActorCapabilityResourceOperation 600,
      cd_freshness = sample_freshness,
      cd_preconditions = [PreconditionDescriptor ''etag'' Etag True],
      cd_confirmation = ConfirmationNone,
      cd_approval = ApprovalRequired \<lparr>er_kind = ''manager'', er_issuer = None\<rparr>,
      cd_consent = ConsentNone, cd_descriptor_digest = sample_digest\<rparr>"

definition sample_locked :: locked_capability where
  "sample_locked =
     \<lparr>lc_identity = sample_identity, lc_descriptor = sample_descriptor,
      lc_descriptor_digest = sample_digest, lc_input_schema_digest = sample_digest,
      lc_output_schema_digest = sample_digest, lc_stable_error_set_digest = sample_digest,
      lc_safety_metadata_digest = sample_digest\<rparr>"

definition sample_requirement :: resolved_requirement where
  "sample_requirement =
     \<lparr>rr_locked_capability = sample_locked, rr_required = True,
      rr_resources = [''doc:*'', ''note:1'']\<rparr>"

definition sample_trace :: trace_context where
  "sample_trace =
     \<lparr>tc_traceparent = ''00-11111111111111111111111111111111-2222222222222222-01'',
      tc_tracestate = None, tc_baggage = []\<rparr>"

definition sample_catalog :: catalog_identity where
  "sample_catalog = \<lparr>cat_name = ''main'', cat_revision = ''1''\<rparr>"

definition sample_parts :: admission_parts where
  "sample_parts =
     \<lparr>ap_actor = ''ann'', ap_agent = ''helper'', ap_task = ''t1'', ap_session = ''s1'',
      ap_portable_digest = sample_digest, ap_lock_digest = sample_digest,
      ap_resolved_digest = sample_digest, ap_catalog_identity = sample_catalog,
      ap_catalog_digest = sample_digest,
      ap_required_capabilities = [\<lparr>rq_capability = sample_identity, rq_resources = [''doc:*'']\<rparr>],
      ap_optional_capabilities = [], ap_resolved_requirements = [sample_requirement],
      ap_delegation_ancestry = [], ap_contextual_facts = [], ap_trace_context = sample_trace\<rparr>"

definition sample_request :: admission_request where
  "sample_request =
     \<lparr>ar_actor = ''ann'', ar_agent = ''helper'', ar_task = ''t1'', ar_session = ''s1'',
      ar_portable_digest = sample_digest, ar_lock_digest = sample_digest,
      ar_resolved_digest = sample_digest, ar_catalog_identity = sample_catalog,
      ar_catalog_digest = sample_digest,
      ar_required_capabilities = [\<lparr>rq_capability = sample_identity, rq_resources = [''doc:*'']\<rparr>],
      ar_optional_capabilities = [], ar_resolved_requirements = [sample_requirement],
      ar_delegation_ancestry = [], ar_delegation_ancestry_digest = sample_digest,
      ar_contextual_facts = [], ar_trace_context = sample_trace, ar_request_digest = sample_digest\<rparr>"

definition sample_grant :: effective_grant where
  "sample_grant =
     \<lparr>eg_capability = sample_identity, eg_resources = [''doc:7''],
      eg_execution_modes = {ModeImmediate}, eg_maximum_effect = ReversibleWrite,
      eg_expires_at = 150,
      eg_required_evidence = \<lparr>re_confirmation = ConfirmationNone,
         re_approval = ApprovalRequired \<lparr>er_kind = ''manager'', er_issuer = None\<rparr>,
         re_consent = ConsentNone\<rparr>,
      eg_freshness = sample_freshness,
      eg_preconditions = [PreconditionDescriptor ''etag'' Etag True]\<rparr>"

definition sample_grant_set :: grant_set where
  "sample_grant_set =
     \<lparr>gs_admission_id = ''adm-1'', gs_admission_request_digest = sample_digest,
      gs_delegation_ancestry_digest = sample_digest, gs_actor = ''ann'', gs_agent = ''helper'',
      gs_task = ''t1'', gs_session = ''s1'', gs_policy_revision = ''p1'',
      gs_catalog_identity = sample_catalog, gs_catalog_digest = sample_digest,
      gs_authority_revisions = \<lparr>ars_entries = [], ars_digest = sample_digest\<rparr>,
      gs_issued_at = 100, gs_expires_at = 200, gs_grants = [sample_grant],
      gs_optional_denials = [], gs_grant_digest = sample_digest\<rparr>"

lemmas sample_data =
  sample_externals_def sample_identity_def sample_freshness_def sample_descriptor_def
  sample_locked_def sample_requirement_def sample_trace_def sample_catalog_def sample_parts_def
  sample_request_def sample_grant_def sample_grant_set_def

lemma sample_request_admitted:
  "admission_request_try_new sample_externals sample_parts = Inr sample_request"
  by (simp add: admission_request_try_new_def sample_data normalize_requests_def check_requested_def
      find_resolved_def ancestry_digest_def canonical_digest_def admission_request_digest_def)

lemma sample_grant_set_valid:
  "grant_set_validate_against sample_grant_set sample_request = Inr ()"
  by (simp add: grant_set_validate_against_def sample_data count_grants_def count_denials_def
      check_grant_def find_resolved_def effective_grant_narrows_def freshness_not_weaker_def
      resource_selector_is_subset_of_def suffix_to_prefix less_eq_effect_classification_def all_effects_def)

section \<open>Properties\<close>



text \<open>
  A grant set that construction accepts is in canonical form (expiry after issue, grants and
  denials sorted and unique by capability, nothing added or lost), its digest is the digest of
  its own content, and reading it back from its serialized form returns exactly that value;
  a value whose claimed digest differs from the recomputed one is refused.
\<close>

lemma grant_set_canonical_round_trip:
  assumes "grant_set_try_new X p = Inr g"
  shows "grant_set_deserialize X g = Inr g
    \<and> gs_issued_at g < gs_expires_at g
    \<and> distinct (map eg_capability (gs_grants g)) \<and> sorted (map eg_capability (gs_grants g))
    \<and> mset (gs_grants g) = mset (gs_grants p)
    \<and> mset (gs_optional_denials g) = mset (gs_optional_denials p)
    \<and> (\<forall>d. d \<noteq> gs_grant_digest g \<longrightarrow> \<not> is_ok (grant_set_deserialize X (g\<lparr>gs_grant_digest := d\<rparr>)))"
proof -
  note facts = grant_set_try_new_Inr [OF assms]
  have "grant_set_try_new X (g\<lparr>gs_grant_digest := d\<rparr>) = Inr g" for d
    using grant_set_normal [of "g\<lparr>gs_grant_digest := d\<rparr>" X "gs_grant_digest g"] facts by simp
  from this [of "gs_grant_digest g"] this facts show ?thesis
    by (auto simp: grant_set_deserialize_def is_ok_and_then)
qed

end
