(* ===== verification/KF_Resource.thy ===== *)
theory KF_Resource
  imports KF_Prelude
begin

text \<open>
  Resource selectors: \<open>crates/kiteframe-provider/src/resource.rs\<close>. A selector is a path of
  non-empty segments separated by slashes or colons, in which \<open>*\<close> may stand for one whole
  segment. The locale \<open>selector_order\<close> states what the authority computation relies on, and
  the end of the theory interprets it on the code's parser, subset test and intersection.
\<close>

section \<open>The parser\<close>

record parsed_selector =
  ps_segments :: "string list"
  ps_separators :: "char list"

definition is_separator :: "char \<Rightarrow> bool" where
  "is_separator c = (c = CHR ''/'' \<or> c = CHR '':'')"

definition placeholder :: string where
  "placeholder = ''${context.''"

definition empty_segment_error :: string where
  "empty_segment_error = ''resource selector must contain non-empty segments''"

fun parse_chars ::
  "string \<Rightarrow> string list \<Rightarrow> char list \<Rightarrow> string \<Rightarrow>
     (string, string list \<times> char list \<times> string) result" where
  "parse_chars [] segs seps cur = Inr (segs, seps, cur)"
| "parse_chars (c # cs) segs seps cur =
     (if is_separator c
      then if cur = [] then Inl empty_segment_error
           else parse_chars cs (segs @ [cur]) (seps @ [c]) []
      else parse_chars cs segs seps (cur @ [c]))"

definition parse_selector :: "string \<Rightarrow> (string, parsed_selector) result" where
  "parse_selector value =
     (if sublist placeholder value
      then Inl ''resource selector contains an unresolved context placeholder''
      else and_then (parse_chars value [] [] []) (\<lambda>(segs, seps, cur).
        if cur = [] then Inl empty_segment_error
        else if \<exists>s \<in> set (segs @ [cur]). CHR ''*'' \<in> set s \<and> s \<noteq> ''*''
          then Inl ''resource selector wildcard must occupy a complete segment''
        else Inr \<lparr>ps_segments = segs @ [cur], ps_separators = seps\<rparr>))"

fun render_tail :: "char list \<Rightarrow> string list \<Rightarrow> string" where
  "render_tail (p # ps) (s # ss) = p # s @ render_tail ps ss"
| "render_tail _ _ = []"

definition render :: "parsed_selector \<Rightarrow> string" where
  "render p = hd (ps_segments p) @ render_tail (ps_separators p) (tl (ps_segments p))"

definition validate_concrete_resource_selector :: "string \<Rightarrow> (string, unit) result" where
  "validate_concrete_resource_selector value =
     and_then (parse_selector value) (\<lambda>p.
       if ''*'' \<in> set (ps_segments p)
       then Inl ''invocation resource selector must not contain wildcards''
       else Inr ())"

definition segment_allowed :: "string \<Rightarrow> string \<Rightarrow> bool" where
  "segment_allowed candidate allowed = (candidate = allowed \<or> allowed = ''*'')"

definition resource_selector_is_subset :: "string \<Rightarrow> string \<Rightarrow> bool" where
  "resource_selector_is_subset candidate allowed =
     (case parse_selector candidate of
        Inl _ \<Rightarrow> False
      | Inr c \<Rightarrow>
          (case parse_selector allowed of
             Inl _ \<Rightarrow> False
           | Inr a \<Rightarrow>
               ps_separators c = ps_separators a
               \<and> length (ps_segments c) = length (ps_segments a)
               \<and> list_all (\<lambda>(x, y). segment_allowed x y)
                    (zip (ps_segments c) (ps_segments a))))"

fun intersect_segments :: "string list \<Rightarrow> string list \<Rightarrow> string list option" where
  "intersect_segments (l # ls) (r # rs) =
     (if l = r then map_option ((#) l) (intersect_segments ls rs)
      else if l = ''*'' then map_option ((#) r) (intersect_segments ls rs)
      else if r = ''*'' then map_option ((#) l) (intersect_segments ls rs)
      else None)"
| "intersect_segments _ _ = Some []"

definition intersect_resource_selectors ::
  "string \<Rightarrow> string \<Rightarrow> (string, string option) result" where
  "intersect_resource_selectors left right =
     and_then (parse_selector left) (\<lambda>l.
     and_then (parse_selector right) (\<lambda>r.
       if ps_separators l \<noteq> ps_separators r
          \<or> length (ps_segments l) \<noteq> length (ps_segments r)
       then Inr None
       else (case intersect_segments (ps_segments l) (ps_segments r) of
               None \<Rightarrow> Inr None
             | Some segs \<Rightarrow>
                 Inr (Some (render \<lparr>ps_segments = segs, ps_separators = ps_separators l\<rparr>)))))"

section \<open>What parses, and what parsing returns\<close>

definition wf_segment :: "string \<Rightarrow> bool" where
  "wf_segment s =
     (s \<noteq> [] \<and> (\<forall>c \<in> set s. \<not> is_separator c) \<and> (CHR ''*'' \<in> set s \<longrightarrow> s = ''*'')
      \<and> \<not> sublist placeholder s)"

definition wf_parsed :: "parsed_selector \<Rightarrow> bool" where
  "wf_parsed p =
     (length (ps_segments p) = Suc (length (ps_separators p))
      \<and> (\<forall>s \<in> set (ps_segments p). wf_segment s)
      \<and> (\<forall>c \<in> set (ps_separators p). is_separator c))"

lemma placeholder_no_separator: "c \<in> set placeholder \<Longrightarrow> \<not> is_separator c"
  by (auto simp: placeholder_def is_separator_def)

lemma placeholder_nonempty: "placeholder \<noteq> []"
  by (simp add: placeholder_def)

lemma parse_chars_segment:
  "\<forall>c \<in> set s. \<not> is_separator c \<Longrightarrow>
   parse_chars (s @ rest) segs seps cur = parse_chars rest segs seps (cur @ s)"
  by (induction s arbitrary: cur) auto

lemma parse_chars_render_tail:
  "length ss = length ps \<Longrightarrow> \<forall>c \<in> set ps. is_separator c \<Longrightarrow>
   \<forall>s \<in> set ss. s \<noteq> [] \<and> (\<forall>c \<in> set s. \<not> is_separator c) \<Longrightarrow> cur \<noteq> [] \<Longrightarrow>
   parse_chars (render_tail ps ss) segs seps cur =
     Inr (butlast (segs @ cur # ss), seps @ ps, last (cur # ss))"
proof (induction ps ss arbitrary: segs seps cur rule: render_tail.induct)
  case (1 p ps s ss)
  then have s: "s \<noteq> []" "\<forall>c \<in> set s. \<not> is_separator c" and p: "is_separator p" by auto
  have "parse_chars (render_tail (p # ps) (s # ss)) segs seps cur =
      parse_chars (render_tail ps ss) (segs @ [cur]) (seps @ [p]) s"
    using p \<open>cur \<noteq> []\<close> s by (simp add: parse_chars_segment)
  with 1 s show ?case by (simp add: butlast_append)
qed auto

lemma parse_chars_sound:
  "parse_chars v segs seps cur = Inr (segs', seps', cur') \<Longrightarrow>
   (\<forall>c \<in> set cur. \<not> is_separator c) \<Longrightarrow> cur' \<noteq> [] \<Longrightarrow>
   \<exists>ss ps. segs' @ [cur'] = segs @ ss \<and> seps' = seps @ ps \<and> length ss = Suc (length ps) \<and>
     cur @ v = hd ss @ render_tail ps (tl ss) \<and> (\<forall>c \<in> set ps. is_separator c) \<and>
     (\<forall>s \<in> set ss. s \<noteq> [] \<and> (\<forall>c \<in> set s. \<not> is_separator c))"
proof (induction v arbitrary: segs seps cur)
  case Nil
  then show ?case by (intro exI [of _ "[cur]"] exI [of _ "[]"]) auto
next
  case (Cons c cs)
  show ?case
  proof (cases "is_separator c")
    case True
    with Cons.prems have cur: "cur \<noteq> []"
      and step: "parse_chars cs (segs @ [cur]) (seps @ [c]) [] = Inr (segs', seps', cur')"
      by (auto split: if_splits)
    from Cons.IH [OF step] Cons.prems obtain ss ps where
      *: "segs' @ [cur'] = (segs @ [cur]) @ ss" "seps' = (seps @ [c]) @ ps"
        "length ss = Suc (length ps)" "cs = hd ss @ render_tail ps (tl ss)"
        "\<forall>c \<in> set ps. is_separator c"
        "\<forall>s \<in> set ss. s \<noteq> [] \<and> (\<forall>c \<in> set s. \<not> is_separator c)" by auto
    then obtain t ts where "ss = t # ts" by (cases ss) auto
    with * cur True Cons.prems(2) show ?thesis
      by (intro exI [of _ "cur # ss"] exI [of _ "c # ps"]) auto
  next
    case False
    with Cons.prems have "parse_chars cs segs seps (cur @ [c]) = Inr (segs', seps', cur')" by simp
    from Cons.IH [OF this] False Cons.prems(2,3) show ?thesis by auto
  qed
qed

lemma sublist_append_separator:
  assumes "is_separator p" "\<forall>c \<in> set pat. \<not> is_separator c" "pat \<noteq> []"
  shows "sublist pat (xs @ p # ys) \<longleftrightarrow> sublist pat xs \<or> sublist pat ys"
proof
  assume "sublist pat (xs @ p # ys)"
  then consider "sublist pat xs" | "sublist pat (p # ys)"
    | a b where "pat = a @ b" "suffix a xs" "prefix b (p # ys)"
    by (auto simp: sublist_append)
  then show "sublist pat xs \<or> sublist pat ys"
  proof cases
    case 2
    with assms show ?thesis by (cases pat) (auto simp: sublist_Cons_right)
  next
    case 3
    with assms have "b = []" by (cases b) auto
    with 3 show ?thesis by (simp add: suffix_imp_sublist)
  qed simp
next
  assume "sublist pat xs \<or> sublist pat ys"
  then show "sublist pat (xs @ p # ys)"
    by (auto simp: sublist_append sublist_Cons_right)
qed

lemma sublist_render_tail:
  "length ss = length ps \<Longrightarrow> \<forall>c \<in> set ps. is_separator c \<Longrightarrow>
   sublist placeholder (s @ render_tail ps ss) \<longleftrightarrow>
     (\<exists>t \<in> set (s # ss). sublist placeholder t)"
proof (induction ps ss arbitrary: s rule: render_tail.induct)
  case (1 p ps s' ss)
  then show ?case
    using sublist_append_separator [of p placeholder s "s' @ render_tail ps ss"]
    by (auto simp: placeholder_no_separator placeholder_nonempty)
qed auto

lemma parse_selector_iff:
  "parse_selector v = Inr p \<longleftrightarrow> wf_parsed p \<and> v = render p"
proof
  assume *: "parse_selector v = Inr p"
  then obtain segs seps cur where
    chars: "parse_chars v [] [] [] = Inr (segs, seps, cur)" and "cur \<noteq> []"
    and p: "p = \<lparr>ps_segments = segs @ [cur], ps_separators = seps\<rparr>"
    and wild: "\<forall>s \<in> set (segs @ [cur]). CHR ''*'' \<in> set s \<longrightarrow> s = ''*''"
    and place: "\<not> sublist placeholder v"
    by (auto simp: parse_selector_def split: if_splits)
  from parse_chars_sound [OF chars] \<open>cur \<noteq> []\<close> obtain ss ps where
    **: "segs @ [cur] = ss" "seps = ps" "length ss = Suc (length ps)"
      "v = hd ss @ render_tail ps (tl ss)" "\<forall>c \<in> set ps. is_separator c"
      "\<forall>s \<in> set ss. s \<noteq> [] \<and> (\<forall>c \<in> set s. \<not> is_separator c)" by auto
  then obtain t ts where ts: "ss = t # ts" by (cases ss) auto
  with ** place have "\<forall>s \<in> set ss. \<not> sublist placeholder s"
    using sublist_render_tail [of ts ps t] by auto
  with ** wild show "wf_parsed p \<and> v = render p"
    by (auto simp: wf_parsed_def wf_segment_def render_def p)
next
  assume *: "wf_parsed p \<and> v = render p"
  then obtain t ts where ts: "ps_segments p = t # ts" "length ts = length (ps_separators p)"
    by (cases "ps_segments p") (auto simp: wf_parsed_def)
  have wf: "\<forall>s \<in> set (t # ts). wf_segment s" "\<forall>c \<in> set (ps_separators p). is_separator c"
    using * ts by (auto simp: wf_parsed_def)
  then have "parse_chars v [] [] [] = Inr (butlast (t # ts), ps_separators p, last (t # ts))"
    using * ts by (simp add: render_def parse_chars_segment parse_chars_render_tail wf_segment_def)
  moreover have "\<not> sublist placeholder v"
    using * ts wf sublist_render_tail [of ts "ps_separators p" t]
    by (auto simp: render_def wf_segment_def)
  moreover have "last (t # ts) \<in> set (t # ts)" by (rule last_in_set) simp
  moreover have "butlast (t # ts) @ [last (t # ts)] = t # ts"
    by (rule append_butlast_last_id) simp
  ultimately show "parse_selector v = Inr p"
    using wf ts
    by (auto simp: parse_selector_def wf_segment_def simp del: butlast.simps last.simps)
qed

lemma parse_selector_render: "wf_parsed p \<Longrightarrow> parse_selector (render p) = Inr p"
  by (simp add: parse_selector_iff)

lemma render_inj: "wf_parsed p \<Longrightarrow> wf_parsed q \<Longrightarrow> render p = render q \<Longrightarrow> p = q"
  by (metis parse_selector_render sum.inject(2))

section \<open>The selector order\<close>

text \<open>
  The subset test compares parsed selectors segment by segment; on segments it is an order
  whose greatest element is \<open>*\<close>, and the intersection is its partial meet.
\<close>

definition parsed_subset :: "parsed_selector \<Rightarrow> parsed_selector \<Rightarrow> bool" where
  "parsed_subset c a =
     (ps_separators c = ps_separators a
      \<and> list_all2 segment_allowed (ps_segments c) (ps_segments a))"

lemma resource_selector_is_subset_iff:
  "resource_selector_is_subset c a \<longleftrightarrow>
     (\<exists>pc pa. parse_selector c = Inr pc \<and> parse_selector a = Inr pa \<and> parsed_subset pc pa)"
  by (cases "parse_selector c"; cases "parse_selector a")
     (simp_all add: resource_selector_is_subset_def parsed_subset_def list_all2_iff list_all_iff)

lemma subset_parsed:
  "parse_selector c = Inr pc \<Longrightarrow> parse_selector a = Inr pa \<Longrightarrow>
   resource_selector_is_subset c a = parsed_subset pc pa"
  by (simp add: resource_selector_is_subset_iff)

lemma subset_parses:
  assumes "resource_selector_is_subset c a"
  obtains pc pa where "parse_selector c = Inr pc" "parse_selector a = Inr pa" "parsed_subset pc pa"
  using assms by (auto simp: resource_selector_is_subset_iff)

lemma ex_map_option_Cons:
  "(\<exists>ms. map_option ((#) x) m = Some ms \<and> list_all2 R (c # ds) ms) \<longleftrightarrow>
     R c x \<and> (\<exists>ms. m = Some ms \<and> list_all2 R ds ms)"
  by (cases m) auto

lemma intersect_segments_greatest:
  "length ls = length rs \<Longrightarrow>
   list_all2 segment_allowed cs ls \<and> list_all2 segment_allowed cs rs \<longleftrightarrow>
     (\<exists>ms. intersect_segments ls rs = Some ms \<and> list_all2 segment_allowed cs ms)"
proof (induction ls rs arbitrary: cs rule: intersect_segments.induct)
  case (1 l ls r rs)
  show ?case
  proof (cases cs)
    case (Cons c ds)
    from 1 have len: "length ls = length rs" by simp
    consider "l = r" | "l \<noteq> r" "l = ''*''" | "l \<noteq> r" "l \<noteq> ''*''" "r = ''*''"
      | "l \<noteq> r" "l \<noteq> ''*''" "r \<noteq> ''*''" by blast
    then show ?thesis
    proof cases
      case 1
      with "1.IH"(1) [OF 1 len, of ds] Cons show ?thesis by (simp add: ex_map_option_Cons) blast
    next
      case 2
      with "1.IH"(2) [OF 2 len, of ds] Cons show ?thesis
        by (simp add: ex_map_option_Cons segment_allowed_def) blast
    next
      case 3
      with "1.IH"(3) [OF 3 len, of ds] Cons show ?thesis
        by (simp add: ex_map_option_Cons segment_allowed_def) blast
    next
      case 4
      with Cons show ?thesis by (auto simp: segment_allowed_def)
    qed
  qed simp
qed auto

lemma intersect_segments_Cons_Some:
  "intersect_segments (l # ls) (r # rs) = Some ms \<Longrightarrow>
   \<exists>x ns. (x = l \<or> x = r) \<and> intersect_segments ls rs = Some ns \<and> ms = x # ns"
  by (cases "intersect_segments ls rs") (auto split: if_splits)

lemma intersect_segments_wf:
  "intersect_segments ls rs = Some ms \<Longrightarrow> length ls = length rs \<Longrightarrow>
   length ms = length ls \<and> set ms \<subseteq> set ls \<union> set rs"
proof (induction ls arbitrary: rs ms)
  case (Cons l ls)
  then obtain r rs' where rs: "rs = r # rs'" by (cases rs) auto
  with Cons.prems obtain x ns where x: "x = l \<or> x = r" "intersect_segments ls rs' = Some ns" "ms = x # ns"
    using intersect_segments_Cons_Some [of l ls r rs' ms] by (auto simp del: intersect_segments.simps)
  have "length ns = length ls \<and> set ns \<subseteq> set ls \<union> set rs'"
    using Cons.IH [OF x(2)] Cons.prems(2) rs by simp
  moreover have "x \<in> set (l # ls) \<union> set rs" using x(1) rs by auto
  moreover have "set rs' \<subseteq> set rs" using rs by auto
  ultimately show ?case unfolding x(3) by auto
qed simp

lemma intersect_resource_selectors_cases:
  assumes "intersect_resource_selectors l r = Inr res"
  obtains (parsed) pl pr where
    "parse_selector l = Inr pl" "parse_selector r = Inr pr"
    "res = (if ps_separators pl = ps_separators pr \<and>
               length (ps_segments pl) = length (ps_segments pr)
            then map_option (\<lambda>ms. render \<lparr>ps_segments = ms, ps_separators = ps_separators pl\<rparr>)
                   (intersect_segments (ps_segments pl) (ps_segments pr))
            else None)"
proof -
  from assms obtain pl pr where p: "parse_selector l = Inr pl" "parse_selector r = Inr pr"
    unfolding intersect_resource_selectors_def and_then_Inr_iff by blast
  show thesis
    by (rule parsed [OF p]) (use assms p in \<open>cases "intersect_segments (ps_segments pl) (ps_segments pr)";
      simp add: intersect_resource_selectors_def split: if_splits\<close>)
qed

lemma intersection_parses:
  assumes "parse_selector l = Inr pl" "parse_selector r = Inr pr"
    and "ps_separators pl = ps_separators pr"
    and "length (ps_segments pl) = length (ps_segments pr)"
    and "intersect_segments (ps_segments pl) (ps_segments pr) = Some ms"
  shows "parse_selector (render \<lparr>ps_segments = ms, ps_separators = ps_separators pl\<rparr>)
    = Inr \<lparr>ps_segments = ms, ps_separators = ps_separators pl\<rparr>"
proof (rule parse_selector_render)
  have "wf_parsed pl" "wf_parsed pr" using assms(1,2) by (simp_all add: parse_selector_iff)
  with intersect_segments_wf [OF assms(5,4)] assms(3,4)
  show "wf_parsed \<lparr>ps_segments = ms, ps_separators = ps_separators pl\<rparr>"
    by (auto simp: wf_parsed_def)
qed

lemma intersection_greatest:
  assumes "intersect_resource_selectors l r = Inr res"
  shows "resource_selector_is_subset c l \<and> resource_selector_is_subset c r \<longleftrightarrow>
    (\<exists>m. res = Some m \<and> resource_selector_is_subset c m)"
  using assms
proof (cases rule: intersect_resource_selectors_cases)
  case (parsed pl pr)
  show ?thesis
  proof (cases "ps_separators pl = ps_separators pr \<and>
               length (ps_segments pl) = length (ps_segments pr)")
    case True
    let ?q = "\<lambda>ms. \<lparr>ps_segments = ms, ps_separators = ps_separators pl\<rparr>"
    let ?i = "intersect_segments (ps_segments pl) (ps_segments pr)"
    show ?thesis
    proof (cases "parse_selector c")
      case (Inr pc)
      have "parsed_subset pc pl \<and> parsed_subset pc pr \<longleftrightarrow>
          (\<exists>ms. ?i = Some ms \<and> parsed_subset pc (?q ms))"
        using True intersect_segments_greatest [of "ps_segments pl" "ps_segments pr" "ps_segments pc"]
        unfolding parsed_subset_def by auto
      moreover have "resource_selector_is_subset c (render (?q ms)) = parsed_subset pc (?q ms)"
        if "?i = Some ms" for ms
        using subset_parsed [OF Inr intersection_parses] parsed(1,2) True that by blast
      ultimately show ?thesis
        using parsed True Inr by (cases ?i) (simp_all add: subset_parsed)
    next
      case (Inl e)
      then show ?thesis by (simp add: resource_selector_is_subset_iff)
    qed
  next
    case False
    then have "\<not> (resource_selector_is_subset c l \<and> resource_selector_is_subset c r)"
      using parsed(1,2) unfolding resource_selector_is_subset_iff parsed_subset_def
      by (metis list_all2_lengthD sum.inject(2))
    moreover have "res = None" using False parsed(3) by (simp only: if_False)
    ultimately show ?thesis by simp
  qed
qed

lemma intersection_defined:
  "is_ok (intersect_resource_selectors l r) \<longleftrightarrow>
     is_ok (parse_selector l) \<and> is_ok (parse_selector r)"
  by (cases "parse_selector l"; cases "parse_selector r")
     (simp_all add: intersect_resource_selectors_def is_ok_and_then split: option.splits)

lemma segment_allowed_refl [simp]: "segment_allowed s s"
  by (simp add: segment_allowed_def)

lemma segment_allowed_trans:
  "segment_allowed a b \<Longrightarrow> segment_allowed b c \<Longrightarrow> segment_allowed a c"
  by (auto simp: segment_allowed_def)

lemma resource_selector_subset_refl:
  "parse_selector s = Inr p \<Longrightarrow> resource_selector_is_subset s s"
  by (simp add: resource_selector_is_subset_iff parsed_subset_def list_all2_refl)

lemma resource_selector_subset_trans:
  assumes "resource_selector_is_subset a b" "resource_selector_is_subset b c"
  shows "resource_selector_is_subset a c"
proof -
  obtain pa pb where ab: "parse_selector a = Inr pa" "parse_selector b = Inr pb" "parsed_subset pa pb"
    using assms(1) by (rule subset_parses)
  obtain pc where bc: "parse_selector c = Inr pc" "parsed_subset pb pc"
    using assms(2) ab(2) by (auto elim: subset_parses)
  have "list_all2 segment_allowed (ps_segments pa) (ps_segments pc)"
    by (rule list_all2_trans [of segment_allowed segment_allowed _ _ "ps_segments pb"])
       (use ab(3) bc(2) in \<open>simp_all add: parsed_subset_def segment_allowed_trans\<close>)
  with ab bc show ?thesis by (simp add: subset_parsed parsed_subset_def)
qed

lemma selector_result_parses:
  assumes "intersect_resource_selectors l r = Inr (Some m)"
  shows "is_ok (parse_selector m)"
  using assms
proof (cases rule: intersect_resource_selectors_cases)
  case (parsed pl pr)
  then obtain ms where "ps_separators pl = ps_separators pr"
    "length (ps_segments pl) = length (ps_segments pr)"
    "intersect_segments (ps_segments pl) (ps_segments pr) = Some ms"
    "m = render \<lparr>ps_segments = ms, ps_separators = ps_separators pl\<rparr>"
    by (cases "intersect_segments (ps_segments pl) (ps_segments pr)") (auto split: if_splits)
  with intersection_parses [OF parsed(1,2)] show ?thesis by (simp add: is_ok_iff)
qed

section \<open>The interface the authority computation uses\<close>

text \<open>
  A list of selectors bounds a list of selectors when each of the former lies below one of
  the latter. Intersecting two lists pairwise gives the greatest list below both; this is
  proved once, from the laws of the order and of the intersection on single selectors.
\<close>

definition covers :: "('s \<Rightarrow> 's \<Rightarrow> bool) \<Rightarrow> 's list \<Rightarrow> 's list \<Rightarrow> bool" where
  "covers leq xs ys = (\<forall>x \<in> set xs. \<exists>y \<in> set ys. leq x y)"

locale selector_order =
  fixes valid :: "'s \<Rightarrow> bool"
    and leq :: "'s \<Rightarrow> 's \<Rightarrow> bool"
    and meet :: "'s \<Rightarrow> 's \<Rightarrow> ('e, 's option) result"
  assumes leq_valid: "leq x y \<Longrightarrow> valid x \<and> valid y"
    and leq_refl: "valid x \<Longrightarrow> leq x x"
    and leq_trans: "leq x y \<Longrightarrow> leq y z \<Longrightarrow> leq x z"
    and meet_total: "valid x \<Longrightarrow> valid y \<Longrightarrow> \<exists>res. meet x y = Inr res"
    and meet_greatest:
      "meet x y = Inr res \<Longrightarrow> leq c x \<and> leq c y \<longleftrightarrow> (\<exists>m. res = Some m \<and> leq c m)"
begin

lemma covers_refl: "\<forall>x \<in> set xs. valid x \<Longrightarrow> covers leq xs xs"
  using leq_refl by (auto simp: covers_def)

lemma covers_trans: "covers leq xs ys \<Longrightarrow> covers leq ys zs \<Longrightarrow> covers leq xs zs"
  unfolding covers_def using leq_trans by meson

lemma covers_valid: "covers leq xs ys \<Longrightarrow> x \<in> set xs \<Longrightarrow> valid x"
  unfolding covers_def using leq_valid by meson

lemma pairwise_selector:
  assumes ms: "set ms = {m. \<exists>l \<in> set ls. \<exists>r \<in> set rs. meet l r = Inr (Some m)}"
    and ok: "\<forall>l \<in> set ls. \<forall>r \<in> set rs. \<exists>res. meet l r = Inr res"
  shows "(\<exists>m \<in> set ms. leq c m) \<longleftrightarrow> (\<exists>l \<in> set ls. leq c l) \<and> (\<exists>r \<in> set rs. leq c r)"
proof
  assume "\<exists>m \<in> set ms. leq c m"
  then obtain m l r where "leq c m" "l \<in> set ls" "r \<in> set rs" "meet l r = Inr (Some m)"
    using ms by auto
  with meet_greatest [of l r "Some m" c]
  show "(\<exists>l \<in> set ls. leq c l) \<and> (\<exists>r \<in> set rs. leq c r)" by auto
next
  assume "(\<exists>l \<in> set ls. leq c l) \<and> (\<exists>r \<in> set rs. leq c r)"
  then obtain l r where lr: "l \<in> set ls" "leq c l" "r \<in> set rs" "leq c r" by auto
  then obtain res where "meet l r = Inr res" using ok by blast
  moreover obtain m where "res = Some m" "leq c m"
    using meet_greatest [OF calculation, of c] lr by auto
  ultimately show "\<exists>m \<in> set ms. leq c m" using lr ms by auto
qed

lemma pairwise_covers:
  assumes "set ms = {m. \<exists>l \<in> set ls. \<exists>r \<in> set rs. meet l r = Inr (Some m)}"
    and "\<forall>l \<in> set ls. \<forall>r \<in> set rs. \<exists>res. meet l r = Inr res"
  shows "covers leq xs ms \<longleftrightarrow> covers leq xs ls \<and> covers leq xs rs"
  unfolding covers_def pairwise_selector [OF assms] by blast

end

definition valid_selector :: "string \<Rightarrow> bool" where
  "valid_selector s = is_ok (parse_selector s)"

interpretation sel: selector_order valid_selector resource_selector_is_subset
  intersect_resource_selectors
proof unfold_locales
  fix x y assume "resource_selector_is_subset x y"
  then show "valid_selector x \<and> valid_selector y"
    by (auto simp: valid_selector_def elim: subset_parses)
next
  fix x assume "valid_selector x"
  then show "resource_selector_is_subset x x"
    by (auto simp: valid_selector_def is_ok_iff intro: resource_selector_subset_refl)
next
  fix x y assume "valid_selector x" "valid_selector y"
  then show "\<exists>res. intersect_resource_selectors x y = Inr res"
    by (simp add: valid_selector_def intersection_defined flip: is_ok_iff)
qed (fact resource_selector_subset_trans intersection_greatest)+

section \<open>Properties\<close>

text \<open>
  Parsing a resource selector and rendering are inverse: a string parses exactly when it
  is the rendering of a well-formed selector (non-empty segments without separators, wildcards
  only as whole segments, no unresolved context placeholder), and it parses to that selector.
\<close>

lemma selector_parse_render:
  "parse_selector v = Inr p \<longleftrightarrow> wf_parsed p \<and> v = render p"
  by (rule parse_selector_iff)

text \<open>
  The intersection of two selectors is their greatest lower bound: a selector lies below
  both operands exactly when an intersection is returned and it lies below that, so an
  intersection never widens either operand and never loses a resource both allow; and the
  returned selector itself parses.
\<close>

lemma selector_intersection_is_meet:
  assumes "intersect_resource_selectors l r = Inr res"
  shows "(resource_selector_is_subset c l \<and> resource_selector_is_subset c r \<longleftrightarrow>
      (\<exists>m. res = Some m \<and> resource_selector_is_subset c m))
    \<and> (\<forall>m. res = Some m \<longrightarrow>
         is_ok (parse_selector m) \<and> resource_selector_is_subset m l \<and> resource_selector_is_subset m r)"
proof -
  have "is_ok (parse_selector m)" if "res = Some m" for m
    using assms that selector_result_parses by blast
  then show ?thesis
    using sel.meet_greatest [OF assms] sel.leq_refl valid_selector_def by blast
qed

end
