(* ===== verification/KF_Authority.thy ===== *)
theory KF_Authority
  imports KF_Grants KF_Resource
begin

text \<open>
  Authority intersection: \<open>crates/kiteframe-provider/src/authority.rs\<close>. Every source of authority
  answers a requirement with an allow or a deny; the effective grant is what all of them allow.
  Each dimension of a grant interprets the locale \<open>partial_meet\<close> of the prelude, and the
  resource lists rest on \<open>selector_order\<close>, so the whole computation is a greatest lower bound.
\<close>

section \<open>Terms and the order on grants\<close>

datatype authority_term = Allow effective_grant | Deny string

fun is_explicit_deny :: "authority_term \<Rightarrow> bool" where
  "is_explicit_deny (Deny _) = True"
| "is_explicit_deny (Allow _) = False"

fun allow_value :: "authority_term \<Rightarrow> effective_grant option" where
  "allow_value (Allow g) = Some g"
| "allow_value (Deny _) = None"

definition denied :: "string \<Rightarrow> diagnostic" where
  "denied message = diagnostic_error AdmissionDenied CatAuthorization StageAdmit message"

definition denied_list :: "string \<Rightarrow> diagnostic list" where
  "denied_list message = [denied message]"

fun bound_is_at_least :: "u64 option \<Rightarrow> u64 option \<Rightarrow> bool" where
  "bound_is_at_least effective None = True"
| "bound_is_at_least (Some e) (Some b) = (e \<le> b)"
| "bound_is_at_least None (Some b) = False"

definition freshness_is_at_least :: "freshness_requirement \<Rightarrow> freshness_requirement \<Rightarrow> bool" where
  "freshness_is_at_least effective baseline =
     (bound_is_at_least (fr_max_admission_age effective) (fr_max_admission_age baseline)
      \<and> bound_is_at_least (fr_max_input_age effective) (fr_max_input_age baseline)
      \<and> (\<not> fr_policy_revision_required baseline \<or> fr_policy_revision_required effective))"

definition confirmation_is_at_least ::
  "confirmation_requirement \<Rightarrow> confirmation_requirement \<Rightarrow> bool" where
  "confirmation_is_at_least effective baseline =
     (baseline = ConfirmationNone \<or> effective = baseline)"

definition approval_is_at_least :: "approval_requirement \<Rightarrow> approval_requirement \<Rightarrow> bool" where
  "approval_is_at_least effective baseline = (baseline = ApprovalNone \<or> effective = baseline)"

definition consent_is_at_least :: "consent_requirement \<Rightarrow> consent_requirement \<Rightarrow> bool" where
  "consent_is_at_least effective baseline = (baseline = ConsentNone \<or> effective = baseline)"

definition evidence_is_at_least :: "required_evidence \<Rightarrow> required_evidence \<Rightarrow> bool" where
  "evidence_is_at_least effective baseline =
     (confirmation_is_at_least (re_confirmation effective) (re_confirmation baseline)
      \<and> approval_is_at_least (re_approval effective) (re_approval baseline)
      \<and> consent_is_at_least (re_consent effective) (re_consent baseline))"

definition grant_is_subset_of :: "effective_grant \<Rightarrow> effective_grant \<Rightarrow> bool" where
  "grant_is_subset_of g other =
     (eg_capability g = eg_capability other
      \<and> (\<forall>resource \<in> set (eg_resources g).
           \<exists>allowed \<in> set (eg_resources other). resource_selector_is_subset resource allowed)
      \<and> eg_execution_modes g \<subseteq> eg_execution_modes other
      \<and> eg_maximum_effect g \<le> eg_maximum_effect other
      \<and> eg_expires_at g \<le> eg_expires_at other
      \<and> evidence_is_at_least (eg_required_evidence g) (eg_required_evidence other)
      \<and> freshness_is_at_least (eg_freshness g) (eg_freshness other)
      \<and> (\<forall>p \<in> set (eg_preconditions other). p \<in> set (eg_preconditions g)))"

section \<open>Intersections, dimension by dimension\<close>

fun minimum_bound :: "u64 option \<Rightarrow> u64 option \<Rightarrow> u64 option" where
  "minimum_bound (Some l) (Some r) = Some (min l r)"
| "minimum_bound (Some v) None = Some v"
| "minimum_bound None (Some v) = Some v"
| "minimum_bound None None = None"

definition intersect_freshness ::
  "freshness_requirement \<Rightarrow> freshness_requirement \<Rightarrow> freshness_requirement" where
  "intersect_freshness l r =
     \<lparr>fr_max_admission_age = minimum_bound (fr_max_admission_age l) (fr_max_admission_age r),
      fr_policy_revision_required = (fr_policy_revision_required l \<or> fr_policy_revision_required r),
      fr_max_input_age = minimum_bound (fr_max_input_age l) (fr_max_input_age r)\<rparr>"

fun confirmation_intersection ::
  "confirmation_requirement \<Rightarrow> confirmation_requirement \<Rightarrow>
     (diagnostic list, confirmation_requirement) result" where
  "confirmation_intersection ConfirmationNone value = Inr value"
| "confirmation_intersection value ConfirmationNone = Inr value"
| "confirmation_intersection (ConfirmationRequired l) (ConfirmationRequired r) =
     (if l = r then Inr (ConfirmationRequired l)
      else Inl (denied_list ''confirmation evidence requirements conflict''))"

fun approval_intersection ::
  "approval_requirement \<Rightarrow> approval_requirement \<Rightarrow> (diagnostic list, approval_requirement) result" where
  "approval_intersection ApprovalNone value = Inr value"
| "approval_intersection value ApprovalNone = Inr value"
| "approval_intersection (ApprovalRequired l) (ApprovalRequired r) =
     (if l = r then Inr (ApprovalRequired l)
      else Inl (denied_list ''approval evidence requirements conflict''))"

fun consent_intersection ::
  "consent_requirement \<Rightarrow> consent_requirement \<Rightarrow> (diagnostic list, consent_requirement) result" where
  "consent_intersection ConsentNone value = Inr value"
| "consent_intersection value ConsentNone = Inr value"
| "consent_intersection (ConsentRequired l) (ConsentRequired r) =
     (if l = r then Inr (ConsentRequired l)
      else Inl (denied_list ''consent evidence requirements conflict''))"

definition intersect_evidence ::
  "required_evidence \<Rightarrow> required_evidence \<Rightarrow> (diagnostic list, required_evidence) result" where
  "intersect_evidence l r =
     and_then (confirmation_intersection (re_confirmation l) (re_confirmation r)) (\<lambda>confirmation.
     and_then (approval_intersection (re_approval l) (re_approval r)) (\<lambda>approval.
     and_then (consent_intersection (re_consent l) (re_consent r)) (\<lambda>consent.
     Inr \<lparr>re_confirmation = confirmation, re_approval = approval, re_consent = consent\<rparr>)))"

definition validate_selector :: "string \<Rightarrow> (string, unit) result" where
  "validate_selector value = map_ok (\<lambda>_. ()) (intersect_resource_selectors value value)"

definition intersect_one ::
  "string \<Rightarrow> string \<Rightarrow> (diagnostic list, string list) result" where
  "intersect_one l r =
     and_then (map_err denied_list (validate_selector r)) (\<lambda>_.
     map_ok (\<lambda>m. case m of None \<Rightarrow> [] | Some s \<Rightarrow> [s])
       (map_err denied_list (intersect_resource_selectors l r)))"

definition intersect_resource_sets ::
  "string list \<Rightarrow> string list \<Rightarrow> (diagnostic list, string list) result" where
  "intersect_resource_sets left right =
     map_ok (\<lambda>found. btree_set (concat found))
       (try_map (\<lambda>l.
          and_then (map_err denied_list (validate_selector l)) (\<lambda>_.
          map_ok concat (try_map (intersect_one l) right))) left)"

fun narrow_resources ::
  "string list \<Rightarrow> effective_grant list \<Rightarrow> (diagnostic list, string list option) result" where
  "narrow_resources resources [] = Inr (Some resources)"
| "narrow_resources resources (g # gs) =
     and_then (intersect_resource_sets resources (eg_resources g)) (\<lambda>narrowed.
       if narrowed = [] then Inr None else narrow_resources narrowed gs)"

fun minimum_expiry :: "effective_grant list \<Rightarrow> u64" where
  "minimum_expiry [] = u64_max"
| "minimum_expiry [g] = eg_expires_at g"
| "minimum_expiry (g # gs) = min (eg_expires_at g) (minimum_expiry gs)"

definition descriptor_evidence :: "capability_descriptor \<Rightarrow> required_evidence" where
  "descriptor_evidence d =
     \<lparr>re_confirmation = cd_confirmation d, re_approval = cd_approval d, re_consent = cd_consent d\<rparr>"

definition intersect_modes :: "execution_mode set \<Rightarrow> effective_grant list \<Rightarrow> execution_mode set" where
  "intersect_modes modes grants = fold (\<lambda>g ms. ms \<inter> eg_execution_modes g) grants modes"

definition minimum_effect ::
  "effect_classification \<Rightarrow> effective_grant list \<Rightarrow> effect_classification" where
  "minimum_effect effect grants = fold (\<lambda>g e. min e (eg_maximum_effect g)) grants effect"

definition gather_evidence ::
  "capability_descriptor \<Rightarrow> effective_grant list \<Rightarrow> (diagnostic list, required_evidence) result" where
  "gather_evidence d grants =
     try_fold intersect_evidence (map eg_required_evidence grants) (descriptor_evidence d)"

definition gather_freshness ::
  "freshness_requirement \<Rightarrow> effective_grant list \<Rightarrow> freshness_requirement" where
  "gather_freshness freshness grants =
     fold (\<lambda>g f. intersect_freshness f (eg_freshness g)) grants freshness"

definition gather_preconditions ::
  "precondition_descriptor list \<Rightarrow> effective_grant list \<Rightarrow> precondition_descriptor list" where
  "gather_preconditions ps grants = sort_dedup (ps @ concat (map eg_preconditions grants))"

definition combine_grants ::
  "resolved_requirement \<Rightarrow> effective_grant list \<Rightarrow> string list \<Rightarrow>
     (diagnostic list, effective_grant option) result" where
  "combine_grants requirement grants resources =
     (let descriptor = rr_descriptor requirement in
      if intersect_modes (cd_execution_modes descriptor) grants = {} then Inr None
      else
        and_then (gather_evidence descriptor grants) (\<lambda>evidence.
        and_then (map_err denied_list
            (try_map (string_ref_new ''resource selector is required'') resources)) (\<lambda>selectors.
        map_ok Some (map_err denied_list (effective_grant_try_new
          \<lparr>eg_capability = rr_identity requirement, eg_resources = selectors,
           eg_execution_modes = intersect_modes (cd_execution_modes descriptor) grants,
           eg_maximum_effect = minimum_effect (cd_effect descriptor) grants,
           eg_expires_at = minimum_expiry grants,
           eg_required_evidence = evidence,
           eg_freshness = gather_freshness (cd_freshness descriptor) grants,
           eg_preconditions = gather_preconditions (cd_preconditions descriptor) grants\<rparr>)))))"

definition intersect_authority ::
  "resolved_requirement \<Rightarrow> authority_term list \<Rightarrow> (diagnostic list, effective_grant option) result" where
  "intersect_authority requirement terms =
     (if terms = [] \<or> (\<exists>t \<in> set terms. is_explicit_deny t) then Inr None
      else
        let grants = List.map_filter allow_value terms in
        if grants = [] \<or> (\<exists>g \<in> set grants. eg_capability g \<noteq> rr_identity requirement) then Inr None
        else and_then (narrow_resources (rr_resources requirement) grants) (\<lambda>narrowed.
          case narrowed of
            None \<Rightarrow> Inr None
          | Some resources \<Rightarrow> combine_grants requirement grants resources))"

section \<open>Each dimension is a partial meet\<close>

lemma bound_is_at_least_iff:
  "bound_is_at_least e b \<longleftrightarrow> (\<forall>m. b = Some m \<longrightarrow> (\<exists>n. e = Some n \<and> n \<le> m))"
  by (cases "(e, b)" rule: bound_is_at_least.cases) auto

lemma bound_refl [simp]: "bound_is_at_least b b"
  by (simp add: bound_is_at_least_iff)

lemma bound_trans: "bound_is_at_least a b \<Longrightarrow> bound_is_at_least b c \<Longrightarrow> bound_is_at_least a c"
  by (cases a; cases b; cases c) auto

lemma bound_meet:
  "bound_is_at_least c (minimum_bound x y) \<longleftrightarrow> bound_is_at_least c x \<and> bound_is_at_least c y"
  by (cases c; cases x; cases y) auto

interpretation fresh: partial_meet freshness_is_at_least "\<lambda>a b. Inr (intersect_freshness a b)"
  by unfold_locales
     (auto simp: freshness_is_at_least_def intersect_freshness_def bound_meet intro: bound_trans)

interpretation modes: partial_meet "(\<subseteq>) :: execution_mode set \<Rightarrow> _" "\<lambda>a b. Inr (a \<inter> b)"
  by unfold_locales auto

interpretation effect: partial_meet "(\<le>) :: effect_classification \<Rightarrow> _" "\<lambda>a b. Inr (min a b)"
  by unfold_locales auto

interpretation confirm: partial_meet confirmation_is_at_least confirmation_intersection
proof unfold_locales
  fix x y m c assume "confirmation_intersection x y = Inr m"
  then show "confirmation_is_at_least c m \<longleftrightarrow>
      confirmation_is_at_least c x \<and> confirmation_is_at_least c y"
    by (cases "(x, y)" rule: confirmation_intersection.cases)
       (auto simp: confirmation_is_at_least_def split: if_splits)
qed (auto simp: confirmation_is_at_least_def)

interpretation approve: partial_meet approval_is_at_least approval_intersection
proof unfold_locales
  fix x y m c assume "approval_intersection x y = Inr m"
  then show "approval_is_at_least c m \<longleftrightarrow> approval_is_at_least c x \<and> approval_is_at_least c y"
    by (cases "(x, y)" rule: approval_intersection.cases)
       (auto simp: approval_is_at_least_def split: if_splits)
qed (auto simp: approval_is_at_least_def)

interpretation consent: partial_meet consent_is_at_least consent_intersection
proof unfold_locales
  fix x y m c assume "consent_intersection x y = Inr m"
  then show "consent_is_at_least c m \<longleftrightarrow> consent_is_at_least c x \<and> consent_is_at_least c y"
    by (cases "(x, y)" rule: consent_intersection.cases)
       (auto simp: consent_is_at_least_def split: if_splits)
qed (auto simp: consent_is_at_least_def)

interpretation evidence: partial_meet evidence_is_at_least intersect_evidence
proof unfold_locales
  fix x y z m c
  show "evidence_is_at_least x x"
    by (simp add: evidence_is_at_least_def confirm.leq_refl approve.leq_refl consent.leq_refl)
  show "evidence_is_at_least x z" if "evidence_is_at_least x y" "evidence_is_at_least y z"
    using that confirm.leq_trans approve.leq_trans consent.leq_trans
    unfolding evidence_is_at_least_def by blast
  show "evidence_is_at_least c m \<longleftrightarrow> evidence_is_at_least c x \<and> evidence_is_at_least c y"
    if "intersect_evidence x y = Inr m"
    using that
    by (auto simp: intersect_evidence_def evidence_is_at_least_def confirm.meet_greatest
        approve.meet_greatest consent.meet_greatest)
qed

section \<open>Resource lists\<close>

lemma validate_selector_ok [simp]: "validate_selector s = Inr u \<longleftrightarrow> valid_selector s"
  using intersection_defined [of s s]
  by (auto simp: validate_selector_def valid_selector_def is_ok_iff)

lemma intersect_one_Inr:
  "intersect_one l r = Inr ms \<Longrightarrow>
   valid_selector r \<and> set ms = {m. intersect_resource_selectors l r = Inr (Some m)}"
  by (auto simp: intersect_one_def split: option.splits)

lemma intersect_row_Inr:
  assumes "try_map (intersect_one l) rs = Inr rows"
  shows "set (concat rows) = {m. \<exists>r \<in> set rs. intersect_resource_selectors l r = Inr (Some m)}"
    and "\<forall>r \<in> set rs. valid_selector r"
proof -
  note elements = try_map_elements [OF assms]
  show "\<forall>r \<in> set rs. valid_selector r"
    using elements(1) intersect_one_Inr by blast
  have "set (concat rows) = (\<Union>r \<in> set rs. {m. intersect_resource_selectors l r = Inr (Some m)})"
  proof (intro equalityI subsetI)
    fix m assume "m \<in> set (concat rows)"
    then obtain row where "row \<in> set rows" "m \<in> set row" by auto
    with elements(2) intersect_one_Inr [of l _ row]
    show "m \<in> (\<Union>r \<in> set rs. {m. intersect_resource_selectors l r = Inr (Some m)})" by blast
  next
    fix m assume "m \<in> (\<Union>r \<in> set rs. {m. intersect_resource_selectors l r = Inr (Some m)})"
    then obtain r where r: "r \<in> set rs" "intersect_resource_selectors l r = Inr (Some m)" by auto
    then obtain row where "row \<in> set rows" "intersect_one l r = Inr row" using elements(1) by blast
    with r intersect_one_Inr [of l r row] show "m \<in> set (concat rows)" by auto
  qed
  then show "set (concat rows) = {m. \<exists>r \<in> set rs. intersect_resource_selectors l r = Inr (Some m)}"
    by auto
qed

lemma intersect_resource_sets_Inr:
  assumes "intersect_resource_sets ls rs = Inr ms"
  shows "set ms = {m. \<exists>l \<in> set ls. \<exists>r \<in> set rs. intersect_resource_selectors l r = Inr (Some m)}"
    and "\<forall>l \<in> set ls. \<forall>r \<in> set rs. \<exists>res. intersect_resource_selectors l r = Inr res"
    and "sorted ms" "distinct ms"
proof -
  let ?row = "\<lambda>l. and_then (map_err denied_list (validate_selector l))
      (\<lambda>_. map_ok concat (try_map (intersect_one l) rs))"
  obtain found where found: "try_map ?row ls = Inr found" and ms: "ms = btree_set (concat found)"
    using assms by (auto simp: intersect_resource_sets_def)
  have row: "valid_selector l \<and> (\<forall>r \<in> set rs. valid_selector r) \<and>
      set f = {m. \<exists>r \<in> set rs. intersect_resource_selectors l r = Inr (Some m)}"
    if "?row l = Inr f" for l f
    using that intersect_row_Inr [of l rs] by auto
  note elements = try_map_elements [OF found]
  have "set (concat found) = (\<Union>l \<in> set ls. {m. \<exists>r \<in> set rs. intersect_resource_selectors l r = Inr (Some m)})"
  proof (intro equalityI subsetI)
    fix m assume "m \<in> set (concat found)"
    then obtain f where "f \<in> set found" "m \<in> set f" by auto
    moreover then obtain l where "l \<in> set ls" "?row l = Inr f" using elements(2) by blast
    ultimately show "m \<in> (\<Union>l \<in> set ls. {m. \<exists>r \<in> set rs. intersect_resource_selectors l r = Inr (Some m)})"
      using row [of l f] by blast
  next
    fix m assume "m \<in> (\<Union>l \<in> set ls. {m. \<exists>r \<in> set rs. intersect_resource_selectors l r = Inr (Some m)})"
    then obtain l where l: "l \<in> set ls" "\<exists>r \<in> set rs. intersect_resource_selectors l r = Inr (Some m)"
      by auto
    then obtain f where "f \<in> set found" "?row l = Inr f" using elements(1) by blast
    with l row [of l f] show "m \<in> set (concat found)" by auto
  qed
  then show "set ms = {m. \<exists>l \<in> set ls. \<exists>r \<in> set rs. intersect_resource_selectors l r = Inr (Some m)}"
    by (auto simp: ms)
  show "\<forall>l \<in> set ls. \<forall>r \<in> set rs. \<exists>res. intersect_resource_selectors l r = Inr res"
  proof (intro ballI)
    fix l r assume lr: "l \<in> set ls" "r \<in> set rs"
    then obtain f where "?row l = Inr f" using elements(1) by blast
    with row [of l f] lr show "\<exists>res. intersect_resource_selectors l r = Inr res"
      by (intro sel.meet_total) auto
  qed
  show "sorted ms" "distinct ms" by (simp_all add: ms)
qed

abbreviation resources_cover :: "string list \<Rightarrow> string list \<Rightarrow> bool" where
  "resources_cover \<equiv> covers resource_selector_is_subset"

lemma intersect_resource_sets_covers:
  assumes "intersect_resource_sets ls rs = Inr ms"
  shows "resources_cover xs ms \<longleftrightarrow> resources_cover xs ls \<and> resources_cover xs rs"
  using intersect_resource_sets_Inr [OF assms] by (intro sel.pairwise_covers) auto

lemma intersect_resource_sets_valid:
  assumes "intersect_resource_sets ls rs = Inr ms" "m \<in> set ms"
  shows "valid_selector m"
proof -
  obtain l r where "intersect_resource_selectors l r = Inr (Some m)"
    using intersect_resource_sets_Inr(1) [OF assms(1)] assms(2) by auto
  then show ?thesis
    using selector_result_parses by (auto simp: valid_selector_def)
qed

lemma narrow_resources_covers:
  "narrow_resources rs gs = Inr (Some ms) \<Longrightarrow>
   resources_cover xs ms \<longleftrightarrow>
     resources_cover xs rs \<and> (\<forall>g \<in> set gs. resources_cover xs (eg_resources g))"
proof (induction gs arbitrary: rs)
  case (Cons g gs)
  then obtain narrowed where
    n: "intersect_resource_sets rs (eg_resources g) = Inr narrowed"
      "narrow_resources narrowed gs = Inr (Some ms)"
    by (auto split: if_splits)
  with Cons.IH [of narrowed] intersect_resource_sets_covers [OF n(1), of xs] show ?case by auto
qed simp

lemma narrow_resources_result:
  "narrow_resources rs gs = Inr (Some ms) \<Longrightarrow> gs \<noteq> [] \<Longrightarrow>
   ms \<noteq> [] \<and> sorted ms \<and> distinct ms \<and> (\<forall>m \<in> set ms. valid_selector m)"
proof (induction gs arbitrary: rs)
  case (Cons g gs)
  then obtain narrowed where
    n: "intersect_resource_sets rs (eg_resources g) = Inr narrowed" "narrowed \<noteq> []"
      "narrow_resources narrowed gs = Inr (Some ms)"
    by (auto split: if_splits)
  show ?case
  proof (cases "gs = []")
    case True
    with n intersect_resource_sets_Inr(3,4) [OF n(1)] intersect_resource_sets_valid [OF n(1)]
    show ?thesis by auto
  next
    case False
    with Cons.IH [OF n(3)] show ?thesis by blast
  qed
qed simp

lemma narrow_resources_None:
  "narrow_resources rs gs = Inr None \<Longrightarrow> xs \<noteq> [] \<Longrightarrow>
   \<not> (resources_cover xs rs \<and> (\<forall>g \<in> set gs. resources_cover xs (eg_resources g)))"
proof (induction gs arbitrary: rs)
  case (Cons g gs)
  then obtain narrowed where
    n: "intersect_resource_sets rs (eg_resources g) = Inr narrowed" by auto
  show ?case
  proof (cases "narrowed = []")
    case True
    with \<open>xs \<noteq> []\<close> have "\<not> resources_cover xs narrowed" by (cases xs) (auto simp: covers_def)
    with intersect_resource_sets_covers [OF n, of xs] show ?thesis by auto
  next
    case False
    with Cons n Cons.IH [of narrowed] intersect_resource_sets_covers [OF n, of xs] show ?thesis
      by auto
  qed
qed simp

section \<open>The intersection as a whole\<close>

text \<open>
  \<open>within_requirement h r\<close> says that a grant \<open>h\<close> keeps to the locked requirement itself, in the
  same dimensions as \<open>grant_is_subset_of\<close> (the expiry is bounded by the terms only).
\<close>

definition within_requirement :: "effective_grant \<Rightarrow> resolved_requirement \<Rightarrow> bool" where
  "within_requirement h r =
     (eg_capability h = rr_identity r
      \<and> resources_cover (eg_resources h) (rr_resources r)
      \<and> eg_execution_modes h \<subseteq> cd_execution_modes (rr_descriptor r)
      \<and> eg_maximum_effect h \<le> cd_effect (rr_descriptor r)
      \<and> evidence_is_at_least (eg_required_evidence h) (descriptor_evidence (rr_descriptor r))
      \<and> freshness_is_at_least (eg_freshness h) (cd_freshness (rr_descriptor r))
      \<and> set (cd_preconditions (rr_descriptor r)) \<subseteq> set (eg_preconditions h))"

definition allowed_by :: "effective_grant \<Rightarrow> authority_term list \<Rightarrow> bool" where
  "allowed_by h terms = (\<forall>t \<in> set terms. \<exists>g. t = Allow g \<and> grant_is_subset_of h g)"

lemma grant_is_subset_of_cover:
  "grant_is_subset_of g other \<longleftrightarrow>
     eg_capability g = eg_capability other
     \<and> resources_cover (eg_resources g) (eg_resources other)
     \<and> eg_execution_modes g \<subseteq> eg_execution_modes other
     \<and> eg_maximum_effect g \<le> eg_maximum_effect other
     \<and> eg_expires_at g \<le> eg_expires_at other
     \<and> evidence_is_at_least (eg_required_evidence g) (eg_required_evidence other)
     \<and> freshness_is_at_least (eg_freshness g) (eg_freshness other)
     \<and> set (eg_preconditions other) \<subseteq> set (eg_preconditions g)"
  by (auto simp: grant_is_subset_of_def covers_def)

lemma allow_terms:
  "\<not> (\<exists>t \<in> set terms. is_explicit_deny t) \<Longrightarrow> terms = map Allow (List.map_filter allow_value terms)"
proof (induction terms)
  case (Cons t ts)
  then show ?case by (cases t) (auto simp: map_filter_simps)
qed (simp add: map_filter_simps)

lemma allow_value_map [simp]: "List.map_filter allow_value (map Allow gs) = gs"
  by (induction gs) (auto simp: map_filter_simps)

lemma allowed_by_map: "allowed_by h (map Allow gs) \<longleftrightarrow> (\<forall>g \<in> set gs. grant_is_subset_of h g)"
  by (auto simp: allowed_by_def)

lemma minimum_expiry_le:
  "gs \<noteq> [] \<Longrightarrow> e \<le> minimum_expiry gs \<longleftrightarrow> (\<forall>g \<in> set gs. e \<le> eg_expires_at g)"
  by (induction gs rule: minimum_expiry.induct) auto

lemma intersect_modes_greatest:
  "c \<subseteq> intersect_modes ms gs \<longleftrightarrow> c \<subseteq> ms \<and> (\<forall>g \<in> set gs. c \<subseteq> eg_execution_modes g)"
  using modes.fold_greatest [OF try_fold_total [of "(\<inter>)" eg_execution_modes gs ms], of c]
  by (simp add: intersect_modes_def)

lemma minimum_effect_greatest:
  "c \<le> minimum_effect e gs \<longleftrightarrow> c \<le> e \<and> (\<forall>g \<in> set gs. c \<le> eg_maximum_effect g)"
  using effect.fold_greatest [OF try_fold_total [of min eg_maximum_effect gs e], of c]
  by (simp add: minimum_effect_def)

lemma gather_freshness_greatest:
  "freshness_is_at_least c (gather_freshness f gs) \<longleftrightarrow>
     freshness_is_at_least c f \<and> (\<forall>g \<in> set gs. freshness_is_at_least c (eg_freshness g))"
  using fresh.fold_greatest [OF try_fold_total [of intersect_freshness eg_freshness gs f], of c]
  by (simp add: gather_freshness_def)

lemma gather_evidence_greatest:
  "gather_evidence d gs = Inr e \<Longrightarrow>
   evidence_is_at_least c e \<longleftrightarrow>
     evidence_is_at_least c (descriptor_evidence d)
     \<and> (\<forall>g \<in> set gs. evidence_is_at_least c (eg_required_evidence g))"
  using evidence.fold_greatest [of "map eg_required_evidence gs" "descriptor_evidence d" e c]
  by (simp add: gather_evidence_def)

lemma set_gather_preconditions [simp]:
  "set (gather_preconditions ps gs) = set ps \<union> (\<Union>g \<in> set gs. set (eg_preconditions g))"
  by (simp add: gather_preconditions_def)

lemma effective_grant_try_new_Inr:
  "effective_grant_try_new parts = Inr g \<Longrightarrow>
   g = parts\<lparr>eg_resources := sort_dedup (eg_resources parts),
             eg_preconditions := sort_dedup (eg_preconditions parts)\<rparr> \<and> eg_resources g \<noteq> []"
  by (auto simp: effective_grant_try_new_def Let_def split: if_splits)

lemma combine_grants_Some:
  assumes "combine_grants r gs resources = Inr (Some g)"
  shows "set (eg_resources g) = set resources"
    "eg_capability g = rr_identity r"
    "eg_execution_modes g = intersect_modes (cd_execution_modes (rr_descriptor r)) gs"
    "eg_execution_modes g \<noteq> {}"
    "eg_maximum_effect g = minimum_effect (cd_effect (rr_descriptor r)) gs"
    "eg_expires_at g = minimum_expiry gs"
    "gather_evidence (rr_descriptor r) gs = Inr (eg_required_evidence g)"
    "eg_freshness g = gather_freshness (cd_freshness (rr_descriptor r)) gs"
    "set (eg_preconditions g) =
       set (gather_preconditions (cd_preconditions (rr_descriptor r)) gs)"
proof -
  have "selectors = resources"
    if "try_map (string_ref_new m) resources = Inr selectors" for m selectors
    using that by (induction resources arbitrary: selectors) auto
  with assms effective_grant_try_new_Inr show "set (eg_resources g) = set resources"
    "eg_capability g = rr_identity r"
    "eg_execution_modes g = intersect_modes (cd_execution_modes (rr_descriptor r)) gs"
    "eg_execution_modes g \<noteq> {}"
    "eg_maximum_effect g = minimum_effect (cd_effect (rr_descriptor r)) gs"
    "eg_expires_at g = minimum_expiry gs"
    "gather_evidence (rr_descriptor r) gs = Inr (eg_required_evidence g)"
    "eg_freshness g = gather_freshness (cd_freshness (rr_descriptor r)) gs"
    "set (eg_preconditions g) =
       set (gather_preconditions (cd_preconditions (rr_descriptor r)) gs)"
    by (fastforce simp: combine_grants_def Let_def split: if_splits)+
qed

lemma combine_grants_None:
  "combine_grants r gs resources = Inr None \<Longrightarrow>
   intersect_modes (cd_execution_modes (rr_descriptor r)) gs = {}"
  by (auto simp: combine_grants_def Let_def split: if_splits)

lemma intersect_authority_cases:
  assumes "intersect_authority r terms = Inr m"
  obtains (empty) "terms = []" "m = None"
    | (deny) n where "Deny n \<in> set terms" "m = None"
    | (other) gs where "terms = map Allow gs" "\<exists>h \<in> set gs. eg_capability h \<noteq> rr_identity r" "m = None"
    | (disjoint) gs where "terms = map Allow gs" "gs \<noteq> []"
        "narrow_resources (rr_resources r) gs = Inr None" "m = None"
    | (combined) gs resources where "terms = map Allow gs" "gs \<noteq> []"
        "\<forall>h \<in> set gs. eg_capability h = rr_identity r"
        "narrow_resources (rr_resources r) gs = Inr (Some resources)"
        "combine_grants r gs resources = Inr m"
proof (cases "\<exists>t \<in> set terms. is_explicit_deny t")
  case True
  then obtain n where "Deny n \<in> set terms" by (metis is_explicit_deny.elims(2))
  with assms True show thesis by (intro deny) (auto simp: intersect_authority_def)
next
  case False
  define gs where "gs = List.map_filter allow_value terms"
  have terms: "terms = map Allow gs" unfolding gs_def by (rule allow_terms [OF False])
  have run: "intersect_authority r terms =
      (if gs = [] \<or> (\<exists>g \<in> set gs. eg_capability g \<noteq> rr_identity r) then Inr None
       else and_then (narrow_resources (rr_resources r) gs)
         (\<lambda>narrowed. case narrowed of None \<Rightarrow> Inr None | Some resources \<Rightarrow> combine_grants r gs resources))"
    using False terms unfolding intersect_authority_def gs_def [symmetric] Let_def by simp
  consider "gs = []" | "\<exists>h \<in> set gs. eg_capability h \<noteq> rr_identity r"
    | "gs \<noteq> []" "\<forall>h \<in> set gs. eg_capability h = rr_identity r" by blast
  then show thesis
  proof cases
    case 1
    with run assms terms show thesis by (intro empty) simp_all
  next
    case 2
    with run assms terms show thesis by (intro other) simp_all
  next
    case 3
    with run assms obtain narrowed where n: "narrow_resources (rr_resources r) gs = Inr narrowed"
      "(case narrowed of None \<Rightarrow> Inr None | Some resources \<Rightarrow> combine_grants r gs resources) = Inr m"
      by auto
    show thesis
    proof (cases narrowed)
      case None
      with n 3 terms show thesis by (intro disjoint) simp_all
    next
      case (Some resources)
      with n 3 terms show thesis by (intro combined) simp_all
    qed
  qed
qed

lemma intersect_authority_Some:
  assumes "intersect_authority r terms = Inr (Some g)"
  obtains gs resources where
    "terms = map Allow gs" "gs \<noteq> []" "\<forall>h \<in> set gs. eg_capability h = rr_identity r"
    "narrow_resources (rr_resources r) gs = Inr (Some resources)"
    "combine_grants r gs resources = Inr (Some g)"
  using assms by (cases rule: intersect_authority_cases) auto

lemma intersect_authority_greatest:
  assumes "intersect_authority r terms = Inr (Some g)"
  shows "grant_is_subset_of h g \<longleftrightarrow> within_requirement h r \<and> allowed_by h terms"
proof -
  obtain gs resources where gs: "terms = map Allow gs" "gs \<noteq> []"
    "\<forall>h \<in> set gs. eg_capability h = rr_identity r"
    "narrow_resources (rr_resources r) gs = Inr (Some resources)"
    "combine_grants r gs resources = Inr (Some g)"
    using assms by (rule intersect_authority_Some)
  note made = combine_grants_Some [OF gs(5)]
  have cover: "resources_cover (eg_resources h) (eg_resources g) \<longleftrightarrow>
      resources_cover (eg_resources h) (rr_resources r)
      \<and> (\<forall>a \<in> set gs. resources_cover (eg_resources h) (eg_resources a))"
    using narrow_resources_covers [OF gs(4)] made(1) by (simp add: covers_def)
  have caps: "\<forall>a \<in> set gs. eg_capability a = rr_identity r" using gs(3) by blast
  show ?thesis
  proof (cases "eg_capability h = rr_identity r")
    case True
    with caps have "\<forall>a \<in> set gs. eg_capability h = eg_capability a" by simp
    with True show ?thesis
      unfolding gs(1) allowed_by_map grant_is_subset_of_cover [of h] within_requirement_def
        made(2,3,5,6,8,9) cover intersect_modes_greatest minimum_effect_greatest
        minimum_expiry_le [OF gs(2)] gather_evidence_greatest [OF made(7)]
        gather_freshness_greatest set_gather_preconditions Un_subset_iff UN_subset_iff
      by blast
  next
    case False
    then show ?thesis by (simp add: grant_is_subset_of_def within_requirement_def made(2))
  qed
qed

lemma intersect_authority_valid:
  assumes "intersect_authority r terms = Inr (Some g)"
  shows "grant_is_subset_of g g"
proof -
  obtain gs resources where gs: "gs \<noteq> []"
    "narrow_resources (rr_resources r) gs = Inr (Some resources)"
    "combine_grants r gs resources = Inr (Some g)"
    using assms by (rule intersect_authority_Some)
  then have "\<forall>m \<in> set (eg_resources g). valid_selector m"
    using narrow_resources_result combine_grants_Some(1) by simp
  then show ?thesis
    by (simp add: grant_is_subset_of_cover sel.covers_refl evidence.leq_refl fresh.leq_refl)
qed

section \<open>Properties\<close>

text \<open>
  Claim C1. Least privilege: when the sources of authority produce an effective grant, a grant lies
  inside it exactly when it keeps to the locked requirement and lies inside what every single
  term allows. So no term was a deny, the result exceeds no term and not the requirement in
  resources, modes, effect, expiry, evidence, freshness or preconditions, and it is the
  largest such grant.
\<close>

theorem intersect_authority_is_greatest_lower_bound:
  assumes "intersect_authority requirement terms = Inr (Some g)"
  shows "(\<forall>h. grant_is_subset_of h g \<longleftrightarrow> within_requirement h requirement \<and> allowed_by h terms)
    \<and> within_requirement g requirement \<and> allowed_by g terms"
  using intersect_authority_greatest [OF assms] intersect_authority_valid [OF assms] by blast

text \<open>
  Nothing is refused that all sources allow: when the intersection of at least one term
  returns no grant, no grant with a resource and an execution mode keeps to the requirement and
  is allowed by every term. An explicit deny is the simplest case.
\<close>

lemma intersect_authority_none_is_complete:
  assumes "intersect_authority requirement terms = Inr None"
    and "terms \<noteq> []" "eg_resources h \<noteq> []" "eg_execution_modes h \<noteq> {}"
  shows "\<not> (within_requirement h requirement \<and> allowed_by h terms)"
  using assms(1)
proof (cases rule: intersect_authority_cases)
  case (disjoint gs)
  have "\<not> (resources_cover (eg_resources h) (rr_resources requirement)
      \<and> (\<forall>g \<in> set gs. resources_cover (eg_resources h) (eg_resources g)))"
    using narrow_resources_None disjoint assms(3) by blast
  then show ?thesis
    unfolding disjoint(1) allowed_by_map within_requirement_def grant_is_subset_of_cover by blast
next
  case (combined gs resources)
  have "\<not> eg_execution_modes h \<subseteq> intersect_modes (cd_execution_modes (rr_descriptor requirement)) gs"
    using combine_grants_None [OF combined(5)] assms(4) by simp
  then show ?thesis
    unfolding combined(1) allowed_by_map within_requirement_def grant_is_subset_of_cover
      intersect_modes_greatest by blast
qed (use assms in \<open>auto simp: allowed_by_def within_requirement_def grant_is_subset_of_def\<close>)

section \<open>Witnesses\<close>

lemma sample_meets:
  "intersect_resource_selectors ''doc:*'' ''doc:*'' = Inr (Some ''doc:*'')"
  "intersect_resource_selectors ''note:1'' ''note:1'' = Inr (Some ''note:1'')"
  "intersect_resource_selectors ''doc:7'' ''doc:7'' = Inr (Some ''doc:7'')"
  "intersect_resource_selectors ''doc:*'' ''doc:7'' = Inr (Some ''doc:7'')"
  "intersect_resource_selectors ''note:1'' ''doc:7'' = Inr None"
  "intersect_resource_selectors ''x/1'' ''x/1'' = Inr (Some ''x/1'')"
  "intersect_resource_selectors ''doc:*'' ''x/1'' = Inr None"
  "intersect_resource_selectors ''note:1'' ''x/1'' = Inr None"
  by code_simp+

lemma sample_valid_selectors:
  "valid_selector ''doc:*''" "valid_selector ''note:1''" "valid_selector ''doc:7''" "valid_selector ''x/1''"
  by code_simp+

lemmas sample_authority_simps =
  intersect_authority_def sample_data map_filter_simps intersect_resource_sets_def intersect_one_def
  validate_selector_def sample_meets combine_grants_def intersect_modes_def minimum_effect_def
  gather_evidence_def descriptor_evidence_def intersect_evidence_def gather_freshness_def
  gather_preconditions_def intersect_freshness_def effective_grant_try_new_def sort_dedup_def
  btree_set_def less_eq_effect_classification_def all_effects_def is_blank_def ascii_white_def white2_def white3_def
  min_def

lemma sample_intersection:
  "intersect_authority sample_requirement [Allow sample_grant] = Inr (Some sample_grant)"
  by (simp add: sample_authority_simps)

lemma sample_disjoint:
  "intersect_authority sample_requirement [Allow (sample_grant\<lparr>eg_resources := [''x/1'']\<rparr>)] = Inr None"
  by (simp add: sample_authority_simps)

theorem intersect_authority_is_greatest_lower_bound_witness:
  "within_requirement sample_grant sample_requirement \<and> allowed_by sample_grant [Allow sample_grant]"
  using intersect_authority_is_greatest_lower_bound [OF sample_intersection] by blast

end
