(* ===== verification/KF_Agreement.thy ===== *)
theory KF_Agreement
  imports KF_Authority
begin

text \<open>
  Two crates test whether one resource selector lies below another: the provider
  (\<open>resource_selector_is_subset\<close> in \<open>crates/kiteframe-provider/src/resource.rs\<close>, segment
  wildcards) and the contract (\<open>resource_selector_is_subset_of\<close> in
  \<open>crates/kiteframe-contract/src/service.rs\<close>, a \<open>:*\<close> suffix as a prefix test). The provider
  narrows grants with the first, and \<open>GrantSet::validate_against\<close> checks them with the second.
  This theory proves where the two agree, and that the grants the provider computes
  pass the contract's checks there.
\<close>

section \<open>The last segment of a selector\<close>

definition agreeing_selector :: "string \<Rightarrow> bool" where
  "agreeing_selector a =
     (CHR ''*'' \<notin> set a \<or> suffix '':*'' a \<and> CHR ''*'' \<notin> set (take (length a - 2) a))"

lemma render_tail_snoc:
  "length ss = length ps \<Longrightarrow> render_tail (ps @ [p]) (ss @ [s]) = render_tail ps ss @ p # s"
  by (induction ps ss rule: render_tail.induct) auto

lemma render_snoc:
  assumes "length segs = Suc (length seps)"
  shows "render \<lparr>ps_segments = segs @ [s], ps_separators = seps @ [p]\<rparr>
    = render \<lparr>ps_segments = segs, ps_separators = seps\<rparr> @ p # s"
  using assms by (cases segs) (auto simp: render_def render_tail_snoc)

lemma set_render_tail:
  "length ss = length ps \<Longrightarrow> set (render_tail ps ss) = set ps \<union> (\<Union>s \<in> set ss. set s)"
  by (induction ps ss rule: render_tail.induct) auto

lemma set_render:
  assumes "wf_parsed p"
  shows "set (render p) = set (ps_separators p) \<union> (\<Union>s \<in> set (ps_segments p). set s)"
  using assms by (cases "ps_segments p") (auto simp: render_def wf_parsed_def set_render_tail)

lemma wf_parsed_star:
  assumes "wf_parsed p"
  shows "CHR ''*'' \<in> set (render p) \<longleftrightarrow> ''*'' \<in> set (ps_segments p)"
proof -
  have "CHR ''*'' \<notin> set (ps_separators p)"
    using assms by (auto simp: wf_parsed_def is_separator_def)
  moreover have "CHR ''*'' \<in> set s \<longleftrightarrow> s = ''*''" if "s \<in> set (ps_segments p)" for s
    using assms that unfolding wf_parsed_def wf_segment_def by auto
  ultimately show ?thesis unfolding set_render [OF assms] by auto
qed

lemma wf_parsed_segment:
  "wf_parsed p \<Longrightarrow> s \<in> set (ps_segments p) \<Longrightarrow> c \<in> set s \<Longrightarrow> \<not> is_separator c"
  unfolding wf_parsed_def wf_segment_def by blast

lemma segment_allowed_no_star:
  "list_all2 segment_allowed cs as \<Longrightarrow> ''*'' \<notin> set as \<Longrightarrow> cs = as"
  by (induction rule: list_all2_induct) (auto simp: segment_allowed_def)

lemma last_segment_unique:
  assumes "x @ q # s = y @ r # t" "is_separator q" "is_separator r"
    "\<forall>c \<in> set s. \<not> is_separator c" "\<forall>c \<in> set t. \<not> is_separator c"
  shows "x = y \<and> q = r \<and> s = t"
proof -
  have inner: False
    if "u @ q # s = r # t" "u \<noteq> []" "is_separator q" "\<forall>c \<in> set t. \<not> is_separator c"
    for u q r and s t :: string
    using that by (cases u) auto
  from assms(1) obtain u where "x = y @ u \<and> u @ q # s = r # t \<or> x @ u = y \<and> q # s = u @ r # t"
    by (auto simp: append_eq_append_conv2)
  then show ?thesis
    using inner [of u q s r t] inner [of u r t q s] assms(2-5) by (cases "u = []") auto
qed

lemma parsed_trailing_wildcard:
  assumes wf: "wf_parsed p" and shape: "render p = x @ '':*''"
  obtains segs seps where "p = \<lparr>ps_segments = segs @ [''*''], ps_separators = seps @ [CHR '':'']\<rparr>"
    "length segs = Suc (length seps)" "x = render \<lparr>ps_segments = segs, ps_separators = seps\<rparr>"
proof -
  have "ps_separators p \<noteq> []"
  proof
    assume none: "ps_separators p = []"
    then obtain s where "ps_segments p = [s]"
      using wf by (auto simp: wf_parsed_def length_Suc_conv)
    moreover have "render p = s" using calculation none by (cases p) (simp add: render_def)
    ultimately have "CHR '':'' \<in> set s" using shape in_set_conv_decomp [of "CHR '':''" s] by (metis append_Cons)
    then show False
      using wf_parsed_segment [OF wf, of s] \<open>ps_segments p = [s]\<close> by (auto simp: is_separator_def)
  qed
  then obtain seps q where seps: "ps_separators p = seps @ [q]" by (cases rule: rev_exhaust) auto
  with wf obtain segs s where segs: "ps_segments p = segs @ [s]" "length segs = Suc (length seps)"
    by (cases "ps_segments p" rule: rev_exhaust) (auto simp: wf_parsed_def)
  have p: "p = \<lparr>ps_segments = segs @ [s], ps_separators = seps @ [q]\<rparr>"
    using seps segs by simp
  have "render \<lparr>ps_segments = segs, ps_separators = seps\<rparr> @ q # s = x @ CHR '':'' # ''*''"
    using shape p render_snoc [OF segs(2)] by simp
  note join = this
  have "is_separator q" "\<forall>c \<in> set s. \<not> is_separator c"
    using wf unfolding p wf_parsed_def wf_segment_def by auto
  then have "render \<lparr>ps_segments = segs, ps_separators = seps\<rparr> = x \<and> q = CHR '':'' \<and> s = ''*''"
    using last_segment_unique [OF join] by (simp add: is_separator_def)
  with p segs that show thesis by blast
qed

section \<open>Where the two tests agree\<close>

lemma provider_subset_implies_contract:
  assumes sub: "resource_selector_is_subset c a" and agree: "agreeing_selector a"
  shows "resource_selector_is_subset_of c a"
proof -
  obtain pc pa where p: "parse_selector c = Inr pc" "parse_selector a = Inr pa" "parsed_subset pc pa"
    using sub by (rule subset_parses)
  then have wf: "wf_parsed pc" "c = render pc" "wf_parsed pa" "a = render pa"
    by (simp_all add: parse_selector_iff)
  show ?thesis
  proof (cases "CHR ''*'' \<in> set a")
    case False
    then have "ps_segments pc = ps_segments pa"
      using p(3) wf by (auto simp: parsed_subset_def wf_parsed_star intro: segment_allowed_no_star)
    with p(3) have "pc = pa" by (simp add: parsed_subset_def)
    with wf show ?thesis by simp
  next
    case True
    then obtain x where x: "a = x @ '':*''" "CHR ''*'' \<notin> set x"
      using agree by (auto simp: agreeing_selector_def suffix_def)
    obtain segs seps where pa: "pa = \<lparr>ps_segments = segs @ [''*''], ps_separators = seps @ [CHR '':'']\<rparr>"
      "length segs = Suc (length seps)" "x = render \<lparr>ps_segments = segs, ps_separators = seps\<rparr>"
      using parsed_trailing_wildcard [OF wf(3)] wf(4) x(1) by metis
    have "wf_parsed \<lparr>ps_segments = segs, ps_separators = seps\<rparr>"
      using wf(3) pa by (simp add: wf_parsed_def)
    then have "''*'' \<notin> set segs" using wf_parsed_star x(2) pa(3) by fastforce
    then obtain s where "ps_segments pc = segs @ [s]" "ps_separators pc = seps @ [CHR '':'']"
      using p(3) pa(1) by (auto simp: parsed_subset_def list_all2_append2 list_all2_Cons2
          dest!: segment_allowed_no_star)
    then have "c = x @ CHR '':'' # s"
      using wf(2) render_snoc [OF pa(2), of s "CHR '':''"] pa(3) by (cases pc) simp
    with x(1) show ?thesis by (simp add: subset_of_colon)
  qed
qed

text \<open>
  Outside those selectors the tests part: replacing every wildcard of the bound by a literal
  segment gives a candidate only the provider's test accepts.
\<close>

definition literal_segment :: "string \<Rightarrow> string" where
  "literal_segment s = (if s = ''*'' then ''x'' else s)"

definition literal_instance :: "parsed_selector \<Rightarrow> parsed_selector" where
  "literal_instance p = p\<lparr>ps_segments := map literal_segment (ps_segments p)\<rparr>"

lemma literal_segment_wf: "wf_segment s \<Longrightarrow> wf_segment (literal_segment s)"
proof -
  have "wf_segment ''x''" by code_simp
  then show "wf_segment s \<Longrightarrow> wf_segment (literal_segment s)" by (simp add: literal_segment_def)
qed

lemma literal_instance_wf: "wf_parsed p \<Longrightarrow> wf_parsed (literal_instance p)"
  by (simp add: literal_instance_def wf_parsed_def literal_segment_wf)

lemma literal_instance_no_star: "wf_parsed p \<Longrightarrow> CHR ''*'' \<notin> set (render (literal_instance p))"
  using wf_parsed_star [OF literal_instance_wf [of p]]
  by (auto simp: literal_instance_def literal_segment_def split: if_splits)

lemma literal_instance_below: "parsed_subset (literal_instance p) p"
  by (auto simp: parsed_subset_def literal_instance_def literal_segment_def segment_allowed_def
      list_all2_map1 intro: list_all2_refl)

lemma disagreeing_selector:
  assumes "valid_selector a" "\<not> agreeing_selector a"
  shows "\<exists>c. resource_selector_is_subset c a \<and> \<not> resource_selector_is_subset_of c a"
proof -
  obtain p where p: "parse_selector a = Inr p" using assms(1) by (auto simp: valid_selector_def is_ok_iff)
  then have wf: "wf_parsed p" "a = render p" by (simp_all add: parse_selector_iff)
  let ?c = "render (literal_instance p)"
  have star: "CHR ''*'' \<in> set a" using assms(2) by (auto simp: agreeing_selector_def)
  have "parse_selector ?c = Inr (literal_instance p)"
    by (rule parse_selector_render [OF literal_instance_wf [OF wf(1)]])
  then have "resource_selector_is_subset ?c a"
    using p literal_instance_below by (simp add: subset_parsed)
  moreover have "\<not> resource_selector_is_subset_of ?c a"
  proof
    assume "resource_selector_is_subset_of ?c a"
    then consider "?c = a" | x where "a = x @ '':*''" "prefix (x @ '':'') ?c"
      by (auto simp: subset_of_colon)
    then show False
    proof cases
      case 1
      with star literal_instance_no_star [OF wf(1)] show False by simp
    next
      case 2
      then have "CHR ''*'' \<notin> set x"
        using literal_instance_no_star [OF wf(1)] set_mono_prefix by fastforce
      with 2(1) assms(2) show False by (simp add: agreeing_selector_def suffix_def)
    qed
  qed
  ultimately show ?thesis by blast
qed

section \<open>The provider's grants under the contract's checks\<close>

lemma provider_orders_are_contract_orders:
  "confirmation_is_at_least c b = evidence_not_weaker c b"
  "approval_is_at_least a d = approval_not_weaker a d"
  "consent_is_at_least e f = consent_not_weaker e f"
  "bound_is_at_least m n = maximum_not_larger m n"
proof -
  show "confirmation_is_at_least c b = evidence_not_weaker c b"
    by (cases b) (auto simp: confirmation_is_at_least_def)
  show "approval_is_at_least a d = approval_not_weaker a d"
    by (cases d) (auto simp: approval_is_at_least_def)
  show "consent_is_at_least e f = consent_not_weaker e f"
    by (cases f) (auto simp: consent_is_at_least_def)
  show "bound_is_at_least m n = maximum_not_larger m n"
    by (cases m; cases n) simp_all
qed

lemma within_requirement_narrows:
  assumes "within_requirement g r" "eg_expires_at g \<le> expiry"
  shows "effective_grant_narrows g (rr_descriptor r) expiry"
  using assms
  by (auto simp: within_requirement_def effective_grant_narrows_def evidence_is_at_least_def
      descriptor_evidence_def provider_orders_are_contract_orders freshness_is_at_least_def
      freshness_not_weaker_def)

section \<open>Properties\<close>

text \<open>
  Claim C20. The provider's and the contract's test for one selector lying below another agree in the
  direction the provider relies on (everything the provider accepts below a bound the contract
  accepts too) for exactly those bounds that have no wildcard, or only one wildcard, as the last
  segment behind a colon. For every other valid bound some candidate separates the tests.
\<close>

theorem selector_tests_agree_iff:
  assumes "valid_selector a"
  shows "(\<forall>c. resource_selector_is_subset c a \<longrightarrow> resource_selector_is_subset_of c a)
    \<longleftrightarrow> agreeing_selector a"
  using provider_subset_implies_contract disagreeing_selector [OF assms] by blast

theorem selector_tests_agree_iff_witness:
  "\<not> (\<forall>c. resource_selector_is_subset c ''*:b'' \<longrightarrow> resource_selector_is_subset_of c ''*:b'')"
proof -
  have "valid_selector ''*:b''" by code_simp
  moreover have "\<not> agreeing_selector ''*:b''" by code_simp
  ultimately show ?thesis using selector_tests_agree_iff [of "''*:b''"] by blast
qed

text \<open>
  The grants the provider computes pass the checks a grant set must pass against its
  request: a grant that the authority intersection returns narrows the locked descriptor in the
  contract's sense, and its resources lie below the requirement's by the contract's test,
  provided the requirement's selectors are ones on which the two tests agree.
\<close>

lemma intersected_grant_passes_contract:
  assumes "intersect_authority r terms = Inr (Some g)"
    and "\<forall>a \<in> set (rr_resources r). agreeing_selector a"
    and "eg_expires_at g \<le> expiry"
  shows "effective_grant_narrows g (rr_descriptor r) expiry
    \<and> (\<forall>x \<in> set (eg_resources g). \<exists>a \<in> set (rr_resources r). resource_selector_is_subset_of x a)"
proof -
  have "within_requirement g r"
    using intersect_authority_greatest [OF assms(1)] intersect_authority_valid [OF assms(1)] by blast
  moreover from this have "\<forall>x \<in> set (eg_resources g). \<exists>a \<in> set (rr_resources r). resource_selector_is_subset x a"
    by (simp add: within_requirement_def covers_def)
  ultimately show ?thesis
    using within_requirement_narrows assms(2,3) provider_subset_implies_contract by meson
qed

text \<open>
  The tests also part in the other direction, and the resource selected for an invocation is
  required to be concrete only as far as the suffix \<open>:*\<close> goes: a lone \<open>*\<close> is returned as
  the selected resource although the provider's own check calls it a wildcard.
\<close>

lemma contract_accepts_deeper_paths:
  "resource_selector_is_subset_of ''a:b:c'' ''a:*'' \<and> \<not> resource_selector_is_subset ''a:b:c'' ''a:*''"
  by code_simp

lemma wildcard_selected_as_concrete:
  "select_invocation_resource (sample_requirement\<lparr>rr_resources := [''*'']\<rparr>)
      (sample_grant\<lparr>eg_resources := [''*'']\<rparr>) None = Inr ''*''
   \<and> \<not> is_ok (validate_concrete_resource_selector ''*'')"
proof -
  have "\<not> is_ok (validate_concrete_resource_selector ''*'')" by code_simp
  then show ?thesis
    by (simp add: select_invocation_resource_def sample_data select_is_allowed_def
        resource_selector_is_subset_of_def suffix_to_prefix string_ref_new_def is_blank_def
        ascii_white_def)
qed

end
