(* ===== verification/KF_Catalog.thy ===== *)
theory KF_Catalog
  imports KF_Grants
begin

text \<open>
  The capability catalog of \<open>crates/kiteframe-contract/src/catalog.rs\<close>, and the reader of the
  resolved requirements that an admission request carries (\<open>ir.rs\<close>, \<open>lock.rs\<close>).
\<close>

section \<open>Catalogs\<close>

record capability_catalog =
  cc_identity :: catalog_identity
  cc_issued_at :: u64
  cc_expires_at :: "u64 option"
  cc_descriptors :: "capability_descriptor list"
  cc_catalog_digest :: sha256_digest

definition catalog_wire ::
  "catalog_identity \<Rightarrow> u64 \<Rightarrow> u64 option \<Rightarrow> capability_descriptor list \<Rightarrow> json" where
  "catalog_wire identity issued_at expires_at descriptors = JObj
     [(''identity'', catalog_identity_json identity), (''issuedAt'', u64_json issued_at),
      (''expiresAt'', opt_json u64_json expires_at),
      (''descriptors'', JArr (map descriptor_json descriptors))]"

definition catalog_try_new ::
  "externals \<Rightarrow> catalog_identity \<Rightarrow> u64 \<Rightarrow> u64 option \<Rightarrow> capability_descriptor list \<Rightarrow>
     (string, capability_catalog) result" where
  "catalog_try_new X identity issued_at expires_at raw =
     (if (case expires_at of None \<Rightarrow> False | Some e \<Rightarrow> e \<le> issued_at)
      then Inl ''catalog expiry must be after its issue time''
      else
        let descriptors = sort_key cd_identity raw in
        if adjacent_equal cd_identity descriptors
        then Inl ''catalog contains duplicate capability identities''
        else map_ok (\<lambda>d. \<lparr>cc_identity = identity, cc_issued_at = issued_at, cc_expires_at = expires_at,
               cc_descriptors = descriptors, cc_catalog_digest = d\<rparr>)
          (digest X (catalog_wire identity issued_at expires_at descriptors)))"

definition catalog_deserialize ::
  "externals \<Rightarrow> capability_catalog \<Rightarrow> (string, capability_catalog) result" where
  "catalog_deserialize X raw =
     and_then (try_map (descriptor_deserialize X) (cc_descriptors raw)) (\<lambda>descriptors.
     and_then (catalog_try_new X (cc_identity raw) (cc_issued_at raw) (cc_expires_at raw) descriptors)
       (\<lambda>c. if cc_catalog_digest c \<noteq> cc_catalog_digest raw
             then Inl ''catalog digest does not match canonical catalog''
             else Inr c))"

datatype catalog_fetch_result =
    CatalogModified capability_catalog
  | CatalogNotModified sha256_digest

section \<open>Reading requirements\<close>

text \<open>
  The types of a descriptor's parts check themselves when they are read: the release version, the
  set of execution modes and the resource selector schema.
\<close>

definition descriptor_read :: "externals \<Rightarrow> capability_descriptor \<Rightarrow> (string, capability_descriptor) result" where
  "descriptor_read X raw =
     and_then (release_version_new X (ci_version (cd_identity raw))) (\<lambda>_.
     and_then (ensure (cd_execution_modes raw \<noteq> {}) ''set must not be empty'') (\<lambda>_.
     and_then (schema_try_new X (cd_resource_selector_schema raw)) (\<lambda>_.
     descriptor_deserialize X raw)))"

definition locked_capability_read :: "externals \<Rightarrow> locked_capability \<Rightarrow> (string, locked_capability) result" where
  "locked_capability_read X raw =
     and_then (release_version_new X (ci_version (lc_identity raw))) (\<lambda>_.
     and_then (descriptor_read X (lc_descriptor raw)) (\<lambda>d.
     locked_capability_try_new (raw\<lparr>lc_descriptor := d\<rparr>)))"

definition resolved_requirement_read ::
  "externals \<Rightarrow> resolved_requirement \<Rightarrow> (string, resolved_requirement) result" where
  "resolved_requirement_read X raw =
     and_then (locked_capability_read X (rr_locked_capability raw)) (\<lambda>locked.
     resolved_requirement_try_new locked (rr_required raw) (rr_resources raw))"

section \<open>Facts\<close>

lemma sort_key_permuted:
  assumes "mset xs = mset ys" "distinct (map k xs)"
  shows "sort_key k xs = sort_key k ys"
  by (rule sort_key_inj_key_eq) (use assms in \<open>simp_all add: distinct_map\<close>)

lemma distinct_remdups_adj_sorted: "sorted xs \<Longrightarrow> distinct (remdups_adj xs)"
  by (induction xs rule: remdups_adj.induct) auto

lemma sort_dedup_distinct [simp]: "distinct (sort_dedup xs)" "sorted (sort_dedup xs)"
  by (simp_all add: sort_dedup_def distinct_remdups_adj_sorted)

lemma sort_dedup_idem [simp]: "sort_dedup (sort_dedup xs) = sort_dedup xs"
proof -
  have "sort (sort_dedup xs) = sort_dedup xs" by (rule sorted_sort_id) simp
  then have "sort_dedup (sort_dedup xs) = remdups_adj (sort_dedup xs)"
    by (simp add: sort_dedup_def [of "sort_dedup xs"])
  then show ?thesis by (simp add: remdups_adj_distinct)
qed

lemma descriptor_try_new_again:
  assumes "descriptor_try_new X p = Inr d"
  shows "descriptor_try_new X (parts_of_descriptor d) = Inr d"
proof -
  let ?wire = "p\<lparr>cp_stable_errors := sort_dedup (cp_stable_errors p),
                 cp_preconditions := sort_dedup (cp_preconditions p)\<rparr>"
  from assms obtain dg where ok: "descriptor_errors p = []" "validate_schema X (cp_input_schema p) = Inr ()"
      "validate_schema X (cp_output_schema p) = Inr ()" "digest X (descriptor_wire ?wire) = Inr dg"
    and d: "d = descriptor_of_parts ?wire dg"
    by (auto simp: descriptor_try_new_def Let_def schema_try_new_def split: if_splits)
  have parts: "parts_of_descriptor d = ?wire" by (simp add: d parts_of_descriptor_def descriptor_of_parts_def)
  have "inj_on ed_code (set (cp_stable_errors p))"
    using ok(1) by (auto simp: descriptor_errors_def distinct_map split: if_splits)
  then have "distinct (map ed_code (sort_dedup (cp_stable_errors p)))" by (simp add: distinct_map)
  then have "descriptor_errors ?wire = []"
    using ok(1) by (auto simp: descriptor_errors_def split: if_splits)
  then show ?thesis unfolding parts
    using ok by (simp add: descriptor_try_new_def Let_def schema_try_new_def d)
qed

lemma descriptor_deserialize_own:
  "descriptor_try_new X p = Inr d \<Longrightarrow> descriptor_deserialize X d = Inr d"
  by (simp add: descriptor_deserialize_def descriptor_try_new_again)

text \<open>
  A catalog is canonical: one built from validly constructed descriptors holds each of them
  once, sorted by identity, its digest is the digest of its own content whatever the order the
  descriptors came in, its expiry is after its issue time, and reading its serialized form
  gives it back, while a wrong digest is refused.
\<close>

lemma catalog_is_canonical:
  assumes "catalog_try_new X i issued expires ds = Inr c"
    and "\<forall>d \<in> set ds. \<exists>p. descriptor_try_new X p = Inr d"
  shows "mset (cc_descriptors c) = mset ds \<and> sorted (map cd_identity (cc_descriptors c))
    \<and> distinct (map cd_identity (cc_descriptors c))
    \<and> (\<forall>e. expires = Some e \<longrightarrow> issued < e)
    \<and> (\<forall>ds'. mset ds' = mset ds \<longrightarrow> catalog_try_new X i issued expires ds' = Inr c)
    \<and> catalog_deserialize X c = Inr c
    \<and> (\<forall>g. g \<noteq> cc_catalog_digest c \<longrightarrow> \<not> is_ok (catalog_deserialize X (c\<lparr>cc_catalog_digest := g\<rparr>)))"
proof -
  let ?ds = "sort_key cd_identity ds"
  from assms(1) obtain dg where ok: "\<not> adjacent_equal cd_identity ?ds" "\<forall>e. expires = Some e \<longrightarrow> issued < e"
      "digest X (catalog_wire i issued expires ?ds) = Inr dg"
    and c: "c = \<lparr>cc_identity = i, cc_issued_at = issued, cc_expires_at = expires, cc_descriptors = ?ds,
        cc_catalog_digest = dg\<rparr>"
    by (auto simp: catalog_try_new_def Let_def not_le split: if_splits option.splits)
  have distinct: "distinct (map cd_identity ds)" using ok(1) by (simp add: adjacent_equal_sort_key)
  have same: "catalog_try_new X i issued expires ds' = Inr c" if "mset ds' = mset ds" for ds'
    using assms(1) unfolding catalog_try_new_def
    by (simp only: sort_key_permuted [OF that [symmetric] distinct])
  have "try_map (descriptor_deserialize X) ?ds = Inr (map (\<lambda>d. d) ?ds)"
    by (rule try_map_total) (use assms(2) in \<open>auto intro: descriptor_deserialize_own\<close>)
  then have "catalog_deserialize X (c\<lparr>cc_catalog_digest := g\<rparr>) =
      (if dg \<noteq> g then Inl ''catalog digest does not match canonical catalog'' else Inr c)" for g
    using same [of ?ds] by (simp add: catalog_deserialize_def c)
  from this [of dg] this show ?thesis using same ok(2) distinct by (auto simp: c)
qed

lemma sample_descriptor_built:
  "descriptor_try_new sample_externals (parts_of_descriptor sample_descriptor) = Inr sample_descriptor"
  by (simp add: descriptor_try_new_def Let_def schema_try_new_def validate_schema_def sample_data
      parts_of_descriptor_def descriptor_of_parts_def descriptor_errors_def is_blank_def ascii_white_def
      white3_def white2_def digest_def sort_dedup_def json_get_def)

definition sample_capability_catalog :: capability_catalog where
  "sample_capability_catalog = \<lparr>cc_identity = sample_catalog, cc_issued_at = 50, cc_expires_at = Some 500,
     cc_descriptors = [sample_descriptor], cc_catalog_digest = sample_digest\<rparr>"

lemma sample_catalog_built:
  "catalog_try_new sample_externals sample_catalog 50 (Some 500) [sample_descriptor] =
     Inr sample_capability_catalog"
  by (simp add: catalog_try_new_def sample_capability_catalog_def digest_def sample_externals_def)

end
