(* ===== verification/KF_Exchange.thy ===== *)
theory KF_Exchange
  imports KF_Grants
begin

text \<open>
  The invocation half of \<open>crates/kiteframe-contract/src/service.rs\<close>: invocation requests, effect
  proposals bound by digest, suspensions, outcomes and portable statuses, and the checks a
  client makes before it believes any of them.
\<close>

section \<open>Invocation requests\<close>

record invocation_request =
  iq_invocation_id :: string
  iq_admission_id :: string
  iq_grant_digest :: sha256_digest
  iq_delegation_ancestry_digest :: sha256_digest
  iq_capability :: capability_identity
  iq_selected_resource :: string
  iq_arguments :: json
  iq_preconditions :: "(string \<times> string) list"
  iq_idempotency_key :: "string option"
  iq_evidence_refs :: "(string \<times> string) list"
  iq_trace_context :: trace_context

definition invocation_request_try_new ::
  "invocation_request \<Rightarrow> (string, invocation_request) result" where
  "invocation_request_try_new parts =
     and_then (string_ref_new ''resource selector is required'' (iq_selected_resource parts)) (\<lambda>resource.
     map_ok (\<lambda>key. parts\<lparr>iq_selected_resource := resource, iq_idempotency_key := key\<rparr>)
       (case iq_idempotency_key parts of
          None \<Rightarrow> Inr None
        | Some key \<Rightarrow> map_ok Some (string_ref_new ''idempotency key is required'' key)))"

definition request_validate_against ::
  "externals \<Rightarrow> invocation_request \<Rightarrow> capability_descriptor \<Rightarrow> (diagnostic list, unit) result" where
  "request_validate_against X q d =
     (if iq_capability q \<noteq> cd_identity d
      then Inl [service_invalid ''invocation capability must match its descriptor'']
      else case (cd_idempotency d, iq_idempotency_key q) of
        (IdempotencyNone, Some _) \<Rightarrow>
          Inl [service_invalid ''idempotency key is forbidden by this capability contract'']
      | (IdempotencyRequired _ _, None) \<Rightarrow>
          Inl [service_invalid ''effectful invocation requires an idempotency key'']
      | _ \<Rightarrow>
          and_then (ensure (x_schema_builds X (cd_input_schema d))
              [service_invalid ''capability input schema is invalid'']) (\<lambda>_.
            ensure (x_instance_valid X (cd_input_schema d) (iq_arguments q))
              [service_invalid ''invocation arguments do not match the capability input schema'']))"

definition validate_admission_correlation ::
  "invocation_request \<Rightarrow> grant_set \<Rightarrow> (diagnostic, unit) result" where
  "validate_admission_correlation q gs =
     (if iq_admission_id q \<noteq> gs_admission_id gs \<or> iq_grant_digest q \<noteq> gs_grant_digest gs
         \<or> iq_delegation_ancestry_digest q \<noteq> gs_delegation_ancestry_digest gs
      then Inl (result_invalid StageInvoke
        ''invocation admission correlation does not match its capability grant set'')
      else Inr ())"

definition request_validate_against_admission ::
  "externals \<Rightarrow> invocation_request \<Rightarrow> grant_set \<Rightarrow> capability_descriptor \<Rightarrow>
     (diagnostic list, unit) result" where
  "request_validate_against_admission X q gs d =
     and_then (map_err (\<lambda>e. [e]) (validate_admission_correlation q gs))
       (\<lambda>_. request_validate_against X q d)"

section \<open>Effect proposals\<close>

record effect_proposal =
  ep_invocation_id :: string
  ep_admission_id :: string
  ep_grant_digest :: sha256_digest
  ep_delegation_ancestry_digest :: sha256_digest
  ep_capability :: capability_identity
  ep_selected_resource :: string
  ep_arguments_digest :: sha256_digest
  ep_preconditions_digest :: sha256_digest
  ep_idempotency_key :: "string option"
  ep_effect :: effect_classification
  ep_proposal_digest :: sha256_digest

definition proposal_digest_input :: "effect_proposal \<Rightarrow> json" where
  "proposal_digest_input p = JObj
     [(''invocationId'', JStr (ep_invocation_id p)), (''admissionId'', JStr (ep_admission_id p)),
      (''grantDigest'', digest_json (ep_grant_digest p)),
      (''delegationAncestryDigest'', digest_json (ep_delegation_ancestry_digest p)),
      (''capability'', identity_json (ep_capability p)),
      (''selectedResource'', JStr (ep_selected_resource p)),
      (''argumentsDigest'', digest_json (ep_arguments_digest p)),
      (''preconditionsDigest'', digest_json (ep_preconditions_digest p)),
      (''idempotencyKey'', opt_json JStr (ep_idempotency_key p)),
      (''effect'', JStr (effect_str (ep_effect p)))]"

definition proposal_from_digests ::
  "externals \<Rightarrow> effect_proposal \<Rightarrow> sha256_digest option \<Rightarrow> (string, effect_proposal) result" where
  "proposal_from_digests X p claimed =
     and_then (canonical_digest X (''kiteframe:effect-proposal:v1'' @ nul) (proposal_digest_input p))
       (\<lambda>computed.
         if claimed \<noteq> None \<and> claimed \<noteq> Some computed
         then Inl ''effect proposal digest does not match its canonical semantics''
         else Inr (p\<lparr>ep_proposal_digest := computed\<rparr>))"

definition proposal_of_request ::
  "invocation_request \<Rightarrow> capability_descriptor \<Rightarrow> sha256_digest \<Rightarrow> sha256_digest \<Rightarrow> effect_proposal" where
  "proposal_of_request q d arguments preconditions =
     \<lparr>ep_invocation_id = iq_invocation_id q, ep_admission_id = iq_admission_id q,
      ep_grant_digest = iq_grant_digest q,
      ep_delegation_ancestry_digest = iq_delegation_ancestry_digest q,
      ep_capability = iq_capability q, ep_selected_resource = iq_selected_resource q,
      ep_arguments_digest = arguments, ep_preconditions_digest = preconditions,
      ep_idempotency_key = iq_idempotency_key q, ep_effect = cd_effect d,
      ep_proposal_digest = Sha256Digest []\<rparr>"

definition proposal_try_new ::
  "externals \<Rightarrow> invocation_request \<Rightarrow> capability_descriptor \<Rightarrow>
     (diagnostic list, effect_proposal) result" where
  "proposal_try_new X q d =
     and_then (request_validate_against X q d) (\<lambda>_.
     and_then (map_err (\<lambda>m. [service_invalid m])
        (canonical_digest X (''kiteframe:effect-arguments:v1'' @ nul) (iq_arguments q))) (\<lambda>arguments.
     and_then (map_err (\<lambda>m. [service_invalid m])
        (canonical_digest X (''kiteframe:effect-preconditions:v1'' @ nul)
          (string_map_json (iq_preconditions q)))) (\<lambda>preconditions.
     map_err (\<lambda>m. [service_invalid m])
       (proposal_from_digests X (proposal_of_request q d arguments preconditions) None))))"

definition proposal_deserialize ::
  "externals \<Rightarrow> effect_proposal \<Rightarrow> (string, effect_proposal) result" where
  "proposal_deserialize X raw = proposal_from_digests X raw (Some (ep_proposal_digest raw))"

section \<open>Suspensions and outcomes\<close>

record status_request =
  sq_invocation_id :: string
  sq_trace_context :: trace_context

record stable_error =
  se_code :: string
  se_category :: string
  se_retry :: retry_class
  se_message :: string

definition stable_error_try_new ::
  "string \<Rightarrow> string \<Rightarrow> retry_class \<Rightarrow> string \<Rightarrow> (string, stable_error) result" where
  "stable_error_try_new code category retry message =
     (if is_blank code \<or> is_blank category
      then Inl ''stable capability error code and category are required''
      else Inr \<lparr>se_code = code, se_category = category, se_retry = retry, se_message = message\<rparr>)"

datatype evidence_kind = EvConfirmation | EvApproval | EvConsent

record suspension =
  su_checkpoint_ref :: string
  su_evidence_kind :: evidence_kind
  su_evidence_request_ref :: string
  su_proposal_digest :: sha256_digest

definition validate_stable_error ::
  "capability_descriptor \<Rightarrow> stable_error \<Rightarrow> (diagnostic, unit) result" where
  "validate_stable_error d e =
     (if \<exists>x \<in> set (cd_stable_errors d).
           ed_code x = se_code e \<and> ed_category x = se_category e \<and> ed_retry x = se_retry e
           \<and> ed_message x = se_message e
      then Inr ()
      else Inl (capability_result_invalid ''provider error does not match a locked stable error''))"

definition validate_status_first :: "diagnostic \<Rightarrow> (string, unit) result" where
  "validate_status_first d =
     (if d_code d \<noteq> OutcomeUnknown \<or> d_category d \<noteq> CatCapability \<or> d_severity d \<noteq> SevError
         \<or> d_stage d \<noteq> StageInvoke \<or> d_retry d \<noteq> RetryStatusFirst
      then Inl ''outcome_unknown diagnostic must match the canonical control tuple''
      else Inr ())"

definition status_first_try_new :: "diagnostic \<Rightarrow> (string, diagnostic) result" where
  "status_first_try_new d = map_ok (\<lambda>_. d) (validate_status_first d)"

definition validate_denial_diagnostic :: "diagnostic \<Rightarrow> (diagnostic, unit) result" where
  "validate_denial_diagnostic d =
     (if d_code d = InvocationDenied \<and> d_category d = CatAuthorization \<and> d_severity d = SevError
         \<and> d_stage d = StageInvoke \<and> d_retry d = RetryNever
      then Inr ()
      else Inl (result_invalid StageInvoke
        ''provider denial does not contain an invocation-denied diagnostic''))"

definition validate_response_invocation_id :: "string \<Rightarrow> string \<Rightarrow> (diagnostic, unit) result" where
  "validate_response_invocation_id actual expected =
     ensure (actual = expected)
       (result_invalid StageInvoke ''provider response invocation ID does not match the request'')"

definition validate_suspension ::
  "externals \<Rightarrow> suspension \<Rightarrow> invocation_request \<Rightarrow> capability_descriptor \<Rightarrow>
     (diagnostic, unit) result" where
  "validate_suspension X s q d =
     and_then (require_mode d ModeSuspendable) (\<lambda>_.
     and_then (map_err (\<lambda>_. result_invalid StageInvoke
         ''invocation suspension proposal does not match its locked descriptor'')
       (proposal_try_new X q d)) (\<lambda>expected.
     ensure (su_proposal_digest s = ep_proposal_digest expected)
       (result_invalid StageInvoke
         ''invocation suspension proposal digest does not match the invocation'')))"

datatype invocation_outcome =
    OutSucceeded string json
  | OutFailed string stable_error
  | OutDenied string diagnostic
  | OutSuspended string suspension
  | OutDeferred string
  | OutUnknown string diagnostic

definition outcome_unknown_new :: "string \<Rightarrow> diagnostic \<Rightarrow> (string, invocation_outcome) result" where
  "outcome_unknown_new i d = map_ok (OutUnknown i) (status_first_try_new d)"

fun outcome_diagnostic :: "invocation_outcome \<Rightarrow> diagnostic option" where
  "outcome_diagnostic (OutDenied _ d) = Some d"
| "outcome_diagnostic (OutUnknown _ d) = Some d"
| "outcome_diagnostic _ = None"

fun outcome_invocation_id :: "invocation_outcome \<Rightarrow> string" where
  "outcome_invocation_id (OutSucceeded i _) = i"
| "outcome_invocation_id (OutFailed i _) = i"
| "outcome_invocation_id (OutDenied i _) = i"
| "outcome_invocation_id (OutSuspended i _) = i"
| "outcome_invocation_id (OutDeferred i) = i"
| "outcome_invocation_id (OutUnknown i _) = i"

definition locked_request_check ::
  "externals \<Rightarrow> invocation_request \<Rightarrow> capability_descriptor \<Rightarrow> (diagnostic, unit) result" where
  "locked_request_check X q d =
     map_err (\<lambda>_. result_invalid StageInvoke ''invocation request no longer matches its locked descriptor'')
       (request_validate_against X q d)"

definition status_first_check :: "diagnostic \<Rightarrow> (diagnostic, unit) result" where
  "status_first_check d =
     map_err (\<lambda>_. result_invalid StageInvoke ''invalid status-first error'') (validate_status_first d)"

definition outcome_validate_against ::
  "externals \<Rightarrow> invocation_outcome \<Rightarrow> invocation_request \<Rightarrow> capability_descriptor \<Rightarrow>
     (diagnostic, unit) result" where
  "outcome_validate_against X out q d =
     and_then (validate_response_invocation_id (outcome_invocation_id out) (iq_invocation_id q)) (\<lambda>_.
     and_then (locked_request_check X q d) (\<lambda>_.
     case out of
       OutSucceeded _ value \<Rightarrow> validate_output X d value
     | OutFailed _ error \<Rightarrow> validate_stable_error d error
     | OutDeferred _ \<Rightarrow> require_mode d ModeDeferred
     | OutSuspended _ s \<Rightarrow> validate_suspension X s q d
     | OutDenied _ e \<Rightarrow> validate_denial_diagnostic e
     | OutUnknown _ e \<Rightarrow> status_first_check e))"

definition outcome_validate_against_admission ::
  "externals \<Rightarrow> invocation_outcome \<Rightarrow> invocation_request \<Rightarrow> grant_set \<Rightarrow> capability_descriptor \<Rightarrow>
     (diagnostic, unit) result" where
  "outcome_validate_against_admission X out q gs d =
     and_then (validate_admission_correlation q gs) (\<lambda>_. outcome_validate_against X out q d)"

section \<open>Portable statuses\<close>

datatype portable_status =
    PsPending string
  | PsSuspended string suspension
  | PsSucceeded string json
  | PsFailed string stable_error
  | PsDenied string diagnostic
  | PsOutcomeUnknown string diagnostic

definition portable_outcome_unknown :: "string \<Rightarrow> diagnostic \<Rightarrow> (string, portable_status) result" where
  "portable_outcome_unknown i d = map_ok (PsOutcomeUnknown i) (status_first_try_new d)"

fun portable_invocation_id :: "portable_status \<Rightarrow> string" where
  "portable_invocation_id (PsPending i) = i"
| "portable_invocation_id (PsSuspended i _) = i"
| "portable_invocation_id (PsSucceeded i _) = i"
| "portable_invocation_id (PsFailed i _) = i"
| "portable_invocation_id (PsDenied i _) = i"
| "portable_invocation_id (PsOutcomeUnknown i _) = i"

definition portable_validate_against ::
  "externals \<Rightarrow> portable_status \<Rightarrow> invocation_request \<Rightarrow> capability_descriptor \<Rightarrow>
     (diagnostic, unit) result" where
  "portable_validate_against X st q d =
     and_then (validate_response_invocation_id (portable_invocation_id st) (iq_invocation_id q)) (\<lambda>_.
     and_then (locked_request_check X q d) (\<lambda>_.
     case st of
       PsPending _ \<Rightarrow> require_mode d ModeDeferred
     | PsSuspended _ s \<Rightarrow> validate_suspension X s q d
     | PsSucceeded _ value \<Rightarrow> validate_output X d value
     | PsFailed _ error \<Rightarrow> validate_stable_error d error
     | PsDenied _ e \<Rightarrow> validate_denial_diagnostic e
     | PsOutcomeUnknown _ e \<Rightarrow> status_first_check e))"

definition portable_validate_for_status_request ::
  "externals \<Rightarrow> portable_status \<Rightarrow> status_request \<Rightarrow> invocation_request \<Rightarrow> capability_descriptor \<Rightarrow>
     (diagnostic, unit) result" where
  "portable_validate_for_status_request X st sq q d =
     and_then (validate_response_invocation_id (portable_invocation_id st) (sq_invocation_id sq)) (\<lambda>_.
     and_then (validate_response_invocation_id (sq_invocation_id sq) (iq_invocation_id q)) (\<lambda>_.
     portable_validate_against X st q d))"

section \<open>What a proposal digest binds\<close>

lemma proposal_digest_input_own [simp]:
  "proposal_digest_input (p\<lparr>ep_proposal_digest := d\<rparr>) = proposal_digest_input p"
  by (simp add: proposal_digest_input_def)

lemma proposal_digest_input_inject:
  "proposal_digest_input p = proposal_digest_input q \<Longrightarrow>
   p\<lparr>ep_proposal_digest := d\<rparr> = q\<lparr>ep_proposal_digest := d\<rparr>"
  by (cases p; cases q) (simp add: proposal_digest_input_def)

lemma proposal_from_digests_Inr:
  "proposal_from_digests X p claimed = Inr r \<longleftrightarrow>
     canonical_digest X (''kiteframe:effect-proposal:v1'' @ nul) (proposal_digest_input p)
       = Inr (ep_proposal_digest r)
     \<and> (claimed = None \<or> claimed = Some (ep_proposal_digest r))
     \<and> r = p\<lparr>ep_proposal_digest := ep_proposal_digest r\<rparr>"
  by (cases "canonical_digest X (''kiteframe:effect-proposal:v1'' @ nul) (proposal_digest_input p)")
     (auto simp: proposal_from_digests_def)

lemma proposal_try_new_Inr:
  assumes "proposal_try_new X q d = Inr p"
  obtains arguments preconditions where
    "request_validate_against X q d = Inr ()"
    "canonical_digest X (''kiteframe:effect-arguments:v1'' @ nul) (iq_arguments q) = Inr arguments"
    "canonical_digest X (''kiteframe:effect-preconditions:v1'' @ nul)
       (string_map_json (iq_preconditions q)) = Inr preconditions"
    "proposal_from_digests X (proposal_of_request q d arguments preconditions) None = Inr p"
  using assms by (auto simp: proposal_try_new_def)

section \<open>Properties\<close>

definition no_collision :: "externals \<Rightarrow> string \<Rightarrow> json \<Rightarrow> json \<Rightarrow> bool" where
  "no_collision X domain a b =
     (canonical_digest X domain a = canonical_digest X domain b \<longrightarrow>
      is_ok (canonical_digest X domain a) \<longrightarrow> a = b)"

text \<open>
  Claim C21. A proposal read back from its wire form is the proposal the sender built: construction
  survives the round trip, a changed digest is refused, and two accepted proposals with the same
  digest agree in every field, unless canonicalization or SHA-256 collides on exactly those two
  inputs.
\<close>

theorem proposal_digest_binds_every_field:
  assumes "proposal_try_new X q d = Inr p"
    and "proposal_deserialize X raw = Inr r" "ep_proposal_digest r = ep_proposal_digest p"
    and "no_collision X (''kiteframe:effect-proposal:v1'' @ nul)
           (proposal_digest_input r) (proposal_digest_input p)"
  shows "proposal_deserialize X p = Inr p \<and> raw = p
    \<and> (\<forall>other. other \<noteq> ep_proposal_digest p \<longrightarrow>
         \<not> is_ok (proposal_deserialize X (p\<lparr>ep_proposal_digest := other\<rparr>)))"
proof -
  let ?c = "canonical_digest X (''kiteframe:effect-proposal:v1'' @ nul)"
  from assms(1) obtain p0 where "proposal_from_digests X p0 None = Inr p"
    by (auto elim: proposal_try_new_Inr)
  then have p: "?c (proposal_digest_input p) = Inr (ep_proposal_digest p)"
    unfolding proposal_from_digests_Inr by (metis proposal_digest_input_own)
  have e: "?c (proposal_digest_input raw) = Inr (ep_proposal_digest raw)"
    "r = raw\<lparr>ep_proposal_digest := ep_proposal_digest raw\<rparr>"
    using assms(2) unfolding proposal_deserialize_def proposal_from_digests_Inr by simp_all
  then have raw: "?c (proposal_digest_input raw) = Inr (ep_proposal_digest raw)" "r = raw"
    by simp_all
  have "proposal_digest_input r = proposal_digest_input p"
    using assms(3,4) p raw by (simp add: no_collision_def)
  from proposal_digest_input_inject [OF this, of "ep_proposal_digest p"]
  have "raw\<lparr>ep_proposal_digest := ep_proposal_digest raw\<rparr> = p"
    using assms(3) raw(2) by simp
  then have "raw = p" by simp
  moreover have "proposal_deserialize X p = Inr p"
    using p by (simp add: proposal_deserialize_def proposal_from_digests_Inr)
  moreover have "\<not> is_ok (proposal_deserialize X (p\<lparr>ep_proposal_digest := other\<rparr>))"
    if "other \<noteq> ep_proposal_digest p" for other
    using that p by (auto simp: is_ok_iff proposal_deserialize_def proposal_from_digests_Inr)
  ultimately show ?thesis by blast
qed

definition sample_invocation :: invocation_request where
  "sample_invocation =
     \<lparr>iq_invocation_id = ''inv-1'', iq_admission_id = ''adm-1'', iq_grant_digest = sample_digest,
      iq_delegation_ancestry_digest = sample_digest, iq_capability = sample_identity,
      iq_selected_resource = ''doc:7'', iq_arguments = JObj [], iq_preconditions = [(''etag'', ''v3'')],
      iq_idempotency_key = Some ''key-1'', iq_evidence_refs = [], iq_trace_context = sample_trace\<rparr>"

definition sample_proposal :: effect_proposal where
  "sample_proposal =
     (proposal_of_request sample_invocation sample_descriptor sample_digest sample_digest)
       \<lparr>ep_proposal_digest := sample_digest\<rparr>"

lemma sample_proposal_built:
  "proposal_try_new sample_externals sample_invocation sample_descriptor = Inr sample_proposal"
  by (simp add: proposal_try_new_def request_validate_against_def sample_invocation_def
      sample_proposal_def sample_data canonical_digest_def proposal_from_digests_def)

theorem proposal_digest_binds_every_field_witness:
  "proposal_deserialize sample_externals sample_proposal = Inr sample_proposal"
proof -
  have "proposal_deserialize sample_externals sample_proposal = Inr sample_proposal"
    by (simp add: proposal_deserialize_def proposal_from_digests_def canonical_digest_def
        sample_externals_def sample_proposal_def)
  moreover have "no_collision sample_externals (''kiteframe:effect-proposal:v1'' @ nul)
      (proposal_digest_input sample_proposal) (proposal_digest_input sample_proposal)"
    by (simp add: no_collision_def)
  ultimately show ?thesis
    using proposal_digest_binds_every_field [OF sample_proposal_built, of sample_proposal sample_proposal]
    by blast
qed

end
