(* ===== verification/KF_Status.thy ===== *)
theory KF_Status
  imports KF_Exchange
begin

text \<open>
  The durable invocation lifecycle of \<open>crates/kiteframe-provider/src/status.rs\<close>: the states, the
  transitions and the audit records that permit them, the projections of results and errors
  that may be stored, reservations, and the status a caller sees. The stores that keep these
  values are in the theories that import this one.
\<close>

section \<open>Scopes and caller contexts\<close>

record idempotency_scope_value =
  isv_actor :: string
  isv_capability :: capability_identity
  isv_normalized_resource :: string
  isv_semantic_operation :: string

definition scope_try_new ::
  "string \<Rightarrow> capability_identity \<Rightarrow> string \<Rightarrow> string \<Rightarrow> (string, idempotency_scope_value) result" where
  "scope_try_new actor capability resource operation =
     (if is_blank operation then Inl ''semantic operation is required''
      else Inr \<lparr>isv_actor = actor, isv_capability = capability,
                isv_normalized_resource = resource, isv_semantic_operation = operation\<rparr>)"

record status_context =
  sc_tenant_ref :: string
  sc_human_ref :: string
  sc_workload_ref :: string
  sc_run_ref :: string
  sc_actor_ref :: string
  sc_agent_ref :: string
  sc_task_ref :: string
  sc_session_ref :: string
  sc_admission_ref :: string

definition status_context_try_new :: "status_context \<Rightarrow> (string, status_context) result" where
  "status_context_try_new c =
     (if list_ex is_blank
           [sc_tenant_ref c, sc_human_ref c, sc_workload_ref c, sc_run_ref c, sc_actor_ref c,
            sc_agent_ref c, sc_task_ref c, sc_session_ref c, sc_admission_ref c]
      then Inl ''complete authenticated invocation status context is required''
      else Inr c)"

section \<open>Safe projections\<close>

datatype status_safe_result = StatusSafeResult (ssr_value: json)

definition json_u64 :: "json \<Rightarrow> bool" where
  "json_u64 j = (case j of JInt n \<Rightarrow> 0 \<le> n \<and> n < 2 ^ 64 | _ \<Rightarrow> False)"

definition json_bool :: "json \<Rightarrow> bool" where
  "json_bool j = (case j of JBool _ \<Rightarrow> True | _ \<Rightarrow> False)"

definition project_field ::
  "(json \<Rightarrow> bool) \<Rightarrow> string \<Rightarrow> string \<Rightarrow> (string \<times> json) list \<Rightarrow> (string, (string \<times> json) list) result" where
  "project_field ok field message entries =
     (case map_of entries field of
        None \<Rightarrow> Inr []
      | Some v \<Rightarrow> if ok v then Inr [(field, v)] else Inl message)"

definition count_message :: "string \<Rightarrow> string" where
  "count_message field = ''status result field '' @ field @ '' must be unsigned integer''"

definition status_project :: "json \<Rightarrow> (string, status_safe_result) result" where
  "status_project value =
     (case value of
        JObj entries \<Rightarrow>
          and_then (project_field json_bool ''changed''
            ''status result field changed must be boolean'' entries) (\<lambda>changed.
          and_then (project_field json_u64 ''affectedCount'' (count_message ''affectedCount'') entries)
            (\<lambda>affected.
          and_then (project_field json_u64 ''itemCount'' (count_message ''itemCount'') entries)
            (\<lambda>items. Inr (StatusSafeResult (JObj (affected @ changed @ items))))))
      | _ \<Rightarrow> Inl ''status result must be an object projection'')"

definition status_safe_result_try_new ::
  "externals \<Rightarrow> json \<Rightarrow> capability_descriptor \<Rightarrow> (string, status_safe_result) result" where
  "status_safe_result_try_new X value d =
     and_then (map_err (\<lambda>_. ''status result does not match the locked output projection'')
        (validate_output X d value))
       (\<lambda>_. status_project value)"

definition status_safe_result_deserialize :: "json \<Rightarrow> (string, status_safe_result) result" where
  "status_safe_result_deserialize raw =
     and_then (status_project raw) (\<lambda>projected.
       if ssr_value projected \<noteq> raw
       then Inl ''serialized status result contains non-provider-owned fields''
       else Inr projected)"

record status_safe_error =
  sse_code :: string
  sse_category :: string
  sse_retry :: retry_class
  sse_message :: string

definition safe_status_error_code :: "string \<Rightarrow> bool" where
  "safe_status_error_code value =
     (value \<noteq> [] \<and> length value \<le> 64
      \<and> list_all (\<lambda>c. is_ascii_upper c \<or> is_ascii_digit c \<or> c \<in> set ''-_'') value)"

definition safe_status_error_category :: "string \<Rightarrow> bool" where
  "safe_status_error_category value =
     (value \<noteq> [] \<and> length value \<le> 64
      \<and> list_all (\<lambda>c. is_ascii_lower c \<or> is_ascii_digit c \<or> c \<in> set ''-_'') value)"

definition canonical_status_error_message :: "string \<Rightarrow> string" where
  "canonical_status_error_message category =
     (if category = ''authorization'' then ''invocation was denied''
      else if category = ''runtime'' \<or> category = ''audit'' then ''invocation status is unavailable''
      else ''capability invocation failed'')"

definition status_safe_error_try_new ::
  "string \<Rightarrow> string \<Rightarrow> retry_class \<Rightarrow> (string, status_safe_error) result" where
  "status_safe_error_try_new code category retry =
     (if \<not> safe_status_error_code code \<or> \<not> safe_status_error_category category
      then Inl ''status error projection contains unsafe content''
      else Inr \<lparr>sse_code = code, sse_category = category, sse_retry = retry,
                sse_message = canonical_status_error_message category\<rparr>)"

definition status_safe_error_from_stable :: "stable_error \<Rightarrow> (string, status_safe_error) result" where
  "status_safe_error_from_stable e = status_safe_error_try_new (se_code e) (se_category e) (se_retry e)"

definition status_safe_error_from_diagnostic :: "diagnostic \<Rightarrow> (string, status_safe_error) result" where
  "status_safe_error_from_diagnostic d =
     status_safe_error_try_new (code_str (d_code d)) (category_str (d_category d)) (d_retry d)"

definition status_safe_error_deserialize :: "status_safe_error \<Rightarrow> (string, status_safe_error) result" where
  "status_safe_error_deserialize raw =
     and_then (status_safe_error_try_new (sse_code raw) (sse_category raw) (sse_retry raw)) (\<lambda>projected.
       if sse_message projected \<noteq> sse_message raw
       then Inl ''serialized status error contains a non-canonical message''
       else Inr projected)"

section \<open>States and transitions\<close>

datatype invocation_state =
    StReserved
  | StPending
  | StSuspended suspension
  | StSucceeded status_safe_result
  | StFailed status_safe_error
  | StDenied status_safe_error
  | StOutcomeUnknown
  | StAbandoned

datatype status_state =
  SsPending | SsSuspended | SsSucceeded | SsFailed | SsDenied | SsOutcomeUnknown

fun status_state_of :: "invocation_state \<Rightarrow> status_state" where
  "status_state_of StReserved = SsPending"
| "status_state_of StPending = SsPending"
| "status_state_of (StSuspended _) = SsSuspended"
| "status_state_of (StSucceeded _) = SsSucceeded"
| "status_state_of (StFailed _) = SsFailed"
| "status_state_of (StDenied _) = SsDenied"
| "status_state_of StOutcomeUnknown = SsOutcomeUnknown"
| "status_state_of StAbandoned = SsDenied"

fun wire_name :: "invocation_state \<Rightarrow> string" where
  "wire_name StReserved = ''reserved''"
| "wire_name StPending = ''pending''"
| "wire_name (StSuspended _) = ''suspended''"
| "wire_name (StSucceeded _) = ''succeeded''"
| "wire_name (StFailed _) = ''failed''"
| "wire_name (StDenied _) = ''denied''"
| "wire_name StOutcomeUnknown = ''outcome_unknown''"
| "wire_name StAbandoned = ''abandoned''"

fun allowed_transition :: "invocation_state \<Rightarrow> invocation_state \<Rightarrow> bool" where
  "allowed_transition StReserved StPending = True"
| "allowed_transition StReserved (StSuspended _) = True"
| "allowed_transition StReserved (StDenied _) = True"
| "allowed_transition StPending (StSuspended _) = True"
| "allowed_transition StPending (StSucceeded _) = True"
| "allowed_transition StPending (StFailed _) = True"
| "allowed_transition StPending (StDenied _) = True"
| "allowed_transition StPending StOutcomeUnknown = True"
| "allowed_transition (StSuspended _) StPending = True"
| "allowed_transition (StSuspended _) (StDenied _) = True"
| "allowed_transition StOutcomeUnknown (StSucceeded _) = True"
| "allowed_transition StOutcomeUnknown (StFailed _) = True"
| "allowed_transition StOutcomeUnknown (StDenied _) = True"
| "allowed_transition _ _ = False"

fun state_fences :: "invocation_state \<Rightarrow> bool" where
  "state_fences StReserved = True"
| "state_fences StPending = True"
| "state_fences (StSuspended _) = True"
| "state_fences StOutcomeUnknown = True"
| "state_fences _ = False"

datatype transition_audit = AuditNone | AuditAuthorization string | AuditOutcome string

datatype audit_link_kind = LinkAuthorization | LinkOutcome

record audit_link =
  al_kind :: audit_link_kind
  al_record_id :: string
  al_attached_at :: u64

definition status_invalid :: "string \<Rightarrow> diagnostic" where
  "status_invalid message = diagnostic_error ResultInvalid CatCapability StageInvoke message"

definition audit_link_try_new ::
  "audit_link_kind \<Rightarrow> string \<Rightarrow> u64 \<Rightarrow> (string, audit_link) result" where
  "audit_link_try_new kind record_id attached_at =
     (if is_blank record_id then Inl ''audit record ID is required''
      else Inr \<lparr>al_kind = kind, al_record_id = record_id, al_attached_at = attached_at\<rparr>)"

fun audit_link_from_transition ::
  "transition_audit \<Rightarrow> u64 \<Rightarrow> (diagnostic, audit_link option) result" where
  "audit_link_from_transition AuditNone attached_at = Inr None"
| "audit_link_from_transition (AuditAuthorization i) attached_at =
     map_ok Some (map_err (\<lambda>_. status_invalid ''audit record is invalid'')
       (audit_link_try_new LinkAuthorization i attached_at))"
| "audit_link_from_transition (AuditOutcome i) attached_at =
     map_ok Some (map_err (\<lambda>_. status_invalid ''audit record is invalid'')
       (audit_link_try_new LinkOutcome i attached_at))"

fun transition_audit_validate :: "transition_audit \<Rightarrow> (diagnostic, unit) result" where
  "transition_audit_validate AuditNone = Inr ()"
| "transition_audit_validate (AuditAuthorization i) =
     ensure (\<not> is_blank i) (status_invalid ''audit record ID is required for state transition'')"
| "transition_audit_validate (AuditOutcome i) =
     ensure (\<not> is_blank i) (status_invalid ''audit record ID is required for state transition'')"

definition audit_matches_transition ::
  "invocation_state \<Rightarrow> invocation_state \<Rightarrow> transition_audit \<Rightarrow> bool" where
  "audit_matches_transition expected target audit =
     (case audit of
        AuditAuthorization _ \<Rightarrow>
          (case (expected, target) of
             (StReserved, StPending) \<Rightarrow> True
           | (StSuspended _, StPending) \<Rightarrow> True
           | _ \<Rightarrow> False)
      | AuditOutcome _ \<Rightarrow>
          (case (expected, target) of
             (StPending, StSucceeded _) \<Rightarrow> True
           | (StPending, StFailed _) \<Rightarrow> True
           | (StOutcomeUnknown, StSucceeded _) \<Rightarrow> True
           | (StOutcomeUnknown, StFailed _) \<Rightarrow> True
           | (StPending, StOutcomeUnknown) \<Rightarrow> True
           | _ \<Rightarrow> False)
      | AuditNone \<Rightarrow>
          (case (expected, target) of
             (StPending, StOutcomeUnknown) \<Rightarrow> True
           | (StReserved, StSuspended _) \<Rightarrow> True
           | (StReserved, StDenied _) \<Rightarrow> True
           | (StPending, StSuspended _) \<Rightarrow> True
           | (StPending, StDenied _) \<Rightarrow> True
           | (StSuspended _, StDenied _) \<Rightarrow> True
           | (StOutcomeUnknown, StDenied _) \<Rightarrow> True
           | _ \<Rightarrow> False))"

record invocation_transition =
  it_expected :: invocation_state
  it_next :: invocation_state
  it_audit_record :: transition_audit

definition transition_try_new ::
  "invocation_state \<Rightarrow> invocation_state \<Rightarrow> transition_audit \<Rightarrow>
     (diagnostic, invocation_transition) result" where
  "transition_try_new expected target audit =
     and_then (transition_audit_validate audit) (\<lambda>_.
       if \<not> allowed_transition expected target \<or> \<not> audit_matches_transition expected target audit
       then Inl (status_invalid ''invocation state transition and audit record do not correspond'')
       else Inr \<lparr>it_expected = expected, it_next = target, it_audit_record = audit\<rparr>)"

record abandonment_authorization =
  aa_authorization_record_id :: string
  aa_authorized_by :: string

definition abandonment_try_new ::
  "string \<Rightarrow> string \<Rightarrow> (string, abandonment_authorization) result" where
  "abandonment_try_new record_id authorized_by =
     (if is_blank record_id \<or> is_blank authorized_by
      then Inl ''explicit abandonment authorization is required''
      else Inr \<lparr>aa_authorization_record_id = record_id, aa_authorized_by = authorized_by\<rparr>)"

section \<open>Reservations\<close>

fun split_once_str :: "string \<Rightarrow> string \<Rightarrow> (string \<times> string) option" where
  "split_once_str pat [] = (if pat = [] then Some ([], []) else None)"
| "split_once_str pat (c # cs) =
     (if prefix pat (c # cs) then Some ([], drop (length pat) (c # cs))
      else map_option (\<lambda>(a, b). (c # a, b)) (split_once_str pat cs))"

definition protected_reference :: "string \<Rightarrow> bool" where
  "protected_reference reference =
     (case split_once_str ''://'' reference of
        None \<Rightarrow> False
      | Some (scheme, opaque) \<Rightarrow>
          (scheme = ''evidence'' \<or> scheme = ''vault'') \<and> opaque \<noteq> []
          \<and> \<not> list_ex (\<lambda>c. char_in 0 32 c \<or> char_in 127 127 c) opaque)"

record reservation_input =
  ri_invocation_id :: string
  ri_status_id :: string
  ri_scope :: idempotency_scope_value
  ri_idempotency_key :: string
  ri_request_digest :: sha256_digest
  ri_admission_id :: string
  ri_grant_digest :: sha256_digest
  ri_catalog_identity :: catalog_identity
  ri_catalog_digest :: sha256_digest
  ri_authority_revision_digest :: sha256_digest
  ri_status_context :: status_context
  ri_proposal_digest :: sha256_digest
  ri_protected_evidence_refs :: "string list"

definition reservation_validate :: "reservation_input \<Rightarrow> (diagnostic, unit) result" where
  "reservation_validate r =
     (if is_blank (ri_status_id r) \<or> is_blank (cat_name (ri_catalog_identity r))
         \<or> is_blank (cat_revision (ri_catalog_identity r))
         \<or> isv_actor (ri_scope r) \<noteq> sc_actor_ref (ri_status_context r)
         \<or> ri_admission_id r \<noteq> sc_admission_ref (ri_status_context r)
         \<or> list_ex (\<lambda>x. \<not> protected_reference x) (ri_protected_evidence_refs r)
      then Inl (status_invalid ''invalid durable invocation reservation'')
      else Inr ())"

record stored_invocation =
  si_invocation_id :: string
  si_status_id :: string
  si_scope :: idempotency_scope_value
  si_idempotency_key :: string
  si_request_digest :: sha256_digest
  si_admission_id :: string
  si_grant_digest :: sha256_digest
  si_catalog_identity :: catalog_identity
  si_catalog_digest :: sha256_digest
  si_descriptor_digest :: sha256_digest
  si_authority_revision_digest :: sha256_digest
  si_status_context :: status_context
  si_proposal_digest :: sha256_digest
  si_protected_evidence_refs :: "string list"
  si_state :: invocation_state
  si_audit_links :: "audit_link list"
  si_created_at :: u64
  si_updated_at :: u64
  si_retention_until :: u64
  si_abandonment :: "abandonment_authorization option"

definition stored_try_reserve ::
  "reservation_input \<Rightarrow> capability_descriptor \<Rightarrow> u64 \<Rightarrow> u64 \<Rightarrow> (diagnostic, stored_invocation) result" where
  "stored_try_reserve r d created_at retention_until =
     and_then (reservation_validate r) (\<lambda>_.
     and_then
       (case cd_idempotency d of
          IdempotencyRequired _ retention \<Rightarrow> Inr retention
        | IdempotencyNone \<Rightarrow>
            Inl (status_invalid ''durable effect reservation requires a locked idempotency contract''))
       (\<lambda>required_seconds.
     if cd_identity d \<noteq> isv_capability (ri_scope r)
        \<or> isv_semantic_operation (ri_scope r) \<noteq> ci_name (cd_identity d)
     then Inl (status_invalid ''idempotency scope does not match the locked capability descriptor'')
     else and_then (ok_or (status_invalid ''idempotency retention deadline overflows'')
         (checked_add created_at required_seconds)) (\<lambda>minimum_retention.
       if retention_until < minimum_retention
       then Inl (status_invalid ''retention deadline is shorter than the locked descriptor contract'')
       else Inr
         \<lparr>si_invocation_id = ri_invocation_id r, si_status_id = ri_status_id r,
          si_scope = ri_scope r, si_idempotency_key = ri_idempotency_key r,
          si_request_digest = ri_request_digest r, si_admission_id = ri_admission_id r,
          si_grant_digest = ri_grant_digest r, si_catalog_identity = ri_catalog_identity r,
          si_catalog_digest = ri_catalog_digest r, si_descriptor_digest = cd_descriptor_digest d,
          si_authority_revision_digest = ri_authority_revision_digest r,
          si_status_context = ri_status_context r, si_proposal_digest = ri_proposal_digest r,
          si_protected_evidence_refs = ri_protected_evidence_refs r, si_state = StReserved,
          si_audit_links = [], si_created_at = created_at, si_updated_at = created_at,
          si_retention_until = retention_until, si_abandonment = None\<rparr>)))"

section \<open>Statuses\<close>

record invocation_status =
  is_invocation_id :: string
  is_status_id :: string
  is_state :: invocation_state
  is_request_digest :: sha256_digest
  is_grant_digest :: sha256_digest
  is_catalog_identity :: catalog_identity
  is_catalog_digest :: sha256_digest
  is_descriptor_digest :: sha256_digest
  is_authority_revision_digest :: sha256_digest
  is_proposal_digest :: sha256_digest
  is_audit_links :: "audit_link list"
  is_abandonment_record_id :: "string option"
  is_abandoned_by :: "string option"
  is_created_at :: u64
  is_updated_at :: u64
  is_retention_until :: u64

definition status_from_stored :: "stored_invocation \<Rightarrow> invocation_status" where
  "status_from_stored s =
     \<lparr>is_invocation_id = si_invocation_id s, is_status_id = si_status_id s, is_state = si_state s,
      is_request_digest = si_request_digest s, is_grant_digest = si_grant_digest s,
      is_catalog_identity = si_catalog_identity s, is_catalog_digest = si_catalog_digest s,
      is_descriptor_digest = si_descriptor_digest s,
      is_authority_revision_digest = si_authority_revision_digest s,
      is_proposal_digest = si_proposal_digest s, is_audit_links = si_audit_links s,
      is_abandonment_record_id = map_option aa_authorization_record_id (si_abandonment s),
      is_abandoned_by = map_option aa_authorized_by (si_abandonment s),
      is_created_at = si_created_at s, is_updated_at = si_updated_at s,
      is_retention_until = si_retention_until s\<rparr>"

definition latest_link :: "audit_link_kind \<Rightarrow> invocation_status \<Rightarrow> string option" where
  "latest_link kind s =
     map_option al_record_id (find (\<lambda>l. al_kind l = kind) (rev (is_audit_links s)))"

definition audit_authorization_record_id :: "invocation_status \<Rightarrow> string option" where
  "audit_authorization_record_id s = latest_link LinkAuthorization s"

definition audit_outcome_record_id :: "invocation_status \<Rightarrow> string option" where
  "audit_outcome_record_id s = latest_link LinkOutcome s"

definition status_unauthorized :: diagnostic where
  "status_unauthorized = diagnostic_error InvocationDenied CatAuthorization StageInvoke
     ''authenticated status context does not match the invocation''"

definition status_not_found :: diagnostic where
  "status_not_found = diagnostic_error InvocationDenied CatAuthorization StageInvoke
     ''invocation status is unavailable''"

definition scope_outcome_unknown :: diagnostic where
  "scope_outcome_unknown = diagnostic_outcome_unknown
     ''a prior invocation in this idempotency scope has an unknown outcome; query status first''"

definition status_portable :: "invocation_status \<Rightarrow> (diagnostic, portable_status) result" where
  "status_portable s =
     (case is_state s of
        StReserved \<Rightarrow> Inr (PsPending (is_invocation_id s))
      | StPending \<Rightarrow> Inr (PsPending (is_invocation_id s))
      | StSuspended su \<Rightarrow> Inr (PsSuspended (is_invocation_id s) su)
      | StSucceeded r \<Rightarrow> Inr (PsSucceeded (is_invocation_id s) (ssr_value r))
      | StFailed e \<Rightarrow>
          map_ok (PsFailed (is_invocation_id s))
            (map_err (\<lambda>_. status_invalid ''portable stable error projection failed'')
              (stable_error_try_new (sse_code e) (sse_category e) (sse_retry e) (sse_message e)))
      | StDenied _ \<Rightarrow> Inr (PsDenied (is_invocation_id s) status_unauthorized)
      | StAbandoned \<Rightarrow> Inr (PsDenied (is_invocation_id s) status_unauthorized)
      | StOutcomeUnknown \<Rightarrow>
          map_err (\<lambda>_. status_invalid ''portable outcome-unknown projection failed'')
            (portable_outcome_unknown (is_invocation_id s)
              (diagnostic_outcome_unknown
                 ''effect outcome is uncertain; query status before retrying'')))"

datatype reservation_kind = KindReserved | KindExisting

record invocation_reservation =
  ir_kind :: reservation_kind
  ir_status :: invocation_status

definition reservation_from_stored ::
  "reservation_kind \<Rightarrow> stored_invocation \<Rightarrow> invocation_reservation" where
  "reservation_from_stored kind s = \<lparr>ir_kind = kind, ir_status = status_from_stored s\<rparr>"

section \<open>Lemmas on states and projections\<close>

fun terminal_state :: "invocation_state \<Rightarrow> bool" where
  "terminal_state (StSucceeded _) = True"
| "terminal_state (StFailed _) = True"
| "terminal_state (StDenied _) = True"
| "terminal_state StAbandoned = True"
| "terminal_state _ = False"

fun started_state :: "invocation_state \<Rightarrow> bool" where
  "started_state StPending = True"
| "started_state (StSucceeded _) = True"
| "started_state (StFailed _) = True"
| "started_state StOutcomeUnknown = True"
| "started_state StAbandoned = True"
| "started_state _ = False"

fun finished_state :: "invocation_state \<Rightarrow> bool" where
  "finished_state (StSucceeded _) = True"
| "finished_state (StFailed _) = True"
| "finished_state _ = False"

lemma terminal_not_fencing: "terminal_state s \<longleftrightarrow> \<not> state_fences s"
  by (cases s) simp_all

lemma terminal_no_transition: "terminal_state s \<Longrightarrow> \<not> allowed_transition s t"
  by (cases s) simp_all

lemma allowed_leaves_fencing: "allowed_transition s t \<Longrightarrow> state_fences s"
  by (cases s) simp_all

lemma allowed_irrefl: "\<not> allowed_transition s s"
  by (cases s) simp_all

lemma allowed_into_started:
  "allowed_transition s t \<Longrightarrow> started_state t \<Longrightarrow> t = StPending \<or> started_state s"
  by (cases s; cases t) simp_all

lemma audit_into_pending:
  "allowed_transition s t \<Longrightarrow> audit_matches_transition s t a \<Longrightarrow> t = StPending \<Longrightarrow>
   \<exists>i. a = AuditAuthorization i"
  by (cases s; cases a) (simp_all add: audit_matches_transition_def)

lemma audit_into_finished:
  "allowed_transition s t \<Longrightarrow> audit_matches_transition s t a \<Longrightarrow> finished_state t \<Longrightarrow>
   \<exists>i. a = AuditOutcome i"
  by (cases s; cases t; cases a) (simp_all add: audit_matches_transition_def)

lemma allowed_not_reserved: "allowed_transition s t \<Longrightarrow> t \<noteq> StReserved \<and> t \<noteq> StAbandoned"
  by (cases s; cases t) simp_all

lemma transition_try_new_Inr:
  "transition_try_new e t a = Inr tr \<longleftrightarrow>
     transition_audit_validate a = Inr () \<and> allowed_transition e t \<and> audit_matches_transition e t a
     \<and> tr = \<lparr>it_expected = e, it_next = t, it_audit_record = a\<rparr>"
  by (auto simp: transition_try_new_def)

lemma printable_not_blank:
  assumes "v \<noteq> []" and "\<forall>c \<in> set v. 33 \<le> (of_char c :: nat) \<and> (of_char c :: nat) < 127"
  shows "\<not> is_blank v"
proof -
  obtain c cs where "v = c # cs" using assms(1) by (cases v) auto
  with assms(2) show ?thesis
    by (cases "map (of_char :: char \<Rightarrow> nat) v" rule: blank_bytes.cases)
       (auto simp: is_blank_def ascii_white_def white2_def white3_def)
qed

lemma safe_code_not_blank: "safe_status_error_code v \<Longrightarrow> \<not> is_blank v"
  by (rule printable_not_blank)
     (auto simp: safe_status_error_code_def is_ascii_upper_def is_ascii_digit_def char_in_def list_all_iff)

lemma safe_category_not_blank: "safe_status_error_category v \<Longrightarrow> \<not> is_blank v"
  by (rule printable_not_blank)
     (auto simp: safe_status_error_category_def is_ascii_lower_def is_ascii_digit_def char_in_def list_all_iff)

lemma project_field_Inr:
  "project_field ok field m entries = Inr r \<Longrightarrow>
   r = [] \<and> map_of entries field = None
   \<or> (\<exists>v. map_of entries field = Some v \<and> ok v \<and> r = [(field, v)])"
  by (auto simp: project_field_def split: option.splits if_splits)

lemma project_field_again:
  "project_field ok field m entries = Inr r \<Longrightarrow>
   map_of entries' field = map_of r field \<Longrightarrow> project_field ok field m entries' = Inr r"
  using project_field_Inr [of ok field m entries r] by (auto simp: project_field_def)

lemma status_project_Inr:
  assumes "status_project v = Inr r"
  obtains entries affected changed items where "v = JObj entries"
    "project_field json_bool ''changed'' ''status result field changed must be boolean'' entries = Inr changed"
    "project_field json_u64 ''affectedCount'' (count_message ''affectedCount'') entries = Inr affected"
    "project_field json_u64 ''itemCount'' (count_message ''itemCount'') entries = Inr items"
    "r = StatusSafeResult (JObj (affected @ changed @ items))"
  using assms by (cases v) (auto simp: status_project_def)

lemma status_project_idem:
  assumes "status_project v = Inr r" shows "status_project (ssr_value r) = Inr r"
  using assms
proof (cases rule: status_project_Inr)
  case (1 entries affected changed items)
  let ?all = "affected @ changed @ items"
  have "map_of ?all ''changed'' = map_of changed ''changed''"
    "map_of ?all ''affectedCount'' = map_of affected ''affectedCount''"
    "map_of ?all ''itemCount'' = map_of items ''itemCount''"
    using project_field_Inr [OF 1(2)] project_field_Inr [OF 1(3)] project_field_Inr [OF 1(4)]
    by (auto simp: map_add_def)
  note this [THEN project_field_again [rotated]]
  with 1 have "project_field json_bool ''changed'' ''status result field changed must be boolean'' ?all = Inr changed"
    "project_field json_u64 ''affectedCount'' (count_message ''affectedCount'') ?all = Inr affected"
    "project_field json_u64 ''itemCount'' (count_message ''itemCount'') ?all = Inr items"
    by blast+
  with 1(5) show ?thesis by (simp add: status_project_def)
qed

definition wf_safe_error :: "status_safe_error \<Rightarrow> bool" where
  "wf_safe_error e =
     (safe_status_error_code (sse_code e) \<and> safe_status_error_category (sse_category e)
      \<and> sse_message e = canonical_status_error_message (sse_category e))"

lemma status_safe_error_wf: "status_safe_error_try_new c k r = Inr e \<Longrightarrow> wf_safe_error e"
  by (auto simp: status_safe_error_try_new_def wf_safe_error_def split: if_splits)

lemma wf_safe_error_deserialize:
  "status_safe_error_deserialize e = Inr e' \<longleftrightarrow> wf_safe_error e \<and> e' = e"
  by (cases e)
     (auto simp: status_safe_error_deserialize_def status_safe_error_try_new_def wf_safe_error_def)

section \<open>Properties\<close>

text \<open>
  The only state changes the lifecycle can express are the thirteen allowed ones, and each
  is tied to its audit record: a transition can be constructed for a pair of states exactly when
  the pair is allowed; entering Pending (the effect may start) always carries the identifier of
  an authorization record, entering Succeeded or Failed always carries that of an outcome
  record, and a final state has no successor.
\<close>

lemma transition_requires_audit:
  "((\<exists>a. is_ok (transition_try_new e t a)) \<longleftrightarrow> allowed_transition e t)
   \<and> (\<forall>a tr. transition_try_new e t a = Inr tr \<longrightarrow>
        \<not> terminal_state e \<and> e \<noteq> t
        \<and> (t = StPending \<longrightarrow> (\<exists>i. a = AuditAuthorization i \<and> \<not> is_blank i))
        \<and> (finished_state t \<longrightarrow> (\<exists>i. a = AuditOutcome i \<and> \<not> is_blank i)))"
proof (intro conjI allI impI)
  have visible: "\<not> is_blank ''x''"
    by (simp add: is_blank_def ascii_white_def)
  show "(\<exists>a. is_ok (transition_try_new e t a)) \<longleftrightarrow> allowed_transition e t"
  proof
    assume "\<exists>a. is_ok (transition_try_new e t a)"
    then show "allowed_transition e t" by (auto simp: is_ok_iff transition_try_new_Inr)
  next
    assume ok: "allowed_transition e t"
    have "\<exists>a. transition_audit_validate a = Inr () \<and> audit_matches_transition e t a"
      by (intro exI [of _ "if t = StPending then AuditAuthorization ''x''
            else if finished_state t then AuditOutcome ''x'' else AuditNone"])
         (use ok visible in \<open>cases e; cases t; simp add: audit_matches_transition_def\<close>)
    with ok show "\<exists>a. is_ok (transition_try_new e t a)"
      by (auto simp: is_ok_iff transition_try_new_Inr)
  qed
next
  fix a tr assume "transition_try_new e t a = Inr tr"
  then have tr: "transition_audit_validate a = Inr ()" "allowed_transition e t"
    "audit_matches_transition e t a" by (simp_all add: transition_try_new_Inr)
  show "\<not> terminal_state e" using tr(2) terminal_no_transition by blast
  show "e \<noteq> t" using tr(2) allowed_irrefl by blast
  show "\<exists>i. a = AuditAuthorization i \<and> \<not> is_blank i" if "t = StPending"
    using audit_into_pending [OF tr(2,3) that] tr(1) by auto
  show "\<exists>i. a = AuditOutcome i \<and> \<not> is_blank i" if "finished_state t"
    using audit_into_finished [OF tr(2,3) that] tr(1) by auto
qed

text \<open>
  What the store may keep of a result or an error is a projection that is stable: the safe
  part of a result holds at most a boolean \<open>changed\<close> and the unsigned counts
  \<open>affectedCount\<close> and \<open>itemCount\<close>, taken from the provider's object; reading a stored
  projection back accepts it unchanged and accepts nothing that is not such a projection; and
  the safe form of any diagnostic or stable error reads back as itself.
\<close>

lemma safe_projections_round_trip:
  assumes "status_project v = Inr r"
    and "status_safe_error_from_diagnostic d = Inr e \<or> status_safe_error_from_stable se = Inr e"
  shows "status_safe_result_deserialize (ssr_value r) = Inr r
     \<and> (\<forall>w q. status_safe_result_deserialize w = Inr q \<longrightarrow> status_project w = Inr q \<and> ssr_value q = w)
     \<and> (\<exists>entries kept. v = JObj entries \<and> ssr_value r = JObj kept
          \<and> (\<forall>(k, x) \<in> set kept. map_of entries k = Some x
               \<and> (k = ''changed'' \<and> json_bool x \<or> k \<in> {''affectedCount'', ''itemCount''} \<and> json_u64 x)))
     \<and> status_safe_error_deserialize e = Inr e"
proof (intro conjI allI impI)
  show "status_safe_result_deserialize (ssr_value r) = Inr r"
    using status_project_idem [OF assms(1)] by (simp add: status_safe_result_deserialize_def)
  from assms(1) obtain entries affected changed items where *: "v = JObj entries"
    "project_field json_bool ''changed'' ''status result field changed must be boolean'' entries = Inr changed"
    "project_field json_u64 ''affectedCount'' (count_message ''affectedCount'') entries = Inr affected"
    "project_field json_u64 ''itemCount'' (count_message ''itemCount'') entries = Inr items"
    "r = StatusSafeResult (JObj (affected @ changed @ items))"
    by (rule status_project_Inr)
  have "\<forall>(k, x) \<in> set changed. map_of entries k = Some x \<and> k = ''changed'' \<and> json_bool x"
    using project_field_Inr [OF *(2)] by auto
  moreover have "\<forall>(k, x) \<in> set affected. map_of entries k = Some x \<and> k = ''affectedCount'' \<and> json_u64 x"
    using project_field_Inr [OF *(3)] by auto
  moreover have "\<forall>(k, x) \<in> set items. map_of entries k = Some x \<and> k = ''itemCount'' \<and> json_u64 x"
    using project_field_Inr [OF *(4)] by auto
  ultimately have kept: "\<forall>(k, x) \<in> set (affected @ changed @ items). map_of entries k = Some x
      \<and> (k = ''changed'' \<and> json_bool x \<or> k \<in> {''affectedCount'', ''itemCount''} \<and> json_u64 x)"
    by fastforce
  show "\<exists>entries kept. v = JObj entries \<and> ssr_value r = JObj kept
        \<and> (\<forall>(k, x) \<in> set kept. map_of entries k = Some x
             \<and> (k = ''changed'' \<and> json_bool x \<or> k \<in> {''affectedCount'', ''itemCount''} \<and> json_u64 x))"
    by (intro exI [of _ entries] exI [of _ "affected @ changed @ items"] conjI kept)
       (simp_all add: *(1,5))
  show "status_project w = Inr q" "ssr_value q = w" if "status_safe_result_deserialize w = Inr q" for w q
    using that by (auto simp: status_safe_result_deserialize_def split: if_splits)
  show "status_safe_error_deserialize e = Inr e"
    using assms(2) status_safe_error_wf
    by (auto simp: wf_safe_error_deserialize status_safe_error_from_diagnostic_def
        status_safe_error_from_stable_def)
qed

text \<open>
  The portable status never fails to project for a stored invocation whose errors came from
  the safe projection, always names the invocation, and denials and unknown outcomes carry
  exactly the diagnostics that the client-side checks of the contract accept.
\<close>

lemma portable_status_total:
  assumes "\<forall>e. is_state s = StFailed e \<longrightarrow> wf_safe_error e"
  shows "\<exists>p. status_portable s = Inr p \<and> portable_invocation_id p = is_invocation_id s
    \<and> (\<forall>i d. p = PsDenied i d \<longrightarrow> validate_denial_diagnostic d = Inr ())
    \<and> (\<forall>i d. p = PsOutcomeUnknown i d \<longrightarrow> status_first_check d = Inr ())"
proof (cases "is_state s")
  case (StFailed e)
  then have "wf_safe_error e" using assms by blast
  then have "stable_error_try_new (sse_code e) (sse_category e) (sse_retry e) (sse_message e) =
      Inr \<lparr>se_code = sse_code e, se_category = sse_category e, se_retry = sse_retry e,
           se_message = sse_message e\<rparr>"
    by (simp add: stable_error_try_new_def wf_safe_error_def safe_code_not_blank safe_category_not_blank)
  with StFailed show ?thesis by (simp add: status_portable_def)
qed (simp_all add: status_portable_def status_unauthorized_def validate_denial_diagnostic_def
      portable_outcome_unknown_def status_first_try_new_def validate_status_first_def
      diagnostic_outcome_unknown_def diagnostic_error_def status_first_check_def)

definition sample_status :: invocation_status where
  "sample_status =
     \<lparr>is_invocation_id = ''inv-1'', is_status_id = ''st-1'', is_state = StOutcomeUnknown,
      is_request_digest = sample_digest, is_grant_digest = sample_digest,
      is_catalog_identity = sample_catalog, is_catalog_digest = sample_digest,
      is_descriptor_digest = sample_digest, is_authority_revision_digest = sample_digest,
      is_proposal_digest = sample_digest, is_audit_links = [], is_abandonment_record_id = None,
      is_abandoned_by = None, is_created_at = 100, is_updated_at = 110, is_retention_until = 900\<rparr>"

end
