(* ===== verification/KF_Store.thy ===== *)
theory KF_Store
  imports KF_Status
begin

text \<open>
  The invocation store of \<open>crates/kiteframe-provider/src/status.rs\<close>: the \<open>InvocationStore\<close>
  interface as a locale with the laws its clients rely on, and the in-memory store, an ordered
  map under one lock, with its invariant. The clock (\<open>InvocationStoreClock\<close>) is external: each
  operation takes the time it reads as an argument.
\<close>

section \<open>Reservation keys\<close>

datatype reservation_key = ReservationKey (rk_actor: string) (rk_capability_name: string)
  (rk_capability_version: string) (rk_normalized_resource: string)
  (rk_semantic_operation: string) (rk_idempotency_key: string)

instantiation reservation_key :: linorder
begin
definition rk_tuple :: "reservation_key \<Rightarrow> string \<times> string \<times> string \<times> string \<times> string \<times> string" where
  "rk_tuple k = (rk_actor k, rk_capability_name k, rk_capability_version k, rk_normalized_resource k,
     rk_semantic_operation k, rk_idempotency_key k)"
definition less_eq_reservation_key :: "reservation_key \<Rightarrow> reservation_key \<Rightarrow> bool" where
  "less_eq_reservation_key a b = (rk_tuple a \<le> rk_tuple b)"
definition less_reservation_key :: "reservation_key \<Rightarrow> reservation_key \<Rightarrow> bool" where
  "less_reservation_key a b = (rk_tuple a < rk_tuple b)"
instance
proof
  fix a b :: reservation_key
  assume "a \<le> b" "b \<le> a"
  then have "rk_tuple a = rk_tuple b" by (simp add: less_eq_reservation_key_def)
  then show "a = b" by (cases a; cases b) (simp add: rk_tuple_def)
qed (auto simp: less_eq_reservation_key_def less_reservation_key_def)
end

definition key_from_invocation :: "stored_invocation \<Rightarrow> reservation_key" where
  "key_from_invocation s =
     ReservationKey (isv_actor (si_scope s)) (ci_name (isv_capability (si_scope s)))
       (ci_version (isv_capability (si_scope s))) (isv_normalized_resource (si_scope s))
       (isv_semantic_operation (si_scope s)) (si_idempotency_key s)"

definition same_scope :: "reservation_key \<Rightarrow> reservation_key \<Rightarrow> bool" where
  "same_scope a b =
     (rk_actor a = rk_actor b \<and> rk_capability_name a = rk_capability_name b
      \<and> rk_capability_version a = rk_capability_version b
      \<and> rk_normalized_resource a = rk_normalized_resource b
      \<and> rk_semantic_operation a = rk_semantic_operation b)"

lemma same_scope_refl [simp]: "same_scope a a"
  by (simp add: same_scope_def)

lemma same_scope_of_scope:
  "same_scope (key_from_invocation s) (key_from_invocation t) \<longleftrightarrow> si_scope s = si_scope t"
  by (cases "si_scope s"; cases "si_scope t")
     (auto simp: same_scope_def key_from_invocation_def intro: capability_identity.expand)

section \<open>What one transition does to a record\<close>

definition attach_link :: "audit_link option \<Rightarrow> stored_invocation \<Rightarrow> (diagnostic, stored_invocation) result" where
  "attach_link link s =
     (case link of
        None \<Rightarrow> Inr s
      | Some l \<Rightarrow>
          (if \<exists>x \<in> set (si_audit_links s). al_kind x = al_kind l \<and> al_record_id x = al_record_id l
           then Inl (status_invalid ''audit record is already linked to this invocation'')
           else Inr (s\<lparr>si_audit_links := si_audit_links s @ [l]\<rparr>)))"

definition apply_transition ::
  "u64 \<Rightarrow> invocation_transition \<Rightarrow> stored_invocation \<Rightarrow> (diagnostic, stored_invocation) result" where
  "apply_transition now t s =
     (if si_state s \<noteq> it_expected t
      then Inl (status_invalid ''invocation state compare-and-swap failed'')
      else if now < si_updated_at s
      then Inl (status_invalid ''trusted invocation-store clock moved backwards'')
      else and_then (audit_link_from_transition (it_audit_record t) now) (\<lambda>link.
        map_ok (\<lambda>s'. s'\<lparr>si_state := it_next t, si_updated_at := now\<rparr>) (attach_link link s)))"

definition apply_abandon ::
  "status_context \<Rightarrow> abandonment_authorization \<Rightarrow> stored_invocation \<Rightarrow>
     (diagnostic, stored_invocation) result" where
  "apply_abandon ctx authorization s =
     (if si_status_context s \<noteq> ctx then Inl status_unauthorized
      else if si_state s \<noteq> StOutcomeUnknown
      then Inl (status_invalid ''only an outcome-unknown invocation can be abandoned'')
      else Inr (s\<lparr>si_abandonment := Some authorization, si_state := StAbandoned,
                  si_updated_at := saturating_add (si_updated_at s) 1\<rparr>))"

text \<open>
  The invariant of a stored record: time does not run backwards, audit links are unique and
  attached no later than the last update, the abandonment is recorded exactly for abandoned
  invocations, an effect that may have started has its authorization record and a finished one
  its outcome record, and the scope belongs to the caller and capability of the reservation.
\<close>

definition wf_stored :: "stored_invocation \<Rightarrow> bool" where
  "wf_stored s =
     (si_created_at s \<le> si_updated_at s
      \<and> distinct (map (\<lambda>l. (al_kind l, al_record_id l)) (si_audit_links s))
      \<and> (\<forall>l \<in> set (si_audit_links s). \<not> is_blank (al_record_id l) \<and> al_attached_at l \<le> si_updated_at s)
      \<and> (si_abandonment s \<noteq> None \<longleftrightarrow> si_state s = StAbandoned)
      \<and> (started_state (si_state s) \<longrightarrow> (\<exists>l \<in> set (si_audit_links s). al_kind l = LinkAuthorization))
      \<and> (finished_state (si_state s) \<longrightarrow> (\<exists>l \<in> set (si_audit_links s). al_kind l = LinkOutcome))
      \<and> isv_actor (si_scope s) = sc_actor_ref (si_status_context s)
      \<and> si_admission_id s = sc_admission_ref (si_status_context s)
      \<and> isv_semantic_operation (si_scope s) = ci_name (isv_capability (si_scope s)))"

definition valid_transition :: "invocation_transition \<Rightarrow> bool" where
  "valid_transition t \<longleftrightarrow> transition_try_new (it_expected t) (it_next t) (it_audit_record t) = Inr t"

lemma valid_transition_iff:
  "valid_transition t \<longleftrightarrow>
     transition_audit_validate (it_audit_record t) = Inr ()
     \<and> allowed_transition (it_expected t) (it_next t)
     \<and> audit_matches_transition (it_expected t) (it_next t) (it_audit_record t)"
  by (auto simp: valid_transition_def transition_try_new_Inr)

lemma transition_try_new_valid: "transition_try_new e n a = Inr t \<Longrightarrow> valid_transition t"
  by (auto simp: valid_transition_def transition_try_new_Inr)

lemma stored_try_reserve_Inr:
  assumes "stored_try_reserve r d now ret = Inr s"
  shows "wf_stored s" "si_state s = StReserved" "si_invocation_id s = ri_invocation_id r"
    "si_scope s = ri_scope r" "si_idempotency_key s = ri_idempotency_key r"
    "si_request_digest s = ri_request_digest r" "si_status_context s = ri_status_context r"
    "si_audit_links s = []" "si_created_at s = now" "si_updated_at s = now"
    "si_retention_until s = ret" "si_abandonment s = None"
    "si_status_id s = ri_status_id r" "isv_capability (ri_scope r) = cd_identity d"
    "si_proposal_digest s = ri_proposal_digest r"
  using assms
  by (auto simp: stored_try_reserve_def reservation_validate_def wf_stored_def split: if_splits)

lemma link_from_transition_Inr:
  "audit_link_from_transition a now = Inr link \<longleftrightarrow>
     (a = AuditNone \<and> link = None)
     \<or> (\<exists>i. \<not> is_blank i \<and> (a = AuditAuthorization i
            \<and> link = Some \<lparr>al_kind = LinkAuthorization, al_record_id = i, al_attached_at = now\<rparr>
          \<or> a = AuditOutcome i
            \<and> link = Some \<lparr>al_kind = LinkOutcome, al_record_id = i, al_attached_at = now\<rparr>))"
  by (cases a) (auto simp: audit_link_try_new_def split: if_splits)

lemma apply_transition_Inr:
  "apply_transition now t s = Inr s' \<longleftrightarrow>
     si_state s = it_expected t \<and> si_updated_at s \<le> now
     \<and> (\<exists>link s''. audit_link_from_transition (it_audit_record t) now = Inr link
          \<and> attach_link link s = Inr s''
          \<and> s' = s''\<lparr>si_state := it_next t, si_updated_at := now\<rparr>)"
  by (auto simp: apply_transition_def)

lemma attach_link_Inr:
  "attach_link link s = Inr s' \<longleftrightarrow>
     (link = None \<and> s' = s)
     \<or> (\<exists>l. link = Some l
          \<and> (\<forall>x \<in> set (si_audit_links s). al_kind x = al_kind l \<longrightarrow> al_record_id x \<noteq> al_record_id l)
          \<and> s' = s\<lparr>si_audit_links := si_audit_links s @ [l]\<rparr>)"
  by (cases link) (auto simp: attach_link_def)

lemma apply_transition_cases:
  assumes "apply_transition now t s = Inr s'"
  obtains (none) "it_audit_record t = AuditNone"
      "s' = s\<lparr>si_state := it_next t, si_updated_at := now\<rparr>"
      "si_state s = it_expected t" "si_updated_at s \<le> now"
    | (link) l where "\<not> is_blank (al_record_id l)" "al_attached_at l = now"
      "it_audit_record t = (case al_kind l of LinkAuthorization \<Rightarrow> AuditAuthorization (al_record_id l)
         | LinkOutcome \<Rightarrow> AuditOutcome (al_record_id l))"
      "\<forall>x \<in> set (si_audit_links s). al_kind x = al_kind l \<longrightarrow> al_record_id x \<noteq> al_record_id l"
      "s' = s\<lparr>si_audit_links := si_audit_links s @ [l], si_state := it_next t, si_updated_at := now\<rparr>"
      "si_state s = it_expected t" "si_updated_at s \<le> now"
proof -
  obtain lk s'' where *: "audit_link_from_transition (it_audit_record t) now = Inr lk"
    "attach_link lk s = Inr s''" "s' = s''\<lparr>si_state := it_next t, si_updated_at := now\<rparr>"
    "si_state s = it_expected t" "si_updated_at s \<le> now"
    using assms by (auto simp: apply_transition_Inr)
  show thesis
  proof (cases lk)
    case None
    with * show thesis by (intro none) (auto simp: link_from_transition_Inr attach_link_Inr)
  next
    case (Some l)
    with *(1) have "\<not> is_blank (al_record_id l)" "al_attached_at l = now"
      "it_audit_record t = (case al_kind l of LinkAuthorization \<Rightarrow> AuditAuthorization (al_record_id l)
         | LinkOutcome \<Rightarrow> AuditOutcome (al_record_id l))"
      by (auto simp: link_from_transition_Inr)
    with *(2-5) Some show thesis by (intro link [of l]) (auto simp: attach_link_Inr)
  qed
qed

lemma apply_transition_fields:
  assumes "apply_transition now t s = Inr s'"
  shows "si_state s = it_expected t" "si_state s' = it_next t" "si_updated_at s' = now"
    "si_invocation_id s' = si_invocation_id s" "key_from_invocation s' = key_from_invocation s"
    "si_status_context s' = si_status_context s" "si_request_digest s' = si_request_digest s"
    "si_scope s' = si_scope s" "si_retention_until s' = si_retention_until s"
    "set (si_audit_links s) \<subseteq> set (si_audit_links s')" "si_created_at s' = si_created_at s"
  using assms by (cases rule: apply_transition_cases; auto simp: key_from_invocation_def)+

lemma apply_transition_wf:
  assumes wf: "wf_stored s" and run: "apply_transition now t s = Inr s'" and valid: "valid_transition t"
  shows "wf_stored s'"
proof -
  have allowed: "allowed_transition (it_expected t) (it_next t)"
    and matches: "audit_matches_transition (it_expected t) (it_next t) (it_audit_record t)"
    using valid by (auto simp: valid_transition_iff)
  have started: "started_state (it_next t) \<Longrightarrow> it_next t \<noteq> StPending \<Longrightarrow> started_state (it_expected t)"
    using allowed_into_started [OF allowed] by blast
  have pending: "it_next t = StPending \<Longrightarrow> \<exists>i. it_audit_record t = AuditAuthorization i"
    using audit_into_pending [OF allowed matches] by blast
  have finished: "finished_state (it_next t) \<Longrightarrow> \<exists>i. it_audit_record t = AuditOutcome i"
    using audit_into_finished [OF allowed matches] by blast
  have live: "it_expected t \<noteq> StAbandoned" "it_next t \<noteq> StAbandoned"
    using allowed allowed_not_reserved [OF allowed] by (cases "it_expected t"; simp)+
  from run show ?thesis
  proof (cases rule: apply_transition_cases)
    case none
    with wf started pending finished live show ?thesis
      by (auto simp: wf_stored_def intro: order_trans)
  next
    case (link l)
    have "\<exists>x \<in> insert l (set (si_audit_links s)). al_kind x = LinkAuthorization"
      if "started_state (it_next t)"
    proof (cases "it_next t = StPending")
      case True
      with pending link(3) show ?thesis by (auto split: audit_link_kind.splits)
    next
      case False
      with started that wf link(6) show ?thesis by (auto simp: wf_stored_def)
    qed
    moreover have "\<exists>x \<in> insert l (set (si_audit_links s)). al_kind x = LinkOutcome"
      if "finished_state (it_next t)"
      using finished [OF that] link(3) by (auto split: audit_link_kind.splits)
    moreover have "(al_kind l, al_record_id l) \<notin> (\<lambda>x. (al_kind x, al_record_id x)) ` set (si_audit_links s)"
      using link(4) by auto
    moreover have "si_abandonment s = None"
      using wf live(1) link(6) by (auto simp: wf_stored_def)
    moreover have "al_attached_at x \<le> now" if "x \<in> set (si_audit_links s)" for x
      using wf that link(7) by (auto simp: wf_stored_def intro: order_trans)
    moreover have "si_created_at s \<le> now" using wf link(7) by (auto simp: wf_stored_def intro: order_trans)
    ultimately show ?thesis
      using wf link(1,2,5) live(2) by (simp add: wf_stored_def)
  qed
qed

lemma apply_abandon_Inr:
  "apply_abandon ctx a s = Inr s' \<longleftrightarrow>
     si_status_context s = ctx \<and> si_state s = StOutcomeUnknown
     \<and> s' = s\<lparr>si_abandonment := Some a, si_state := StAbandoned,
               si_updated_at := saturating_add (si_updated_at s) 1\<rparr>"
  by (auto simp: apply_abandon_def)

definition abandons ::
  "status_context \<Rightarrow> abandonment_authorization \<Rightarrow> stored_invocation \<Rightarrow> stored_invocation \<Rightarrow> bool" where
  "abandons c a r r' =
     (si_status_context r = c \<and> si_state r = StOutcomeUnknown
      \<and> (\<exists>updated. si_updated_at r \<le> updated
           \<and> r' = r\<lparr>si_abandonment := Some a, si_state := StAbandoned, si_updated_at := updated\<rparr>))"

lemma saturating_add_ge: "a \<le> saturating_add a b"
proof -
  have "unat a < 2 ^ 64" using unsigned_less [of a] by simp
  then show ?thesis by (simp add: word_le_nat_alt unat_saturating_add)
qed

lemma apply_abandon_wf: "wf_stored s \<Longrightarrow> apply_abandon ctx a s = Inr s' \<Longrightarrow> wf_stored s'"
  using saturating_add_ge [of "si_updated_at s" 1]
  by (auto simp: apply_abandon_Inr wf_stored_def intro: order_trans)

section \<open>The in-memory store\<close>

type_synonym memory_store = "(reservation_key \<times> stored_invocation) list"

definition mem_find :: "memory_store \<Rightarrow> string \<Rightarrow> stored_invocation option" where
  "mem_find m i = find (\<lambda>s. si_invocation_id s = i) (map snd m)"

fun mem_update :: "string \<Rightarrow> stored_invocation \<Rightarrow> memory_store \<Rightarrow> memory_store" where
  "mem_update i s [] = []"
| "mem_update i s ((k, x) # m) =
     (if si_invocation_id x = i then (k, s) # m else (k, x) # mem_update i s m)"

definition mem_retain :: "u64 \<Rightarrow> memory_store \<Rightarrow> memory_store" where
  "mem_retain now m = filter (\<lambda>(_, s). now < si_retention_until s \<or> state_fences (si_state s)) m"

definition mem_reserve_or_get ::
  "u64 \<Rightarrow> reservation_input \<Rightarrow> capability_descriptor \<Rightarrow> u64 \<Rightarrow> memory_store \<Rightarrow>
     (diagnostic, invocation_reservation) result \<times> memory_store" where
  "mem_reserve_or_get now r d retention_until m =
     (case stored_try_reserve r d now retention_until of
        Inl e \<Rightarrow> (Inl e, m)
      | Inr s \<Rightarrow>
          let key = key_from_invocation s; kept = mem_retain now m in
          (case map_of kept key of
             Some existing \<Rightarrow>
               (if si_status_context existing \<noteq> si_status_context s
                then (Inl status_unauthorized, kept)
                else if si_request_digest existing \<noteq> si_request_digest s
                then (Inl (status_invalid ''idempotency key is already bound to a different request''), kept)
                else (Inr (reservation_from_stored KindExisting existing), kept))
           | None \<Rightarrow>
               (if \<exists>(k, x) \<in> set kept. same_scope k key \<and> state_fences (si_state x)
                then (Inl scope_outcome_unknown, kept)
                else if \<exists>(k, x) \<in> set kept. si_invocation_id x = si_invocation_id s
                then (Inl (status_invalid ''invocation ID is already reserved''), kept)
                else (Inr (reservation_from_stored KindReserved s), btree_insert key s kept))))"

definition mem_transition ::
  "u64 \<Rightarrow> string \<Rightarrow> invocation_transition \<Rightarrow> memory_store \<Rightarrow>
     (diagnostic, unit) result \<times> memory_store" where
  "mem_transition now i t m =
     (case mem_find m i of
        None \<Rightarrow> (Inl status_not_found, m)
      | Some s \<Rightarrow>
          (case apply_transition now t s of
             Inl e \<Rightarrow> (Inl e, m)
           | Inr s' \<Rightarrow> (Inr (), mem_update i s' m)))"

definition mem_status ::
  "status_request \<Rightarrow> status_context \<Rightarrow> memory_store \<Rightarrow> (diagnostic, invocation_status) result" where
  "mem_status q ctx m =
     and_then (ok_or status_not_found (mem_find m (sq_invocation_id q))) (\<lambda>s.
       if si_status_context s \<noteq> ctx then Inl status_unauthorized
       else Inr (status_from_stored s))"

definition mem_abandon ::
  "string \<Rightarrow> status_context \<Rightarrow> abandonment_authorization \<Rightarrow> memory_store \<Rightarrow>
     (diagnostic, unit) result \<times> memory_store" where
  "mem_abandon i ctx a m =
     (case mem_find m i of
        None \<Rightarrow> (Inl status_not_found, m)
      | Some s \<Rightarrow>
          (case apply_abandon ctx a s of
             Inl e \<Rightarrow> (Inl e, m)
           | Inr s' \<Rightarrow> (Inr (), mem_update i s' m)))"

section \<open>The store invariant\<close>

definition fences_scope :: "stored_invocation \<Rightarrow> idempotency_scope_value \<Rightarrow> bool" where
  "fences_scope s scope = (si_scope s = scope \<and> state_fences (si_state s))"

definition mem_inv :: "memory_store \<Rightarrow> bool" where
  "mem_inv m =
     (btree_ok m
      \<and> (\<forall>(k, s) \<in> set m. k = key_from_invocation s \<and> wf_stored s)
      \<and> distinct (map (\<lambda>e. si_invocation_id (snd e)) m)
      \<and> (\<forall>a \<in> set m. \<forall>b \<in> set m. si_scope (snd a) = si_scope (snd b) \<longrightarrow>
           state_fences (si_state (snd a)) \<longrightarrow> state_fences (si_state (snd b)) \<longrightarrow> a = b))"

definition mem_records :: "memory_store \<Rightarrow> stored_invocation set" where
  "mem_records m = snd ` set m"

lemma mem_find_Some:
  "mem_find m i = Some s \<Longrightarrow> s \<in> mem_records m \<and> si_invocation_id s = i"
  by (auto simp: mem_find_def mem_records_def dest: find_SomeD)

lemma mem_find_None: "mem_find m i = None \<Longrightarrow> s \<in> mem_records m \<Longrightarrow> si_invocation_id s \<noteq> i"
  by (induction m) (auto simp: mem_find_def mem_records_def split: if_splits)

lemma mem_find_record:
  "distinct (map (\<lambda>e. si_invocation_id (snd e)) m) \<Longrightarrow> s \<in> mem_records m \<Longrightarrow>
   mem_find m (si_invocation_id s) = Some s"
  by (induction m) (auto simp: mem_find_def mem_records_def)

lemma mem_update_keys [simp]: "map fst (mem_update i s m) = map fst m"
  by (induction i s m rule: mem_update.induct) auto

lemma mem_update_ids [simp]:
  "si_invocation_id s = i \<Longrightarrow>
   map (\<lambda>e. si_invocation_id (snd e)) (mem_update i s m) = map (\<lambda>e. si_invocation_id (snd e)) m"
  by (induction i s m rule: mem_update.induct) auto

lemma mem_update_none: "\<forall>e \<in> set m. si_invocation_id (snd e) \<noteq> i \<Longrightarrow> mem_update i s m = m"
  by (induction i s m rule: mem_update.induct) auto

lemma set_mem_update:
  "distinct (map (\<lambda>e. si_invocation_id (snd e)) m) \<Longrightarrow> mem_find m i = Some x \<Longrightarrow>
   \<exists>k. (k, x) \<in> set m \<and> set (mem_update i s m) = insert (k, s) {e \<in> set m. si_invocation_id (snd e) \<noteq> i}"
proof (induction i s m rule: mem_update.induct)
  case (2 i s k y m)
  show ?case
  proof (cases "si_invocation_id y = i")
    case True
    with 2(2,3) have "y = x" "\<forall>e \<in> set m. si_invocation_id (snd e) \<noteq> i"
      by (auto simp: mem_find_def image_iff)
    with True show ?thesis by auto
  next
    case False
    with 2 obtain k' where "(k', x) \<in> set m"
      "set (mem_update i s m) = insert (k', s) {e \<in> set m. si_invocation_id (snd e) \<noteq> i}"
      by (auto simp: mem_find_def)
    with False show ?thesis by (intro exI [of _ k']) auto
  qed
qed (simp add: mem_find_def)

lemma mem_update_records:
  assumes "distinct (map (\<lambda>e. si_invocation_id (snd e)) m)" "mem_find m i = Some x"
  shows "mem_records (mem_update i s m) = insert s (mem_records m - {x})"
proof -
  obtain k where k: "(k, x) \<in> set m"
    "set (mem_update i s m) = insert (k, s) {e \<in> set m. si_invocation_id (snd e) \<noteq> i}"
    using set_mem_update [OF assms] by blast
  have "y = x \<longleftrightarrow> si_invocation_id y = i" if "y \<in> mem_records m" for y
    using mem_find_record [OF assms(1) that] mem_find_Some [OF assms(2)] assms(2)
    by (metis option.inject)
  then show ?thesis using k(2) by (auto simp: mem_records_def)
qed

lemma mem_inv_update:
  assumes inv: "mem_inv m" and found: "mem_find m i = Some x"
    and s: "si_invocation_id s = i" "key_from_invocation s = key_from_invocation x"
      "si_scope s = si_scope x" "wf_stored s"
    and fence: "state_fences (si_state s) \<Longrightarrow> state_fences (si_state x)"
  shows "mem_inv (mem_update i s m)"
proof -
  have ids: "distinct (map (\<lambda>e. si_invocation_id (snd e)) m)" using inv by (simp add: mem_inv_def)
  obtain k where k: "(k, x) \<in> set m"
    "set (mem_update i s m) = insert (k, s) {e \<in> set m. si_invocation_id (snd e) \<noteq> i}"
    using set_mem_update [OF ids found] by blast
  have keys: "btree_ok (mem_update i s m)" using inv by (simp add: mem_inv_def btree_ok_def)
  have "k = key_from_invocation x" using inv k(1) by (auto simp: mem_inv_def)
  with inv s k(2) have entries: "\<forall>(k, s) \<in> set (mem_update i s m). k = key_from_invocation s \<and> wf_stored s"
    by (auto simp: mem_inv_def)
  have unique: "a = b" if "a \<in> set m" "b \<in> set m" "si_scope (snd a) = si_scope (snd b)"
      "state_fences (si_state (snd a))" "state_fences (si_state (snd b))" for a b
    using inv that by (auto simp: mem_inv_def)
  have x_id: "si_invocation_id x = i" using mem_find_Some [OF found] by blast
  have clash: "a = (k, x)" if "a \<in> set m" "si_scope (snd a) = si_scope s"
      "state_fences (si_state (snd a))" "state_fences (si_state s)" for a
    using unique [of a "(k, x)"] that k(1) s(3) fence by auto
  have fenced: "\<forall>a \<in> set (mem_update i s m). \<forall>b \<in> set (mem_update i s m).
      si_scope (snd a) = si_scope (snd b) \<longrightarrow>
      state_fences (si_state (snd a)) \<longrightarrow> state_fences (si_state (snd b)) \<longrightarrow> a = b"
  proof (intro ballI impI)
    fix a b
    assume a: "a \<in> set (mem_update i s m)" and b: "b \<in> set (mem_update i s m)"
      and ab: "si_scope (snd a) = si_scope (snd b)" "state_fences (si_state (snd a))"
        "state_fences (si_state (snd b))"
    have A: "a = (k, s) \<or> a \<in> set m \<and> si_invocation_id (snd a) \<noteq> i" using a k(2) by blast
    have B: "b = (k, s) \<or> b \<in> set m \<and> si_invocation_id (snd b) \<noteq> i" using b k(2) by blast
    show "a = b"
    proof (cases "a = (k, s)")
      case True
      then show ?thesis using B ab clash [of b] x_id by auto
    next
      case False
      then show ?thesis using A B ab clash [of a] unique [of a b] x_id by auto
    qed
  qed
  show ?thesis
    unfolding mem_inv_def using keys entries fenced ids s(1) by simp
qed

lemma mem_inv_ids: "mem_inv m \<Longrightarrow> distinct (map (\<lambda>e. si_invocation_id (snd e)) m)"
  by (simp add: mem_inv_def)

lemma mem_retain_inv: "mem_inv m \<Longrightarrow> mem_inv (mem_retain now m)"
  unfolding mem_inv_def mem_retain_def
  by (auto simp: btree_ok_filter distinct_map_filter)

lemma mem_retain_records:
  "mem_records (mem_retain now m) =
     {s \<in> mem_records m. now < si_retention_until s \<or> state_fences (si_state s)}"
  by (auto simp: mem_records_def mem_retain_def image_iff)

lemma distinct_btree_insert:
  "distinct (map f m) \<Longrightarrow> map_of m k = None \<Longrightarrow> f (k, v) \<notin> f ` set m \<Longrightarrow>
   distinct (map f (btree_insert k v m)) \<and> set (btree_insert k v m) = insert (k, v) (set m)"
  by (induction k v m rule: btree_insert.induct) (auto split: if_splits)

lemma mem_insert_inv:
  assumes inv: "mem_inv m" and wf: "wf_stored s" and new: "map_of m (key_from_invocation s) = None"
    and id: "\<forall>(k, x) \<in> set m. si_invocation_id x \<noteq> si_invocation_id s"
    and fence: "\<forall>(k, x) \<in> set m. si_scope x = si_scope s \<longrightarrow> \<not> state_fences (si_state x)"
  shows "mem_inv (btree_insert (key_from_invocation s) s m)"
    and "mem_records (btree_insert (key_from_invocation s) s m) = insert s (mem_records m)"
proof -
  let ?f = "\<lambda>e. si_invocation_id (snd e)"
  have "distinct (map ?f m)" "?f (key_from_invocation s, s) \<notin> ?f ` set m"
    using inv id by (auto simp: mem_inv_def)
  note ins = distinct_btree_insert [OF this(1) new this(2)]
  show "mem_records (btree_insert (key_from_invocation s) s m) = insert s (mem_records m)"
    using ins by (simp add: mem_records_def)
  have "btree_ok (btree_insert (key_from_invocation s) s m)"
    using inv by (simp add: mem_inv_def btree_ok_insert)
  then show "mem_inv (btree_insert (key_from_invocation s) s m)"
    using inv wf ins fence unfolding mem_inv_def by (auto simp: case_prod_beta)
qed

lemma mem_reserve_cases:
  assumes "mem_reserve_or_get now r d ret m = (res, m')"
  obtains (refused) e where "stored_try_reserve r d now ret = Inl e" "res = Inl e" "m' = m"
    | (existing) s x where "stored_try_reserve r d now ret = Inr s"
        "map_of (mem_retain now m) (key_from_invocation s) = Some x"
        "si_status_context x = si_status_context s" "si_request_digest x = si_request_digest s"
        "res = Inr (reservation_from_stored KindExisting x)" "m' = mem_retain now m"
    | (failed) s e where "stored_try_reserve r d now ret = Inr s" "res = Inl e" "m' = mem_retain now m"
    | (created) s where "stored_try_reserve r d now ret = Inr s"
        "map_of (mem_retain now m) (key_from_invocation s) = None"
        "\<forall>(k, x) \<in> set (mem_retain now m). same_scope k (key_from_invocation s) \<longrightarrow> \<not> state_fences (si_state x)"
        "\<forall>(k, x) \<in> set (mem_retain now m). si_invocation_id x \<noteq> si_invocation_id s"
        "res = Inr (reservation_from_stored KindReserved s)"
        "m' = btree_insert (key_from_invocation s) s (mem_retain now m)"
proof (cases "stored_try_reserve r d now ret")
  case (Inl e)
  with assms show thesis by (intro refused) (auto simp: mem_reserve_or_get_def)
next
  case (Inr s)
  let ?kept = "mem_retain now m" and ?key = "key_from_invocation s"
  show thesis
  proof (cases "map_of ?kept ?key")
    case (Some x)
    consider "si_status_context x \<noteq> si_status_context s"
      | "si_status_context x = si_status_context s" "si_request_digest x \<noteq> si_request_digest s"
      | "si_status_context x = si_status_context s" "si_request_digest x = si_request_digest s" by blast
    then show thesis
    proof cases
      case 1
      with assms [symmetric] Inr Some show thesis by (intro failed [of s]) (simp_all add: mem_reserve_or_get_def Let_def)
    next
      case 2
      with assms [symmetric] Inr Some show thesis by (intro failed [of s]) (simp_all add: mem_reserve_or_get_def Let_def)
    next
      case 3
      with assms Inr Some show thesis
        by (intro existing [of s x]) (simp_all add: mem_reserve_or_get_def Let_def)
    qed
  next
    case None
    define P where "P \<longleftrightarrow> (\<exists>(k, x) \<in> set ?kept. same_scope k ?key \<and> state_fences (si_state x))"
    define Q where "Q \<longleftrightarrow> (\<exists>(k, x) \<in> set ?kept. si_invocation_id x = si_invocation_id s)"
    have run: "(res, m') =
      (if P then (Inl scope_outcome_unknown, ?kept)
       else if Q then (Inl (status_invalid ''invocation ID is already reserved''), ?kept)
       else (Inr (reservation_from_stored KindReserved s), btree_insert ?key s ?kept))"
      unfolding assms [symmetric] mem_reserve_or_get_def Let_def Inr None P_def Q_def
      by (simp only: None sum.case option.case)
    show thesis
    proof (cases "P \<or> Q")
      case True
      with run Inr show thesis by (cases P; intro failed [of s]) simp_all
    next
      case False
      then have "\<forall>(k, x) \<in> set ?kept. same_scope k ?key \<longrightarrow> \<not> state_fences (si_state x)"
        "\<forall>(k, x) \<in> set ?kept. si_invocation_id x \<noteq> si_invocation_id s"
        unfolding P_def Q_def by fast+
      with run Inr None False show thesis by (intro created [of s]) simp_all
    qed
  qed
qed

lemma mem_scope_keys:
  assumes "mem_inv m" "(k, x) \<in> set m"
  shows "same_scope k (key_from_invocation s) \<longleftrightarrow> si_scope x = si_scope s"
proof -
  have "k = key_from_invocation x" using assms by (auto simp: mem_inv_def)
  then show ?thesis by (simp only: same_scope_of_scope)
qed

lemma mem_reserve_inv:
  assumes inv: "mem_inv m" and run: "mem_reserve_or_get now r d ret m = (res, m')"
  shows "mem_inv m'"
  using run
proof (cases rule: mem_reserve_cases)
  case (created s)
  have kept: "mem_inv (mem_retain now m)" by (rule mem_retain_inv [OF inv])
  have "\<forall>(k, x) \<in> set (mem_retain now m). si_scope x = si_scope s \<longrightarrow> \<not> state_fences (si_state x)"
  proof (intro ballI, clarify)
    fix k x assume kx: "(k, x) \<in> set (mem_retain now m)" "si_scope x = si_scope s"
      "state_fences (si_state x)"
    have "same_scope k (key_from_invocation s)"
      unfolding mem_scope_keys [OF kept kx(1)] by (rule kx(2))
    with bspec [OF created(3) kx(1)] kx(3) show False by simp
  qed
  from mem_insert_inv(1) [OF kept stored_try_reserve_Inr(1) [OF created(1)] created(2,4) this]
  show ?thesis unfolding created(6) .
qed (simp_all add: inv mem_retain_inv)

lemma latest_link_stored:
  assumes "wf_stored r" "\<exists>l \<in> set (si_audit_links r). al_kind l = kind"
  shows "\<exists>i. latest_link kind (status_from_stored r) = Some i \<and> \<not> is_blank i"
proof -
  obtain l where l: "l \<in> set (rev (si_audit_links r))" "al_kind l = kind" using assms(2) by auto
  obtain x where x: "find (\<lambda>l. al_kind l = kind) (rev (si_audit_links r)) = Some x"
    using find_in_set [of l "rev (si_audit_links r)" "\<lambda>l. al_kind l = kind"] l by auto
  then have "x \<in> set (si_audit_links r)" using find_SomeD [OF x] by simp
  with assms(1) have "\<not> is_blank (al_record_id x)" by (simp add: wf_stored_def)
  with x show ?thesis by (simp add: latest_link_def status_from_stored_def)
qed

section \<open>The interface\<close>

text \<open>
  \<open>InvocationStore\<close> as its clients see it. \<open>records\<close> is what the store holds; the laws say
  what each operation promises about it. The lemmas below hold for every such store.
\<close>

locale invocation_store =
  fixes inv :: "'s \<Rightarrow> bool"
    and records :: "'s \<Rightarrow> stored_invocation set"
    and reserve :: "u64 \<Rightarrow> reservation_input \<Rightarrow> capability_descriptor \<Rightarrow> u64 \<Rightarrow> 's \<Rightarrow>
      (diagnostic, invocation_reservation) result \<times> 's"
    and transition :: "u64 \<Rightarrow> string \<Rightarrow> invocation_transition \<Rightarrow> 's \<Rightarrow> (diagnostic, unit) result \<times> 's"
    and status :: "status_request \<Rightarrow> status_context \<Rightarrow> 's \<Rightarrow> (diagnostic, invocation_status) result"
    and abandon :: "u64 \<Rightarrow> string \<Rightarrow> status_context \<Rightarrow> abandonment_authorization \<Rightarrow> 's \<Rightarrow>
      (diagnostic, unit) result \<times> 's"
  assumes records_unique: "inv s \<Longrightarrow> r \<in> records s \<Longrightarrow> x \<in> records s \<Longrightarrow>
      si_invocation_id r = si_invocation_id x \<Longrightarrow> r = x"
    and scope_fenced: "inv s \<Longrightarrow> r \<in> records s \<Longrightarrow> x \<in> records s \<Longrightarrow> si_scope r = si_scope x \<Longrightarrow>
      state_fences (si_state r) \<Longrightarrow> state_fences (si_state x) \<Longrightarrow> r = x"
    and reserve_inv: "inv s \<Longrightarrow> reserve now q d ret s = (res, s') \<Longrightarrow> inv s'"
    and transition_inv: "inv s \<Longrightarrow> valid_transition t \<Longrightarrow> transition now i t s = (outcome, s') \<Longrightarrow> inv s'"
    and abandon_inv: "inv s \<Longrightarrow> abandon now i c a s = (outcome, s') \<Longrightarrow> inv s'"
    and reserve_kept: "inv s \<Longrightarrow> reserve now q d ret s = (res, s') \<Longrightarrow> r \<in> records s \<Longrightarrow>
      state_fences (si_state r) \<or> now < si_retention_until r \<Longrightarrow> r \<in> records s'"
    and reserve_added: "inv s \<Longrightarrow> reserve now q d ret s = (res, s') \<Longrightarrow> r \<in> records s' \<Longrightarrow>
      r \<in> records s \<or> stored_try_reserve q d now ret = Inr r
        \<and> res = Inr (reservation_from_stored KindReserved r)"
    and reserve_new: "inv s \<Longrightarrow> reserve now q d ret s = (Inr v, s') \<Longrightarrow> ir_kind v = KindReserved \<Longrightarrow>
      \<exists>r. stored_try_reserve q d now ret = Inr r \<and> v = reservation_from_stored KindReserved r
        \<and> r \<in> records s'
        \<and> (\<forall>x \<in> records s. si_scope x = si_scope r \<longrightarrow> \<not> state_fences (si_state x))"
    and reserve_existing: "inv s \<Longrightarrow> reserve now q d ret s = (Inr v, s') \<Longrightarrow> ir_kind v = KindExisting \<Longrightarrow>
      \<exists>r \<in> records s. v = reservation_from_stored KindExisting r \<and> r \<in> records s'
        \<and> si_scope r = ri_scope q \<and> si_idempotency_key r = ri_idempotency_key q
        \<and> si_status_context r = ri_status_context q \<and> si_request_digest r = ri_request_digest q"
    and transition_ok: "inv s \<Longrightarrow> transition now i t s = (Inr u, s') \<Longrightarrow>
      \<exists>r \<in> records s. si_invocation_id r = i \<and> (\<exists>r'. apply_transition now t r = Inr r'
        \<and> records s' = insert r' (records s - {r}))"
    and transition_error: "transition now i t s = (Inl e, s') \<Longrightarrow> s' = s"
    and abandon_ok: "inv s \<Longrightarrow> abandon now i c a s = (Inr u, s') \<Longrightarrow>
      \<exists>r \<in> records s. si_invocation_id r = i \<and> (\<exists>r'. abandons c a r r'
        \<and> records s' = insert r' (records s - {r}))"
    and abandon_error: "abandon now i c a s = (Inl e, s') \<Longrightarrow> s' = s"
    and status_ok: "inv s \<Longrightarrow> status sq c s = Inr st \<longleftrightarrow>
      (\<exists>r \<in> records s. si_invocation_id r = sq_invocation_id sq \<and> si_status_context r = c
        \<and> st = status_from_stored r)"
begin

lemma transition_once:
  assumes "inv s" "transition now i t s = (Inr u, s')" "valid_transition t"
    and "it_expected t' = it_expected t"
  shows "\<exists>e. transition now' i t' s' = (Inl e, s')"
proof (cases "transition now' i t' s'")
  case (Pair res s'')
  have inv': "inv s'" using transition_inv [OF assms(1,3,2)] .
  obtain r r' where r: "r \<in> records s" "si_invocation_id r = i" "apply_transition now t r = Inr r'"
    "records s' = insert r' (records s - {r})"
    using transition_ok [OF assms(1,2)] by blast
  have r': "r' \<in> records s'" "si_invocation_id r' = i" "si_state r' = it_next t"
    using r apply_transition_fields [OF r(3)] by auto
  show ?thesis
  proof (cases res)
    case (Inr v)
    with Pair obtain x x' where x: "x \<in> records s'" "si_invocation_id x = i"
      "apply_transition now' t' x = Inr x'"
      using transition_ok [OF inv'] by blast
    have "x = r'" using records_unique [OF inv' x(1) r'(1)] x(2) r'(2) by simp
    then have "it_next t = it_expected t"
      using apply_transition_fields(1) [OF x(3)] r'(3) assms(4) by simp
    then show ?thesis using assms(3) allowed_irrefl by (simp add: valid_transition_iff)
  next
    case (Inl e)
    with Pair transition_error [of now' i t' s' e s''] show ?thesis by simp
  qed
qed

lemma status_isolated:
  assumes "inv s" "status q c s = Inr st" "status q' c' s = Inr st'"
    "sq_invocation_id q = sq_invocation_id q'"
  shows "c = c'" "st = st'" "is_invocation_id st = sq_invocation_id q"
proof -
  obtain r r' where r: "r \<in> records s" "si_invocation_id r = sq_invocation_id q"
      "si_status_context r = c" "st = status_from_stored r"
    and r': "r' \<in> records s" "si_invocation_id r' = sq_invocation_id q'"
      "si_status_context r' = c'" "st' = status_from_stored r'"
    using assms(2,3) unfolding status_ok [OF assms(1)] by blast
  have "r = r'" using records_unique [OF assms(1) r(1) r'(1)] r(2) r'(2) assms(4) by simp
  with r r' show "c = c'" "st = st'" "is_invocation_id st = sq_invocation_id q"
    by (simp_all add: status_from_stored_def)
qed

lemma reserve_twice:
  assumes "inv s" "reserve now q d ret s = (Inr v, s')" "ir_kind v = KindReserved"
    and "r \<in> records s'" "si_scope r = ri_scope q" "state_fences (si_state r)"
  shows "is_invocation_id (ir_status v) = si_invocation_id r"
proof -
  obtain x where x: "stored_try_reserve q d now ret = Inr x" "v = reservation_from_stored KindReserved x"
    "x \<in> records s'"
    using reserve_new [OF assms(1-3)] by blast
  have "x = r"
    using scope_fenced [OF reserve_inv [OF assms(1,2)] x(3) assms(4)] assms(5,6)
      stored_try_reserve_Inr(2,4) [OF x(1)] by simp
  with x(2) show ?thesis by (simp add: reservation_from_stored_def status_from_stored_def)
qed

end

text \<open>
  A store whose records are all well formed, the audit evidence of started and finished effects
  included.
\<close>

locale audited_store = invocation_store +
  assumes records_wf: "inv s \<Longrightarrow> r \<in> records s \<Longrightarrow> wf_stored r"
begin

lemma started_is_audited:
  assumes "inv s" "status q c s = Inr st"
  shows "started_state (is_state st) \<Longrightarrow>
      \<exists>i. audit_authorization_record_id st = Some i \<and> \<not> is_blank i"
    and "finished_state (is_state st) \<Longrightarrow> \<exists>i. audit_outcome_record_id st = Some i \<and> \<not> is_blank i"
proof -
  obtain r where r: "r \<in> records s" "st = status_from_stored r"
    using assms unfolding status_ok [OF assms(1)] by blast
  have wf: "wf_stored r" using records_wf [OF assms(1) r(1)] .
  show "\<exists>i. audit_authorization_record_id st = Some i \<and> \<not> is_blank i" if "started_state (is_state st)"
    using latest_link_stored [OF wf, of LinkAuthorization] wf that
    by (simp add: r(2) wf_stored_def audit_authorization_record_id_def status_from_stored_def)
  show "\<exists>i. audit_outcome_record_id st = Some i \<and> \<not> is_blank i" if "finished_state (is_state st)"
    using latest_link_stored [OF wf, of LinkOutcome] wf that
    by (simp add: r(2) wf_stored_def audit_outcome_record_id_def status_from_stored_def)
qed

end

section \<open>The in-memory store implements the interface\<close>

lemma mem_records_find:
  "mem_inv m \<Longrightarrow> mem_find m i = Some r \<longleftrightarrow> r \<in> mem_records m \<and> si_invocation_id r = i"
  using mem_find_record [OF mem_inv_ids] mem_find_Some by blast

lemma mem_records_unique:
  assumes "mem_inv m" "r \<in> mem_records m" "x \<in> mem_records m" "si_invocation_id r = si_invocation_id x"
  shows "r = x"
  using assms mem_records_find [OF assms(1), of "si_invocation_id x"] by (metis option.inject)

lemma mem_scope_fenced:
  assumes "mem_inv m" "r \<in> mem_records m" "x \<in> mem_records m" "si_scope r = si_scope x"
    "state_fences (si_state r)" "state_fences (si_state x)"
  shows "r = x"
proof -
  from assms(2,3) obtain a b where "a \<in> set m" "b \<in> set m" "r = snd a" "x = snd b"
    by (auto simp: mem_records_def)
  with assms show ?thesis by (auto simp: mem_inv_def)
qed

lemma mem_transition_ok:
  assumes "mem_inv m" "mem_transition now i t m = (Inr u, m')"
  shows "\<exists>r \<in> mem_records m. si_invocation_id r = i \<and> mem_find m i = Some r
    \<and> (\<exists>r'. apply_transition now t r = Inr r' \<and> m' = mem_update i r' m
        \<and> mem_records m' = insert r' (mem_records m - {r}))"
proof -
  from assms(2) obtain r r' where r: "mem_find m i = Some r" "apply_transition now t r = Inr r'"
    "m' = mem_update i r' m"
    by (auto simp: mem_transition_def split: option.splits sum.splits)
  with mem_find_Some [OF r(1)] mem_update_records [OF mem_inv_ids [OF assms(1)] r(1)]
  show ?thesis by blast
qed

lemma mem_abandon_ok:
  assumes "mem_inv m" "mem_abandon i c a m = (Inr u, m')"
  shows "\<exists>r \<in> mem_records m. si_invocation_id r = i \<and> mem_find m i = Some r
    \<and> (\<exists>r'. apply_abandon c a r = Inr r' \<and> m' = mem_update i r' m
        \<and> mem_records m' = insert r' (mem_records m - {r}))"
proof -
  from assms(2) obtain r r' where r: "mem_find m i = Some r" "apply_abandon c a r = Inr r'"
    "m' = mem_update i r' m"
    by (auto simp: mem_abandon_def split: option.splits sum.splits)
  with mem_find_Some [OF r(1)] mem_update_records [OF mem_inv_ids [OF assms(1)] r(1)]
  show ?thesis by blast
qed

lemma mem_transition_error: "mem_transition now i t m = (Inl e, m') \<Longrightarrow> m' = m"
  by (auto simp: mem_transition_def split: option.splits sum.splits)

lemma mem_abandon_error: "mem_abandon i c a m = (Inl e, m') \<Longrightarrow> m' = m"
  by (auto simp: mem_abandon_def split: option.splits sum.splits)

lemma mem_wf_stored: "mem_inv m \<Longrightarrow> r \<in> mem_records m \<Longrightarrow> wf_stored r"
  by (auto simp: mem_inv_def mem_records_def)

lemma mem_transition_inv:
  assumes "mem_inv m" "valid_transition t" "mem_transition now i t m = (res, m')"
  shows "mem_inv m'"
proof (cases res)
  case (Inl e)
  with assms mem_transition_error show ?thesis by blast
next
  case (Inr u)
  with mem_transition_ok [OF assms(1)] assms(3) obtain r r' where
    r: "r \<in> mem_records m" "si_invocation_id r = i" "mem_find m i = Some r"
      "apply_transition now t r = Inr r'" "m' = mem_update i r' m"
    by blast
  note fields = apply_transition_fields [OF r(4)]
  have "state_fences (si_state r)"
    using assms(2) fields(1) allowed_leaves_fencing by (auto simp: valid_transition_iff)
  with r fields show ?thesis
    using mem_inv_update [OF assms(1) r(3), of r']
      apply_transition_wf [OF mem_wf_stored [OF assms(1) r(1)] r(4) assms(2)] by simp
qed

lemma apply_abandon_fields:
  "apply_abandon c a r = Inr r' \<Longrightarrow>
   si_invocation_id r' = si_invocation_id r \<and> key_from_invocation r' = key_from_invocation r
   \<and> si_scope r' = si_scope r \<and> si_state r = StOutcomeUnknown \<and> si_state r' = StAbandoned
   \<and> si_status_context r = c \<and> si_status_context r' = c
   \<and> si_request_digest r' = si_request_digest r"
  by (auto simp: apply_abandon_Inr key_from_invocation_def)

lemma apply_abandon_abandons: "apply_abandon c a r = Inr r' \<Longrightarrow> abandons c a r r'"
  using saturating_add_ge by (auto simp: apply_abandon_Inr abandons_def)

lemma mem_abandon_inv:
  assumes "mem_inv m" "mem_abandon i c a m = (res, m')"
  shows "mem_inv m'"
proof (cases res)
  case (Inl e)
  with assms mem_abandon_error show ?thesis by blast
next
  case (Inr u)
  with mem_abandon_ok [OF assms(1)] assms(2) obtain r r' where
    r: "r \<in> mem_records m" "si_invocation_id r = i" "mem_find m i = Some r"
      "apply_abandon c a r = Inr r'" "m' = mem_update i r' m"
    by blast
  with apply_abandon_fields [OF r(4)] show ?thesis
    using mem_inv_update [OF assms(1) r(3), of r'] apply_abandon_wf [OF mem_wf_stored [OF assms(1) r(1)] r(4)]
    by simp
qed

lemma mem_records_entry: "(k, x) \<in> set m \<Longrightarrow> x \<in> mem_records m"
  unfolding mem_records_def by (rule image_eqI [of _ _ "(k, x)"]) simp_all

lemma mem_insert_records:
  assumes "mem_inv m" "map_of m k = None"
  shows "mem_records (btree_insert k s m) = insert s (mem_records m)"
proof -
  have "distinct (map fst m)" using assms(1) by (intro btree_ok_distinct) (simp add: mem_inv_def)
  moreover have "fst (k, s) \<notin> fst ` set m" using assms(2) by (simp add: map_of_eq_None_iff)
  ultimately show ?thesis
    using distinct_btree_insert [of fst m k s] assms(2) by (simp add: mem_records_def)
qed

lemma mem_reserve_records:
  assumes "mem_inv m" "mem_reserve_or_get now q d ret m = (res, m')"
  shows "r \<in> mem_records m \<Longrightarrow> state_fences (si_state r) \<or> now < si_retention_until r \<Longrightarrow> r \<in> mem_records m'"
    and "r \<in> mem_records m' \<Longrightarrow> r \<in> mem_records m \<or>
      stored_try_reserve q d now ret = Inr r \<and> res = Inr (reservation_from_stored KindReserved r)"
proof -
  note kept = mem_retain_records [of now m]
  note grown = mem_insert_records [OF mem_retain_inv [OF assms(1), of now]]
  from assms(2) show "r \<in> mem_records m'"
    if r: "r \<in> mem_records m" "state_fences (si_state r) \<or> now < si_retention_until r"
  proof (cases rule: mem_reserve_cases)
    case refused
    then show ?thesis using r by blast
  next
    case existing
    then show ?thesis using r kept by blast
  next
    case failed
    then show ?thesis using r kept by blast
  next
    case (created s)
    show ?thesis using r kept grown [OF created(2), of s] unfolding created(6) by blast
  qed
  from assms(2) show "r \<in> mem_records m \<or>
      stored_try_reserve q d now ret = Inr r \<and> res = Inr (reservation_from_stored KindReserved r)"
    if r: "r \<in> mem_records m'"
  proof (cases rule: mem_reserve_cases)
    case refused
    then show ?thesis using r by blast
  next
    case existing
    then show ?thesis using r kept by blast
  next
    case failed
    then show ?thesis using r kept by blast
  next
    case (created s)
    have "r = s \<or> r \<in> mem_records (mem_retain now m)"
      using r grown [OF created(2), of s] unfolding created(6) by simp
    with created(1,5) kept show ?thesis by auto
  qed
qed

lemma mem_reserve_new:
  assumes inv: "mem_inv m" and run: "mem_reserve_or_get now q d ret m = (Inr v, m')"
    and kind: "ir_kind v = KindReserved"
  shows "\<exists>r. stored_try_reserve q d now ret = Inr r \<and> v = reservation_from_stored KindReserved r
    \<and> r \<in> mem_records m'
    \<and> (\<forall>x \<in> mem_records m. si_scope x = si_scope r \<longrightarrow> \<not> state_fences (si_state x))"
  using run
proof (cases rule: mem_reserve_cases)
  case (created s)
  have kept: "mem_inv (mem_retain now m)" by (rule mem_retain_inv [OF inv])
  have "\<not> state_fences (si_state x)" if "x \<in> mem_records m" "si_scope x = si_scope s" for x
  proof
    assume fences: "state_fences (si_state x)"
    with that(1) have "x \<in> mem_records (mem_retain now m)" by (simp add: mem_retain_records)
    then obtain k where k: "(k, x) \<in> set (mem_retain now m)" by (auto simp: mem_records_def)
    have "same_scope k (key_from_invocation s)"
      unfolding mem_scope_keys [OF kept k] by (rule that(2))
    with bspec [OF created(3) k] fences show False by simp
  qed
  moreover have "s \<in> mem_records m'"
    using mem_insert_records [OF kept created(2), of s] unfolding created(6) by blast
  ultimately show ?thesis using created(1,5) by blast
next
  case (existing s x)
  with kind show ?thesis by (simp add: reservation_from_stored_def)
qed simp_all

lemma mem_reserve_existing:
  assumes inv: "mem_inv m" and run: "mem_reserve_or_get now q d ret m = (Inr v, m')"
    and kind: "ir_kind v = KindExisting"
  shows "\<exists>r \<in> mem_records m. v = reservation_from_stored KindExisting r \<and> r \<in> mem_records m'
    \<and> si_scope r = ri_scope q \<and> si_idempotency_key r = ri_idempotency_key q
    \<and> si_status_context r = ri_status_context q \<and> si_request_digest r = ri_request_digest q"
  using run
proof (cases rule: mem_reserve_cases)
  case (existing s x)
  have kept: "mem_inv (mem_retain now m)" by (rule mem_retain_inv [OF inv])
  have in_kept: "(key_from_invocation s, x) \<in> set (mem_retain now m)"
    using existing(2) by (rule map_of_SomeD)
  then have x: "x \<in> mem_records (mem_retain now m)" by (rule mem_records_entry)
  have "key_from_invocation s = key_from_invocation x"
    using kept in_kept by (auto simp: mem_inv_def)
  moreover from this have "si_scope x = si_scope s"
    using same_scope_of_scope [of x s] same_scope_refl by simp
  ultimately have "si_scope x = ri_scope q" "si_idempotency_key x = ri_idempotency_key q"
    using stored_try_reserve_Inr(4,5) [OF existing(1)] by (simp_all add: key_from_invocation_def)
  with x existing stored_try_reserve_Inr(6,7) [OF existing(1)] show ?thesis
    by (auto simp: mem_retain_records intro!: bexI [of _ x])
next
  case (created s)
  with kind show ?thesis by (simp add: reservation_from_stored_def)
qed simp_all

lemma mem_status_ok:
  assumes "mem_inv m"
  shows "mem_status q c m = Inr st \<longleftrightarrow>
    (\<exists>r \<in> mem_records m. si_invocation_id r = sq_invocation_id q \<and> si_status_context r = c
      \<and> st = status_from_stored r)"
proof -
  have "mem_status q c m = Inr st \<longleftrightarrow>
      (\<exists>r. mem_find m (sq_invocation_id q) = Some r \<and> si_status_context r = c \<and> st = status_from_stored r)"
    by (cases "mem_find m (sq_invocation_id q)") (auto simp: mem_status_def)
  then show ?thesis using mem_records_find [OF assms] by blast
qed

interpretation mem: audited_store mem_inv mem_records mem_reserve_or_get mem_transition
  mem_status "\<lambda>_. mem_abandon"
proof unfold_locales
  show "\<exists>r \<in> mem_records s. si_invocation_id r = i \<and> (\<exists>r'. apply_transition now t r = Inr r'
        \<and> mem_records s' = insert r' (mem_records s - {r}))"
    if "mem_inv s" "mem_transition now i t s = (Inr u, s')" for s s' i now t u
    using mem_transition_ok [OF that] by blast
  show "\<exists>r \<in> mem_records s. si_invocation_id r = i \<and> (\<exists>r'. abandons c a r r'
        \<and> mem_records s' = insert r' (mem_records s - {r}))"
    if "mem_inv s" "mem_abandon i c a s = (Inr u, s')" for s s' i c a u
    using mem_abandon_ok [OF that] apply_abandon_abandons by blast
qed (fact mem_records_unique mem_scope_fenced mem_reserve_inv mem_transition_inv
      mem_abandon_inv mem_reserve_records mem_reserve_new mem_reserve_existing
      mem_transition_error mem_abandon_error mem_status_ok mem_wf_stored)+

section \<open>Runs of the in-memory store\<close>

text \<open>
  Any sequence of calls, in any order and from any callers, is a path of \<open>mem_step\<close>: the store
  is behind one lock, so calls are atomic. Transitions are values of the type
  \<open>InvocationTransition\<close>, which only its checked constructor builds.
\<close>

inductive mem_step :: "memory_store \<Rightarrow> memory_store \<Rightarrow> bool" where
  step_reserve: "mem_reserve_or_get now q d ret m = (res, m') \<Longrightarrow> mem_step m m'"
| step_transition: "transition_try_new e n a = Inr t \<Longrightarrow>
     mem_transition now i t m = (res', m') \<Longrightarrow> mem_step m m'"
| step_abandon: "mem_abandon i c b m = (res', m') \<Longrightarrow> mem_step m m'"

definition mem_reachable :: "memory_store \<Rightarrow> bool" where
  "mem_reachable m = mem_step\<^sup>*\<^sup>* [] m"

lemma mem_step_inv: "mem_step m m' \<Longrightarrow> mem_inv m \<Longrightarrow> mem_inv m'"
  by (induction rule: mem_step.induct)
     (blast intro: mem_reserve_inv mem_transition_inv mem_abandon_inv transition_try_new_valid)+

lemma mem_inv_empty: "mem_inv []"
  by (simp add: mem_inv_def)

lemma mem_reachable_inv: "mem_reachable m \<Longrightarrow> mem_inv m"
  unfolding mem_reachable_def
  by (induction rule: rtranclp_induct) (auto simp: mem_inv_empty intro: mem_step_inv)

definition follows :: "stored_invocation \<Rightarrow> stored_invocation \<Rightarrow> bool" where
  "follows r r' =
     (si_invocation_id r' = si_invocation_id r \<and> key_from_invocation r' = key_from_invocation r
      \<and> si_status_context r' = si_status_context r
      \<and> si_request_digest r' = si_request_digest r
      \<and> (allowed_transition (si_state r) (si_state r')
         \<or> si_state r = StOutcomeUnknown \<and> si_state r' = StAbandoned))"

lemma mem_step_records:
  assumes step: "mem_step m m'" and inv: "mem_inv m"
  shows "r' \<in> mem_records m' \<Longrightarrow>
      r' \<in> mem_records m \<or> si_state r' = StReserved \<and> si_audit_links r' = []
        \<or> (\<exists>r \<in> mem_records m. follows r r')"
    and "r \<in> mem_records m \<Longrightarrow> state_fences (si_state r) \<Longrightarrow>
      r \<in> mem_records m' \<or> (\<exists>r' \<in> mem_records m'. follows r r')"
    and "r \<in> mem_records m \<Longrightarrow> terminal_state (si_state r) \<Longrightarrow> \<not> (\<exists>r' \<in> mem_records m'. follows r r')"
proof -
  have terminal: "\<not> follows r r'" if "terminal_state (si_state r)" for r r'
    using that terminal_no_transition by (auto simp: follows_def)
  then show "r \<in> mem_records m \<Longrightarrow> terminal_state (si_state r) \<Longrightarrow> \<not> (\<exists>r' \<in> mem_records m'. follows r r')"
    by blast
  from step have "(r' \<in> mem_records m' \<longrightarrow>
      r' \<in> mem_records m \<or> si_state r' = StReserved \<and> si_audit_links r' = []
        \<or> (\<exists>r \<in> mem_records m. follows r r'))
    \<and> (r \<in> mem_records m \<longrightarrow> state_fences (si_state r) \<longrightarrow>
      r \<in> mem_records m' \<or> (\<exists>r' \<in> mem_records m'. follows r r'))"
  proof (cases rule: mem_step.cases)
    case (step_reserve now q d ret res)
    then show ?thesis
      using mem_reserve_records [OF inv step_reserve] stored_try_reserve_Inr(2,8) by blast
  next
    case (step_transition e n a t now i res)
    show ?thesis
    proof (cases res)
      case (Inl e)
      with step_transition(2) mem_transition_error show ?thesis by blast
    next
      case (Inr u)
      with step_transition(2) mem_transition_ok [OF inv, of now i t u m'] obtain x x' where
        x: "x \<in> mem_records m" "apply_transition now t x = Inr x'"
          "mem_records m' = insert x' (mem_records m - {x})" by blast
      have "follows x x'"
        using apply_transition_fields [OF x(2)] transition_try_new_valid [OF step_transition(1)]
        by (simp add: follows_def valid_transition_iff)
      with x(1) show ?thesis unfolding x(3) by auto
    qed
  next
    case (step_abandon i c b res)
    show ?thesis
    proof (cases res)
      case (Inl e)
      with step_abandon mem_abandon_error show ?thesis by blast
    next
      case (Inr u)
      with step_abandon mem_abandon_ok [OF inv, of i c b u m'] obtain x x' where
        x: "x \<in> mem_records m" "apply_abandon c b x = Inr x'"
          "mem_records m' = insert x' (mem_records m - {x})" by blast
      have "follows x x'"
        using apply_abandon_fields [OF x(2)] by (simp add: follows_def)
      with x(1) show ?thesis unfolding x(3) by auto
    qed
  qed
  then show "r' \<in> mem_records m' \<Longrightarrow>
      r' \<in> mem_records m \<or> si_state r' = StReserved \<and> si_audit_links r' = []
        \<or> (\<exists>r \<in> mem_records m. follows r r')"
    and "r \<in> mem_records m \<Longrightarrow> state_fences (si_state r) \<Longrightarrow>
      r \<in> mem_records m' \<or> (\<exists>r' \<in> mem_records m'. follows r r')"
    by blast+
qed

section \<open>A sample run\<close>

definition sample_context :: status_context where
  "sample_context = \<lparr>sc_tenant_ref = ''acme'', sc_human_ref = ''h1'', sc_workload_ref = ''w1'',
     sc_run_ref = ''r1'', sc_actor_ref = ''ann'', sc_agent_ref = ''helper'', sc_task_ref = ''t1'',
     sc_session_ref = ''s1'', sc_admission_ref = ''adm-1''\<rparr>"

definition sample_reservation :: reservation_input where
  "sample_reservation =
     \<lparr>ri_invocation_id = ''inv-1'', ri_status_id = ''st-1'',
      ri_scope = \<lparr>isv_actor = ''ann'', isv_capability = sample_identity,
        isv_normalized_resource = ''doc:7'', isv_semantic_operation = ''docs.read''\<rparr>,
      ri_idempotency_key = ''key-1'', ri_request_digest = sample_digest,
      ri_admission_id = ''adm-1'', ri_grant_digest = sample_digest,
      ri_catalog_identity = sample_catalog, ri_catalog_digest = sample_digest,
      ri_authority_revision_digest = sample_digest, ri_status_context = sample_context,
      ri_proposal_digest = sample_digest, ri_protected_evidence_refs = []\<rparr>"

definition sample_stored :: stored_invocation where
  "sample_stored =
     \<lparr>si_invocation_id = ''inv-1'', si_status_id = ''st-1'', si_scope = ri_scope sample_reservation,
      si_idempotency_key = ''key-1'', si_request_digest = sample_digest, si_admission_id = ''adm-1'',
      si_grant_digest = sample_digest, si_catalog_identity = sample_catalog,
      si_catalog_digest = sample_digest, si_descriptor_digest = sample_digest,
      si_authority_revision_digest = sample_digest, si_status_context = sample_context,
      si_proposal_digest = sample_digest, si_protected_evidence_refs = [], si_state = StReserved,
      si_audit_links = [], si_created_at = 100, si_updated_at = 100, si_retention_until = 800,
      si_abandonment = None\<rparr>"

definition sample_store :: memory_store where
  "sample_store = [(key_from_invocation sample_stored, sample_stored)]"

definition sample_start :: invocation_transition where
  "sample_start = \<lparr>it_expected = StReserved, it_next = StPending,
     it_audit_record = AuditAuthorization ''audit://acme/1/aa''\<rparr>"

definition sample_pending :: stored_invocation where
  "sample_pending = sample_stored\<lparr>si_state := StPending, si_updated_at := 120,
     si_audit_links := [\<lparr>al_kind = LinkAuthorization, al_record_id = ''audit://acme/1/aa'',
       al_attached_at = 120\<rparr>]\<rparr>"

lemmas blank_simps = is_blank_def ascii_white_def white2_def white3_def

lemma sample_reserved:
  "stored_try_reserve sample_reservation sample_descriptor 100 800 = Inr sample_stored"
  by (simp add: stored_try_reserve_def reservation_validate_def sample_reservation_def
      sample_stored_def sample_context_def sample_data blank_simps checked_add_def)

lemma sample_reserve_run:
  "mem_reserve_or_get 100 sample_reservation sample_descriptor 800 [] =
     (Inr (reservation_from_stored KindReserved sample_stored), sample_store)"
  by (simp add: mem_reserve_or_get_def sample_reserved mem_retain_def sample_store_def)

lemma sample_start_valid:
  "transition_try_new StReserved StPending (AuditAuthorization ''audit://acme/1/aa'') = Inr sample_start"
  by (simp add: transition_try_new_def audit_matches_transition_def sample_start_def blank_simps)

lemma sample_start_run:
  "mem_transition 120 ''inv-1'' sample_start sample_store =
     (Inr (), [(key_from_invocation sample_stored, sample_pending)])"
  by (simp add: mem_transition_def mem_find_def sample_store_def sample_stored_def sample_start_def
      apply_transition_def audit_link_try_new_def attach_link_def sample_pending_def blank_simps)

lemma sample_store_reachable: "mem_reachable sample_store"
  unfolding mem_reachable_def using step_reserve [OF sample_reserve_run] by blast

lemma sample_pending_reachable: "mem_reachable [(key_from_invocation sample_stored, sample_pending)]"
  using sample_store_reachable step_transition [OF sample_start_valid sample_start_run]
  unfolding mem_reachable_def by (rule rtranclp.rtrancl_into_rtrancl)

section \<open>Properties\<close>





text \<open>
  Compare-and-swap: once a transition of an invocation has succeeded, any further attempt
  from the same expected state fails and leaves the store as it is, so of two racing callers
  only one can start the effect or record its outcome; and every failed call changes nothing.
\<close>

lemma transition_succeeds_once:
  assumes "mem_inv m" "valid_transition t" "mem_transition now i t m = (Inr (), m')"
    and "it_expected t' = it_expected t"
  shows "(\<exists>e. mem_transition now' i t' m' = (Inl e, m'))
    \<and> (\<forall>now j t x e y. mem_transition now j t x = (Inl e, y) \<longrightarrow> y = x)"
  using mem.transition_once [OF assms(1,3,2,4)] mem_transition_error by blast

text \<open>
  Idempotency: reserving again with the same input while the record is kept never creates a
  second invocation; it answers with the record that is stored, in whatever state it has
  reached, and a request with another digest or another caller under the same key is refused.
\<close>

lemma reserve_is_idempotent:
  assumes "mem_inv m" "r \<in> mem_records m"
    and "stored_try_reserve q d now ret = Inr s" "key_from_invocation s = key_from_invocation r"
    and "state_fences (si_state r) \<or> now < si_retention_until r"
  shows "fst (mem_reserve_or_get now q d ret m) =
     (if si_status_context r \<noteq> ri_status_context q then Inl status_unauthorized
      else if si_request_digest r \<noteq> ri_request_digest q
      then Inl (status_invalid ''idempotency key is already bound to a different request'')
      else Inr (reservation_from_stored KindExisting r))
    \<and> snd (mem_reserve_or_get now q d ret m) = mem_retain now m"
proof -
  have kept: "mem_inv (mem_retain now m)" by (rule mem_retain_inv [OF assms(1)])
  have "r \<in> mem_records (mem_retain now m)"
    using assms(2,5) by (auto simp: mem_retain_records)
  then obtain k where k: "(k, r) \<in> set (mem_retain now m)" by (auto simp: mem_records_def)
  with kept have "k = key_from_invocation s" using assms(4) by (auto simp: mem_inv_def)
  with k kept have "map_of (mem_retain now m) (key_from_invocation s) = Some r"
    by (simp add: mem_inv_def map_of_btree)
  then show ?thesis
    using assms(3) stored_try_reserve_Inr(6,7) [OF assms(3)]
    by (simp add: mem_reserve_or_get_def)
qed



end
