(* ===== verification/KF_Principal.thy ===== *)
theory KF_Principal
  imports KF_Store KF_Agreement
begin

text \<open>
  Who invokes, and what the deployment's policy says of it: \<open>principal.rs\<close> and
  \<open>authorization.rs\<close> of \<open>crates/kiteframe-provider/src\<close>. The human and the workload are verified
  independently and correlated with the references of the invocation. The policy engine
  behind \<open>AuthorizationBackend\<close> is deployment code: a record of the answers it gives. Every
  definition that uses it asks each question at most once, so a function of the question is
  the most general backend.
\<close>

section \<open>Verified principals\<close>

record verified_human =
  vh_tenant_ref :: string
  vh_human_ref :: string
  vh_mapped_actor :: string
  vh_expires_at :: u64

record verified_workload =
  vw_tenant_ref :: string
  vw_workload_ref :: string
  vw_run_ref :: string
  vw_mapped_agent :: string
  vw_task_ref :: string
  vw_session_ref :: string
  vw_admission_ref :: string
  vw_expires_at :: u64

definition tenant_ref_new :: "string \<Rightarrow> (string, string) result" where
  "tenant_ref_new = string_ref_new ''verified tenant reference is required''"

definition human_ref_new :: "string \<Rightarrow> (string, string) result" where
  "human_ref_new = string_ref_new ''verified human principal reference is required''"

definition workload_ref_new :: "string \<Rightarrow> (string, string) result" where
  "workload_ref_new = string_ref_new ''verified workload principal reference is required''"

definition run_ref_new :: "string \<Rightarrow> (string, string) result" where
  "run_ref_new = string_ref_new ''verified workload run reference is required''"

definition verified_human_try_new ::
  "string \<Rightarrow> string \<Rightarrow> string \<Rightarrow> u64 \<Rightarrow> (string, verified_human) result" where
  "verified_human_try_new tenant human actor expires_at =
     and_then (tenant_ref_new tenant) (\<lambda>tenant_ref.
     and_then (human_ref_new human) (\<lambda>human_ref.
     Inr \<lparr>vh_tenant_ref = tenant_ref, vh_human_ref = human_ref, vh_mapped_actor = actor,
          vh_expires_at = expires_at\<rparr>))"

definition verified_workload_try_new :: "verified_workload \<Rightarrow> (string, verified_workload) result" where
  "verified_workload_try_new w =
     and_then (tenant_ref_new (vw_tenant_ref w)) (\<lambda>tenant_ref.
     and_then (workload_ref_new (vw_workload_ref w)) (\<lambda>workload_ref.
     and_then (run_ref_new (vw_run_ref w)) (\<lambda>run_ref.
     Inr (w\<lparr>vw_tenant_ref := tenant_ref, vw_workload_ref := workload_ref, vw_run_ref := run_ref\<rparr>))))"

section \<open>Correlation\<close>

record portable_refs =
  pr_actor_ref :: string
  pr_agent_ref :: string
  pr_run_ref :: string
  pr_task_ref :: string
  pr_session_ref :: string
  pr_admission_ref :: string
  pr_correlated_at :: u64

record auth_context =
  ac_tenant_ref :: string
  ac_human_ref :: string
  ac_workload_ref :: string
  ac_run_ref :: string
  ac_actor_ref :: string
  ac_agent_ref :: string
  ac_task_ref :: string
  ac_session_ref :: string
  ac_admission_ref :: string
  ac_expires_at :: u64

definition correlation_error :: diagnostic where
  "correlation_error =
     diagnostic_error InvocationDenied CatAuthorization StageInvoke
       ''authenticated principal correlation failed''"

definition correlate_principals ::
  "verified_human \<Rightarrow> verified_workload \<Rightarrow> portable_refs \<Rightarrow> (diagnostic, auth_context) result" where
  "correlate_principals human workload refs =
     (if vh_tenant_ref human \<noteq> vw_tenant_ref workload
         \<or> vh_mapped_actor human \<noteq> pr_actor_ref refs
         \<or> vw_mapped_agent workload \<noteq> pr_agent_ref refs
         \<or> vw_run_ref workload \<noteq> pr_run_ref refs
         \<or> vw_task_ref workload \<noteq> pr_task_ref refs
         \<or> vw_session_ref workload \<noteq> pr_session_ref refs
         \<or> vw_admission_ref workload \<noteq> pr_admission_ref refs
         \<or> vh_expires_at human \<le> pr_correlated_at refs
         \<or> vw_expires_at workload \<le> pr_correlated_at refs
      then Inl correlation_error
      else Inr \<lparr>ac_tenant_ref = vh_tenant_ref human, ac_human_ref = vh_human_ref human,
                ac_workload_ref = vw_workload_ref workload, ac_run_ref = pr_run_ref refs,
                ac_actor_ref = pr_actor_ref refs, ac_agent_ref = pr_agent_ref refs,
                ac_task_ref = pr_task_ref refs, ac_session_ref = pr_session_ref refs,
                ac_admission_ref = pr_admission_ref refs,
                ac_expires_at = min (vh_expires_at human) (vw_expires_at workload)\<rparr>)"

section \<open>Authorization decisions\<close>

definition decision_ref_new :: "string \<Rightarrow> (string, string) result" where
  "decision_ref_new = string_ref_new ''authorization decision reference is required''"

datatype safe_denial_reason = CapabilityDenied | PrincipalDenied | ResourceDenied | StaleAuthority

record narrowed_conditions =
  nc_resources :: "string list"
  nc_expires_at :: u64
  nc_required_preconditions :: "precondition_descriptor list"

definition narrowed_conditions_new ::
  "string list \<Rightarrow> u64 \<Rightarrow> precondition_descriptor list \<Rightarrow> (string, narrowed_conditions) result" where
  "narrowed_conditions_new resources expires_at preconditions =
     (if sort_dedup resources = [] then Inl ''authorized resources must not be empty''
      else Inr \<lparr>nc_resources = sort_dedup resources, nc_expires_at = expires_at,
                nc_required_preconditions = sort_dedup preconditions\<rparr>)"

datatype authorization_decision =
    DecisionAllow (da_decision_ref: string) (da_authority_revisions: authority_revision_set)
      (da_decided_at: u64) (da_narrowed_conditions: narrowed_conditions)
  | DecisionDeny safe_denial_reason string

definition decision_allow ::
  "string \<Rightarrow> authority_revision_set \<Rightarrow> u64 \<Rightarrow> narrowed_conditions \<Rightarrow>
     (string, authorization_decision) result" where
  "decision_allow reference revisions decided_at conditions =
     map_ok (\<lambda>r. DecisionAllow r revisions decided_at conditions) (decision_ref_new reference)"

definition decision_deny ::
  "string \<Rightarrow> safe_denial_reason \<Rightarrow> (string, authorization_decision) result" where
  "decision_deny reference reason = map_ok (DecisionDeny reason) (decision_ref_new reference)"

record admission_auth_request =
  aar_principals :: auth_context
  aar_capability :: capability_identity
  aar_selected_resource :: string
  aar_loaded_revisions :: authority_revision_set

definition admission_auth_result_new :: "capability_identity list \<Rightarrow> capability_identity list" where
  "admission_auth_result_new admissible = sort_dedup admissible"

record invocation_auth_request =
  iar_principals :: auth_context
  iar_capability :: capability_identity
  iar_selected_resource :: string
  iar_grant_digest :: sha256_digest
  iar_loaded_revisions :: authority_revision_set

record authorization_backend =
  ab_list_admissible :: "admission_auth_request \<Rightarrow> (diagnostic, capability_identity list) result"
  ab_check :: "invocation_auth_request \<Rightarrow> (diagnostic, authorization_decision) result"
  ab_revisions :: "(diagnostic, authority_revision_set) result"

definition require_current_authorization ::
  "authorization_backend \<Rightarrow> invocation_auth_request \<Rightarrow> (diagnostic, authorization_decision) result" where
  "require_current_authorization backend request =
     and_then (ab_revisions backend) (\<lambda>current_revisions.
     and_then (ab_check backend request) (\<lambda>decision.
       case decision of
         DecisionAllow _ revisions _ _ \<Rightarrow>
           (if revisions = current_revisions then Inr decision
            else Inl (diagnostic_error PolicyStale CatAuthorization StageInvoke
              ''authorization decision used stale authority revisions''))
       | DecisionDeny _ _ \<Rightarrow>
           Inl (diagnostic_error InvocationDenied CatAuthorization StageInvoke
             ''current invocation authorization denied'')))"

lemma require_current_authorization_Inr [result_simps]:
  "require_current_authorization b q = Inr d \<longleftrightarrow>
     ab_check b q = Inr d
     \<and> (\<exists>ref revs at cond. d = DecisionAllow ref revs at cond \<and> ab_revisions b = Inr revs)"
  by (cases "ab_revisions b"; cases "ab_check b q")
     (auto simp: require_current_authorization_def split: authorization_decision.splits if_splits)

section \<open>Properties\<close>

text \<open>
  A correlated context never mixes identities: it exists only when human and workload belong
  to one tenant and every portable reference is the one their verifiers mapped, it speaks for
  exactly that human and that workload, it is still valid at the time of correlation and expires
  with the shorter-lived of the two; any mismatch gives the same opaque diagnostic, and the
  same two principals never correlate to two different contexts.
\<close>

lemma correlated_context_is_bound:
  assumes "correlate_principals h w refs = Inr c"
  shows "ac_tenant_ref c = vh_tenant_ref h \<and> ac_tenant_ref c = vw_tenant_ref w
    \<and> ac_human_ref c = vh_human_ref h \<and> ac_workload_ref c = vw_workload_ref w
    \<and> ac_actor_ref c = vh_mapped_actor h \<and> ac_agent_ref c = vw_mapped_agent w
    \<and> ac_run_ref c = vw_run_ref w \<and> ac_task_ref c = vw_task_ref w
    \<and> ac_session_ref c = vw_session_ref w \<and> ac_admission_ref c = vw_admission_ref w
    \<and> pr_correlated_at refs < ac_expires_at c
    \<and> ac_expires_at c \<le> vh_expires_at h \<and> ac_expires_at c \<le> vw_expires_at w
    \<and> (\<forall>refs'. correlate_principals h w refs' \<in> {Inr c, Inl correlation_error})"
  using assms by (auto simp: correlate_principals_def split: if_splits)

definition sample_human :: verified_human where
  "sample_human = \<lparr>vh_tenant_ref = ''t1'', vh_human_ref = ''h1'', vh_mapped_actor = ''user:1'',
     vh_expires_at = 900\<rparr>"

definition sample_workload :: verified_workload where
  "sample_workload = \<lparr>vw_tenant_ref = ''t1'', vw_workload_ref = ''w1'', vw_run_ref = ''run-1'',
     vw_mapped_agent = ''agent:1'', vw_task_ref = ''task-1'', vw_session_ref = ''session-1'',
     vw_admission_ref = ''adm-1'', vw_expires_at = 700\<rparr>"

definition sample_refs :: portable_refs where
  "sample_refs = \<lparr>pr_actor_ref = ''user:1'', pr_agent_ref = ''agent:1'', pr_run_ref = ''run-1'',
     pr_task_ref = ''task-1'', pr_session_ref = ''session-1'', pr_admission_ref = ''adm-1'',
     pr_correlated_at = 100\<rparr>"

definition sample_auth_context :: auth_context where
  "sample_auth_context = \<lparr>ac_tenant_ref = ''t1'', ac_human_ref = ''h1'', ac_workload_ref = ''w1'',
     ac_run_ref = ''run-1'', ac_actor_ref = ''user:1'', ac_agent_ref = ''agent:1'',
     ac_task_ref = ''task-1'', ac_session_ref = ''session-1'', ac_admission_ref = ''adm-1'',
     ac_expires_at = 700\<rparr>"

lemmas sample_principals = sample_human_def sample_workload_def sample_refs_def sample_auth_context_def

lemma sample_correlated:
  "correlate_principals sample_human sample_workload sample_refs = Inr sample_auth_context"
  by (simp add: correlate_principals_def sample_principals min_def)

end
