(* ===== verification/KF_Operation.thy ===== *)
theory KF_Operation
  imports KF_Principal
begin

text \<open>
  The operation registry of \<open>crates/kiteframe-provider/src/operation.rs\<close>: trusted operations
  under exact capability identities, frozen together with the policy backend, and the path that
  executes a read-only operation. An operation is deployment code; the record
  \<open>capability_operation\<close> holds its answers.
\<close>

section \<open>Contexts and operations\<close>

record precondition =
  pc_name :: string
  pc_value :: json

definition precondition_try_new :: "string \<Rightarrow> json \<Rightarrow> (string, precondition) result" where
  "precondition_try_new name value =
     (if is_blank name then Inl ''precondition name is required''
      else Inr \<lparr>pc_name = name, pc_value = value\<rparr>)"

definition op_runtime_error :: "string \<Rightarrow> diagnostic" where
  "op_runtime_error message = diagnostic_error ComponentUnresolved CatRuntime StageRuntime message"

definition op_capability_error :: "string \<Rightarrow> diagnostic" where
  "op_capability_error message = diagnostic_error ResultInvalid CatCapability StageInvoke message"

definition op_precondition_error :: "string \<Rightarrow> diagnostic" where
  "op_precondition_error message = diagnostic_error PreconditionMissing CatCapability StageInvoke message"

definition op_authorization_error :: "string \<Rightarrow> diagnostic" where
  "op_authorization_error message =
     diagnostic_error InvocationDenied CatAuthorization StageInvoke message"

record invocation_context =
  ic_principals :: auth_context
  ic_capability :: capability_identity
  ic_selected_resource :: string
  ic_trace_context :: trace_context
  ic_locked_capability :: locked_capability
  ic_effective_grant :: effective_grant
  ic_grant_digest :: sha256_digest
  ic_loaded_revisions :: authority_revision_set

definition invocation_context_try_new :: "invocation_context \<Rightarrow> (diagnostic, invocation_context) result" where
  "invocation_context_try_new c =
     (if lc_identity (ic_locked_capability c) \<noteq> ic_capability c
         \<or> eg_capability (ic_effective_grant c) \<noteq> ic_capability c
         \<or> \<not> (\<exists>granted \<in> set (eg_resources (ic_effective_grant c)).
                resource_selector_is_subset (ic_selected_resource c) granted)
      then Inl (op_capability_error ''invocation does not match persisted exact capability state'')
      else Inr c)"

definition condition_allows_resource :: "narrowed_conditions \<Rightarrow> string \<Rightarrow> bool" where
  "condition_allows_resource conditions selected =
     (\<exists>allowed \<in> set (nc_resources conditions). resource_selector_is_subset selected allowed)"

datatype operation_failure = FailStable stable_error | FailDiagnostic diagnostic

fun failure_diagnostic :: "operation_failure \<Rightarrow> diagnostic" where
  "failure_diagnostic (FailDiagnostic d) = d"
| "failure_diagnostic (FailStable _) =
     op_capability_error ''provider returned a stable capability error''"

record capability_operation =
  co_identity :: capability_identity
  co_validate_preconditions :: "invocation_context \<Rightarrow> precondition list \<Rightarrow> (diagnostic, unit) result"
  co_execute :: "invocation_context \<Rightarrow> json \<Rightarrow> (operation_failure, json) result"

section \<open>The registry\<close>

record operation_registry =
  or_operations :: "(capability_identity \<times> capability_operation) list"
  or_backend :: "authorization_backend option"

definition registry_new :: operation_registry where
  "registry_new = \<lparr>or_operations = [], or_backend = None\<rparr>"

definition registry_register ::
  "capability_operation \<Rightarrow> operation_registry \<Rightarrow>
     (diagnostic, unit) result \<times> operation_registry" where
  "registry_register operation r =
     (if or_backend r \<noteq> None then (Inl (op_runtime_error ''operation registry is frozen''), r)
      else if map_of (or_operations r) (co_identity operation) \<noteq> None
      then (Inl (op_runtime_error
              ''operation registry contains a duplicate exact capability identity''), r)
      else (Inr (), r\<lparr>or_operations := btree_insert (co_identity operation) operation (or_operations r)\<rparr>))"

definition registry_freeze ::
  "authorization_backend \<Rightarrow> operation_registry \<Rightarrow> (diagnostic, operation_registry) result" where
  "registry_freeze backend r = Inr (r\<lparr>or_backend := Some backend\<rparr>)"

definition registry_is_frozen :: "operation_registry \<Rightarrow> bool" where
  "registry_is_frozen r = (or_backend r \<noteq> None)"

definition registry_resolve ::
  "operation_registry \<Rightarrow> capability_identity \<Rightarrow> (diagnostic, capability_operation) result" where
  "registry_resolve r identity =
     (if or_backend r = None
      then Inl (op_runtime_error ''operation registry must be frozen before invocation'')
      else ok_or (op_runtime_error
               ''no trusted operation is registered for the exact capability identity'')
             (map_of (or_operations r) identity))"

definition registry_backend :: "operation_registry \<Rightarrow> (diagnostic, authorization_backend) result" where
  "registry_backend r =
     ok_or (op_runtime_error ''operation registry must be frozen before invocation'') (or_backend r)"

section \<open>Read-only execution\<close>

definition preconditions_present ::
  "effective_grant \<Rightarrow> narrowed_conditions \<Rightarrow> precondition list \<Rightarrow> bool" where
  "preconditions_present grant conditions supplied =
     list_all (\<lambda>required. \<exists>s \<in> set supplied. pc_name s = pd_name required)
       (filter pd_required (eg_preconditions grant @ nc_required_preconditions conditions))"

definition validate_current_authorization ::
  "invocation_context \<Rightarrow> authorization_decision \<Rightarrow> precondition list \<Rightarrow> (diagnostic, unit) result" where
  "validate_current_authorization context authorization supplied =
     (case authorization of
        DecisionAllow _ _ decided_at conditions \<Rightarrow>
          (if ac_expires_at (ic_principals context) \<le> decided_at
              \<or> eg_expires_at (ic_effective_grant context) \<le> decided_at
              \<or> nc_expires_at conditions \<le> decided_at
              \<or> \<not> condition_allows_resource conditions (ic_selected_resource context)
           then Inl (op_authorization_error
             ''current authorization does not match persisted invocation state'')
           else ensure (preconditions_present (ic_effective_grant context) conditions supplied)
             (op_precondition_error ''required authorization or grant precondition is missing''))
      | _ \<Rightarrow> Inl (op_authorization_error ''invocation has no current authorization''))"

definition invocation_auth_request_of :: "invocation_context \<Rightarrow> invocation_auth_request" where
  "invocation_auth_request_of context =
     \<lparr>iar_principals = ic_principals context, iar_capability = ic_capability context,
      iar_selected_resource = ic_selected_resource context,
      iar_grant_digest = ic_grant_digest context,
      iar_loaded_revisions = ic_loaded_revisions context\<rparr>"

definition check_operation_result ::
  "externals \<Rightarrow> capability_descriptor \<Rightarrow> (operation_failure, json) result \<Rightarrow>
     (operation_failure, json) result" where
  "check_operation_result X d r =
     (case r of
        Inr output \<Rightarrow> map_ok (\<lambda>_. output) (map_err FailDiagnostic (validate_output X d output))
      | Inl (FailStable error) \<Rightarrow>
          and_then (map_err FailDiagnostic (validate_stable_error d error))
            (\<lambda>_. Inl (FailStable error))
      | Inl error \<Rightarrow> Inl error)"

definition registry_execute ::
  "externals \<Rightarrow> operation_registry \<Rightarrow> invocation_context \<Rightarrow> precondition list \<Rightarrow> json \<Rightarrow>
     (operation_failure, json) result" where
  "registry_execute X r context preconditions arguments =
     (let descriptor = lc_descriptor (ic_locked_capability context) in
      if cd_effect descriptor \<noteq> ReadOnly
      then Inl (FailDiagnostic (op_runtime_error
             ''effect operations require the durable invocation enforcement plane''))
      else
        and_then (ok_or (FailDiagnostic (op_runtime_error
             ''operation registry must be frozen with an authorization backend before use''))
             (or_backend r)) (\<lambda>backend.
        and_then (ok_or (FailDiagnostic (op_runtime_error
             ''no trusted operation is registered for the exact capability identity''))
             (map_of (or_operations r) (ic_capability context))) (\<lambda>operation.
        if co_identity operation \<noteq> lc_identity (ic_locked_capability context)
        then Inl (FailDiagnostic (op_runtime_error
               ''registered operation does not match the locked capability identity''))
        else
          and_then (map_err FailDiagnostic
             (require_current_authorization backend (invocation_auth_request_of context)))
             (\<lambda>authorization.
          and_then (map_err FailDiagnostic
             (validate_current_authorization context authorization preconditions)) (\<lambda>_.
          and_then (map_err FailDiagnostic (validate_input X descriptor arguments)) (\<lambda>_.
          and_then (map_err FailDiagnostic
             (co_validate_preconditions operation context preconditions)) (\<lambda>_.
          check_operation_result X descriptor (co_execute operation context arguments))))))))"

section \<open>Registries that only registration and freezing build\<close>

inductive built_registry :: "operation_registry \<Rightarrow> bool" where
  built_new: "built_registry registry_new"
| built_register: "built_registry r \<Longrightarrow> registry_register operation r = (res, r') \<Longrightarrow> built_registry r'"
| built_freeze: "built_registry r \<Longrightarrow> registry_freeze backend r = Inr r' \<Longrightarrow> built_registry r'"

lemma registry_register_cases:
  assumes "registry_register operation r = (res, r')"
  obtains (refused) e where "res = Inl e" "r' = r"
  | (added) "res = Inr ()" "or_backend r = None" "map_of (or_operations r) (co_identity operation) = None"
      "r' = r\<lparr>or_operations := btree_insert (co_identity operation) operation (or_operations r)\<rparr>"
  using assms by (auto simp: registry_register_def split: if_splits)

lemma built_registry_operations:
  "built_registry r \<Longrightarrow> btree_ok (or_operations r) \<and> (\<forall>(i, op) \<in> set (or_operations r). co_identity op = i)"
proof (induction rule: built_registry.induct)
  case (built_register r operation res r')
  from built_register.hyps(2) show ?case
    using built_register.IH
    by (cases rule: registry_register_cases) (auto simp: btree_ok_insert set_btree_insert)
qed (auto simp: registry_new_def registry_freeze_def)

lemma built_registry_identity:
  "built_registry r \<Longrightarrow> map_of (or_operations r) i = Some op \<Longrightarrow> co_identity op = i"
  using built_registry_operations map_of_SomeD by fastforce

definition execution_permitted ::
  "externals \<Rightarrow> operation_registry \<Rightarrow> invocation_context \<Rightarrow> precondition list \<Rightarrow> json \<Rightarrow> bool" where
  "execution_permitted X r context preconditions arguments =
     (cd_effect (lc_descriptor (ic_locked_capability context)) = ReadOnly
      \<and> (\<exists>backend op ref revs at cond.
           or_backend r = Some backend
           \<and> map_of (or_operations r) (ic_capability context) = Some op
           \<and> co_identity op = lc_identity (ic_locked_capability context)
           \<and> ab_revisions backend = Inr revs
           \<and> ab_check backend (invocation_auth_request_of context) = Inr (DecisionAllow ref revs at cond)
           \<and> at < ac_expires_at (ic_principals context)
           \<and> at < eg_expires_at (ic_effective_grant context) \<and> at < nc_expires_at cond
           \<and> condition_allows_resource cond (ic_selected_resource context)
           \<and> preconditions_present (ic_effective_grant context) cond preconditions
           \<and> validate_input X (lc_descriptor (ic_locked_capability context)) arguments = Inr ()
           \<and> co_validate_preconditions op context preconditions = Inr ()))"

lemma validate_current_authorization_allow [result_simps]:
  "validate_current_authorization context (DecisionAllow ref revs at cond) supplied = Inr u \<longleftrightarrow>
     at < ac_expires_at (ic_principals context) \<and> at < eg_expires_at (ic_effective_grant context)
     \<and> at < nc_expires_at cond \<and> condition_allows_resource cond (ic_selected_resource context)
     \<and> preconditions_present (ic_effective_grant context) cond supplied"
  by (auto simp: validate_current_authorization_def not_le)

definition with_code ::
  "(capability_identity \<Rightarrow> invocation_context \<Rightarrow> json \<Rightarrow> (operation_failure, json) result) \<Rightarrow>
     operation_registry \<Rightarrow> operation_registry" where
  "with_code code r =
     r\<lparr>or_operations := map (\<lambda>(i, op). (i, op\<lparr>co_execute := code i\<rparr>)) (or_operations r)\<rparr>"

lemma with_code_lookup:
  "map_of (or_operations (with_code code r)) i =
     map_option (\<lambda>op. op\<lparr>co_execute := code i\<rparr>) (map_of (or_operations r) i)"
proof -
  have "map_of (map (\<lambda>(i, op). (i, op\<lparr>co_execute := code i\<rparr>)) m) i =
      map_option (\<lambda>op. op\<lparr>co_execute := code i\<rparr>) (map_of m i)" for m
    by (induction m) auto
  then show ?thesis by (simp add: with_code_def)
qed

lemma with_code_backend [simp]: "or_backend (with_code code r) = or_backend r"
  by (simp add: with_code_def)

section \<open>Properties\<close>

lemma execution_permitted_run:
  assumes "execution_permitted X r context preconditions arguments"
    and "map_of (or_operations r) (ic_capability context) = Some op"
  shows "registry_execute X r context preconditions arguments =
     check_operation_result X (lc_descriptor (ic_locked_capability context))
       (co_execute op context arguments)"
  using assms
  by (auto simp: execution_permitted_def registry_execute_def require_current_authorization_def
      validate_current_authorization_def)

lemma execution_refused:
  assumes "\<not> execution_permitted X r context preconditions arguments"
  shows "\<exists>d. registry_execute X r context preconditions arguments = Inl (FailDiagnostic d)"
proof (rule ccontr)
  assume no: "\<not> ?thesis"
  let ?d = "lc_descriptor (ic_locked_capability context)"
  have ro: "cd_effect ?d = ReadOnly"
    by (rule ccontr) (use no in \<open>simp add: registry_execute_def\<close>)
  obtain b where b: "or_backend r = Some b"
    using no ro by (cases "or_backend r") (auto simp: registry_execute_def)
  obtain op where op: "map_of (or_operations r) (ic_capability context) = Some op"
    using no ro b by (cases "map_of (or_operations r) (ic_capability context)") (auto simp: registry_execute_def)
  have same: "co_identity op = lc_identity (ic_locked_capability context)"
    by (rule ccontr) (use no ro b op in \<open>simp add: registry_execute_def\<close>)
  note known = ro b op same
  obtain d where d: "require_current_authorization b (invocation_auth_request_of context) = Inr d"
    using no known
    by (cases "require_current_authorization b (invocation_auth_request_of context)")
       (auto simp: registry_execute_def)
  have v: "validate_current_authorization context d preconditions = Inr ()"
    using no known d
    by (cases "validate_current_authorization context d preconditions") (auto simp: registry_execute_def)
  have i: "validate_input X ?d arguments = Inr ()"
    using no known d v by (cases "validate_input X ?d arguments") (auto simp: registry_execute_def)
  have p: "co_validate_preconditions op context preconditions = Inr ()"
    using no known d v i
    by (cases "co_validate_preconditions op context preconditions") (auto simp: registry_execute_def)
  from d v have "\<exists>ref revs at cond. ab_revisions b = Inr revs
      \<and> ab_check b (invocation_auth_request_of context) = Inr (DecisionAllow ref revs at cond)
      \<and> at < ac_expires_at (ic_principals context) \<and> at < eg_expires_at (ic_effective_grant context)
      \<and> at < nc_expires_at cond \<and> condition_allows_resource cond (ic_selected_resource context)
      \<and> preconditions_present (ic_effective_grant context) cond preconditions"
    by (auto simp: result_simps)
  with known i p have "execution_permitted X r context preconditions arguments"
    unfolding execution_permitted_def by blast
  with assms show False ..
qed

lemma execution_permitted_code:
  "execution_permitted X (with_code code r) context preconditions arguments
   \<longleftrightarrow> execution_permitted X r context preconditions arguments"
  by (auto simp: execution_permitted_def with_code_lookup)

lemma check_operation_result_Inr [result_simps]:
  "check_operation_result X d r = Inr out \<longleftrightarrow> r = Inr out \<and> validate_output X d out = Inr ()"
  by (auto simp: check_operation_result_def split: sum.splits operation_failure.splits)


text \<open>
  The registry is closed: however it was built, a frozen registry refuses every
  registration and stays as it is, registration never replaces an operation, and what an
  identity resolves to is an operation that declares exactly that identity.
\<close>

lemma built_registry_is_closed:
  assumes "built_registry r"
  shows "(or_backend r \<noteq> None \<longrightarrow> (\<exists>e. registry_register op r = (Inl e, r)))
    \<and> (\<forall>i old. map_of (or_operations r) i = Some old \<longrightarrow>
         map_of (or_operations (snd (registry_register op r))) i = Some old)
    \<and> (\<forall>i o'. registry_resolve r i = Inr o' \<longrightarrow> co_identity o' = i \<and> or_backend r \<noteq> None)"
proof (intro conjI allI impI)
  show "\<exists>e. registry_register op r = (Inl e, r)" if "or_backend r \<noteq> None"
    using that by (simp add: registry_register_def)
  show "map_of (or_operations (snd (registry_register op r))) i = Some old"
    if "map_of (or_operations r) i = Some old" for i old
  proof (cases "registry_register op r")
    case (Pair res r')
    then show ?thesis
      using that built_registry_operations [OF assms] Pair
      by (cases rule: registry_register_cases) (auto simp: map_of_btree_insert)
  qed
  show "co_identity o' = i" "or_backend r \<noteq> None" if "registry_resolve r i = Inr o'" for i o'
    using that built_registry_identity [OF assms]
    by (auto simp: registry_resolve_def split: if_splits)
qed

section \<open>Witnesses\<close>

definition sample_revisions :: authority_revision_set where
  "sample_revisions = \<lparr>ars_entries = [AuthorityRevision ''policy'' ''r1''], ars_digest = sample_digest\<rparr>"

definition sample_conditions :: narrowed_conditions where
  "sample_conditions = \<lparr>nc_resources = [''doc:7''], nc_expires_at = 600, nc_required_preconditions = []\<rparr>"

definition sample_backend :: authorization_backend where
  "sample_backend = \<lparr>ab_list_admissible = \<lambda>q. Inr [aar_capability q],
     ab_check = \<lambda>q. Inr (DecisionAllow ''decision-1'' sample_revisions 110 sample_conditions),
     ab_revisions = Inr sample_revisions\<rparr>"

definition sample_operation :: capability_operation where
  "sample_operation = \<lparr>co_identity = sample_identity, co_validate_preconditions = \<lambda>_ _. Inr (),
     co_execute = \<lambda>_ _. Inr (JObj [(''changed'', JBool True)])\<rparr>"

definition sample_registry :: operation_registry where
  "sample_registry = \<lparr>or_operations = [(sample_identity, sample_operation)],
     or_backend = Some sample_backend\<rparr>"

lemma sample_registry_built: "built_registry sample_registry"
proof -
  have one: "registry_register sample_operation registry_new =
      (Inr (), \<lparr>or_operations = [(sample_identity, sample_operation)], or_backend = None\<rparr>)"
    by (simp add: registry_register_def registry_new_def sample_operation_def)
  have two: "registry_freeze sample_backend
      \<lparr>or_operations = [(sample_identity, sample_operation)], or_backend = None\<rparr> = Inr sample_registry"
    by (simp add: registry_freeze_def sample_registry_def)
  show ?thesis by (rule built_freeze [OF built_register [OF built_new one] two])
qed

definition sample_context_for :: "effect_classification \<Rightarrow> invocation_context" where
  "sample_context_for effect =
     \<lparr>ic_principals = sample_auth_context, ic_capability = sample_identity,
      ic_selected_resource = ''doc:7'', ic_trace_context = sample_trace,
      ic_locked_capability = sample_locked\<lparr>lc_descriptor := sample_descriptor\<lparr>cd_effect := effect\<rparr>\<rparr>,
      ic_effective_grant = sample_grant, ic_grant_digest = sample_digest,
      ic_loaded_revisions = sample_revisions\<rparr>"

lemma sample_doc_below: "resource_selector_is_subset ''doc:7'' ''doc:7''"
  by code_simp

lemma sample_read_only:
  "registry_execute sample_externals sample_registry (sample_context_for ReadOnly)
     [\<lparr>pc_name = ''etag'', pc_value = JStr ''v3''\<rparr>] (JObj []) = Inr (JObj [(''changed'', JBool True)])"
  by (simp add: registry_execute_def sample_registry_def sample_context_for_def sample_operation_def
      sample_backend_def require_current_authorization_def validate_current_authorization_def
      preconditions_present_def condition_allows_resource_def sample_conditions_def sample_doc_below
      validate_input_def validate_output_def validate_instance_def check_operation_result_def
      sample_data sample_auth_context_def)


end
