(* ===== verification/KF_Audit.thy ===== *)
theory KF_Audit
  imports KF_Operation
begin

text \<open>
  Audit records and receipts, \<open>crates/kiteframe-provider/src/audit.rs\<close>: what is written before
  an effect (the authorization) and after it (the outcome), their serialized form, and the
  receipt a durable sink returns. The two records of the code share the correlation fields;
  here they extend one record that holds those fields once.
\<close>

section \<open>References and identifiers\<close>

definition precondition_ref_new :: "string \<Rightarrow> (string, string) result" where
  "precondition_ref_new = string_ref_new ''audit precondition reference is required''"

definition correlation_id_new :: "nat \<Rightarrow> string \<Rightarrow> string \<Rightarrow> (string, string) result" where
  "correlation_id_new expected_length message value =
     (if length value \<noteq> expected_length \<or> \<not> list_all is_hex_lower value
         \<or> list_all (\<lambda>c. c = CHR ''0'') value
      then Inl message else Inr value)"

definition trace_id_new :: "string \<Rightarrow> (string, string) result" where
  "trace_id_new = correlation_id_new 32
     ''audit trace ID must be 32 non-zero lowercase hexadecimal characters''"

definition span_id_new :: "string \<Rightarrow> (string, string) result" where
  "span_id_new = correlation_id_new 16
     ''audit span ID must be 16 non-zero lowercase hexadecimal characters''"

section \<open>Records\<close>

record audit_correlation =
  ax_tenant_ref :: string
  ax_human_principal_ref :: string
  ax_workload_principal_ref :: string
  ax_run_ref :: string
  ax_actor :: string
  ax_agent :: string
  ax_task :: string
  ax_session :: string
  ax_capability :: capability_identity
  ax_resource :: string
  ax_admission_id :: string
  ax_grant_digest :: sha256_digest
  ax_catalog_identity :: catalog_identity
  ax_catalog_digest :: sha256_digest
  ax_descriptor_digest :: sha256_digest
  ax_authority_revision_digest :: sha256_digest
  ax_invocation_id :: string
  ax_status_id :: string
  ax_idempotency_key :: string
  ax_proposal_digest :: sha256_digest
  ax_portable_digest :: sha256_digest
  ax_lock_digest :: sha256_digest
  ax_binding_digest :: sha256_digest
  ax_resolved_digest :: sha256_digest
  ax_trace_id :: string
  ax_span_id :: string
  ax_intended_effect :: effect_classification

record authorization_audit_record = audit_correlation +
  aar_decision_reference :: string
  aar_precondition_refs :: "string list"
  aar_evidence_refs :: "(string \<times> string) list"
  aar_timestamp :: u64

datatype outcome_audit_kind =
  AuditCompletion | AuditFailure | AuditSuspension | AuditOutcomeUnknown

record outcome_audit_record = audit_correlation +
  oar_write_ahead_record_id :: string
  oar_outcome :: outcome_audit_kind
  oar_safe_result :: "status_safe_result option"
  oar_safe_error :: "status_safe_error option"
  oar_timestamp :: u64

datatype audit_record =
    RecAuthorization authorization_audit_record
  | RecOutcome outcome_audit_record

fun audit_partition :: "audit_record \<Rightarrow> string" where
  "audit_partition (RecAuthorization r) = ax_tenant_ref r"
| "audit_partition (RecOutcome r) = ax_tenant_ref r"

section \<open>Serialized form\<close>

fun outcome_kind_str :: "outcome_audit_kind \<Rightarrow> string" where
  "outcome_kind_str AuditCompletion = ''completion''"
| "outcome_kind_str AuditFailure = ''failure''"
| "outcome_kind_str AuditSuspension = ''suspension''"
| "outcome_kind_str AuditOutcomeUnknown = ''outcome_unknown''"

definition safe_result_json :: "status_safe_result \<Rightarrow> json" where
  "safe_result_json r = JObj [(''value'', ssr_value r)]"

definition safe_error_json :: "status_safe_error \<Rightarrow> json" where
  "safe_error_json e = JObj
     [(''code'', JStr (sse_code e)), (''category'', JStr (sse_category e)),
      (''retry'', JStr (retry_str (sse_retry e))), (''message'', JStr (sse_message e))]"

definition correlation_json :: "'a audit_correlation_scheme \<Rightarrow> (string \<times> json) list" where
  "correlation_json r =
     [(''tenantRef'', JStr (ax_tenant_ref r)),
      (''humanPrincipalRef'', JStr (ax_human_principal_ref r)),
      (''workloadPrincipalRef'', JStr (ax_workload_principal_ref r)),
      (''runRef'', JStr (ax_run_ref r)), (''actor'', JStr (ax_actor r)),
      (''agent'', JStr (ax_agent r)), (''task'', JStr (ax_task r)),
      (''session'', JStr (ax_session r)), (''capability'', identity_json (ax_capability r)),
      (''resource'', JStr (ax_resource r)), (''admissionId'', JStr (ax_admission_id r)),
      (''grantDigest'', digest_json (ax_grant_digest r)),
      (''catalogIdentity'', catalog_identity_json (ax_catalog_identity r)),
      (''catalogDigest'', digest_json (ax_catalog_digest r)),
      (''descriptorDigest'', digest_json (ax_descriptor_digest r)),
      (''authorityRevisionDigest'', digest_json (ax_authority_revision_digest r)),
      (''invocationId'', JStr (ax_invocation_id r)), (''statusId'', JStr (ax_status_id r)),
      (''idempotencyKey'', JStr (ax_idempotency_key r)),
      (''proposalDigest'', digest_json (ax_proposal_digest r)),
      (''portableDigest'', digest_json (ax_portable_digest r)),
      (''lockDigest'', digest_json (ax_lock_digest r)),
      (''bindingDigest'', digest_json (ax_binding_digest r)),
      (''resolvedDigest'', digest_json (ax_resolved_digest r)),
      (''traceId'', JStr (ax_trace_id r)), (''spanId'', JStr (ax_span_id r)),
      (''intendedEffect'', JStr (effect_str (ax_intended_effect r)))]"

definition authorization_record_json :: "authorization_audit_record \<Rightarrow> json" where
  "authorization_record_json r = JObj
     (correlation_json r @
      [(''decisionReference'', JStr (aar_decision_reference r)),
       (''preconditionRefs'', JArr (map JStr (aar_precondition_refs r))),
       (''evidenceRefs'', string_map_json (aar_evidence_refs r)),
       (''timestamp'', u64_json (aar_timestamp r))])"

definition outcome_record_json :: "outcome_audit_record \<Rightarrow> json" where
  "outcome_record_json r = JObj
     ([(''writeAheadRecordId'', JStr (oar_write_ahead_record_id r)),
       (''outcome'', JStr (outcome_kind_str (oar_outcome r)))]
      @ correlation_json r
      @ (case oar_safe_result r of None \<Rightarrow> [] | Some s \<Rightarrow> [(''safeResult'', safe_result_json s)])
      @ (case oar_safe_error r of None \<Rightarrow> [] | Some e \<Rightarrow> [(''safeError'', safe_error_json e)])
      @ [(''timestamp'', u64_json (oar_timestamp r))])"

fun audit_record_json :: "audit_record \<Rightarrow> json" where
  "audit_record_json (RecAuthorization r) =
     JObj [(''recordType'', JStr ''authorization''), (''record'', authorization_record_json r)]"
| "audit_record_json (RecOutcome r) =
     JObj [(''recordType'', JStr ''outcome''), (''record'', outcome_record_json r)]"

section \<open>Receipts\<close>

fun decimal :: "nat \<Rightarrow> string" where
  "decimal n = (if n < 10 then [char_of (48 + n)] else decimal (n div 10) @ [char_of (48 + n mod 10)])"

declare decimal.simps [simp del]

definition receipt_partition_ok :: "string \<Rightarrow> bool" where
  "receipt_partition_ok part =
     (\<not> is_blank part \<and> \<not> list_ex (\<lambda>c. char_in 0 32 c \<or> char_in 127 127 c) part)"

record audit_receipt =
  rc_partition :: string
  rc_sequence :: u64
  rc_previous_hash :: sha256_digest
  rc_record_hash :: sha256_digest
  rc_record_id :: string

definition receipt_record_id :: "string \<Rightarrow> u64 \<Rightarrow> sha256_digest \<Rightarrow> string" where
  "receipt_record_id part sequence record_hash =
     ''audit://'' @ part @ ''/'' @ decimal (unat sequence) @ ''/'' @ digest_display record_hash"

definition receipt_try_new ::
  "string \<Rightarrow> u64 \<Rightarrow> sha256_digest \<Rightarrow> sha256_digest \<Rightarrow> (string, audit_receipt) result" where
  "receipt_try_new part sequence previous_hash record_hash =
     (if \<not> receipt_partition_ok part \<or> sequence = 0
      then Inl ''durable audit receipt partition and sequence are invalid''
      else Inr \<lparr>rc_partition = part, rc_sequence = sequence, rc_previous_hash = previous_hash,
                rc_record_hash = record_hash,
                rc_record_id = receipt_record_id part sequence record_hash\<rparr>)"

definition audit_unavailable :: "string \<Rightarrow> diagnostic" where
  "audit_unavailable message =
     (diagnostic_error AuditUnavailable CatAudit StageAudit message)\<lparr>d_retry := RetryAfterRefresh\<rparr>"

section \<open>Record identifiers name one position of one partition\<close>

fun undecimal :: "string \<Rightarrow> nat" where
  "undecimal s = foldl (\<lambda>n c. 10 * n + (of_char c - 48)) 0 s"

lemma undecimal_decimal: "undecimal (decimal n) = n"
proof (induction n rule: decimal.induct)
  case (1 n)
  show ?case
  proof (cases "n < 10")
    case True
    then show ?thesis by (simp add: decimal.simps [of n])
  next
    case False
    have "n mod 10 < 10" by simp
    then have "48 + n mod 10 < 256" by linarith
    then have "(of_char (char_of (48 + n mod 10) :: char) :: nat) = 48 + n mod 10" by simp
    with 1 False show ?thesis by (simp add: decimal.simps [of n])
  qed
qed

lemma decimal_inject [simp]: "decimal m = decimal n \<longleftrightarrow> m = n"
  by (metis undecimal_decimal)

lemma decimal_digits: "c \<in> set (decimal n) \<Longrightarrow> is_ascii_digit c"
proof (induction n rule: decimal.induct)
  case (1 n)
  have digit: "is_ascii_digit (char_of (48 + m))" if "m < 10" for m :: nat
    using that by (simp add: is_ascii_digit_def char_in_def)
  from 1 digit [of n] digit [of "n mod 10"] show ?case
    by (subst (asm) (2) decimal.simps) (auto split: if_splits)
qed

lemma slash_not_digit: "\<not> is_ascii_digit CHR ''/''"
  by (simp add: is_ascii_digit_def char_in_def)

lemma split_first_unique:
  "c \<notin> set xs \<Longrightarrow> c \<notin> set us \<Longrightarrow> xs @ c # ys = us @ c # vs \<longleftrightarrow> xs = us \<and> ys = vs"
proof (induction xs arbitrary: us)
  case Nil
  then show ?case by (cases us) auto
next
  case (Cons x xs)
  then show ?case by (cases us) auto
qed

lemma receipt_record_id_sequence:
  assumes "receipt_record_id p s h = receipt_record_id p t k"
  shows "s = t \<and> h = k"
proof -
  have "decimal (unat s) @ CHR ''/'' # digest_display h = decimal (unat t) @ CHR ''/'' # digest_display k"
    using assms by (simp add: receipt_record_id_def)
  moreover have "CHR ''/'' \<notin> set (decimal m)" for m
    using decimal_digits slash_not_digit by blast
  ultimately have "decimal (unat s) = decimal (unat t) \<and> digest_display h = digest_display k"
    using split_first_unique [of "CHR ''/''"] by blast
  then show ?thesis by (simp add: digest_display_inject word_unat_eq_iff)
qed

lemma receipt_try_new_Inr [result_simps]:
  "receipt_try_new p s ph rh = Inr r \<longleftrightarrow>
     receipt_partition_ok p \<and> s \<noteq> 0
     \<and> r = \<lparr>rc_partition = p, rc_sequence = s, rc_previous_hash = ph, rc_record_hash = rh,
            rc_record_id = receipt_record_id p s rh\<rparr>"
  by (auto simp: receipt_try_new_def)

lemma correlation_id_new_Inr [result_simps]:
  "correlation_id_new n m v = Inr r \<longleftrightarrow>
     length v = n \<and> list_all is_hex_lower v \<and> \<not> list_all (\<lambda>c. c = CHR ''0'') v \<and> r = v"
  by (auto simp: correlation_id_new_def)

end
