(* ===== verification/KF_Checks.thy ===== *)
theory KF_Checks
  imports KF_Operation KF_Audit KF_Status
begin

text \<open>
  The checks an invocation passes on its way to the operation: the validation functions of
  \<open>crates/kiteframe-provider/src/invocation.rs\<close> and the persisted admission they read. Every
  function here is pure; the order in which the service calls them is \<open>KF_Invocation\<close>'s.
\<close>

section \<open>Errors\<close>

definition inv_grant_error :: "string \<Rightarrow> diagnostic" where
  "inv_grant_error message = diagnostic_error AdmissionExpired CatAuthorization StageInvoke message"

definition inv_authorization_error :: "string \<Rightarrow> diagnostic" where
  "inv_authorization_error message =
     diagnostic_error InvocationDenied CatAuthorization StageInvoke message"

definition inv_evidence_error :: "string \<Rightarrow> diagnostic" where
  "inv_evidence_error message = (inv_authorization_error message)\<lparr>d_retry := RetryAfterUserAction\<rparr>"

definition inv_policy_error :: "string \<Rightarrow> diagnostic" where
  "inv_policy_error message =
     (diagnostic_error PolicyStale CatAuthorization StageInvoke message)\<lparr>d_retry := RetryAfterRefresh\<rparr>"

definition inv_precondition_error :: "string \<Rightarrow> diagnostic" where
  "inv_precondition_error message =
     (diagnostic_error PreconditionMissing CatCapability StageInvoke message)\<lparr>d_retry := RetryAfterRefresh\<rparr>"

definition inv_capability_error :: "string \<Rightarrow> diagnostic" where
  "inv_capability_error message = diagnostic_error ResultInvalid CatCapability StageInvoke message"

definition inv_runtime_error :: "string \<Rightarrow> diagnostic" where
  "inv_runtime_error message = diagnostic_error ComponentUnresolved CatRuntime StageRuntime message"

definition inv_first_diagnostic :: "diagnostic list \<Rightarrow> diagnostic" where
  "inv_first_diagnostic diagnostics =
     (case diagnostics of
        [] \<Rightarrow> inv_capability_error ''invocation validation failed without a diagnostic''
      | d # _ \<Rightarrow> d)"

section \<open>A grant against its locked capability\<close>

fun inv_confirmation_not_weaker :: "confirmation_requirement \<Rightarrow> confirmation_requirement \<Rightarrow> bool" where
  "inv_confirmation_not_weaker effective ConfirmationNone = True"
| "inv_confirmation_not_weaker effective locked = (effective = locked)"

fun inv_approval_not_weaker :: "approval_requirement \<Rightarrow> approval_requirement \<Rightarrow> bool" where
  "inv_approval_not_weaker effective ApprovalNone = True"
| "inv_approval_not_weaker effective locked = (effective = locked)"

fun inv_consent_not_weaker :: "consent_requirement \<Rightarrow> consent_requirement \<Rightarrow> bool" where
  "inv_consent_not_weaker effective ConsentNone = True"
| "inv_consent_not_weaker effective locked = (effective = locked)"

definition grant_evidence_at_least_locked :: "effective_grant \<Rightarrow> locked_capability \<Rightarrow> bool" where
  "grant_evidence_at_least_locked grant locked =
     (let required = eg_required_evidence grant; d = lc_descriptor locked in
      inv_confirmation_not_weaker (re_confirmation required) (cd_confirmation d)
      \<and> inv_approval_not_weaker (re_approval required) (cd_approval d)
      \<and> inv_consent_not_weaker (re_consent required) (cd_consent d))"

fun inv_maximum_not_larger :: "u64 option \<Rightarrow> u64 option \<Rightarrow> bool" where
  "inv_maximum_not_larger _ None = True"
| "inv_maximum_not_larger (Some effective) (Some locked) = (effective \<le> locked)"
| "inv_maximum_not_larger None (Some _) = False"

definition inv_freshness_at_least :: "freshness_requirement \<Rightarrow> freshness_requirement \<Rightarrow> bool" where
  "inv_freshness_at_least effective locked =
     (inv_maximum_not_larger (fr_max_admission_age effective) (fr_max_admission_age locked)
      \<and> inv_maximum_not_larger (fr_max_input_age effective) (fr_max_input_age locked)
      \<and> (\<not> fr_policy_revision_required locked \<or> fr_policy_revision_required effective))"

definition validate_grant_against_locked ::
  "effective_grant \<Rightarrow> locked_capability \<Rightarrow> u64 \<Rightarrow> (diagnostic, unit) result" where
  "validate_grant_against_locked grant locked grant_set_expiry =
     (let d = lc_descriptor locked in
      if eg_capability grant \<noteq> lc_identity locked
         \<or> \<not> eg_execution_modes grant \<subseteq> cd_execution_modes d
         \<or> \<not> eg_maximum_effect grant \<le> cd_effect d
         \<or> grant_set_expiry < eg_expires_at grant
         \<or> \<not> grant_evidence_at_least_locked grant locked
         \<or> \<not> inv_freshness_at_least (eg_freshness grant) (cd_freshness d)
         \<or> (\<exists>required \<in> set (filter pd_required (cd_preconditions d)).
              required \<notin> set (eg_preconditions grant))
      then Inl (inv_grant_error ''persisted grant exceeds its exact locked capability'')
      else Inr ())"

section \<open>Persisted admissions\<close>

record invocation_admission =
  ia_grant_set :: grant_set
  ia_locked_capabilities :: "(capability_identity \<times> locked_capability) list"

definition invocation_admission_try_new ::
  "grant_set \<Rightarrow> locked_capability list \<Rightarrow> (diagnostic, invocation_admission) result" where
  "invocation_admission_try_new gs locked_capabilities =
     and_then (btree_index lc_identity
        (inv_capability_error ''persisted admission contains a duplicate locked capability'')
        locked_capabilities) (\<lambda>indexed.
     and_then (try_each (\<lambda>grant.
          and_then (ok_or (inv_capability_error
              ''persisted grant has no exact provider-validated locked capability'')
             (map_of indexed (eg_capability grant))) (\<lambda>locked.
          validate_grant_against_locked grant locked (gs_expires_at gs))) (gs_grants gs)) (\<lambda>_.
     Inr \<lparr>ia_grant_set = gs, ia_locked_capabilities = indexed\<rparr>))"

definition ia_locked_capability ::
  "invocation_admission \<Rightarrow> capability_identity \<Rightarrow> (diagnostic, locked_capability) result" where
  "ia_locked_capability a identity =
     ok_or (inv_capability_error ''invocation capability is absent from the admission'')
       (map_of (ia_locked_capabilities a) identity)"

definition ia_effective_grant ::
  "invocation_admission \<Rightarrow> capability_identity \<Rightarrow> (diagnostic, effective_grant) result" where
  "ia_effective_grant a identity =
     (case filter (\<lambda>g. eg_capability g = identity) (gs_grants (ia_grant_set a)) of
        [] \<Rightarrow> Inl (inv_grant_error ''invocation capability was not granted'')
      | [grant] \<Rightarrow> Inr grant
      | _ \<Rightarrow> Inl (inv_grant_error ''persisted admission contains duplicate exact capability grants''))"

type_synonym admission_key = "string \<times> string"

definition admission_key_of :: "grant_set \<Rightarrow> admission_key" where
  "admission_key_of gs = (gs_admission_id gs, digest_display (gs_grant_digest gs))"

type_synonym admission_store_memory = "(admission_key \<times> invocation_admission) list"

definition memory_admissions_new ::
  "invocation_admission list \<Rightarrow> (diagnostic, admission_store_memory) result" where
  "memory_admissions_new admissions =
     btree_index (\<lambda>a. admission_key_of (ia_grant_set a))
       (inv_capability_error ''invocation admission store contains a duplicate exact admission'')
       admissions"

definition memory_admissions_load ::
  "admission_store_memory \<Rightarrow> string \<Rightarrow> sha256_digest \<Rightarrow> (diagnostic, invocation_admission) result" where
  "memory_admissions_load m admission_id gdigest =
     ok_or (inv_capability_error ''admission ID and canonical grant digest do not match'')
       (map_of m (admission_id, digest_display gdigest))"

text \<open>
  What the invocation service relies on: an admission found under an identifier and a digest is
  the one with that identifier and digest, and each of its grants was checked against the
  capability locked with it.
\<close>

locale admission_store =
  fixes inv :: "'s \<Rightarrow> bool"
    and load :: "'s \<Rightarrow> string \<Rightarrow> sha256_digest \<Rightarrow> (diagnostic, invocation_admission) result"
  assumes load_key: "inv s \<Longrightarrow> load s i d = Inr a \<Longrightarrow>
      gs_admission_id (ia_grant_set a) = i \<and> gs_grant_digest (ia_grant_set a) = d"
    and load_grants: "inv s \<Longrightarrow> load s i d = Inr a \<Longrightarrow> g \<in> set (gs_grants (ia_grant_set a)) \<Longrightarrow>
      \<exists>locked. ia_locked_capability a (eg_capability g) = Inr locked
        \<and> validate_grant_against_locked g locked (gs_expires_at (ia_grant_set a)) = Inr ()"
begin

lemma effective_grant_checked:
  assumes "inv s" "load s i d = Inr a" "ia_locked_capability a c = Inr locked" "ia_effective_grant a c = Inr g"
  shows "g \<in> set (gs_grants (ia_grant_set a))" "eg_capability g = c" "lc_identity locked = c"
    "validate_grant_against_locked g locked (gs_expires_at (ia_grant_set a)) = Inr ()"
proof -
  have "filter (\<lambda>g. eg_capability g = c) (gs_grants (ia_grant_set a)) = [g]"
    using assms(4) by (auto simp: ia_effective_grant_def split: list.splits)
  then have "g \<in> set (filter (\<lambda>g. eg_capability g = c) (gs_grants (ia_grant_set a)))" by simp
  then show g: "g \<in> set (gs_grants (ia_grant_set a))" "eg_capability g = c" by simp_all
  with load_grants [OF assms(1,2) g(1)] assms(3)
  show "validate_grant_against_locked g locked (gs_expires_at (ia_grant_set a)) = Inr ()" by auto
  with g(2) show "lc_identity locked = c"
    by (auto simp: validate_grant_against_locked_def Let_def split: if_splits)
qed

end

lemma invocation_admission_try_new_Inr:
  "invocation_admission_try_new gs ls = Inr a \<longleftrightarrow>
     ia_grant_set a = gs \<and> btree_index lc_identity
       (inv_capability_error ''persisted admission contains a duplicate locked capability'') ls
         = Inr (ia_locked_capabilities a)
     \<and> (\<forall>g \<in> set (gs_grants gs). \<exists>locked. ia_locked_capability a (eg_capability g) = Inr locked
          \<and> validate_grant_against_locked g locked (gs_expires_at gs) = Inr ())"
  by (cases a) (auto simp: invocation_admission_try_new_def ia_locked_capability_def)

definition checked_admission :: "invocation_admission \<Rightarrow> bool" where
  "checked_admission a \<longleftrightarrow> (\<exists>gs ls. invocation_admission_try_new gs ls = Inr a)"

definition memory_admissions_inv :: "admission_store_memory \<Rightarrow> bool" where
  "memory_admissions_inv m \<longleftrightarrow>
     (\<exists>as. list_all checked_admission as \<and> memory_admissions_new as = Inr m)"

interpretation mem_adm: admission_store memory_admissions_inv memory_admissions_load
proof
  fix m i d a
  assume inv: "memory_admissions_inv m" and load: "memory_admissions_load m i d = Inr a"
  then obtain as where as: "list_all checked_admission as" "memory_admissions_new as = Inr m"
      "map_of m (i, digest_display d) = Some a"
    by (auto simp: memory_admissions_inv_def memory_admissions_load_def)
  then have a: "a \<in> set as" "admission_key_of (ia_grant_set a) = (i, digest_display d)"
    by (auto simp: memory_admissions_new_def btree_index_lookup)
  then show "gs_admission_id (ia_grant_set a) = i \<and> gs_grant_digest (ia_grant_set a) = d"
    by (simp add: admission_key_of_def digest_display_inject)
  have "checked_admission a" using as(1) a(1) by (simp add: list_all_iff)
  then show "\<exists>locked. ia_locked_capability a (eg_capability g) = Inr locked
        \<and> validate_grant_against_locked g locked (gs_expires_at (ia_grant_set a)) = Inr ()"
    if "g \<in> set (gs_grants (ia_grant_set a))" for g
    using that by (auto simp: checked_admission_def invocation_admission_try_new_Inr)
qed

section \<open>The locked descriptor's digests\<close>

definition descriptor_part_digest ::
  "externals \<Rightarrow> string \<Rightarrow> json \<Rightarrow> (diagnostic, sha256_digest) result" where
  "descriptor_part_digest X domain part =
     map_ok (\<lambda>canonical. x_sha256 X (''kiteframe.dev/capability-descriptor/'' @ domain @ nul @ canonical))
       (ok_or (inv_capability_error ''locked descriptor semantics cannot be canonicalized'')
         (x_canonical X part))"

definition safety_fields :: "string list" where
  "safety_fields =
     [''executionModes'', ''resourceSelectorSchema'', ''effect'', ''idempotency'', ''freshness'',
      ''preconditions'', ''confirmation'', ''approval'', ''consent'']"

definition descriptor_field :: "json \<Rightarrow> string \<Rightarrow> (diagnostic, json) result" where
  "descriptor_field wire name =
     ok_or (inv_capability_error ''locked descriptor omits required semantics'') (json_get name wire)"

definition validate_locked_semantics :: "externals \<Rightarrow> locked_capability \<Rightarrow> (diagnostic, unit) result" where
  "validate_locked_semantics X locked =
     (let wire = descriptor_json (lc_descriptor locked); field = descriptor_field wire in
      and_then (ensure (case wire of JObj _ \<Rightarrow> True | _ \<Rightarrow> False)
         (inv_capability_error ''locked descriptor is not an object'')) (\<lambda>_.
      and_then (try_map (\<lambda>name. map_ok (\<lambda>v. (name, v)) (field name)) safety_fields) (\<lambda>safety.
      and_then (and_then (field ''inputSchema'') (descriptor_part_digest X ''input-schema'')) (\<lambda>input.
      and_then (and_then (field ''outputSchema'') (descriptor_part_digest X ''output-schema'')) (\<lambda>output.
      and_then (and_then (field ''stableErrors'') (descriptor_part_digest X ''stable-errors'')) (\<lambda>errors.
      and_then (descriptor_part_digest X ''safety-metadata'' (JObj safety)) (\<lambda>meta.
      if [input, output, errors, meta]
           \<noteq> [lc_input_schema_digest locked, lc_output_schema_digest locked,
              lc_stable_error_set_digest locked, lc_safety_metadata_digest locked]
      then Inl (inv_capability_error
             ''locked capability semantic digests do not match its embedded descriptor'')
      else Inr ())))))))"

section \<open>Evidence\<close>

record verified_evidence =
  vd_reference :: string
  vd_evidence_kind :: evidence_kind
  vd_requirement_kind :: string
  vd_principal_ref :: string
  vd_issuer :: "string option"
  vd_capability :: capability_identity
  vd_selected_resource :: string
  vd_issued_at :: u64
  vd_expires_at :: u64
  vd_proposal_digest :: sha256_digest

definition verified_evidence_try_new :: "verified_evidence \<Rightarrow> (string, verified_evidence) result" where
  "verified_evidence_try_new e =
     (if is_blank (vd_requirement_kind e) \<or> is_blank (vd_principal_ref e)
      then Inl ''verified evidence kind and principal are required''
      else if (case vd_issuer e of None \<Rightarrow> False | Some issuer \<Rightarrow> is_blank issuer)
      then Inl ''verified evidence issuer must not be empty''
      else if vd_expires_at e \<le> vd_issued_at e
      then Inl ''verified evidence expiry must be after issue time''
      else Inr e)"

definition protected_evidence_reference :: "string \<Rightarrow> bool" where
  "protected_evidence_reference reference =
     (case split_once_str ''://'' reference of
        None \<Rightarrow> False
      | Some (scheme, opaque) \<Rightarrow>
          scheme \<in> {''evidence'', ''vault''} \<and> opaque \<noteq> []
          \<and> \<not> list_ex (\<lambda>c. char_in 0 32 c \<or> char_in 127 127 c) opaque)"

definition evidence_request_ref_new :: "string \<Rightarrow> (string, string) result" where
  "evidence_request_ref_new = string_ref_new ''protected evidence request reference is required''"

definition validate_verified_evidence ::
  "verified_evidence \<Rightarrow> string \<Rightarrow> evidence_kind \<Rightarrow> evidence_requirement \<Rightarrow> auth_context \<Rightarrow>
     capability_identity \<Rightarrow> string \<Rightarrow> sha256_digest \<Rightarrow> u64 \<Rightarrow> (diagnostic, unit) result" where
  "validate_verified_evidence e reference kind requirement principals capability selected proposal now =
     (let subject_matches =
        (case kind of
           EvApproval \<Rightarrow> \<not> is_blank (vd_principal_ref e)
         | _ \<Rightarrow> vd_principal_ref e = ac_human_ref principals) in
      if vd_reference e \<noteq> reference \<or> vd_evidence_kind e \<noteq> kind
         \<or> vd_requirement_kind e \<noteq> er_kind requirement \<or> vd_issuer e \<noteq> er_issuer requirement
         \<or> \<not> subject_matches \<or> vd_capability e \<noteq> capability
         \<or> vd_selected_resource e \<noteq> selected
         \<or> now < vd_issued_at e \<or> vd_expires_at e \<le> now \<or> vd_proposal_digest e \<noteq> proposal
      then Inl (inv_evidence_error ''verified evidence does not match the invocation proposal'')
      else Inr ())"

datatype evidence_status = EvidenceComplete "verified_evidence list" | EvidenceMissing evidence_kind

text \<open>
  The evidence provider is deployment code. It is asked at most once for each of the three
  kinds, in their order, so a function of the kind and the reference is the most general one.
\<close>

type_synonym evidence_provider = "evidence_kind \<Rightarrow> string \<Rightarrow> (diagnostic, verified_evidence) result"

fun collect_evidence ::
  "evidence_provider \<Rightarrow> invocation_request \<Rightarrow> auth_context \<Rightarrow> effect_proposal \<Rightarrow> u64 \<Rightarrow>
     verified_evidence list \<Rightarrow> (evidence_kind \<times> evidence_requirement option) list \<Rightarrow>
     (diagnostic, evidence_status) result" where
  "collect_evidence ev q principals proposal now verified [] = Inr (EvidenceComplete verified)"
| "collect_evidence ev q principals proposal now verified ((kind, None) # rest) =
     collect_evidence ev q principals proposal now verified rest"
| "collect_evidence ev q principals proposal now verified ((kind, Some requirement) # rest) =
     (case map_of (iq_evidence_refs q) (er_kind requirement) of
        None \<Rightarrow> Inr (EvidenceMissing kind)
      | Some supplied \<Rightarrow>
          if \<not> protected_evidence_reference supplied
          then Inl (inv_evidence_error ''evidence must use a protected opaque reference'')
          else
            and_then (map_err inv_evidence_error (evidence_request_ref_new supplied)) (\<lambda>reference.
            and_then (ev kind reference) (\<lambda>evidence.
            and_then (validate_verified_evidence evidence reference kind requirement principals
                (iq_capability q) (iq_selected_resource q) (ep_proposal_digest proposal) now) (\<lambda>_.
            collect_evidence ev q principals proposal now (verified @ [evidence]) rest))))"

definition required_evidence_list ::
  "required_evidence \<Rightarrow> (evidence_kind \<times> evidence_requirement option) list" where
  "required_evidence_list required =
     [(EvConfirmation, confirmation_evidence (re_confirmation required)),
      (EvApproval, approval_evidence (re_approval required)),
      (EvConsent, consent_evidence (re_consent required))]"

definition validate_evidence ::
  "evidence_provider \<Rightarrow> invocation_request \<Rightarrow> effective_grant \<Rightarrow> auth_context \<Rightarrow> effect_proposal \<Rightarrow>
     u64 \<Rightarrow> (diagnostic, evidence_status) result" where
  "validate_evidence ev q grant principals proposal now =
     collect_evidence ev q principals proposal now []
       (required_evidence_list (eg_required_evidence grant))"

section \<open>Freshness, resource and preconditions\<close>

definition validate_freshness ::
  "grant_set \<Rightarrow> effective_grant \<Rightarrow> freshness_requirement \<Rightarrow> authority_revision_set \<Rightarrow> u64 \<Rightarrow>
     (diagnostic, unit) result" where
  "validate_freshness gs grant descriptor current now =
     (let effective = eg_freshness grant in
      if current \<noteq> gs_authority_revisions gs
      then Inl (inv_policy_error ''current authority revisions differ from the admitted revision set'')
      else if fr_policy_revision_required descriptor \<and> \<not> fr_policy_revision_required effective
      then Inl (inv_policy_error ''effective grant cannot prove required policy freshness'')
      else and_then
        (case fr_max_admission_age effective of
           None \<Rightarrow> Inr ()
         | Some max_age \<Rightarrow>
             and_then (ok_or (inv_policy_error ''admission issue time is in the future'')
               (checked_sub now (gs_issued_at gs))) (\<lambda>age.
             ensure (age \<le> max_age) (inv_policy_error ''admission freshness window has expired''))) (\<lambda>_.
        ensure (fr_max_input_age effective = None)
          (inv_policy_error ''invocation request cannot prove required input freshness'')))"

definition inv_validate_resource ::
  "externals \<Rightarrow> effective_grant \<Rightarrow> capability_descriptor \<Rightarrow> string \<Rightarrow> (diagnostic, unit) result" where
  "inv_validate_resource X grant d selected =
     (if \<not> is_ok (validate_concrete_resource_selector selected)
         \<or> \<not> (\<exists>allowed \<in> set (eg_resources grant). resource_selector_is_subset selected allowed)
      then Inl (inv_authorization_error
             ''selected resource is not concrete and within the effective grant'')
      else if \<not> x_schema_builds X (cd_resource_selector_schema d)
      then Inl (inv_capability_error ''locked resource selector schema is invalid'')
      else ensure (x_instance_valid X (cd_resource_selector_schema d) (JStr selected))
        (inv_authorization_error ''selected resource does not match the locked selector schema''))"

definition validate_required_preconditions ::
  "effective_grant \<Rightarrow> capability_descriptor \<Rightarrow> precondition list \<Rightarrow> (diagnostic, unit) result" where
  "validate_required_preconditions grant d supplied =
     ensure (list_all (\<lambda>required. \<exists>candidate \<in> set supplied. pc_name candidate = pd_name required)
               (filter pd_required (eg_preconditions grant @ cd_preconditions d)))
       (inv_precondition_error ''required capability precondition is missing'')"

section \<open>The final check before dispatch\<close>

definition validate_narrowed_conditions ::
  "invocation_context \<Rightarrow> narrowed_conditions \<Rightarrow> precondition list \<Rightarrow> u64 \<Rightarrow> (diagnostic, unit) result" where
  "validate_narrowed_conditions context conditions supplied now =
     (if ac_expires_at (ic_principals context) \<le> now
         \<or> eg_expires_at (ic_effective_grant context) \<le> now
         \<or> nc_expires_at conditions \<le> now
         \<or> \<not> condition_allows_resource conditions (ic_selected_resource context)
      then Inl (inv_authorization_error
             ''current authorization does not match persisted invocation state'')
      else if \<exists>required \<in> set (nc_required_preconditions conditions).
           \<not> (\<exists>supported \<in> set (cd_preconditions (lc_descriptor (ic_locked_capability context))
                 @ eg_preconditions (ic_effective_grant context)).
               pd_name supported = pd_name required \<and> pd_kind supported = pd_kind required)
      then Inl (inv_authorization_error
             ''authorization decision introduced an unknown precondition'')
      else ensure (list_all (\<lambda>required. \<exists>candidate \<in> set supplied. pc_name candidate = pd_name required)
               (filter pd_required (nc_required_preconditions conditions)))
        (inv_precondition_error ''authorization-required precondition is missing''))"

definition validate_authorization ::
  "invocation_context \<Rightarrow> authorization_decision \<Rightarrow> authority_revision_set \<Rightarrow> precondition list \<Rightarrow>
     u64 \<Rightarrow> (diagnostic, unit) result" where
  "validate_authorization context decision current supplied now =
     (case decision of
        DecisionAllow _ revisions decided_at conditions \<Rightarrow>
          if revisions \<noteq> current
          then Inl (inv_policy_error ''authorization decision used stale authority revisions'')
          else if now < decided_at
          then Inl (inv_authorization_error ''authorization decision time is in the future'')
          else validate_narrowed_conditions context conditions supplied now
      | _ \<Rightarrow> Inl (inv_authorization_error ''current point-of-use authorization denied''))"

definition validate_final_point_of_use ::
  "grant_set \<Rightarrow> invocation_context \<Rightarrow> authorization_decision \<Rightarrow> authority_revision_set \<Rightarrow>
     precondition list \<Rightarrow> verified_evidence list \<Rightarrow> u64 \<Rightarrow> (diagnostic, unit) result" where
  "validate_final_point_of_use gs context decision current supplied evidence now =
     (if gs_expires_at gs \<le> now \<or> eg_expires_at (ic_effective_grant context) \<le> now
      then Inl (inv_grant_error ''capability grant or admission expired before dispatch'')
      else if \<exists>e \<in> set evidence. now < vd_issued_at e \<or> vd_expires_at e \<le> now
      then Inl (inv_evidence_error ''verified evidence expired before dispatch'')
      else validate_authorization context decision current supplied now)"

section \<open>What the durable records are made of\<close>

definition effect_retention_deadline :: "capability_descriptor \<Rightarrow> u64 \<Rightarrow> (diagnostic, u64) result" where
  "effect_retention_deadline d now =
     (case cd_idempotency d of
        IdempotencyRequired _ retention_seconds \<Rightarrow>
          ok_or (inv_capability_error ''effect retention deadline overflows'')
            (checked_add now retention_seconds)
      | _ \<Rightarrow> Inl (inv_capability_error ''effect descriptor has no durable idempotency contract''))"

definition audit_evidence_step ::
  "(string \<times> string) list \<Rightarrow> (string \<times> json) list \<Rightarrow> verified_evidence \<Rightarrow>
     (diagnostic, (string \<times> json) list) result" where
  "audit_evidence_step supplied filtered e =
     (if \<not> protected_evidence_reference (vd_reference e)
         \<or> map_of supplied (vd_requirement_kind e) \<noteq> Some (vd_reference e)
         \<or> map_of filtered (vd_requirement_kind e) \<noteq> None
      then Inl (inv_evidence_error
             ''invocation evidence references do not exact-match verified requirements'')
      else Inr (btree_insert (vd_requirement_kind e) (JStr (vd_reference e)) filtered))"

definition validated_audit_evidence_refs ::
  "invocation_request \<Rightarrow> verified_evidence list \<Rightarrow> (diagnostic, (string \<times> string) list) result" where
  "validated_audit_evidence_refs q evidence =
     (if length (iq_evidence_refs q) \<noteq> length evidence
      then Inl (inv_evidence_error ''invocation contains unexpected or unverified evidence references'')
      else and_then (try_fold (audit_evidence_step (iq_evidence_refs q)) evidence []) (\<lambda>filtered.
        map_err inv_evidence_error (evidence_references_try_new filtered)))"

definition trace_ids :: "invocation_request \<Rightarrow> (diagnostic, string \<times> string) result" where
  "trace_ids q =
     (let parts = drop 1 (split_on CHR ''-'' (tc_traceparent (iq_trace_context q))) in
      and_then (ok_or (audit_unavailable ''validated invocation trace context omitted its trace ID'')
        (case parts of trace # _ \<Rightarrow> Some trace | _ \<Rightarrow> None)) (\<lambda>trace.
      and_then (ok_or (audit_unavailable ''validated invocation trace context omitted its span ID'')
        (case parts of _ # span # _ \<Rightarrow> Some span | _ \<Rightarrow> None)) (\<lambda>span.
      and_then (map_err audit_unavailable (trace_id_new trace)) (\<lambda>trace_id.
      map_ok (\<lambda>span_id. (trace_id, span_id)) (map_err audit_unavailable (span_id_new span))))))"

definition canonical_audit_digest ::
  "externals \<Rightarrow> string \<Rightarrow> json \<Rightarrow> (diagnostic, sha256_digest) result" where
  "canonical_audit_digest X domain v =
     map_ok (\<lambda>canonical. x_sha256 X (domain @ canonical))
       (ok_or (audit_unavailable ''audit correlation value cannot be canonicalized'') (x_canonical X v))"

definition validate_checkpoint_reference :: "string \<Rightarrow> sha256_digest \<Rightarrow> (diagnostic, unit) result" where
  "validate_checkpoint_reference reference proposal =
     (let namespace = ''checkpoint://'' @ digest_display proposal @ ''/'' in
      if \<not> prefix namespace reference
      then Inl (inv_authorization_error ''checkpoint reference is not namespaced by its proposal'')
      else
        let entropy = drop (length namespace) reference in
        if length entropy \<noteq> 64 \<or> \<not> list_all is_hex_lower entropy
        then Inl (inv_authorization_error
               ''checkpoint reference lacks 256-bit lowercase hexadecimal entropy'')
        else Inr ())"

section \<open>Facts\<close>

lemma parts_of_traceparent:
  assumes "valid_traceparent tp"
  obtains trace span flags where "split_on CHR ''-'' tp = [''00'', trace, span, flags]"
    "length trace = 32" "length span = 16" "list_all is_hex_lower trace" "list_all is_hex_lower span"
    "\<not> list_all (\<lambda>c. c = CHR ''0'') trace" "\<not> list_all (\<lambda>c. c = CHR ''0'') span"
proof -
  from assms obtain trace span flags where parts:
    "split_on CHR ''-'' tp = [''00'', trace, span, flags]" "length trace = 32" "length span = 16"
    "list_all is_hex_lower trace" "list_all is_hex_lower span"
    "list_ex (\<lambda>c. c \<noteq> CHR ''0'') trace" "list_ex (\<lambda>c. c \<noteq> CHR ''0'') span"
    by (auto simp: valid_traceparent_def split: list.splits)
  then have "\<not> list_all (\<lambda>c. c = CHR ''0'') trace" "\<not> list_all (\<lambda>c. c = CHR ''0'') span"
    by (auto simp: list_all_iff list_ex_iff)
  with parts show thesis by (intro that)
qed

definition demanded :: "effective_grant \<Rightarrow> (evidence_kind \<times> evidence_requirement) list" where
  "demanded grant =
     List.map_filter (\<lambda>(kind, r). map_option (Pair kind) r)
       (required_evidence_list (eg_required_evidence grant))"

definition evidence_supplied ::
  "evidence_provider \<Rightarrow> invocation_request \<Rightarrow> auth_context \<Rightarrow> effect_proposal \<Rightarrow> u64 \<Rightarrow>
     evidence_kind \<times> evidence_requirement \<Rightarrow> verified_evidence \<Rightarrow> bool" where
  "evidence_supplied ev q principals proposal now d e =
     (map_of (iq_evidence_refs q) (er_kind (snd d)) = Some (vd_reference e)
      \<and> protected_evidence_reference (vd_reference e)
      \<and> ev (fst d) (vd_reference e) = Inr e
      \<and> validate_verified_evidence e (vd_reference e) (fst d) (snd d) principals (iq_capability q)
           (iq_selected_resource q) (ep_proposal_digest proposal) now = Inr ())"

lemma validate_verified_evidence_Inr [result_simps]:
  "validate_verified_evidence e reference kind requirement principals capability selected proposal now = Inr u
   \<longleftrightarrow> vd_reference e = reference \<and> vd_evidence_kind e = kind
     \<and> vd_requirement_kind e = er_kind requirement \<and> vd_issuer e = er_issuer requirement
     \<and> (if kind = EvApproval then \<not> is_blank (vd_principal_ref e)
         else vd_principal_ref e = ac_human_ref principals)
     \<and> vd_capability e = capability \<and> vd_selected_resource e = selected
     \<and> vd_issued_at e \<le> now \<and> now < vd_expires_at e \<and> vd_proposal_digest e = proposal"
  by (cases kind) (auto simp: validate_verified_evidence_def not_le not_less)

lemma collect_evidence_complete:
  "collect_evidence ev q principals proposal now verified reqs = Inr (EvidenceComplete es) \<Longrightarrow>
   \<exists>new. es = verified @ new
     \<and> list_all2 (evidence_supplied ev q principals proposal now)
          (List.map_filter (\<lambda>(kind, r). map_option (Pair kind) r) reqs) new"
proof (induction ev q principals proposal now verified reqs rule: collect_evidence.induct)
  case (3 ev q principals proposal now verified kind requirement rest)
  then obtain e where e: "map_of (iq_evidence_refs q) (er_kind requirement) = Some (vd_reference e)"
      "protected_evidence_reference (vd_reference e)" "ev kind (vd_reference e) = Inr e"
      "validate_verified_evidence e (vd_reference e) kind requirement principals (iq_capability q)
         (iq_selected_resource q) (ep_proposal_digest proposal) now = Inr ()"
    and rest: "collect_evidence ev q principals proposal now (verified @ [e]) rest = Inr (EvidenceComplete es)"
    by (auto simp: evidence_request_ref_new_def validate_verified_evidence_Inr
        split: option.splits if_splits)
  have "\<exists>new. es = (verified @ [e]) @ new
     \<and> list_all2 (evidence_supplied ev q principals proposal now)
          (List.map_filter (\<lambda>(kind, r). map_option (Pair kind) r) rest) new"
    using 3 e rest
    by (auto simp: evidence_request_ref_new_def split: option.splits if_splits)
  then obtain new where "es = verified @ e # new"
      "list_all2 (evidence_supplied ev q principals proposal now)
          (List.map_filter (\<lambda>(kind, r). map_option (Pair kind) r) rest) new" by auto
  moreover have "evidence_supplied ev q principals proposal now (kind, requirement) e"
    using e by (simp add: evidence_supplied_def)
  ultimately show ?case by (intro exI [of _ "e # new"]) (simp add: map_filter_simps)
qed (auto simp: map_filter_simps)

lemma validate_evidence_complete:
  "validate_evidence ev q grant principals proposal now = Inr (EvidenceComplete es) \<Longrightarrow>
   list_all2 (evidence_supplied ev q principals proposal now) (demanded grant) es"
  using collect_evidence_complete [of ev q principals proposal now "[]"]
  by (fastforce simp: validate_evidence_def demanded_def)

lemma demanded_kinds:
  assumes "validate_evidence ev q grant principals proposal now = Inr (EvidenceComplete es)"
  shows "map (\<lambda>d. er_kind (snd d)) (demanded grant) = map vd_requirement_kind es"
    "\<forall>e \<in> set es. map_of (iq_evidence_refs q) (vd_requirement_kind e) = Some (vd_reference e)
       \<and> protected_evidence_reference (vd_reference e)"
  using validate_evidence_complete [OF assms]
  by (induction rule: list_all2_induct)
     (auto simp: evidence_supplied_def validate_verified_evidence_Inr)

lemma audit_evidence_step_Inr:
  assumes "map_of refs (vd_requirement_kind e) = Some (vd_reference e)"
    "protected_evidence_reference (vd_reference e)"
  shows "audit_evidence_step refs m e = Inr m' \<longleftrightarrow>
    map_of m (vd_requirement_kind e) = None
    \<and> m' = btree_insert (vd_requirement_kind e) (JStr (vd_reference e)) m"
  using assms by (auto simp: audit_evidence_step_def)

lemma audit_evidence_fold:
  assumes "\<forall>e \<in> set es. map_of refs (vd_requirement_kind e) = Some (vd_reference e)
      \<and> protected_evidence_reference (vd_reference e)" and "btree_ok a"
  shows "(is_ok (try_fold (audit_evidence_step refs) es a) \<longleftrightarrow>
      distinct (map vd_requirement_kind es) \<and> (\<forall>e \<in> set es. map_of a (vd_requirement_kind e) = None))
    \<and> (\<forall>m. try_fold (audit_evidence_step refs) es a = Inr m \<longrightarrow>
      btree_ok m \<and> set m = set a \<union> (\<lambda>e. (vd_requirement_kind e, JStr (vd_reference e))) ` set es)"
  using assms
proof (induction es arbitrary: a)
  case (Cons e es)
  let ?a = "btree_insert (vd_requirement_kind e) (JStr (vd_reference e)) a"
  have ok: "btree_ok ?a" using Cons.prems by (simp add: btree_ok_insert)
  have step: "audit_evidence_step refs a e = Inr a' \<longleftrightarrow> map_of a (vd_requirement_kind e) = None \<and> a' = ?a" for a'
    using Cons.prems by (intro audit_evidence_step_Inr) auto
  have ih: "is_ok (try_fold (audit_evidence_step refs) es ?a) \<longleftrightarrow>
        distinct (map vd_requirement_kind es) \<and> (\<forall>x \<in> set es. map_of ?a (vd_requirement_kind x) = None)"
      "try_fold (audit_evidence_step refs) es ?a = Inr m \<Longrightarrow>
        btree_ok m \<and> set m = set ?a \<union> (\<lambda>e. (vd_requirement_kind e, JStr (vd_reference e))) ` set es" for m
    using Cons.IH [OF _ ok] Cons.prems(1) by simp_all
  have "is_ok (try_fold (audit_evidence_step refs) (e # es) a) \<longleftrightarrow>
      map_of a (vd_requirement_kind e) = None \<and> is_ok (try_fold (audit_evidence_step refs) es ?a)"
    by (auto simp: is_ok_and_then step)
  moreover have "(\<forall>x \<in> set es. map_of ?a (vd_requirement_kind x) = None) \<longleftrightarrow>
      vd_requirement_kind e \<notin> vd_requirement_kind ` set es
      \<and> (\<forall>x \<in> set es. map_of a (vd_requirement_kind x) = None)"
    using Cons.prems(2) by (auto simp: map_of_btree_insert image_iff)
  ultimately have "is_ok (try_fold (audit_evidence_step refs) (e # es) a) \<longleftrightarrow>
      distinct (map vd_requirement_kind (e # es))
      \<and> (\<forall>x \<in> set (e # es). map_of a (vd_requirement_kind x) = None)"
    using ih(1) by auto
  moreover have "btree_ok m \<and> set m = set a \<union> (\<lambda>e. (vd_requirement_kind e, JStr (vd_reference e))) ` set (e # es)"
    if "try_fold (audit_evidence_step refs) (e # es) a = Inr m" for m
  proof -
    from that have "map_of a (vd_requirement_kind e) = None" "try_fold (audit_evidence_step refs) es ?a = Inr m"
      by (auto simp: step)
    with ih(2) set_btree_insert_new [OF Cons.prems(2)] show ?thesis by auto
  qed
  ultimately show ?case by blast
qed simp

lemma evidence_reference_check_nonblank:
  "evidence_reference_check e = Inr x \<Longrightarrow> \<not> is_blank (fst x) \<and> \<not> is_blank (snd x)"
  by (cases "snd e") (auto simp: evidence_reference_check_def split: if_split_asm)

lemma evidence_references_again:
  assumes "evidence_references_try_new raw = Inr refs"
  shows "evidence_references_try_new (map (\<lambda>(k, r). (k, JStr r)) refs) = Inr refs"
proof -
  have "\<not> is_blank (fst x) \<and> \<not> is_blank (snd x)" if "x \<in> set refs" for x
  proof -
    from that try_map_elements(2) [OF assms [unfolded evidence_references_try_new_def]]
    obtain e where "evidence_reference_check e = Inr x" by (meson bspec)
    then show ?thesis by (rule evidence_reference_check_nonblank)
  qed
  then have "\<forall>x \<in> set refs. \<not> is_blank (fst x) \<and> \<not> is_blank (snd x)" by blast
  then have "try_map evidence_reference_check (map (\<lambda>(k, r). (k, JStr r)) refs) = Inr refs"
    by (induction refs) (auto simp: evidence_reference_check_def)
  then show ?thesis by (simp add: evidence_references_try_new_def)
qed

text \<open>
  The evidence references an effect writes to its authorization record are exactly those
  of the request: once every demanded evidence has been verified, the references are accepted
  if and only if the demanded requirements have different kinds and the request supplies
  references for those kinds and no other, and what is recorded then is the request's own map.
  In particular a grant that demands two evidences of the same kind can never be executed.
\<close>

lemma audited_evidence_is_the_request:
  assumes "evidence_references_try_new raw = Inr (iq_evidence_refs q)" "btree_ok (iq_evidence_refs q)"
    and "validate_evidence ev q grant principals proposal now = Inr (EvidenceComplete es)"
  shows "(is_ok (validated_audit_evidence_refs q es) \<longleftrightarrow>
       distinct (map (\<lambda>d. er_kind (snd d)) (demanded grant))
       \<and> fst ` set (iq_evidence_refs q) = (\<lambda>d. er_kind (snd d)) ` set (demanded grant))
     \<and> (\<forall>refs. validated_audit_evidence_refs q es = Inr refs \<longrightarrow> refs = iq_evidence_refs q)"
proof -
  let ?refs = "iq_evidence_refs q" and ?kinds = "map vd_requirement_kind es"
  note facts = demanded_kinds [OF assms(3)]
  have kinds: "(\<lambda>d. er_kind (snd d)) ` set (demanded grant) = set ?kinds"
    using facts(1) by (metis set_map)
  have keys: "set ?kinds \<subseteq> fst ` set ?refs" using facts(2) by (force dest: map_of_SomeD)
  have size: "length ?refs = card (fst ` set ?refs)"
    using btree_ok_distinct [OF assms(2)] by (metis distinct_card length_map set_map)
  have same: "length ?refs = length es \<longleftrightarrow> fst ` set ?refs = set ?kinds" if "distinct ?kinds"
  proof
    have "card (set ?kinds) = length es" using distinct_card [OF that] by simp
    then show "fst ` set ?refs = set ?kinds" if "length ?refs = length es"
      using card_subset_eq [OF _ keys] size that by simp
    show "length ?refs = length es" if "fst ` set ?refs = set ?kinds"
      using size that \<open>card (set ?kinds) = length es\<close> by simp
  qed
  have fold: "is_ok (try_fold (audit_evidence_step ?refs) es []) \<longleftrightarrow> distinct ?kinds"
      "try_fold (audit_evidence_step ?refs) es [] = Inr m \<Longrightarrow>
        btree_ok m \<and> set m = (\<lambda>e. (vd_requirement_kind e, JStr (vd_reference e))) ` set es" for m
    using audit_evidence_fold [OF facts(2), of "[]"] by simp_all
  have result: "m = map (\<lambda>(k, r). (k, JStr r)) ?refs"
    if m: "try_fold (audit_evidence_step ?refs) es [] = Inr m" and same_keys: "fst ` set ?refs = set ?kinds" for m
  proof (rule btree_ext)
    have m_set: "btree_ok m" "set m = (\<lambda>e. (vd_requirement_kind e, JStr (vd_reference e))) ` set es"
      using fold(2) [OF m] by auto
    then show "btree_ok m" by simp
    show "btree_ok (map (\<lambda>(k, r). (k, JStr r)) ?refs)"
      using assms(2) by (simp add: btree_ok_def comp_def split_def)
    have "(k, r) \<in> set ?refs \<longleftrightarrow> (\<exists>e \<in> set es. vd_requirement_kind e = k \<and> vd_reference e = r)" for k r
    proof
      assume kr: "(k, r) \<in> set ?refs"
      then obtain e where "e \<in> set es" "vd_requirement_kind e = k" using same_keys by force
      moreover have "map_of ?refs k = Some r" using kr assms(2) by (simp add: map_of_btree)
      ultimately show "\<exists>e \<in> set es. vd_requirement_kind e = k \<and> vd_reference e = r"
        using facts(2) by fastforce
    qed (use facts(2) map_of_SomeD in fastforce)
    then show "set m = set (map (\<lambda>(k, r). (k, JStr r)) ?refs)"
      unfolding m_set(2) by (force simp: image_iff)
  qed
  have accepted: "validated_audit_evidence_refs q es = Inr refs \<Longrightarrow>
      distinct ?kinds \<and> fst ` set ?refs = set ?kinds \<and> refs = ?refs" for refs
    using fold(1) result same evidence_references_again [OF assms(1)]
    by (auto simp: validated_audit_evidence_refs_def is_ok_iff split: if_splits)
  moreover have "is_ok (validated_audit_evidence_refs q es)" if "distinct ?kinds" "fst ` set ?refs = set ?kinds"
    using fold(1) result same evidence_references_again [OF assms(1)] that
    by (auto simp: validated_audit_evidence_refs_def is_ok_iff is_ok_and_then)
  ultimately show ?thesis unfolding kinds facts(1) is_ok_iff by blast
qed

text \<open>
  A request whose trace context was constructed always yields audit identifiers: 32 and 16
  lowercase hexadecimal characters that are not all zero, the second and third field of its
  traceparent. The audit step of an effect never fails on them.
\<close>

lemma constructed_trace_yields_ids:
  assumes "trace_context_try_new tp ts baggage = Inr (iq_trace_context q)"
  shows "\<exists>trace span. trace_ids q = Inr (trace, span)
     \<and> (\<exists>flags. split_on CHR ''-'' tp = [''00'', trace, span, flags])
     \<and> trace_id_new trace = Inr trace \<and> span_id_new span = Inr span"
proof -
  have "valid_traceparent tp" "tc_traceparent (iq_trace_context q) = tp"
    using assms by (auto simp: trace_context_try_new_def split: if_splits)
  then show ?thesis
    by (elim parts_of_traceparent)
       (simp add: trace_ids_def trace_id_new_def span_id_new_def correlation_id_new_def)
qed

text \<open>
  The retention deadline of an effect is never in the past and never wraps: it exists exactly
  for a capability with an idempotency contract whose retention, added to the clock, stays
  within 64 bits, and is then that sum.
\<close>

lemma retention_deadline_bounds:
  "effect_retention_deadline d now = Inr deadline \<longleftrightarrow>
     (\<exists>scope retention. cd_idempotency d = IdempotencyRequired scope retention
        \<and> unat deadline = unat now + unat retention)"
  by (auto simp: effect_retention_deadline_def checked_add_Some_iff split: idempotency_requirement.splits)

section \<open>Witnesses\<close>

definition sample_evidence :: verified_evidence where
  "sample_evidence = \<lparr>vd_reference = ''vault://a'', vd_evidence_kind = EvApproval,
     vd_requirement_kind = ''manager'', vd_principal_ref = ''boss'', vd_issuer = None,
     vd_capability = sample_identity, vd_selected_resource = ''doc:7'', vd_issued_at = 90,
     vd_expires_at = 500, vd_proposal_digest = sample_digest\<rparr>"

definition sample_effect_request :: invocation_request where
  "sample_effect_request = sample_invocation\<lparr>iq_evidence_refs := [(''manager'', ''vault://a'')]\<rparr>"

definition sample_evidence_provider :: evidence_provider where
  "sample_evidence_provider kind reference = Inr sample_evidence"

lemma sample_nonblank: "\<not> is_blank ''manager''" "\<not> is_blank ''vault://a''" "\<not> is_blank ''boss''"
  by code_simp+

lemma sample_evidence_protected: "protected_evidence_reference ''vault://a''"
  by code_simp

lemma sample_evidence_verified:
  "validate_evidence sample_evidence_provider sample_effect_request sample_grant sample_auth_context
     sample_proposal 100 = Inr (EvidenceComplete [sample_evidence])"
  by (simp add: validate_evidence_def required_evidence_list_def sample_grant_def sample_effect_request_def
      sample_evidence_provider_def sample_evidence_protected evidence_request_ref_new_def
      sample_nonblank validate_verified_evidence_Inr sample_evidence_def sample_invocation_def
      sample_proposal_def proposal_of_request_def)

end
