(* ===== verification/KF_Admission.thy ===== *)
theory KF_Admission
  imports KF_Catalog KF_Checks
begin

text \<open>
  The admission service, \<open>crates/kiteframe-provider/src/admission.rs\<close>: the deployment-bound
  service with its sources of authority, the admission of a request against them and against the
  policy engine, and the admissions it persists. The service is a record that never changes;
  the persisted admissions are a map passed through explicitly. The engine is asked for its
  revisions once and for each requested capability and resource once.
\<close>

section \<open>Authority sources\<close>

datatype authority_domain =
  DomPackage | DomDeployment | DomHuman | DomWorkload | DomTask | DomSession

definition all_domains :: "authority_domain list" where
  "all_domains = [DomPackage, DomDeployment, DomHuman, DomWorkload, DomTask, DomSession]"

lemma domain_enumerated [simp]: "d \<in> set all_domains"
  by (cases d) (simp_all add: all_domains_def)

instantiation authority_domain :: linorder
begin
definition less_eq_authority_domain :: "authority_domain \<Rightarrow> authority_domain \<Rightarrow> bool" where
  "less_eq_authority_domain a b = (index_of all_domains a \<le> index_of all_domains b)"
definition less_authority_domain :: "authority_domain \<Rightarrow> authority_domain \<Rightarrow> bool" where
  "less_authority_domain a b = (index_of all_domains a < index_of all_domains b)"
instance
  by standard (auto simp: less_eq_authority_domain_def less_authority_domain_def intro: index_of_inj [of _ all_domains])
end

record authority_plane =
  pl_domain :: authority_domain
  pl_terms :: "authority_term list"

fun term_matches :: "authority_term \<Rightarrow> capability_identity \<Rightarrow> bool" where
  "term_matches (Allow grant) identity = (eg_capability grant = identity)"
| "term_matches (Deny name) identity = (name = ci_name identity)"

definition terms_for :: "authority_plane \<Rightarrow> capability_identity \<Rightarrow> authority_term list" where
  "terms_for plane identity = filter (\<lambda>t. term_matches t identity) (pl_terms plane)"

record authority_source =
  so_revision :: authority_revision
  so_planes :: "(authority_domain \<times> authority_plane) list"

definition authority_source_try_new ::
  "string \<Rightarrow> string \<Rightarrow> authority_plane list \<Rightarrow> (string, authority_source) result" where
  "authority_source_try_new source revision planes =
     and_then (btree_index pl_domain ''authority source contains a duplicate domain'' planes) (\<lambda>indexed.
     map_ok (\<lambda>r. \<lparr>so_revision = r, so_planes = indexed\<rparr>) (authority_revision_try_new source revision))"

section \<open>The service\<close>

record admission_config =
  cf_issued_at :: u64
  cf_expires_at :: u64
  cf_policy_revision :: string

record admission_service =
  sv_catalog :: capability_catalog
  sv_registry :: "(capability_identity \<times> locked_capability) list"
  sv_sources :: "authority_source list"
  sv_authority_revisions :: authority_revision_set
  sv_config :: admission_config

record persisted_admission =
  pa_grant_set :: grant_set
  pa_locked_capabilities :: "(capability_identity \<times> locked_capability) list"

type_synonym admissions = "(admission_key \<times> persisted_admission) list"

definition adm_catalog_error :: "string \<Rightarrow> diagnostic" where
  "adm_catalog_error message = diagnostic_error CatalogIncompatible CatCatalog StageAdmit message"

definition adm_capability_error :: "string \<Rightarrow> diagnostic" where
  "adm_capability_error message = diagnostic_error PreconditionMissing CatCapability StageAdmit message"

definition adm_authorization_error :: "string \<Rightarrow> diagnostic" where
  "adm_authorization_error message = diagnostic_error AdmissionDenied CatAuthorization StageAdmit message"

definition adm_first_diagnostic :: "diagnostic list \<Rightarrow> diagnostic" where
  "adm_first_diagnostic diagnostics =
     (case diagnostics of
        [] \<Rightarrow> adm_capability_error ''provider operation failed without a diagnostic''
      | d # _ \<Rightarrow> d)"

definition check_catalog_descriptor ::
  "(capability_identity \<times> locked_capability) list \<Rightarrow> capability_descriptor \<Rightarrow>
     (diagnostic list, unit) result" where
  "check_catalog_descriptor registry d =
     (case map_of registry (cd_identity d) of
        None \<Rightarrow> Inl [adm_capability_error
          ''catalog descriptor is missing from the locked descriptor registry'']
      | Some locked \<Rightarrow> ensure (lc_descriptor locked = d) [adm_capability_error
          ''locked descriptor registry does not match the authoritative catalog''])"

definition domain_owners :: "authority_source list \<Rightarrow> (authority_domain \<times> nat) list" where
  "domain_owners sources =
     concat (map (\<lambda>(i, s). map (\<lambda>d. (d, i)) (map fst (so_planes s))) (enumerate 0 sources))"

definition admission_service_try_new ::
  "externals \<Rightarrow> capability_catalog \<Rightarrow> locked_capability list \<Rightarrow> authority_source list \<Rightarrow>
     admission_config \<Rightarrow> (diagnostic list, admission_service) result" where
  "admission_service_try_new X catalog locked_capabilities sources config =
     (if cf_expires_at config \<le> cf_issued_at config
      then Inl [adm_catalog_error ''admission service expiry must be after issue time'']
      else if cf_issued_at config < cc_issued_at catalog
         \<or> (case cc_expires_at catalog of None \<Rightarrow> False | Some e \<Rightarrow> e \<le> cf_issued_at config)
         \<or> (case cc_expires_at catalog of None \<Rightarrow> False | Some e \<Rightarrow> e < cf_expires_at config)
      then Inl [adm_catalog_error
             ''admission validity must be contained by the authoritative catalog'']
      else
        and_then (btree_index lc_identity [adm_capability_error
            ''locked descriptor registry contains duplicate capability identities'']
          locked_capabilities) (\<lambda>registry.
        and_then (try_each (check_catalog_descriptor registry) (cc_descriptors catalog)) (\<lambda>_.
        and_then (ensure (length registry = length (cc_descriptors catalog)) [adm_capability_error
            ''locked descriptor registry contains a capability outside the catalog'']) (\<lambda>_.
        and_then (map_err (\<lambda>m. [adm_authorization_error m])
          (authority_revision_set_try_new X (map so_revision sources))) (\<lambda>revisions.
        and_then (btree_index fst [adm_authorization_error
            ''mandatory authority domain has multiple owners''] (domain_owners sources)) (\<lambda>_.
        Inr \<lparr>sv_catalog = catalog, sv_registry = registry, sv_sources = sources,
             sv_authority_revisions = revisions, sv_config = config\<rparr>))))))"

section \<open>Checks of a request\<close>

definition request_requirements ::
  "externals \<Rightarrow> admission_request \<Rightarrow> (diagnostic, resolved_requirement list) result" where
  "request_requirements X request =
     map_err (\<lambda>_. adm_capability_error ''admission request resolved requirements are invalid'')
       (try_map (resolved_requirement_read X) (ar_resolved_requirements request))"

definition validate_catalog_binding ::
  "admission_service \<Rightarrow> admission_request \<Rightarrow> (diagnostic, unit) result" where
  "validate_catalog_binding svc request =
     (if ar_catalog_identity request \<noteq> cc_identity (sv_catalog svc)
         \<or> ar_catalog_digest request \<noteq> cc_catalog_digest (sv_catalog svc)
      then Inl (adm_catalog_error ''admission request catalog identity or digest is stale'')
      else Inr ())"

definition lock_step ::
  "admission_service \<Rightarrow> (capability_identity \<times> locked_capability) list \<Rightarrow> resolved_requirement \<Rightarrow>
     (diagnostic, (capability_identity \<times> locked_capability) list) result" where
  "lock_step svc validated requirement =
     (case map_of (sv_registry svc) (rr_identity requirement) of
        None \<Rightarrow> Inl (adm_capability_error ''resolved capability is absent from the provider registry'')
      | Some authoritative \<Rightarrow>
          if rr_locked_capability requirement \<noteq> authoritative
          then Inl (adm_capability_error
                 ''client locked descriptor does not match the provider registry'')
          else if map_of validated (rr_identity requirement) \<noteq> None
          then Inl (adm_capability_error
                 ''resolved requirements contain a duplicate capability identity'')
          else Inr (btree_insert (rr_identity requirement) authoritative validated))"

definition validate_request_locks ::
  "admission_service \<Rightarrow> resolved_requirement list \<Rightarrow>
     (diagnostic, (capability_identity \<times> locked_capability) list) result" where
  "validate_request_locks svc requirements = try_fold (lock_step svc) requirements []"

definition requested_entries :: "admission_request \<Rightarrow> (capability_identity \<times> bool) list" where
  "requested_entries request =
     map (\<lambda>q. (rq_capability q, True)) (ar_required_capabilities request)
     @ map (\<lambda>q. (rq_capability q, False)) (ar_optional_capabilities request)"

definition validate_requirement_mapping ::
  "admission_request \<Rightarrow> resolved_requirement list \<Rightarrow> (diagnostic, unit) result" where
  "validate_requirement_mapping request requirements =
     (let requested = requested_entries request in
      if length requirements \<noteq> length requested
      then Inl (adm_capability_error ''resolved requirements must map one-to-one to admission entries'')
      else try_each (\<lambda>r. ensure
          (length (filter (\<lambda>e. fst e = rr_identity r \<and> snd e = rr_required r) requested) = 1)
          (adm_capability_error ''resolved requirement identity or requiredness does not map exactly''))
        requirements)"

section \<open>Admitting one capability\<close>

fun dynamically_admissible ::
  "authorization_backend \<Rightarrow> auth_context \<Rightarrow> authority_revision_set \<Rightarrow> capability_identity \<Rightarrow>
     string list \<Rightarrow> (diagnostic, bool) result" where
  "dynamically_admissible backend principals revisions capability [] = Inr True"
| "dynamically_admissible backend principals revisions capability (resource # rest) =
     and_then (ab_list_admissible backend
        \<lparr>aar_principals = principals, aar_capability = capability, aar_selected_resource = resource,
         aar_loaded_revisions = revisions\<rparr>) (\<lambda>admissible.
       if capability \<notin> set admissible then Inr False
       else dynamically_admissible backend principals revisions capability rest)"

definition request_boundary ::
  "resolved_requirement \<Rightarrow> requested_capability \<Rightarrow> u64 \<Rightarrow> (diagnostic, effective_grant) result" where
  "request_boundary requirement requested session_expiry =
     (let d = rr_descriptor requirement in
      map_err adm_capability_error (effective_grant_try_new
        \<lparr>eg_capability = rr_identity requirement, eg_resources = rq_resources requested,
         eg_execution_modes = cd_execution_modes d, eg_maximum_effect = cd_effect d,
         eg_expires_at = session_expiry,
         eg_required_evidence = \<lparr>re_confirmation = cd_confirmation d, re_approval = cd_approval d,
            re_consent = cd_consent d\<rparr>,
         eg_freshness = cd_freshness d, eg_preconditions = cd_preconditions d\<rparr>))"

definition plane_for :: "authority_source list \<Rightarrow> authority_domain \<Rightarrow> authority_plane option" where
  "plane_for sources domain =
     (case List.map_filter (\<lambda>s. map_of (so_planes s) domain) sources of
        [] \<Rightarrow> None
      | plane # _ \<Rightarrow> Some plane)"

fun gather_terms ::
  "authority_source list \<Rightarrow> capability_identity \<Rightarrow> authority_domain list \<Rightarrow> authority_term list option" where
  "gather_terms sources capability [] = Some []"
| "gather_terms sources capability (domain # rest) =
     (case plane_for sources domain of
        None \<Rightarrow> None
      | Some plane \<Rightarrow>
          let plane_terms = terms_for plane capability in
          if plane_terms = [] then None
          else map_option (\<lambda>terms. plane_terms @ terms) (gather_terms sources capability rest))"

definition admit_capability ::
  "admission_service \<Rightarrow> requested_capability \<Rightarrow> resolved_requirement \<Rightarrow>
     (diagnostic, effective_grant option) result" where
  "admit_capability svc requested requirement =
     (if rr_identity requirement \<noteq> rq_capability requested
      then Inl (adm_capability_error
             ''resolved capability does not match the admission request entry'')
      else case gather_terms (sv_sources svc) (rq_capability requested) all_domains of
        None \<Rightarrow> Inr None
      | Some terms \<Rightarrow>
          and_then (request_boundary requirement requested (cf_expires_at (sv_config svc))) (\<lambda>boundary.
          map_err adm_first_diagnostic
            (intersect_authority requirement (terms @ [Allow boundary]))))"

definition optional_denial :: "requested_capability \<Rightarrow> (diagnostic, capability_denial) result" where
  "optional_denial requested =
     map_err adm_authorization_error
       (capability_denial_try_new (rq_capability requested)
         (adm_authorization_error ''optional capability was not admitted''))"

definition requested_for ::
  "admission_request \<Rightarrow> resolved_requirement \<Rightarrow> requested_capability option" where
  "requested_for request requirement =
     find (\<lambda>q. rq_capability q = rr_identity requirement)
       (ar_required_capabilities request @ ar_optional_capabilities request)"

text \<open>
  One turn of the loop. The source unwraps the requested entry with \<open>expect\<close>; the model has an error
  branch for it, which \<open>requested_for_mapped\<close> shows to be unreachable after the mapping check.
\<close>

type_synonym admission_answers = "effective_grant list \<times> capability_denial list"

definition admit_requirement ::
  "admission_service \<Rightarrow> authorization_backend \<Rightarrow> auth_context \<Rightarrow> authority_revision_set \<Rightarrow>
     admission_request \<Rightarrow> admission_answers \<Rightarrow> resolved_requirement \<Rightarrow>
     (diagnostic, admission_answers) result" where
  "admit_requirement svc backend principals revisions request answers requirement =
     (let (grants, denials) = answers in
      and_then (ok_or (adm_capability_error ''one-to-one requirement mapping was validated'')
        (requested_for request requirement)) (\<lambda>requested.
      and_then (dynamically_admissible backend principals revisions (rq_capability requested)
        (rq_resources requested)) (\<lambda>admissible.
      let denied = map_ok (\<lambda>d. (grants, denials @ [d])) (optional_denial requested) in
      if rr_required requirement then
        and_then (if admissible then admit_capability svc requested requirement else Inr None) (\<lambda>g.
          case g of
            None \<Rightarrow> Inl (adm_authorization_error ''required capability was not admitted'')
          | Some grant \<Rightarrow> Inr (grants @ [grant], denials))
      else if \<not> admissible then denied
      else case admit_capability svc requested requirement of
        Inr (Some grant) \<Rightarrow> Inr (grants @ [grant], denials)
      | Inr None \<Rightarrow> denied
      | Inl e \<Rightarrow> if d_code e = AdmissionDenied then denied else Inl e)))"

section \<open>Admitting a request\<close>

definition admission_id_new :: "string \<Rightarrow> (string, string) result" where
  "admission_id_new = string_ref_new ''admission ID is required''"

definition admission_name :: "sha256_digest \<Rightarrow> string" where
  "admission_name request_digest = ''admission-'' @ digest_display request_digest"

definition admitted_set ::
  "externals \<Rightarrow> admission_service \<Rightarrow> authorization_backend \<Rightarrow> auth_context \<Rightarrow> admission_request \<Rightarrow>
     (diagnostic, persisted_admission) result" where
  "admitted_set X svc backend principals request =
     and_then (validate_catalog_binding svc request) (\<lambda>_.
     and_then (request_requirements X request) (\<lambda>requirements.
     and_then (validate_request_locks svc requirements) (\<lambda>validated_locks.
     and_then (validate_requirement_mapping request requirements) (\<lambda>_.
     and_then (ab_revisions backend) (\<lambda>current_revisions.
     if current_revisions \<noteq> sv_authority_revisions svc
     then Inl (adm_authorization_error
            ''admission authority revisions do not match the deployment-bound backend'')
     else
       and_then (try_fold (admit_requirement svc backend principals current_revisions request)
         requirements ([], [])) (\<lambda>(grants, denials).
       and_then (map_err adm_capability_error
         (admission_id_new (admission_name (ar_request_digest request)))) (\<lambda>admission_id.
       and_then (map_err adm_first_diagnostic (grant_set_try_new X
         \<lparr>gs_admission_id = admission_id, gs_admission_request_digest = ar_request_digest request,
          gs_delegation_ancestry_digest = ar_delegation_ancestry_digest request,
          gs_actor = ar_actor request, gs_agent = ar_agent request, gs_task = ar_task request,
          gs_session = ar_session request,
          gs_policy_revision = cf_policy_revision (sv_config svc),
          gs_catalog_identity = cc_identity (sv_catalog svc),
          gs_catalog_digest = cc_catalog_digest (sv_catalog svc),
          gs_authority_revisions = current_revisions,
          gs_issued_at = cf_issued_at (sv_config svc), gs_expires_at = cf_expires_at (sv_config svc),
          gs_grants = grants, gs_optional_denials = denials,
          gs_grant_digest = Sha256Digest []\<rparr>)) (\<lambda>gs.
       map_ok (\<lambda>_. \<lparr>pa_grant_set = gs, pa_locked_capabilities = validated_locks\<rparr>)
         (grant_set_validate_against gs request)))))))))"

definition admit ::
  "externals \<Rightarrow> admission_service \<Rightarrow> authorization_backend \<Rightarrow> auth_context \<Rightarrow> admission_request \<Rightarrow>
     admissions \<Rightarrow> (diagnostic, grant_set) result \<times> admissions" where
  "admit X svc backend principals request m =
     (case admitted_set X svc backend principals request of
        Inl e \<Rightarrow> (Inl e, m)
      | Inr p \<Rightarrow> (Inr (pa_grant_set p), btree_insert (admission_key_of (pa_grant_set p)) p m))"

definition load_admission ::
  "admissions \<Rightarrow> string \<Rightarrow> sha256_digest \<Rightarrow> (diagnostic, persisted_admission) result" where
  "load_admission m admission_id gdigest =
     ok_or (adm_capability_error ''persisted admission does not match the grant digest'')
       (map_of m (admission_id, digest_display gdigest))"

definition admissions_load ::
  "admissions \<Rightarrow> string \<Rightarrow> sha256_digest \<Rightarrow> (diagnostic, invocation_admission) result" where
  "admissions_load m admission_id gdigest =
     and_then (load_admission m admission_id gdigest) (\<lambda>p.
       invocation_admission_try_new (pa_grant_set p) (map snd (pa_locked_capabilities p)))"

section \<open>Facts about the checks\<close>

lemma lock_step_Inr:
  "lock_step svc a r = Inr v \<longleftrightarrow>
     map_of (sv_registry svc) (rr_identity r) = Some (rr_locked_capability r)
     \<and> map_of a (rr_identity r) = None \<and> v = btree_insert (rr_identity r) (rr_locked_capability r) a"
  by (auto simp: lock_step_def split: option.splits if_splits)

lemma request_locks_fold:
  assumes "try_fold (lock_step svc) rs a = Inr v"
    and "btree_ok a"
  shows "btree_ok v \<and> set v = set a \<union> (\<lambda>r. (rr_identity r, rr_locked_capability r)) ` set rs
    \<and> distinct (map rr_identity rs) \<and> (\<forall>r \<in> set rs. map_of a (rr_identity r) = None
        \<and> map_of (sv_registry svc) (rr_identity r) = Some (rr_locked_capability r))"
  using assms
proof (induction rs arbitrary: a)
  case (Cons r rs)
  let ?a = "btree_insert (rr_identity r) (rr_locked_capability r) a"
  from Cons.prems(1) have new: "map_of a (rr_identity r) = None"
    and registered: "map_of (sv_registry svc) (rr_identity r) = Some (rr_locked_capability r)"
    and "try_fold (lock_step svc) rs ?a = Inr v"
    by (auto simp: lock_step_Inr)
  note ih = Cons.IH [OF this(3) btree_ok_insert [OF Cons.prems(2)]]
  have "rr_identity x \<noteq> rr_identity r \<and> map_of a (rr_identity x) = None" if "x \<in> set rs" for x
    using ih that by (auto simp: map_of_btree_insert Cons.prems(2) split: if_splits)
  then have "rr_identity r \<notin> rr_identity ` set rs" "\<forall>x \<in> set rs. map_of a (rr_identity x) = None" by fastforce+
  with ih new registered set_btree_insert_new [OF Cons.prems(2) new] show ?case by simp
qed simp

lemma validate_request_locks_Inr:
  assumes "validate_request_locks svc rs = Inr v"
  shows "btree_ok v" "set v = (\<lambda>r. (rr_identity r, rr_locked_capability r)) ` set rs"
    "distinct (map rr_identity rs)"
    "\<forall>r \<in> set rs. map_of (sv_registry svc) (rr_identity r) = Some (rr_locked_capability r)"
  using request_locks_fold [OF assms [unfolded validate_request_locks_def]] by simp_all

lemma validate_requirement_mapping_Inr:
  assumes "validate_requirement_mapping request rs = Inr ()" "distinct (map rr_identity rs)"
  shows "set (requested_entries request) = (\<lambda>r. (rr_identity r, rr_required r)) ` set rs"
    "distinct (map fst (requested_entries request))"
proof -
  let ?es = "requested_entries request" and ?ps = "map (\<lambda>r. (rr_identity r, rr_required r)) rs"
  from assms(1) have len: "length rs = length ?es"
    and one: "\<forall>r \<in> set rs. length (filter (\<lambda>e. fst e = rr_identity r \<and> snd e = rr_required r) ?es) = 1"
    by (auto simp: validate_requirement_mapping_def Let_def split: if_splits)
  have sub: "set ?ps \<subseteq> set ?es"
  proof
    fix p assume "p \<in> set ?ps"
    then obtain r where r: "r \<in> set rs" "p = (rr_identity r, rr_required r)" by auto
    with one have "filter (\<lambda>e. fst e = rr_identity r \<and> snd e = rr_required r) ?es \<noteq> []" by fastforce
    then obtain e where "e \<in> set ?es" "fst e = rr_identity r" "snd e = rr_required r"
      by (auto simp: filter_empty_conv)
    with r show "p \<in> set ?es" by (cases e) simp
  qed
  have ids: "distinct (map fst ?ps)" using assms(2) by (simp add: comp_def)
  then have "distinct ?ps" by (simp only: distinct_map)
  then have "card (set ?ps) = length ?es" using len distinct_card [of ?ps] by simp
  then have same: "set ?ps = set ?es"
    using card_subset_eq [OF _ sub] card_length [of ?es] card_mono [OF _ sub] by simp
  then show "set ?es = (\<lambda>r. (rr_identity r, rr_required r)) ` set rs" by auto
  have "card (fst ` set ?es) = length (map fst ?es)"
    using same distinct_card [OF ids] len by (metis length_map set_map)
  then show "distinct (map fst ?es)" by (simp add: card_distinct)
qed

lemma gather_terms_Some:
  "gather_terms sources capability domains = Some terms \<Longrightarrow> domain \<in> set domains \<Longrightarrow>
   \<exists>plane. plane_for sources domain = Some plane \<and> terms_for plane capability \<noteq> []
     \<and> set (terms_for plane capability) \<subseteq> set terms"
proof (induction domains arbitrary: terms)
  case (Cons d ds)
  then obtain plane rest where d: "plane_for sources d = Some plane" "terms_for plane capability \<noteq> []"
      "gather_terms sources capability ds = Some rest" "terms = terms_for plane capability @ rest"
    by (auto simp: Let_def split: option.splits if_splits)
  then show ?case using Cons.IH [OF d(3)] Cons.prems(2) by fastforce
qed simp

lemma dynamically_admissible_True:
  "dynamically_admissible backend principals revisions capability resources = Inr True \<longleftrightarrow>
   (\<forall>resource \<in> set resources. \<exists>admissible. ab_list_admissible backend
      \<lparr>aar_principals = principals, aar_capability = capability, aar_selected_resource = resource,
       aar_loaded_revisions = revisions\<rparr> = Inr admissible \<and> capability \<in> set admissible)"
  by (induction resources) auto

lemma request_boundary_Inr:
  assumes "request_boundary requirement requested expiry = Inr b"
  shows "eg_capability b = rr_identity requirement" "set (eg_resources b) = set (rq_resources requested)"
    "eg_expires_at b = expiry"
  using assms effective_grant_try_new_Inr
  by (fastforce simp: request_boundary_def Let_def)+

definition below_requested :: "effective_grant \<Rightarrow> requested_capability \<Rightarrow> bool" where
  "below_requested g q =
     (rq_capability q = eg_capability g
      \<and> (\<forall>resource \<in> set (eg_resources g). \<exists>r \<in> set (rq_resources q). resource_selector_is_subset resource r))"

definition allowed_by_every_domain :: "admission_service \<Rightarrow> effective_grant \<Rightarrow> bool" where
  "allowed_by_every_domain svc g =
     (\<forall>domain. \<exists>plane. plane_for (sv_sources svc) domain = Some plane
        \<and> terms_for plane (eg_capability g) \<noteq> [] \<and> allowed_by g (terms_for plane (eg_capability g)))"

lemma admit_capability_Some:
  assumes "admit_capability svc requested requirement = Inr (Some g)"
  shows "within_requirement g requirement" "below_requested g requested" "allowed_by_every_domain svc g"
    "eg_expires_at g \<le> cf_expires_at (sv_config svc)" "eg_capability g = rr_identity requirement"
    "rq_capability requested = rr_identity requirement"
proof -
  from assms obtain terms boundary where t: "rr_identity requirement = rq_capability requested"
      "gather_terms (sv_sources svc) (rq_capability requested) all_domains = Some terms"
      "request_boundary requirement requested (cf_expires_at (sv_config svc)) = Inr boundary"
      "intersect_authority requirement (terms @ [Allow boundary]) = Inr (Some g)"
    by (auto simp: admit_capability_def split: if_splits option.splits)
  have within: "within_requirement g requirement" "allowed_by g (terms @ [Allow boundary])"
    using intersect_authority_greatest [OF t(4)] intersect_authority_valid [OF t(4)] by blast+
  note boundary = request_boundary_Inr [OF t(3)]
  have "grant_is_subset_of g boundary" using within(2) by (auto simp: allowed_by_def)
  then show "below_requested g requested" "eg_expires_at g \<le> cf_expires_at (sv_config svc)"
    using boundary t(1) by (auto simp: grant_is_subset_of_def below_requested_def)
  show cap: "eg_capability g = rr_identity requirement" using within(1) by (simp add: within_requirement_def)
  show "within_requirement g requirement" "rq_capability requested = rr_identity requirement"
    using within(1) t(1) by simp_all
  show "allowed_by_every_domain svc g"
    unfolding allowed_by_every_domain_def cap t(1)
  proof
    fix domain
    obtain plane where plane: "plane_for (sv_sources svc) domain = Some plane"
        "terms_for plane (rq_capability requested) \<noteq> []"
        "set (terms_for plane (rq_capability requested)) \<subseteq> set terms"
      using gather_terms_Some [OF t(2) domain_enumerated] by blast
    moreover have "allowed_by g (terms_for plane (rq_capability requested))"
      using within(2) plane(3) by (auto simp: allowed_by_def)
    ultimately show "\<exists>plane. plane_for (sv_sources svc) domain = Some plane
        \<and> terms_for plane (rq_capability requested) \<noteq> []
        \<and> allowed_by g (terms_for plane (rq_capability requested))"
      by blast
  qed
qed

definition properly_admitted ::
  "admission_service \<Rightarrow> authorization_backend \<Rightarrow> auth_context \<Rightarrow> authority_revision_set \<Rightarrow>
     admission_request \<Rightarrow> resolved_requirement \<Rightarrow> effective_grant \<Rightarrow> bool" where
  "properly_admitted svc backend principals revisions request requirement g =
     (\<exists>requested. requested_for request requirement = Some requested
        \<and> dynamically_admissible backend principals revisions (rq_capability requested)
            (rq_resources requested) = Inr True
        \<and> admit_capability svc requested requirement = Inr (Some g))"

lemma optional_denial_Inr:
  "optional_denial requested = Inr d \<Longrightarrow> dn_capability d = rq_capability requested"
  by (auto simp: optional_denial_def capability_denial_try_new_def split: if_splits)

lemma requested_for_Some:
  "requested_for request r = Some q \<Longrightarrow>
   q \<in> set (ar_required_capabilities request @ ar_optional_capabilities request) \<and> rq_capability q = rr_identity r"
  by (auto simp: requested_for_def dest: find_SomeD)

lemma admit_requirement_Inr:
  assumes "admit_requirement svc backend principals revisions request (grants, denials) r = Inr answers"
  shows "(\<exists>g. answers = (grants @ [g], denials) \<and> properly_admitted svc backend principals revisions request r g)
    \<or> (\<exists>d. answers = (grants, denials @ [d]) \<and> \<not> rr_required r \<and> dn_capability d = rr_identity r)"
proof -
  from assms obtain q admissible where q: "requested_for request r = Some q"
      "dynamically_admissible backend principals revisions (rq_capability q) (rq_resources q) = Inr admissible"
    by (auto simp: admit_requirement_def)
  note identity = conjunct2 [OF requested_for_Some [OF q(1)]]
  show ?thesis
  proof (cases "rr_required r")
    case True
    with assms q obtain g where "admissible" "admit_capability svc q r = Inr (Some g)"
        "answers = (grants @ [g], denials)"
      by (auto simp: admit_requirement_def Let_def split: if_splits option.splits)
    with q show ?thesis by (auto simp: properly_admitted_def)
  next
    case optional: False
    then have "(\<exists>d. optional_denial q = Inr d \<and> answers = (grants, denials @ [d]))
        \<or> (\<exists>g. admissible \<and> admit_capability svc q r = Inr (Some g) \<and> answers = (grants @ [g], denials))"
      using assms q by (auto simp: admit_requirement_def Let_def split: if_splits option.splits sum.splits)
    then show ?thesis
    proof (elim disjE exE conjE)
      fix d assume "optional_denial q = Inr d" "answers = (grants, denials @ [d])"
      with optional identity show ?thesis by (auto dest: optional_denial_Inr)
    next
      fix g assume "admissible" "admit_capability svc q r = Inr (Some g)" "answers = (grants @ [g], denials)"
      with q show ?thesis by (auto simp: properly_admitted_def)
    qed
  qed
qed

lemma admit_requirements_Inr:
  "try_fold (admit_requirement svc backend principals revisions request) rs (grants, denials) = Inr answers \<Longrightarrow>
   \<exists>gs ds. answers = (grants @ gs, denials @ ds)
     \<and> mset (map eg_capability gs) + mset (map dn_capability ds) = mset (map rr_identity rs)
     \<and> (\<forall>g \<in> set gs. \<exists>r \<in> set rs. properly_admitted svc backend principals revisions request r g)
     \<and> (\<forall>d \<in> set ds. \<exists>r \<in> set rs. \<not> rr_required r \<and> dn_capability d = rr_identity r)"
proof (induction rs arbitrary: grants denials)
  case (Cons r rs)
  then obtain mid where mid: "admit_requirement svc backend principals revisions request (grants, denials) r = Inr mid"
      and rest: "try_fold (admit_requirement svc backend principals revisions request) rs mid = Inr answers"
    by auto
  from admit_requirement_Inr [OF mid] show ?case
  proof (elim disjE exE conjE)
    fix g assume g: "mid = (grants @ [g], denials)" "properly_admitted svc backend principals revisions request r g"
    then have "eg_capability g = rr_identity r"
      by (auto simp: properly_admitted_def dest: admit_capability_Some(5))
    moreover obtain gs ds where "answers = (grants @ g # gs, denials @ ds)"
        "mset (map eg_capability gs) + mset (map dn_capability ds) = mset (map rr_identity rs)"
        "\<forall>g \<in> set gs. \<exists>r \<in> set rs. properly_admitted svc backend principals revisions request r g"
        "\<forall>d \<in> set ds. \<exists>r \<in> set rs. \<not> rr_required r \<and> dn_capability d = rr_identity r"
      using Cons.IH [OF rest [unfolded g(1)]] by auto
    ultimately show ?thesis using g(2) by (intro exI [of _ "g # gs"] exI [of _ ds]) auto
  next
    fix d assume d: "mid = (grants, denials @ [d])" "\<not> rr_required r" "dn_capability d = rr_identity r"
    obtain gs ds where "answers = (grants @ gs, denials @ d # ds)"
        "mset (map eg_capability gs) + mset (map dn_capability ds) = mset (map rr_identity rs)"
        "\<forall>g \<in> set gs. \<exists>r \<in> set rs. properly_admitted svc backend principals revisions request r g"
        "\<forall>d \<in> set ds. \<exists>r \<in> set rs. \<not> rr_required r \<and> dn_capability d = rr_identity r"
      using Cons.IH [OF rest [unfolded d(1)]] by auto
    with d show ?thesis by (intro exI [of _ gs] exI [of _ "d # ds"]) auto
  qed
qed simp

section \<open>Facts about an admitted set\<close>

lemma admission_name_not_blank [simp]: "\<not> is_blank (admission_name d)"
  by (cases "digest_display d")
     (simp_all add: admission_name_def is_blank_def ascii_white_def white2_def white3_def)

lemma admitted_set_Inr:
  assumes "admitted_set X svc backend principals request = Inr p"
  obtains rs grants denials where
    "request_requirements X request = Inr rs"
    "validate_request_locks svc rs = Inr (pa_locked_capabilities p)"
    "validate_requirement_mapping request rs = Inr ()"
    "ab_revisions backend = Inr (sv_authority_revisions svc)"
    "mset (map eg_capability grants) + mset (map dn_capability denials) = mset (map rr_identity rs)"
    "\<forall>g \<in> set grants. \<exists>r \<in> set rs.
       properly_admitted svc backend principals (sv_authority_revisions svc) request r g"
    "\<forall>d \<in> set denials. \<exists>r \<in> set rs. \<not> rr_required r \<and> dn_capability d = rr_identity r"
    "mset (gs_grants (pa_grant_set p)) = mset grants"
    "mset (gs_optional_denials (pa_grant_set p)) = mset denials"
    "gs_expires_at (pa_grant_set p) = cf_expires_at (sv_config svc)"
    "gs_admission_id (pa_grant_set p) = admission_name (ar_request_digest request)"
    "distinct (map eg_capability (gs_grants (pa_grant_set p)))"
    "grant_set_validate_against (pa_grant_set p) request = Inr ()"
proof -
  from assms obtain rs locks grants denials gs where checks:
    "request_requirements X request = Inr rs" "validate_request_locks svc rs = Inr locks"
    "validate_requirement_mapping request rs = Inr ()"
    "ab_revisions backend = Inr (sv_authority_revisions svc)"
    "try_fold (admit_requirement svc backend principals (sv_authority_revisions svc) request) rs ([], [])
       = Inr (grants, denials)"
    and made: "grant_set_try_new X
         \<lparr>gs_admission_id = admission_name (ar_request_digest request),
          gs_admission_request_digest = ar_request_digest request,
          gs_delegation_ancestry_digest = ar_delegation_ancestry_digest request,
          gs_actor = ar_actor request, gs_agent = ar_agent request, gs_task = ar_task request,
          gs_session = ar_session request,
          gs_policy_revision = cf_policy_revision (sv_config svc),
          gs_catalog_identity = cc_identity (sv_catalog svc),
          gs_catalog_digest = cc_catalog_digest (sv_catalog svc),
          gs_authority_revisions = sv_authority_revisions svc,
          gs_issued_at = cf_issued_at (sv_config svc), gs_expires_at = cf_expires_at (sv_config svc),
          gs_grants = grants, gs_optional_denials = denials,
          gs_grant_digest = Sha256Digest []\<rparr> = Inr gs"
    and valid: "grant_set_validate_against gs request = Inr ()"
    and p: "p = \<lparr>pa_grant_set = gs, pa_locked_capabilities = locks\<rparr>"
    by (auto simp: admitted_set_def admission_id_new_def split: if_splits)
  note facts = grant_set_try_new_Inr [OF made]
  have copied: "gs_expires_at gs = cf_expires_at (sv_config svc)"
    "gs_admission_id gs = admission_name (ar_request_digest request)"
    using facts(7) by (metis grant_set.simps)+
  show thesis
    by (rule that [of rs grants denials])
       (use checks admit_requirements_Inr [OF checks(5)] facts(3,8,9) valid copied p in auto)
qed

lemma properly_admitted_grant:
  assumes "properly_admitted svc backend principals revisions request r g"
  shows "within_requirement g r" "allowed_by_every_domain svc g"
    "eg_expires_at g \<le> cf_expires_at (sv_config svc)" "eg_capability g = rr_identity r"
    "\<exists>q \<in> set (ar_required_capabilities request @ ar_optional_capabilities request).
       below_requested g q
       \<and> dynamically_admissible backend principals revisions (eg_capability g) (rq_resources q) = Inr True"
proof -
  from assms obtain q where q: "requested_for request r = Some q"
      "dynamically_admissible backend principals revisions (rq_capability q) (rq_resources q) = Inr True"
      "admit_capability svc q r = Inr (Some g)"
    by (auto simp: properly_admitted_def)
  note grant = admit_capability_Some [OF q(3)]
  show "within_requirement g r" "allowed_by_every_domain svc g"
    "eg_expires_at g \<le> cf_expires_at (sv_config svc)" "eg_capability g = rr_identity r"
    by (fact grant)+
  show "\<exists>q \<in> set (ar_required_capabilities request @ ar_optional_capabilities request).
       below_requested g q
       \<and> dynamically_admissible backend principals revisions (eg_capability g) (rq_resources q) = Inr True"
    using requested_for_Some [OF q(1)] q(2) grant(2,5) by (intro bexI [of _ q]) auto
qed

text \<open>
  Claim C3. Every grant an admission issues stays inside every source of authority: it keeps to a
  requirement of the request whose locked capability is the provider's own, its resources lie
  below those requested, each of the six domains has a plane with terms for the capability and
  none of these terms denies it or allows less, the policy engine found the capability
  admissible for the caller on every requested resource, and it expires with the service's
  admissions.
\<close>

theorem admitted_grants_within_every_authority:
  assumes "admit X svc backend principals request m = (Inr gs, m')" and "g \<in> set (gs_grants gs)"
  shows "\<exists>rs r q. request_requirements X request = Inr rs \<and> r \<in> set rs
     \<and> map_of (sv_registry svc) (eg_capability g) = Some (rr_locked_capability r)
     \<and> within_requirement g r
     \<and> q \<in> set (ar_required_capabilities request @ ar_optional_capabilities request)
     \<and> below_requested g q \<and> allowed_by_every_domain svc g
     \<and> (\<forall>resource \<in> set (rq_resources q). \<exists>admissible. ab_list_admissible backend
          \<lparr>aar_principals = principals, aar_capability = eg_capability g, aar_selected_resource = resource,
           aar_loaded_revisions = sv_authority_revisions svc\<rparr> = Inr admissible
          \<and> eg_capability g \<in> set admissible)
     \<and> eg_expires_at g \<le> gs_expires_at gs"
proof -
  from assms(1) obtain p where p: "admitted_set X svc backend principals request = Inr p" "gs = pa_grant_set p"
    by (auto simp: admit_def split: sum.splits)
  from p(1) obtain rs grants where rs: "request_requirements X request = Inr rs"
      "validate_request_locks svc rs = Inr (pa_locked_capabilities p)"
      "\<forall>g \<in> set grants. \<exists>r \<in> set rs.
         properly_admitted svc backend principals (sv_authority_revisions svc) request r g"
      "mset (gs_grants (pa_grant_set p)) = mset grants"
      "gs_expires_at (pa_grant_set p) = cf_expires_at (sv_config svc)"
    by (rule admitted_set_Inr)
  have "g \<in> set grants" using assms(2) p(2) mset_eq_setD [OF rs(4)] by simp
  then obtain r where r: "r \<in> set rs"
      "properly_admitted svc backend principals (sv_authority_revisions svc) request r g"
    using rs(3) by blast
  note grant = properly_admitted_grant [OF r(2)]
  have "map_of (sv_registry svc) (eg_capability g) = Some (rr_locked_capability r)"
    using validate_request_locks_Inr(4) [OF rs(2)] r(1) grant(4) by simp
  then show ?thesis
    using rs(1,5) r(1) grant p(2) unfolding dynamically_admissible_True by metis
qed

section \<open>Persisted admissions\<close>

lemma provider_orders_are_invocation_orders:
  "confirmation_is_at_least c b = inv_confirmation_not_weaker c b"
  "approval_is_at_least a d = inv_approval_not_weaker a d"
  "consent_is_at_least e f = inv_consent_not_weaker e f"
  "bound_is_at_least m n = inv_maximum_not_larger m n"
proof -
  show "confirmation_is_at_least c b = inv_confirmation_not_weaker c b"
    by (cases b) (auto simp: confirmation_is_at_least_def)
  show "approval_is_at_least a d = inv_approval_not_weaker a d"
    by (cases d) (auto simp: approval_is_at_least_def)
  show "consent_is_at_least e f = inv_consent_not_weaker e f"
    by (cases f) (auto simp: consent_is_at_least_def)
  show "bound_is_at_least m n = inv_maximum_not_larger m n"
    by (cases m; cases n) simp_all
qed

lemma within_requirement_usable:
  assumes "within_requirement g r" "eg_expires_at g \<le> expiry"
  shows "validate_grant_against_locked g (rr_locked_capability r) expiry = Inr ()"
  using assms
  by (auto simp: validate_grant_against_locked_def Let_def within_requirement_def not_less
      grant_evidence_at_least_locked_def evidence_is_at_least_def descriptor_evidence_def
      provider_orders_are_invocation_orders freshness_is_at_least_def inv_freshness_at_least_def)

definition usable_admission :: "persisted_admission \<Rightarrow> bool" where
  "usable_admission p \<longleftrightarrow>
     invocation_admission_try_new (pa_grant_set p) (map snd (pa_locked_capabilities p)) =
       Inr \<lparr>ia_grant_set = pa_grant_set p, ia_locked_capabilities = pa_locked_capabilities p\<rparr>"

lemma admitted_set_usable:
  assumes "admitted_set X svc backend principals request = Inr p"
  shows "usable_admission p"
proof -
  from assms obtain rs grants where
    locks: "validate_request_locks svc rs = Inr (pa_locked_capabilities p)"
    and grants: "\<forall>g \<in> set grants. \<exists>r \<in> set rs.
       properly_admitted svc backend principals (sv_authority_revisions svc) request r g"
      "mset (gs_grants (pa_grant_set p)) = mset grants"
    and expiry: "gs_expires_at (pa_grant_set p) = cf_expires_at (sv_config svc)"
    by (rule admitted_set_Inr)
  let ?m = "pa_locked_capabilities p"
  note m = validate_request_locks_Inr [OF locks]
  have entries: "\<forall>e \<in> set ?m. lc_identity (snd e) = fst e" unfolding m(2) by simp
  then have keys: "map lc_identity (map snd ?m) = map fst ?m" by (simp add: comp_def)
  then have "distinct (map lc_identity (map snd ?m))" using btree_ok_distinct [OF m(1)] by metis
  from btree_index_total [OF this,
      of "inv_capability_error ''persisted admission contains a duplicate locked capability''"]
  obtain i where i: "btree_index lc_identity
      (inv_capability_error ''persisted admission contains a duplicate locked capability'') (map snd ?m) = Inr i"
    by blast
  have "\<forall>e \<in> set ?m. (lc_identity (snd e), snd e) = e" using entries by simp
  then have "(\<lambda>e. (lc_identity (snd e), snd e)) ` set ?m = (\<lambda>e. e) ` set ?m" by (intro image_cong) simp_all
  then have "set i = set ?m" using btree_index_Inr(2) [OF i] by (simp add: image_image)
  then have "i = ?m" by (rule btree_ext [OF btree_index_Inr(1) [OF i] m(1)])
  moreover have "\<exists>locked. map_of ?m (eg_capability g) = Some locked
      \<and> validate_grant_against_locked g locked (gs_expires_at (pa_grant_set p)) = Inr ()"
    if g: "g \<in> set (gs_grants (pa_grant_set p))" for g
  proof -
    obtain r where r: "r \<in> set rs"
        "properly_admitted svc backend principals (sv_authority_revisions svc) request r g"
      using grants(1) g mset_eq_setD [OF grants(2)] by auto
    note grant = properly_admitted_grant [OF r(2)]
    have "map_of ?m (eg_capability g) = Some (rr_locked_capability r)"
      unfolding map_of_btree [OF m(1)] grant(4) m(2) using r(1) by (rule imageI)
    then show ?thesis using within_requirement_usable [OF grant(1)] grant(3) expiry by simp
  qed
  ultimately show ?thesis
    using i by (auto simp: usable_admission_def invocation_admission_try_new_Inr ia_locked_capability_def)
qed

definition admissions_inv :: "admissions \<Rightarrow> bool" where
  "admissions_inv m \<longleftrightarrow>
     btree_ok m \<and> (\<forall>(k, p) \<in> set m. k = admission_key_of (pa_grant_set p) \<and> usable_admission p)"

lemma admit_inv:
  "admissions_inv m \<Longrightarrow> admit X svc backend principals request m = (res, m') \<Longrightarrow> admissions_inv m'"
  by (auto simp: admit_def admissions_inv_def btree_ok_insert set_btree_insert
      dest: admitted_set_usable split: sum.splits)

lemma admissions_load_Inr:
  assumes "admissions_inv m" "admissions_load m i d = Inr a"
  shows "admission_key_of (ia_grant_set a) = (i, digest_display d)"
    "invocation_admission_try_new (ia_grant_set a) (map snd (ia_locked_capabilities a)) = Inr a"
proof -
  from assms(2) obtain p where p: "map_of m (i, digest_display d) = Some p"
      "invocation_admission_try_new (pa_grant_set p) (map snd (pa_locked_capabilities p)) = Inr a"
    by (auto simp: admissions_load_def load_admission_def)
  then have "((i, digest_display d), p) \<in> set m" by (auto dest: map_of_SomeD)
  with assms(1) have "(i, digest_display d) = admission_key_of (pa_grant_set p)" "usable_admission p"
    by (auto simp: admissions_inv_def)
  with p(2) show "admission_key_of (ia_grant_set a) = (i, digest_display d)"
    "invocation_admission_try_new (ia_grant_set a) (map snd (ia_locked_capabilities a)) = Inr a"
    by (auto simp: usable_admission_def)
qed

interpretation adm: admission_store admissions_inv admissions_load
proof
  fix m i d a
  assume inv: "admissions_inv m" and load: "admissions_load m i d = Inr a"
  show "gs_admission_id (ia_grant_set a) = i \<and> gs_grant_digest (ia_grant_set a) = d"
    using admissions_load_Inr(1) [OF inv load] by (simp add: admission_key_of_def digest_display_inject)
  show "\<exists>locked. ia_locked_capability a (eg_capability g) = Inr locked
        \<and> validate_grant_against_locked g locked (gs_expires_at (ia_grant_set a)) = Inr ()"
    if "g \<in> set (gs_grants (ia_grant_set a))" for g
    using admissions_load_Inr(2) [OF inv load] that by (auto simp: invocation_admission_try_new_Inr)
qed

inductive admissions_reachable :: "externals \<Rightarrow> admission_service \<Rightarrow> admissions \<Rightarrow> bool"
  for X svc where
  reach_empty: "admissions_reachable X svc []"
| reach_admit: "admissions_reachable X svc m \<Longrightarrow>
    admit X svc backend principals request m = (res, m') \<Longrightarrow> admissions_reachable X svc m'"

lemma admissions_reachable_inv: "admissions_reachable X svc m \<Longrightarrow> admissions_inv m"
proof (induction rule: admissions_reachable.induct)
  case reach_empty
  then show ?case by (simp add: admissions_inv_def)
qed (rule admit_inv)


section \<open>Correct answers pass the contract\<close>

lemma count_mset_map: "length (filter (\<lambda>x. f x = k) xs) = count (mset (map f xs)) k"
  by (induction xs) auto

lemma requested_unique:
  assumes "distinct (map fst (requested_entries request))"
    and "q \<in> set (ar_required_capabilities request @ ar_optional_capabilities request)"
  shows "find (\<lambda>x. rq_capability x = rq_capability q)
      (ar_required_capabilities request @ ar_optional_capabilities request) = Some q"
proof -
  let ?qs = "ar_required_capabilities request @ ar_optional_capabilities request"
  have "map fst (requested_entries request) = map rq_capability ?qs"
    by (simp add: requested_entries_def comp_def)
  with assms(1) have "distinct (map rq_capability ?qs)" by simp
  moreover obtain x where x: "find (\<lambda>x. rq_capability x = rq_capability q) ?qs = Some x"
    using find_in_set [OF assms(2), of "\<lambda>x. rq_capability x = rq_capability q"] by auto
  moreover have "x \<in> set ?qs" "rq_capability x = rq_capability q" using find_SomeD [OF x] by auto
  ultimately show ?thesis using assms(2) by (metis distinct_map inj_onD)
qed

lemma resolved_unique:
  "distinct (map rr_identity rs) \<Longrightarrow> r \<in> set rs \<Longrightarrow> find_resolved rs (rr_identity r) = Some r"
  by (induction rs) (auto simp: find_resolved_def)

lemma answers_validate:
  assumes ids: "distinct (map rr_identity (ar_resolved_requirements request))"
    and mapping: "validate_requirement_mapping request (ar_resolved_requirements request) = Inr ()"
    and agree: "\<forall>q \<in> set (ar_required_capabilities request @ ar_optional_capabilities request).
       \<forall>a \<in> set (rq_resources q). agreeing_selector a"
    and total: "mset (map eg_capability (gs_grants gs)) + mset (map dn_capability (gs_optional_denials gs))
       = mset (map rr_identity (ar_resolved_requirements request))"
    and grants: "\<forall>g \<in> set (gs_grants gs). \<exists>r \<in> set (ar_resolved_requirements request).
       properly_admitted svc backend principals revisions request r g"
    and denials: "\<forall>d \<in> set (gs_optional_denials gs). \<exists>r \<in> set (ar_resolved_requirements request).
       \<not> rr_required r \<and> dn_capability d = rr_identity r"
    and header: "gs_actor gs = ar_actor request" "gs_agent gs = ar_agent request" "gs_task gs = ar_task request"
      "gs_session gs = ar_session request" "gs_admission_request_digest gs = ar_request_digest request"
      "gs_delegation_ancestry_digest gs = ar_delegation_ancestry_digest request"
      "gs_catalog_identity gs = ar_catalog_identity request" "gs_catalog_digest gs = ar_catalog_digest request"
      "gs_expires_at gs = cf_expires_at (sv_config svc)"
  shows "grant_set_validate_against gs request = Inr ()"
proof -
  let ?rs = "ar_resolved_requirements request"
  let ?qs = "ar_required_capabilities request @ ar_optional_capabilities request"
  note entries = validate_requirement_mapping_Inr [OF mapping ids]
  have entry: "\<exists>r \<in> set ?rs. rr_identity r = fst e \<and> rr_required r = snd e"
    if "e \<in> set (requested_entries request)" for e
    using that unfolding entries(1) by auto
  have once: "count_grants gs (rr_identity r) + count_denials gs (rr_identity r) = 1" if "r \<in> set ?rs" for r
  proof -
    have "count_grants gs (rr_identity r) + count_denials gs (rr_identity r) =
        count (mset (map rr_identity ?rs)) (rr_identity r)"
      unfolding count_grants_def count_denials_def count_mset_map total [symmetric] by simp
    also have "\<dots> = 1" using ids that by (simp add: distinct_count_atmost_1)
    finally show ?thesis .
  qed
  have not_denied: "count_denials gs (rr_identity r) = 0" if r: "r \<in> set ?rs" "rr_required r" for r
  proof -
    have "dn_capability d \<noteq> rr_identity r" if d: "d \<in> set (gs_optional_denials gs)" for d
    proof
      assume same: "dn_capability d = rr_identity r"
      obtain x where x: "x \<in> set ?rs" "\<not> rr_required x" "dn_capability d = rr_identity x"
        using denials d by blast
      then have "x = r" using same ids r(1) by (metis distinct_map inj_onD)
      with x(2) r(2) show False by simp
    qed
    then show ?thesis by (simp add: count_denials_def filter_empty_conv)
  qed
  have required: "count_grants gs (rq_capability q) = 1" if "q \<in> set (ar_required_capabilities request)" for q
  proof -
    have "(rq_capability q, True) \<in> set (requested_entries request)"
      using that by (auto simp: requested_entries_def)
    from entry [OF this] obtain r where "r \<in> set ?rs" "rr_identity r = rq_capability q" "rr_required r" by auto
    then show ?thesis using once [of r] not_denied [of r] by simp
  qed
  have optional: "count_grants gs (rq_capability q) + count_denials gs (rq_capability q) = 1"
    if "q \<in> set (ar_optional_capabilities request)" for q
  proof -
    have "(rq_capability q, False) \<in> set (requested_entries request)"
      using that by (auto simp: requested_entries_def)
    from entry [OF this] obtain r where "r \<in> set ?rs" "rr_identity r = rq_capability q" by auto
    then show ?thesis using once [of r] by simp
  qed
  have denied: "\<exists>q \<in> set (ar_optional_capabilities request). rq_capability q = dn_capability d"
    if d: "d \<in> set (gs_optional_denials gs)" for d
  proof -
    obtain r where r: "r \<in> set ?rs" "\<not> rr_required r" "dn_capability d = rr_identity r"
      using denials d by blast
    then have "(rr_identity r, False) \<in> set (requested_entries request)"
      unfolding entries(1) by (intro image_eqI [of _ _ r]) simp_all
    with r(3) show ?thesis by (auto simp: requested_entries_def)
  qed
  have check: "check_grant request (gs_expires_at gs) g = Inr ()" if g: "g \<in> set (gs_grants gs)" for g
  proof -
    obtain r where r: "r \<in> set ?rs" "properly_admitted svc backend principals revisions request r g"
      using grants g by blast
    note grant = properly_admitted_grant [OF r(2)]
    obtain q where q: "q \<in> set ?qs" "below_requested g q" using grant(5) by blast
    have "find (\<lambda>x. rq_capability x = eg_capability g) ?qs = Some q"
      using requested_unique [OF entries(2) q(1)] q(2) by (simp add: below_requested_def)
    moreover have "\<forall>x \<in> set (eg_resources g). \<exists>a \<in> set (rq_resources q). resource_selector_is_subset_of x a"
    proof
      fix x assume "x \<in> set (eg_resources g)"
      with q(2) obtain a where a: "a \<in> set (rq_resources q)" "resource_selector_is_subset x a"
        by (auto simp: below_requested_def)
      then show "\<exists>a \<in> set (rq_resources q). resource_selector_is_subset_of x a"
        using agree q(1) provider_subset_implies_contract by blast
    qed
    moreover have "find_resolved ?rs (eg_capability g) = Some r"
      using resolved_unique [OF ids r(1)] grant(4) by simp
    moreover have "effective_grant_narrows g (rr_descriptor r) (gs_expires_at gs)"
      using within_requirement_narrows grant(1,3) header(9) by simp
    ultimately show ?thesis by (auto simp: check_grant_def)
  qed
  show ?thesis
    using required optional denied check
    by (simp add: grant_set_validate_against_def header)
qed

lemma grant_digest_total: "\<forall>j. x_canonical X j \<noteq> None \<Longrightarrow> \<exists>d. grant_digest X g = Inr d"
  by (auto simp: grant_digest_def canonical_digest_def)

lemma grant_set_try_new_total:
  assumes "\<forall>j. x_canonical X j \<noteq> None" "gs_issued_at p < gs_expires_at p"
    and "distinct (map eg_capability (gs_grants p))" "distinct (map dn_capability (gs_optional_denials p))"
  shows "\<exists>g. grant_set_try_new X p = Inr g"
  using assms grant_digest_total [OF assms(1)]
  by (auto simp: grant_set_try_new_def Let_def adjacent_equal_sort_key not_le [symmetric])

text \<open>
  Claim C5. When an admission succeeds: with selectors on which the provider's and the contract's
  test agree, a request is admitted exactly if it names the service's catalog, its locked
  capabilities are the registry's, its requirements map one-to-one to the requested
  capabilities, the policy engine is at the service's revisions and no requirement fails. The
  contract's final validation never refuses what the provider computed.
\<close>

theorem admission_succeeds_iff:
  assumes "admission_service_try_new X catalog locks sources config = Inr svc"
    and "request_requirements X request = Inr (ar_resolved_requirements request)"
    and "\<forall>q \<in> set (ar_required_capabilities request @ ar_optional_capabilities request).
       \<forall>a \<in> set (rq_resources q). agreeing_selector a"
    and "\<forall>j. x_canonical X j \<noteq> None"
  shows "is_ok (fst (admit X svc backend principals request m)) \<longleftrightarrow>
     is_ok (validate_catalog_binding svc request)
     \<and> is_ok (validate_request_locks svc (ar_resolved_requirements request))
     \<and> is_ok (validate_requirement_mapping request (ar_resolved_requirements request))
     \<and> ab_revisions backend = Inr (sv_authority_revisions svc)
     \<and> is_ok (try_fold (admit_requirement svc backend principals (sv_authority_revisions svc) request)
          (ar_resolved_requirements request) ([], []))"
    (is "?ok \<longleftrightarrow> ?checks")
proof
  assume ?ok
  then obtain p where "admitted_set X svc backend principals request = Inr p"
    by (auto simp: admit_def is_ok_iff split: sum.splits)
  then show ?checks using assms(2) by (auto simp: admitted_set_def is_ok_iff split: if_splits)
next
  let ?rs = "ar_resolved_requirements request"
  assume checks: ?checks
  then obtain locks' grants denials where stages: "validate_catalog_binding svc request = Inr ()"
      "validate_request_locks svc ?rs = Inr locks'" "validate_requirement_mapping request ?rs = Inr ()"
      "ab_revisions backend = Inr (sv_authority_revisions svc)"
      "try_fold (admit_requirement svc backend principals (sv_authority_revisions svc) request) ?rs ([], [])
        = Inr (grants, denials)"
    by (auto simp: is_ok_iff)
  note ids = validate_request_locks_Inr(3) [OF stages(2)]
  have answers: "mset (map eg_capability grants) + mset (map dn_capability denials) = mset (map rr_identity ?rs)"
      "\<forall>g \<in> set grants. \<exists>r \<in> set ?rs.
         properly_admitted svc backend principals (sv_authority_revisions svc) request r g"
      "\<forall>d \<in> set denials. \<exists>r \<in> set ?rs. \<not> rr_required r \<and> dn_capability d = rr_identity r"
    using admit_requirements_Inr [OF stages(5)] by auto
  define parts where "parts = \<lparr>gs_admission_id = admission_name (ar_request_digest request),
          gs_admission_request_digest = ar_request_digest request,
          gs_delegation_ancestry_digest = ar_delegation_ancestry_digest request,
          gs_actor = ar_actor request, gs_agent = ar_agent request, gs_task = ar_task request,
          gs_session = ar_session request,
          gs_policy_revision = cf_policy_revision (sv_config svc),
          gs_catalog_identity = cc_identity (sv_catalog svc),
          gs_catalog_digest = cc_catalog_digest (sv_catalog svc),
          gs_authority_revisions = sv_authority_revisions svc,
          gs_issued_at = cf_issued_at (sv_config svc), gs_expires_at = cf_expires_at (sv_config svc),
          gs_grants = grants, gs_optional_denials = denials,
          gs_grant_digest = Sha256Digest []\<rparr>"
  have "distinct (map eg_capability grants @ map dn_capability denials)"
    using ids answers(1) by (metis mset_append mset_eq_imp_distinct_iff)
  moreover have "cf_issued_at (sv_config svc) < cf_expires_at (sv_config svc)"
    using assms(1) by (auto simp: admission_service_try_new_def not_le split: if_splits)
  ultimately obtain gs where gs: "grant_set_try_new X parts = Inr gs"
    using grant_set_try_new_total [OF assms(4), of parts] by (auto simp: parts_def)
  note made = grant_set_try_new_Inr [OF gs]
  have same: "set (gs_grants gs) = set grants" "set (gs_optional_denials gs) = set denials"
    "mset (map eg_capability (gs_grants gs)) + mset (map dn_capability (gs_optional_denials gs)) =
      mset (map rr_identity ?rs)"
    using made(8,9) answers(1) by (auto simp: parts_def dest: mset_eq_setD)
  have catalog: "cc_identity (sv_catalog svc) = ar_catalog_identity request"
      "cc_catalog_digest (sv_catalog svc) = ar_catalog_digest request"
    using stages(1) by (auto simp: validate_catalog_binding_def split: if_splits)
  obtain G D d where copied: "gs = parts\<lparr>gs_grants := G, gs_optional_denials := D, gs_grant_digest := d\<rparr>"
    using made(7) by blast
  have "grant_set_validate_against gs request = Inr ()"
  proof (rule answers_validate [OF ids stages(3) assms(3) same(3)])
    show "\<forall>g \<in> set (gs_grants gs). \<exists>r \<in> set ?rs.
         properly_admitted svc backend principals (sv_authority_revisions svc) request r g"
      using answers(2) same(1) by simp
    show "\<forall>d \<in> set (gs_optional_denials gs). \<exists>r \<in> set ?rs. \<not> rr_required r \<and> dn_capability d = rr_identity r"
      using answers(3) same(2) by simp
  qed (simp_all add: copied parts_def catalog)
  moreover have "map_err adm_capability_error (admission_id_new (admission_name (ar_request_digest request)))
      = Inr (admission_name (ar_request_digest request))"
    by (simp add: admission_id_new_def)
  ultimately have "admitted_set X svc backend principals request =
      Inr \<lparr>pa_grant_set = gs, pa_locked_capabilities = locks'\<rparr>"
    using stages assms(2) gs by (simp add: admitted_set_def parts_def)
  then show ?ok by (simp add: admit_def)
qed

section \<open>Witnesses\<close>

definition sample_source :: authority_source where
  "sample_source = \<lparr>so_revision = AuthorityRevision ''policy'' ''r1'',
     so_planes = map (\<lambda>d. (d, \<lparr>pl_domain = d, pl_terms = [Allow sample_grant]\<rparr>)) all_domains\<rparr>"

definition sample_config :: admission_config where
  "sample_config = \<lparr>cf_issued_at = 100, cf_expires_at = 200, cf_policy_revision = ''p1''\<rparr>"

definition sample_service :: admission_service where
  "sample_service = \<lparr>sv_catalog = sample_capability_catalog, sv_registry = [(sample_identity, sample_locked)],
     sv_sources = [sample_source], sv_authority_revisions = sample_revisions, sv_config = sample_config\<rparr>"

lemma sample_service_built:
  "admission_service_try_new sample_externals sample_capability_catalog [sample_locked] [sample_source]
     sample_config = Inr sample_service"
proof -
  have "btree_index fst e (domain_owners [sample_source]) = Inr (map (\<lambda>d. (d, (d, 0))) all_domains)" for e :: "diagnostic list"
    by (simp add: btree_index_def index_step_def domain_owners_def sample_source_def all_domains_def
        less_authority_domain_def)
  moreover have "btree_index lc_identity e [sample_locked] = Inr [(sample_identity, sample_locked)]"
    for e :: "diagnostic list"
    by (simp add: btree_index_def index_step_def sample_locked_def)
  moreover have "authority_revision_set_try_new sample_externals [AuthorityRevision ''policy'' ''r1''] = Inr sample_revisions"
    by (simp add: authority_revision_set_try_new_def canonical_digest_def sample_externals_def sample_revisions_def)
  ultimately show ?thesis
    by (simp add: admission_service_try_new_def sample_config_def sample_capability_catalog_def
        check_catalog_descriptor_def sample_service_def sample_descriptor_def sample_locked_def
        sample_source_def)
qed

lemma sample_requirements_read:
  "request_requirements sample_externals sample_request = Inr (ar_resolved_requirements sample_request)"
proof -
  have "descriptor_read sample_externals sample_descriptor = Inr sample_descriptor"
    using descriptor_deserialize_own [OF sample_descriptor_built]
    by (simp add: descriptor_read_def release_version_new_def schema_try_new_def validate_schema_def
        json_get_def) (simp add: sample_data)
  then have "locked_capability_read sample_externals sample_locked = Inr sample_locked"
    by (simp add: locked_capability_read_def release_version_new_def locked_capability_try_new_def
        sample_locked_def) (simp add: sample_data)
  then show ?thesis
    by (simp add: request_requirements_def resolved_requirement_read_def resolved_requirement_try_new_def
        sample_request_def sample_requirement_def sort_dedup_def)
qed

definition sample_asked :: requested_capability where
  "sample_asked = \<lparr>rq_capability = sample_identity, rq_resources = [''doc:*'']\<rparr>"

definition sample_boundary :: effective_grant where
  "sample_boundary = sample_grant\<lparr>eg_resources := [''doc:*''],
     eg_execution_modes := {ModeImmediate, ModeSuspendable}, eg_maximum_effect := IrreversibleWrite,
     eg_expires_at := 200\<rparr>"

lemma sample_boundary_built:
  "request_boundary sample_requirement sample_asked 200 = Inr sample_boundary"
  by (simp add: request_boundary_def effective_grant_try_new_def sample_boundary_def sample_asked_def
      sample_data sort_dedup_def)

lemma replicate_six: "replicate 6 t = [t, t, t, t, t, t]"
  by (simp add: numeral_eq_Suc)

lemma sample_terms:
  "gather_terms [sample_source] sample_identity all_domains = Some (replicate 6 (Allow sample_grant))"
  by (simp add: all_domains_def sample_source_def plane_for_def map_filter_simps terms_for_def
      Let_def numeral_eq_Suc) (simp add: sample_grant_def)

lemma sample_capability_admitted:
  "admit_capability sample_service sample_asked sample_requirement = Inr (Some sample_grant)"
proof -
  have "rr_identity sample_requirement = sample_identity" "rq_capability sample_asked = sample_identity"
    "sv_sources sample_service = [sample_source]" "cf_expires_at (sv_config sample_service) = 200"
    by (simp_all add: sample_requirement_def sample_locked_def sample_asked_def sample_service_def sample_config_def)
  moreover have "intersect_resource_selectors ''doc:7'' ''doc:*'' = Inr (Some ''doc:7'')"
    by code_simp
  then have "intersect_authority sample_requirement
      (replicate 6 (Allow sample_grant) @ [Allow sample_boundary]) = Inr (Some sample_grant)"
    unfolding replicate_six by (simp add: sample_authority_simps sample_boundary_def)
  ultimately show ?thesis by (simp add: admit_capability_def sample_terms sample_boundary_built)
qed

definition sample_answer :: grant_set where
  "sample_answer =
     \<lparr>gs_admission_id = admission_name sample_digest, gs_admission_request_digest = sample_digest,
      gs_delegation_ancestry_digest = sample_digest, gs_actor = ''ann'', gs_agent = ''helper'',
      gs_task = ''t1'', gs_session = ''s1'', gs_policy_revision = ''p1'',
      gs_catalog_identity = sample_catalog, gs_catalog_digest = sample_digest,
      gs_authority_revisions = sample_revisions, gs_issued_at = 100, gs_expires_at = 200,
      gs_grants = [sample_grant], gs_optional_denials = [], gs_grant_digest = sample_digest\<rparr>"

definition sample_persisted :: persisted_admission where
  "sample_persisted = \<lparr>pa_grant_set = sample_answer,
     pa_locked_capabilities = [(sample_identity, sample_locked)]\<rparr>"

lemma sample_request_simps:
  "ar_required_capabilities sample_request = [sample_asked]" "ar_optional_capabilities sample_request = []"
  "ar_resolved_requirements sample_request = [sample_requirement]"
  "rq_capability sample_asked = sample_identity" "rq_resources sample_asked = [''doc:*'']"
  "rr_identity sample_requirement = sample_identity" "rr_required sample_requirement"
  "ab_revisions sample_backend = Inr sample_revisions"
  "sv_authority_revisions sample_service = sample_revisions"
  "sv_registry sample_service = [(sample_identity, sample_locked)]"
  "rr_locked_capability sample_requirement = sample_locked"
  by (simp_all add: sample_request_def sample_asked_def sample_requirement_def sample_backend_def
      sample_service_def sample_locked_def)

lemma sample_stages:
  "validate_catalog_binding sample_service sample_request = Inr ()"
  "validate_request_locks sample_service [sample_requirement] = Inr [(sample_identity, sample_locked)]"
  "validate_requirement_mapping sample_request [sample_requirement] = Inr ()"
  "admit_requirement sample_service sample_backend sample_auth_context sample_revisions sample_request
     ([], []) sample_requirement = Inr ([sample_grant], [])"
proof -
  show "validate_catalog_binding sample_service sample_request = Inr ()"
    by (simp add: validate_catalog_binding_def sample_request_def sample_service_def
        sample_capability_catalog_def)
  have "lc_identity sample_locked = sample_identity" by (simp add: sample_locked_def)
  then show "validate_request_locks sample_service [sample_requirement] = Inr [(sample_identity, sample_locked)]"
    by (simp add: validate_request_locks_def lock_step_def sample_request_simps)
  show "validate_requirement_mapping sample_request [sample_requirement] = Inr ()"
    using sample_request_simps(6) by (simp add: validate_requirement_mapping_def requested_entries_def sample_request_simps)
  have "requested_for sample_request sample_requirement = Some sample_asked"
    using sample_request_simps(6) by (simp add: requested_for_def sample_request_simps)
  moreover have dynamic: "dynamically_admissible sample_backend sample_auth_context sample_revisions
      sample_identity [''doc:*''] = Inr True"
    by (simp add: sample_backend_def)
  ultimately show "admit_requirement sample_service sample_backend sample_auth_context sample_revisions
      sample_request ([], []) sample_requirement = Inr ([sample_grant], [])"
    by (simp add: admit_requirement_def sample_request_simps sample_capability_admitted dynamic
        del: dynamically_admissible.simps)
qed

lemma sample_admitted:
  "admit sample_externals sample_service sample_backend sample_auth_context sample_request [] =
     (Inr sample_answer, [(admission_key_of sample_answer, sample_persisted)])"
proof -
  have "map_err adm_capability_error (admission_id_new (admission_name sample_digest)) =
      Inr (admission_name sample_digest)"
    by (simp add: admission_id_new_def)
  moreover have "grant_set_try_new sample_externals (sample_answer\<lparr>gs_grant_digest := Sha256Digest []\<rparr>) =
      Inr sample_answer"
    by (simp add: grant_set_try_new_def sample_answer_def grant_digest_def canonical_digest_def
        sample_externals_def)
  moreover have "grant_set_validate_against sample_answer sample_request = Inr ()"
    using sample_grant_set_valid
    by (simp add: grant_set_validate_against_def sample_answer_def sample_grant_set_def count_grants_def
        count_denials_def sample_request_def)
  ultimately have "admitted_set sample_externals sample_service sample_backend sample_auth_context sample_request
      = Inr sample_persisted"
    using sample_requirements_read
    by (simp add: admitted_set_def sample_request_simps sample_stages sample_persisted_def)
       (simp add: sample_answer_def sample_request_def sample_service_def sample_config_def
         sample_capability_catalog_def)
  then show ?thesis by (simp add: admit_def sample_persisted_def)
qed

theorem admitted_grants_within_every_authority_witness:
  "within_requirement sample_grant sample_requirement \<and> allowed_by_every_domain sample_service sample_grant"
proof -
  have "sample_grant \<in> set (gs_grants sample_answer)" by (simp add: sample_answer_def)
  from admitted_grants_within_every_authority [OF sample_admitted this]
  show ?thesis using sample_requirements_read by (auto simp: sample_request_simps)
qed


theorem admission_succeeds_iff_witness:
  "is_ok (fst (admit sample_externals sample_service sample_backend sample_auth_context sample_request []))
   \<and> \<not> is_ok (fst (admit sample_externals sample_service (sample_backend\<lparr>ab_revisions := Inl correlation_error\<rparr>)
       sample_auth_context sample_request []))"
proof -
  have "\<forall>q \<in> set (ar_required_capabilities sample_request @ ar_optional_capabilities sample_request).
       \<forall>a \<in> set (rq_resources q). agreeing_selector a"
    by (simp add: sample_request_simps agreeing_selector_def suffix_to_prefix)
  moreover have "\<forall>j. x_canonical sample_externals j \<noteq> None" by (simp add: sample_externals_def)
  ultimately show ?thesis
    using admission_succeeds_iff [OF sample_service_built sample_requirements_read] sample_admitted
    by simp
qed

end
