(* ===== verification/KF_Ledger.thy ===== *)
theory KF_Ledger
  imports KF_Audit
begin

text \<open>
  The hash-chained audit ledger, \<open>crates/kiteframe-audit/src/chain.rs\<close>. A partition is one file
  of lines, each a JSON entry whose hash covers the partition, its sequence number, the previous
  hash and the canonical record. The files under the root are a map from names to contents.
  The entry codec (\<open>serde_json\<close> on \<open>PersistedEntry\<close>) is a parameter, and what the operating
  system does during one append is the record \<open>append_io\<close>: which step fails, and how many bytes a
  failed write left behind. The per-partition lock makes each call atomic.
\<close>

section \<open>Entries, codec, files\<close>

record persisted_entry =
  pe_partition :: string
  pe_sequence :: u64
  pe_previous_hash :: sha256_digest
  pe_record_hash :: sha256_digest
  pe_record :: json

record verified_entry =
  ve_receipt :: audit_receipt
  ve_record :: json

record ledger_codec =
  lk_encode :: "persisted_entry \<Rightarrow> string option"
  lk_decode :: "string \<Rightarrow> persisted_entry option"

type_synonym ledger_files = "string \<rightharpoonup> string"

definition audit_hash_domain :: string where
  "audit_hash_domain = ''kiteframe:audit:v1'' @ nul"

definition partition_file_domain :: string where
  "partition_file_domain = ''kiteframe:audit-partition:v1'' @ nul"

definition ledger_unavailable :: "string \<Rightarrow> diagnostic" where
  "ledger_unavailable message =
     (diagnostic_error AuditUnavailable CatAudit StageAudit message)\<lparr>d_retry := RetryAfterRefresh\<rparr>"

definition validate_partition :: "string \<Rightarrow> (diagnostic, unit) result" where
  "validate_partition part =
     ensure (\<not> (is_blank part \<or> 512 < length part
                 \<or> list_ex (\<lambda>c. char_in 0 32 c \<or> char_in 127 127 c) part))
       (ledger_unavailable ''audit partition is invalid'')"

definition partition_path :: "externals \<Rightarrow> string \<Rightarrow> (diagnostic, string) result" where
  "partition_path X part =
     and_then (validate_partition part) (\<lambda>_.
       Inr (digest_display (x_sha256 X (partition_file_domain @ part)) @ ''.audit.jsonl''))"

definition record_hash :: "externals \<Rightarrow> string \<Rightarrow> u64 \<Rightarrow> sha256_digest \<Rightarrow> string \<Rightarrow> sha256_digest" where
  "record_hash X part sequence previous canonical =
     x_sha256 X (audit_hash_domain @ part @ be_bytes sequence
       @ map byte_char (digest_bytes previous) @ canonical)"

definition zero_digest :: sha256_digest where
  "zero_digest = Sha256Digest (replicate 32 0)"

section \<open>Linkage of an outcome to its authorization\<close>

definition linkage_fields :: "string list" where
  "linkage_fields =
     [''tenantRef'', ''humanPrincipalRef'', ''workloadPrincipalRef'', ''runRef'', ''actor'', ''agent'',
      ''task'', ''session'', ''capability'', ''resource'', ''admissionId'', ''grantDigest'',
      ''catalogIdentity'', ''catalogDigest'', ''descriptorDigest'', ''authorityRevisionDigest'',
      ''invocationId'', ''statusId'', ''idempotencyKey'', ''proposalDigest'', ''portableDigest'',
      ''lockDigest'', ''bindingDigest'', ''resolvedDigest'', ''traceId'', ''spanId'', ''intendedEffect'']"

definition json_str :: "json \<Rightarrow> string option" where
  "json_str j = (case j of JStr s \<Rightarrow> Some s | _ \<Rightarrow> None)"

definition json_object :: "json \<Rightarrow> json option" where
  "json_object j = (case j of JObj _ \<Rightarrow> Some j | _ \<Rightarrow> None)"

definition get_str :: "string \<Rightarrow> json \<Rightarrow> string option" where
  "get_str k j = Option.bind (json_get k j) json_str"

definition get_object :: "string \<Rightarrow> json \<Rightarrow> json option" where
  "get_object k j = Option.bind (json_get k j) json_object"

definition check_linked_field :: "json \<Rightarrow> json \<Rightarrow> string \<Rightarrow> (diagnostic, unit) result" where
  "check_linked_field authorization outcome name =
     and_then (ok_or (ledger_unavailable ''authorization audit correlation is incomplete'')
        (json_get name authorization)) (\<lambda>a.
     and_then (ok_or (ledger_unavailable ''outcome audit correlation is incomplete'')
        (json_get name outcome)) (\<lambda>b.
     ensure (a = b) (ledger_unavailable
        (''outcome audit correlation does not match authorization field '' @ name))))"

definition authorization_body :: "verified_entry \<Rightarrow> json option" where
  "authorization_body entry =
     (case get_str ''recordType'' (ve_record entry) of
        Some kind \<Rightarrow> if kind = ''authorization'' then get_object ''record'' (ve_record entry) else None
      | None \<Rightarrow> None)"

definition validate_record_linkage ::
  "json \<Rightarrow> string \<Rightarrow> verified_entry list \<Rightarrow> (diagnostic, unit) result" where
  "validate_record_linkage rec part prior =
     and_then (ok_or (ledger_unavailable ''audit record type is missing'') (get_str ''recordType'' rec))
       (\<lambda>record_type.
     and_then (ok_or (ledger_unavailable ''audit record body is missing'') (get_object ''record'' rec))
       (\<lambda>body.
     if get_str ''tenantRef'' body \<noteq> Some part
     then Inl (ledger_unavailable ''audit record tenant does not match its partition'')
     else if record_type = ''authorization'' then Inr ()
     else if record_type = ''outcome'' then
       and_then (ok_or (ledger_unavailable ''outcome audit authorization link is missing'')
          (get_str ''writeAheadRecordId'' body)) (\<lambda>authorization_id.
       and_then (ok_or (ledger_unavailable ''outcome audit authorization link is not in this partition'')
          (find (\<lambda>e. rc_record_id (ve_receipt e) = authorization_id) prior)) (\<lambda>authorization.
       and_then (ok_or (ledger_unavailable
             ''outcome audit link does not reference an authorization record'')
          (authorization_body authorization)) (\<lambda>abody.
       try_each (check_linked_field abody body) linkage_fields)))
     else Inl (ledger_unavailable ''audit record type is unsupported'')))"

section \<open>Reading and verifying\<close>

fun utf8_ok :: "nat list \<Rightarrow> bool" where
  "utf8_ok [] = True"
| "utf8_ok (a # rest) =
     (let cont = (\<lambda>c :: nat. 128 \<le> c \<and> c \<le> 191) in
      if a < 128 then utf8_ok rest
      else if 194 \<le> a \<and> a \<le> 223 then
        (case rest of b # r \<Rightarrow> cont b \<and> utf8_ok r | _ \<Rightarrow> False)
      else if 224 \<le> a \<and> a \<le> 239 then
        (case rest of b # c # r \<Rightarrow>
           cont b \<and> cont c \<and> (a = 224 \<longrightarrow> 160 \<le> b) \<and> (a = 237 \<longrightarrow> b \<le> 159) \<and> utf8_ok r
         | _ \<Rightarrow> False)
      else if 240 \<le> a \<and> a \<le> 244 then
        (case rest of b # c # d # r \<Rightarrow>
           cont b \<and> cont c \<and> cont d \<and> (a = 240 \<longrightarrow> 144 \<le> b) \<and> (a = 244 \<longrightarrow> b \<le> 143) \<and> utf8_ok r
         | _ \<Rightarrow> False)
      else False)"

declare utf8_ok.simps [simp del]

definition newline :: char where "newline = CHR 0x0A"
definition carriage_return :: char where "carriage_return = CHR 0x0D"

definition strip_cr :: "string \<Rightarrow> string" where
  "strip_cr line = (if line \<noteq> [] \<and> last line = carriage_return then butlast line else line)"

definition file_lines :: "string \<Rightarrow> string list" where
  "file_lines content = map strip_cr (butlast (split_on newline content))"

type_synonym verify_state = "verified_entry list \<times> u64 \<times> sha256_digest"

definition verify_line ::
  "ledger_codec \<Rightarrow> externals \<Rightarrow> string \<Rightarrow> verify_state \<Rightarrow> string \<Rightarrow> (diagnostic, verify_state) result" where
  "verify_line C X part st line =
     (let (verified, expected_sequence, expected_previous) = st in
      and_then (ensure (utf8_ok (map of_char line)) (ledger_unavailable ''audit ledger entry cannot be read''))
        (\<lambda>_.
      if line = [] then Inl (ledger_unavailable ''audit ledger contains an empty entry'')
      else and_then (ok_or (ledger_unavailable ''audit ledger entry is malformed'') (lk_decode C line))
        (\<lambda>e.
      if pe_partition e \<noteq> part \<or> pe_sequence e \<noteq> expected_sequence
         \<or> pe_previous_hash e \<noteq> expected_previous
      then Inl (ledger_unavailable ''audit ledger partition sequence or previous hash is invalid'')
      else and_then (ok_or (ledger_unavailable ''persisted audit record cannot be canonicalized'')
           (x_canonical X (pe_record e))) (\<lambda>canonical.
      if pe_record_hash e \<noteq> record_hash X part (pe_sequence e) (pe_previous_hash e) canonical
      then Inl (ledger_unavailable ''audit ledger record hash verification failed'')
      else and_then (map_err ledger_unavailable
           (receipt_try_new (pe_partition e) (pe_sequence e) (pe_previous_hash e) (pe_record_hash e)))
           (\<lambda>receipt.
      and_then (validate_record_linkage (pe_record e) part verified) (\<lambda>_.
      and_then (ok_or (ledger_unavailable ''audit partition sequence exhausted'')
           (checked_add expected_sequence 1)) (\<lambda>next_sequence.
      Inr (verified @ [\<lparr>ve_receipt = receipt, ve_record = pe_record e\<rparr>], next_sequence,
           rc_record_hash receipt))))))))"

definition read_and_verify ::
  "ledger_codec \<Rightarrow> externals \<Rightarrow> string \<Rightarrow> string \<Rightarrow> (diagnostic, verified_entry list) result" where
  "read_and_verify C X content part =
     (if content \<noteq> [] \<and> last content \<noteq> newline
      then Inl (ledger_unavailable ''audit ledger has an incomplete final entry'')
      else map_ok fst (try_fold (verify_line C X part) (file_lines content) ([], 1, zero_digest)))"

definition verify_partition ::
  "ledger_codec \<Rightarrow> externals \<Rightarrow> string \<Rightarrow> ledger_files \<Rightarrow> (diagnostic, verified_entry list) result" where
  "verify_partition C X part files =
     and_then (partition_path X part) (\<lambda>path.
       case files path of None \<Rightarrow> Inr [] | Some content \<Rightarrow> read_and_verify C X content part)"

section \<open>Appending\<close>

record append_io =
  ai_open_fails :: bool
  ai_lock_fails :: bool
  ai_read_fails :: bool
  ai_seek_fails :: bool
  ai_written :: "nat option"
  ai_sync_fails :: bool

definition next_position ::
  "verified_entry list \<Rightarrow> (diagnostic, u64 \<times> sha256_digest) result" where
  "next_position existing =
     (if existing = [] then Inr (1, zero_digest)
      else map_ok (\<lambda>s. (s, rc_record_hash (ve_receipt (last existing))))
        (ok_or (ledger_unavailable ''audit partition sequence exhausted'')
          (checked_add (rc_sequence (ve_receipt (last existing))) 1)))"

definition prepare_entry ::
  "ledger_codec \<Rightarrow> externals \<Rightarrow> string \<Rightarrow> json \<Rightarrow> string \<Rightarrow>
     (diagnostic, audit_receipt \<times> persisted_entry) result" where
  "prepare_entry C X part rec content =
     and_then (read_and_verify C X content part) (\<lambda>existing.
     and_then (validate_record_linkage rec part existing) (\<lambda>_.
     and_then (next_position existing) (\<lambda>(sequence, previous).
     and_then (ok_or (ledger_unavailable ''audit record cannot be canonicalized'') (x_canonical X rec))
       (\<lambda>canonical.
     let rhash = record_hash X part sequence previous canonical in
     map_ok (\<lambda>receipt. (receipt, \<lparr>pe_partition = part, pe_sequence = sequence,
              pe_previous_hash = previous, pe_record_hash = rhash, pe_record = rec\<rparr>))
       (map_err ledger_unavailable (receipt_try_new part sequence previous rhash))))))"

definition write_line :: "append_io \<Rightarrow> string \<Rightarrow> string \<Rightarrow> (diagnostic, unit) result \<times> string" where
  "write_line io content line =
     (case ai_written io of
        Some n \<Rightarrow> (Inl (ledger_unavailable ''audit ledger entry cannot be flushed''),
                   content @ take n (line @ [newline]))
      | None \<Rightarrow>
          ((if ai_sync_fails io
            then Inl (ledger_unavailable ''audit ledger entry cannot be made durable'') else Inr ()),
           content @ line @ [newline]))"

definition append_sync ::
  "ledger_codec \<Rightarrow> externals \<Rightarrow> append_io \<Rightarrow> audit_record \<Rightarrow> ledger_files \<Rightarrow>
     (diagnostic, audit_receipt) result \<times> ledger_files" where
  "append_sync C X io rec files =
     (let part = audit_partition rec in
      case partition_path X part of
        Inl e \<Rightarrow> (Inl e, files)
      | Inr path \<Rightarrow>
          if ai_open_fails io
          then (Inl (ledger_unavailable ''audit partition cannot be opened for append''), files)
          else
            let content = (case files path of None \<Rightarrow> [] | Some c \<Rightarrow> c);
                opened = files(path \<mapsto> content)
            in
            if ai_lock_fails io
            then (Inl (ledger_unavailable ''audit partition cannot be locked for append''), opened)
            else if ai_read_fails io
            then (Inl (ledger_unavailable ''audit partition metadata cannot be read''), opened)
            else case prepare_entry C X part (audit_record_json rec) content of
              Inl e \<Rightarrow> (Inl e, opened)
            | Inr (receipt, entry) \<Rightarrow>
                if ai_seek_fails io
                then (Inl (ledger_unavailable ''audit partition append position is unavailable''), opened)
                else case lk_encode C entry of
                  None \<Rightarrow> (Inl (ledger_unavailable ''audit ledger entry cannot be serialized''), opened)
                | Some line \<Rightarrow>
                    let (res, content') = write_line io content line
                    in (map_ok (\<lambda>_. receipt) res, files(path \<mapsto> content')))"

section \<open>Lines of a file\<close>

lemma file_lines_snoc:
  assumes "content = [] \<or> last content = newline" "newline \<notin> set line"
  shows "file_lines (content @ line @ [newline]) = file_lines content @ [strip_cr line]"
proof -
  have one: "split_on newline (line @ [newline]) = [line, []]"
    using split_on_append [of newline line "[]"] assms(2) by (simp add: split_on_absent)
  show ?thesis
  proof (cases content rule: rev_cases)
    case Nil
    then show ?thesis using one by (simp add: file_lines_def)
  next
    case (snoc c x)
    with assms(1) have "content = c @ [newline]" by simp
    moreover have "split_on newline (c @ newline # line @ [newline]) = split_on newline c @ [line, []]"
      using one by (simp add: split_on_append)
    moreover have "split_on newline (c @ [newline]) = split_on newline c @ [[]]"
      using split_on_append [of newline c "[]"] by simp
    ultimately show ?thesis by (simp add: file_lines_def butlast_append)
  qed
qed

section \<open>Verified entries form a chain\<close>

inductive chained :: "externals \<Rightarrow> string \<Rightarrow> verified_entry list \<Rightarrow> u64 \<Rightarrow> sha256_digest \<Rightarrow> bool"
  for X part where
  chained_Nil: "chained X part [] 1 zero_digest"
| chained_snoc: "chained X part es s h \<Longrightarrow> x_canonical X rec = Some canonical \<Longrightarrow>
    receipt_try_new part s h (record_hash X part s h canonical) = Inr r \<Longrightarrow>
    validate_record_linkage rec part es = Inr () \<Longrightarrow> checked_add s 1 = Some s' \<Longrightarrow>
    chained X part (es @ [\<lparr>ve_receipt = r, ve_record = rec\<rparr>]) s' (rc_record_hash r)"

lemma verify_line_Inr:
  "verify_line C X part (es, s, h) line = Inr st \<longleftrightarrow>
     utf8_ok (map of_char line) \<and> line \<noteq> [] \<and>
     (\<exists>e canonical r s'. lk_decode C line = Some e \<and> pe_partition e = part \<and> pe_sequence e = s
        \<and> pe_previous_hash e = h \<and> x_canonical X (pe_record e) = Some canonical
        \<and> pe_record_hash e = record_hash X part s h canonical
        \<and> receipt_try_new part s h (record_hash X part s h canonical) = Inr r
        \<and> validate_record_linkage (pe_record e) part es = Inr () \<and> checked_add s 1 = Some s'
        \<and> st = (es @ [\<lparr>ve_receipt = r, ve_record = pe_record e\<rparr>], s', rc_record_hash r))"
  unfolding verify_line_def Let_def prod.case by (auto split: if_splits)

lemma verify_line_chained:
  assumes "chained X part es s h" "verify_line C X part (es, s, h) line = Inr (es', s', h')"
  shows "chained X part es' s' h'"
  using assms(2) chained_snoc [OF assms(1)] unfolding verify_line_Inr by auto

lemma verify_lines_chained:
  assumes "try_fold (verify_line C X part) ls ([], 1, zero_digest) = Inr (es, s, h)"
  shows "chained X part es s h"
proof -
  have "case (es, s, h) of (es, s, h) \<Rightarrow> chained X part es s h"
    by (rule try_fold_invariant [OF assms]) (auto intro: chained_Nil verify_line_chained)
  then show ?thesis by simp
qed

lemma read_and_verify_Inr [result_simps]:
  "read_and_verify C X content part = Inr es \<longleftrightarrow>
     (content = [] \<or> last content = newline)
     \<and> (\<exists>s h. try_fold (verify_line C X part) (file_lines content) ([], 1, zero_digest) = Inr (es, s, h))"
  by (auto simp: read_and_verify_def)

lemma read_and_verify_chained:
  "read_and_verify C X content part = Inr es \<Longrightarrow> \<exists>s h. chained X part es s h"
  unfolding read_and_verify_Inr using verify_lines_chained by blast

lemma chained_length: "chained X part es s h \<Longrightarrow> unat s = Suc (length es)"
  by (induction rule: chained.induct) (simp_all add: checked_add_Some_iff)

lemma chained_last:
  assumes "chained X part es s h" "es \<noteq> []"
  shows "h = rc_record_hash (ve_receipt (last es))"
    "checked_add (rc_sequence (ve_receipt (last es))) 1 = Some s"
  using assms by (cases, auto simp: receipt_try_new_Inr)+

lemma chained_next_position:
  assumes "chained X part es s h" shows "next_position es = Inr (s, h)"
proof (cases "es = []")
  case True
  with assms show ?thesis by (cases rule: chained.cases) (auto simp: next_position_def)
next
  case False
  with chained_last [OF assms] show ?thesis by (simp add: next_position_def)
qed

lemma chained_nth:
  "chained X part es s h \<Longrightarrow> i < length es \<Longrightarrow>
   validate_record_linkage (ve_record (es ! i)) part (take i es) = Inr ()
   \<and> unat (rc_sequence (ve_receipt (es ! i))) = Suc i
   \<and> rc_partition (ve_receipt (es ! i)) = part
   \<and> rc_record_id (ve_receipt (es ! i)) =
       receipt_record_id part (rc_sequence (ve_receipt (es ! i))) (rc_record_hash (ve_receipt (es ! i)))"
proof (induction arbitrary: i rule: chained.induct)
  case (chained_snoc es s h rec canonical r s')
  show ?case
  proof (cases "i < length es")
    case True
    with chained_snoc.IH show ?thesis by (simp add: nth_append)
  next
    case False
    with chained_snoc.prems have i: "i = length es" by simp
    have r: "rc_partition r = part" "rc_sequence r = s"
      "rc_record_id r = receipt_record_id part s (rc_record_hash r)"
      using chained_snoc.hyps(3) by (simp_all add: receipt_try_new_Inr)
    show ?thesis
      using chained_snoc.hyps(4) chained_length [OF chained_snoc.hyps(1)] r
      by (simp add: i)
  qed
qed simp

lemma chained_record_id_unique:
  assumes "chained X part es s h" "i < length es" "j < length es"
    and "rc_record_id (ve_receipt (es ! i)) = rc_record_id (ve_receipt (es ! j))"
  shows "i = j"
proof -
  note at_i = chained_nth [OF assms(1,2)] and at_j = chained_nth [OF assms(1,3)]
  have "receipt_record_id part (rc_sequence (ve_receipt (es ! i))) (rc_record_hash (ve_receipt (es ! i)))
      = receipt_record_id part (rc_sequence (ve_receipt (es ! j))) (rc_record_hash (ve_receipt (es ! j)))"
    using at_i at_j assms(4) by argo
  then have "rc_sequence (ve_receipt (es ! i)) = rc_sequence (ve_receipt (es ! j))"
    by (rule receipt_record_id_sequence [THEN conjunct1])
  then have "Suc i = Suc j" using at_i at_j by argo
  then show ?thesis by simp
qed

section \<open>What an append does to a verifiable partition\<close>

text \<open>
  What the ledger relies on of its entry codec: an encoded entry decodes to itself, and its
  text is one non-empty line of UTF-8 that does not end in a carriage return, as compact JSON is.
\<close>

definition codec_ok :: "ledger_codec \<Rightarrow> bool" where
  "codec_ok C = (\<forall>e line. lk_encode C e = Some line \<longrightarrow>
     lk_decode C line = Some e \<and> line \<noteq> [] \<and> newline \<notin> set line \<and> last line \<noteq> carriage_return
     \<and> utf8_ok (map of_char line))"

definition content_of :: "ledger_files \<Rightarrow> string \<Rightarrow> string" where
  "content_of files path = (case files path of None \<Rightarrow> [] | Some c \<Rightarrow> c)"

lemma read_and_verify_empty [simp]: "read_and_verify C X [] part = Inr []"
  by (simp add: read_and_verify_def file_lines_def)

lemma verify_partition_content:
  "verify_partition C X p files =
     and_then (partition_path X p) (\<lambda>path. read_and_verify C X (content_of files path) p)"
  by (cases "partition_path X p")
     (simp_all add: verify_partition_def content_of_def split: option.splits)

lemma content_of_update [simp]:
  "content_of (files(path \<mapsto> c)) path' = (if path' = path then c else content_of files path')"
  by (simp add: content_of_def)

lemma prepare_entry_Inr:
  assumes "prepare_entry C X part rec content = Inr (receipt, entry)"
  obtains es s h canonical where "read_and_verify C X content part = Inr es"
    "validate_record_linkage rec part es = Inr ()" "next_position es = Inr (s, h)"
    "x_canonical X rec = Some canonical"
    "receipt_try_new part s h (record_hash X part s h canonical) = Inr receipt"
    "entry = \<lparr>pe_partition = part, pe_sequence = s, pe_previous_hash = h,
       pe_record_hash = record_hash X part s h canonical, pe_record = rec\<rparr>"
  using assms by (auto simp: prepare_entry_def Let_def)

lemma prepared_entry_verifies:
  assumes "codec_ok C" "prepare_entry C X part rec content = Inr (receipt, entry)"
    and "lk_encode C entry = Some line" "rc_sequence receipt \<noteq> u64_max"
  shows "\<exists>es. read_and_verify C X content part = Inr es
    \<and> read_and_verify C X (content @ line @ [newline]) part =
        Inr (es @ [\<lparr>ve_receipt = receipt, ve_record = rec\<rparr>])"
proof -
  obtain es s h canonical where run: "read_and_verify C X content part = Inr es"
    "validate_record_linkage rec part es = Inr ()" "next_position es = Inr (s, h)"
    "x_canonical X rec = Some canonical"
    "receipt_try_new part s h (record_hash X part s h canonical) = Inr receipt"
    and entry: "entry = \<lparr>pe_partition = part, pe_sequence = s, pe_previous_hash = h,
       pe_record_hash = record_hash X part s h canonical, pe_record = rec\<rparr>"
    using assms(2) by (rule prepare_entry_Inr)
  obtain s0 h0 where fold: "try_fold (verify_line C X part) (file_lines content) ([], 1, zero_digest)
      = Inr (es, s0, h0)" and shape: "content = [] \<or> last content = newline"
    using run(1) by (auto simp: read_and_verify_Inr)
  from verify_lines_chained [OF fold] have chain: "chained X part es s0 h0" .
  then have "s0 = s" "h0 = h" using chained_next_position run(3) by auto
  have line: "lk_decode C line = Some entry" "line \<noteq> []" "newline \<notin> set line" "strip_cr line = line"
    "utf8_ok (map of_char line)"
    using assms(1,3) by (auto simp: codec_ok_def strip_cr_def)
  have "rc_sequence receipt = s" using run(5) by (simp add: receipt_try_new_Inr)
  with assms(4) have "s \<noteq> u64_max" by simp
  moreover have "unat s < 2 ^ 64" using unsigned_less [of s] by simp
  ultimately have "unat s < 2 ^ 64 - 1" by (simp add: u64_max_def word_unat_eq_iff unsigned_minus_1_eq_mask mask_eq_exp_minus_1)
  then obtain s' where s': "checked_add s 1 = Some s'" by (simp add: checked_add_def)
  have "verify_line C X part (es, s, h) line =
      Inr (es @ [\<lparr>ve_receipt = receipt, ve_record = rec\<rparr>], s', rc_record_hash receipt)"
    unfolding verify_line_Inr using line run(2,4,5) s' entry by auto
  with fold line \<open>s0 = s\<close> \<open>h0 = h\<close>
  have "read_and_verify C X (content @ line @ [newline]) part =
      Inr (es @ [\<lparr>ve_receipt = receipt, ve_record = rec\<rparr>])"
    unfolding read_and_verify_Inr file_lines_snoc [OF shape line(3)]
    by (simp add: try_fold_append)
  with run(1) show ?thesis by blast
qed

lemma torn_write_detected:
  assumes "codec_ok C" "lk_encode C entry = Some line" "0 < n" "n \<le> length line"
  shows "read_and_verify C X (content @ take n (line @ [newline])) part =
    Inl (ledger_unavailable ''audit ledger has an incomplete final entry'')"
proof -
  have "take n line \<noteq> []" using assms(3,4) by auto
  moreover have "last (take n line) \<noteq> newline"
    using assms(1,2) last_in_set [OF calculation] in_set_takeD by (fastforce simp: codec_ok_def)
  ultimately show ?thesis using assms(4) by (simp add: read_and_verify_def)
qed

lemma append_sync_cases:
  assumes "append_sync C X io rec files = (res, files')"
  obtains (no_path) e where "partition_path X (audit_partition rec) = Inl e" "res = Inl e" "files' = files"
  | (refused) path e where "partition_path X (audit_partition rec) = Inr path" "res = Inl e"
      "content_of files' = content_of files"
  | (written) path receipt entry line where "partition_path X (audit_partition rec) = Inr path"
      "prepare_entry C X (audit_partition rec) (audit_record_json rec) (content_of files path) = Inr (receipt, entry)"
      "lk_encode C entry = Some line"
      "res = map_ok (\<lambda>_. receipt) (fst (write_line io (content_of files path) line))"
      "files' = files(path \<mapsto> snd (write_line io (content_of files path) line))"
proof (cases "partition_path X (audit_partition rec)")
  case (Inl e)
  with assms no_path show thesis by (simp add: append_sync_def)
next
  case (Inr path)
  have same: "content_of (files(path \<mapsto> content_of files path)) = content_of files"
    by (auto simp: content_of_def fun_eq_iff)
  note run = assms [unfolded append_sync_def Let_def Inr sum.case content_of_def [symmetric]]
  show thesis
  proof (cases "ai_open_fails io \<or> ai_lock_fails io \<or> ai_read_fails io")
    case True
    with run Inr same refused show thesis by (auto split: if_splits)
  next
    case False
    show thesis
    proof (cases "prepare_entry C X (audit_partition rec) (audit_record_json rec) (content_of files path)")
      case (Inl e)
      with run False Inr same refused show thesis by auto
    next
      case (Inr made)
      obtain receipt entry where made: "made = (receipt, entry)" by fastforce
      show thesis
      proof (cases "ai_seek_fails io \<or> lk_encode C entry = None")
        case True
        with run False Inr made same refused \<open>partition_path X (audit_partition rec) = Inr path\<close>
        show thesis by (auto split: if_splits option.splits)
      next
        case ok: False
        then obtain line where line: "lk_encode C entry = Some line" by auto
        with run False Inr made ok written [of path receipt entry line]
          \<open>partition_path X (audit_partition rec) = Inr path\<close>
        show thesis by (auto split: prod.splits)
      qed
    qed
  qed
qed

section \<open>What a record hash binds\<close>

definition hash_input :: "string \<Rightarrow> u64 \<Rightarrow> sha256_digest \<Rightarrow> string \<Rightarrow> string" where
  "hash_input part s h canonical =
     audit_hash_domain @ part @ be_bytes s @ map byte_char (digest_bytes h) @ canonical"

lemma record_hash_input: "record_hash X part s h canonical = x_sha256 X (hash_input part s h canonical)"
  by (simp add: record_hash_def hash_input_def)

lemma hash_input_inject:
  assumes "hash_input part s h c = hash_input part t k d" "wf_digest h" "wf_digest k"
  shows "s = t \<and> h = k \<and> c = d"
proof -
  have "be_bytes s @ map byte_char (digest_bytes h) @ c = be_bytes t @ map byte_char (digest_bytes k) @ d"
    using assms(1) by (simp add: hash_input_def)
  moreover have "length (digest_bytes h) = length (digest_bytes k)"
    using assms(2,3) by (simp add: wf_digest_def)
  ultimately have "be_bytes s = be_bytes t" "map byte_char (digest_bytes h) = map byte_char (digest_bytes k)" "c = d"
    by (simp_all add: append_eq_append_conv)
  moreover have "inj byte_char" by (simp add: inj_def)
  ultimately show ?thesis
    by (simp add: be_bytes_inject inj_map_eq_map sha256_digest.expand)
qed

definition hash_inputs :: "externals \<Rightarrow> string \<Rightarrow> verified_entry list \<Rightarrow> string set" where
  "hash_inputs X part es =
     {hash_input part (rc_sequence (ve_receipt e)) (rc_previous_hash (ve_receipt e)) c | e c.
        e \<in> set es \<and> x_canonical X (ve_record e) = Some c}"

definition collision_free :: "externals \<Rightarrow> string \<Rightarrow> verified_entry list \<Rightarrow> verified_entry list \<Rightarrow> bool" where
  "collision_free X part es es' =
     (inj_on (x_sha256 X) (hash_inputs X part es \<union> hash_inputs X part es')
      \<and> inj_on (x_canonical X) (ve_record ` (set es \<union> set es')))"

lemma collision_free_butlast:
  "collision_free X part (es @ [e]) (es' @ [e']) \<Longrightarrow> collision_free X part es es'"
proof -
  have "hash_inputs X part es \<subseteq> hash_inputs X part (es @ [e])" for es e
    by (auto simp: hash_inputs_def)
  then show "collision_free X part (es @ [e]) (es' @ [e']) \<Longrightarrow> collision_free X part es es'"
    unfolding collision_free_def by (auto intro: inj_on_subset)
qed

lemma zero_digest_wf: "wf_digest zero_digest"
  by (simp add: wf_digest_def zero_digest_def digest_byte_length_def)

lemma chained_wf:
  assumes "\<forall>s. wf_digest (x_sha256 X s)"
  shows "chained X part es s h \<Longrightarrow> wf_digest h"
  by (induction rule: chained.induct)
     (use assms in \<open>auto simp: zero_digest_wf receipt_try_new_Inr record_hash_def\<close>)

lemma chain_bound_by_last_hash:
  assumes "\<forall>s. wf_digest (x_sha256 X s)"
  shows "chained X part es s h \<Longrightarrow> chained X part es' s h \<Longrightarrow> collision_free X part es es' \<Longrightarrow> es = es'"
proof (induction es arbitrary: es' s h rule: rev_induct)
  case Nil
  then have "unat s = Suc 0" "unat s = Suc (length es')"
    using chained_length by fastforce+
  then show ?case by simp
next
  case (snoc e es)
  have "length es' = length (es @ [e])"
    using chained_length [OF snoc.prems(1)] chained_length [OF snoc.prems(2)] by simp
  then obtain fs f where es': "es' = fs @ [f]" by (cases es' rule: rev_cases) auto
  from snoc.prems(1) obtain s1 h1 rec1 c1 r1 where a: "chained X part es s1 h1"
    "x_canonical X rec1 = Some c1" "receipt_try_new part s1 h1 (record_hash X part s1 h1 c1) = Inr r1"
    "e = \<lparr>ve_receipt = r1, ve_record = rec1\<rparr>" "h = rc_record_hash r1"
    by (cases rule: chained.cases) auto
  from snoc.prems(2) es' obtain s2 h2 rec2 c2 r2 where b: "chained X part fs s2 h2"
    "x_canonical X rec2 = Some c2" "receipt_try_new part s2 h2 (record_hash X part s2 h2 c2) = Inr r2"
    "f = \<lparr>ve_receipt = r2, ve_record = rec2\<rparr>" "h = rc_record_hash r2"
    by (cases rule: chained.cases) auto
  note free = snoc.prems(3) [unfolded es']
  have "hash_input part s1 h1 c1 \<in> hash_inputs X part (es @ [e])"
    using a(2-4) by (auto simp: hash_inputs_def receipt_try_new_Inr intro!: exI [of _ e])
  moreover have "hash_input part s2 h2 c2 \<in> hash_inputs X part (fs @ [f])"
    using b(2-4) by (auto simp: hash_inputs_def receipt_try_new_Inr intro!: exI [of _ f])
  moreover have "x_sha256 X (hash_input part s1 h1 c1) = x_sha256 X (hash_input part s2 h2 c2)"
    using a(3,5) b(3,5) by (auto simp: receipt_try_new_Inr record_hash_input)
  ultimately have "hash_input part s1 h1 c1 = hash_input part s2 h2 c2"
    using free unfolding collision_free_def inj_on_def by blast
  then have same: "s1 = s2" "h1 = h2" "c1 = c2"
    using hash_input_inject chained_wf [OF assms a(1)] chained_wf [OF assms b(1)] by blast+
  then have "es = fs" using snoc.IH a(1) b(1) collision_free_butlast [OF free] by blast
  moreover have "rec1 = rec2"
  proof (rule inj_onD)
    show "inj_on (x_canonical X) (ve_record ` (set (es @ [e]) \<union> set (fs @ [f])))"
      using free by (simp only: collision_free_def)
    show "x_canonical X rec1 = x_canonical X rec2" using a(2) b(2) same(3) by simp
  qed (use a(4) b(4) in simp_all)
  moreover have "r1 = r2" using a(3) b(3) same by simp
  ultimately show ?case using a(4) b(4) es' by simp
qed

section \<open>Linked outcomes\<close>

lemma linkage_field_names: "linkage_fields = map fst (correlation_json r)"
  by (simp add: linkage_fields_def correlation_json_def)

lemma linkage_outcome:
  assumes "validate_record_linkage rec part prior = Inr ()" "get_str ''recordType'' rec = Some ''outcome''"
  obtains body entry abody where "get_object ''record'' rec = Some body"
    "entry \<in> set prior" "get_str ''writeAheadRecordId'' body = Some (rc_record_id (ve_receipt entry))"
    "authorization_body entry = Some abody"
    "\<forall>f \<in> set linkage_fields. json_get f abody \<noteq> None \<and> json_get f abody = json_get f body"
proof -
  from assms obtain body i entry abody where run: "get_object ''record'' rec = Some body"
    "get_str ''writeAheadRecordId'' body = Some i"
    "find (\<lambda>e. rc_record_id (ve_receipt e) = i) prior = Some entry"
    "authorization_body entry = Some abody" "\<forall>f \<in> set linkage_fields. check_linked_field abody body f = Inr ()"
    by (auto simp: validate_record_linkage_def split: if_splits)
  moreover have "json_get f abody \<noteq> None \<and> json_get f abody = json_get f body"
    if "check_linked_field abody body f = Inr ()" for f
    using that by (auto simp: check_linked_field_def)
  ultimately show thesis using that find_SomeD [OF run(3)] by blast
qed

section \<open>Properties\<close>

text \<open>
  A successful append extends a verifiable partition by exactly its record: the partition
  verified before, it verifies afterwards to the same entries followed by one entry with the
  returned receipt and the record's serialized form, at the next sequence number, and no other
  partition's file changes. (The last sequence number of all, 2 to the 64 minus 1, is excluded:
  there the code appends an entry that its own verification then refuses.)
\<close>

lemma append_extends_the_chain:
  assumes "codec_ok C" "append_sync C X io rec files = (Inr receipt, files')"
    and "rc_sequence receipt \<noteq> u64_max"
  shows "\<exists>es. verify_partition C X (audit_partition rec) files = Inr es
    \<and> verify_partition C X (audit_partition rec) files' =
        Inr (es @ [\<lparr>ve_receipt = receipt, ve_record = audit_record_json rec\<rparr>])
    \<and> unat (rc_sequence receipt) = Suc (length es)
    \<and> (\<forall>q. partition_path X q \<noteq> partition_path X (audit_partition rec) \<longrightarrow>
         verify_partition C X q files' = verify_partition C X q files)"
  using assms(2)
proof (cases rule: append_sync_cases)
  case (written path receipt' entry line)
  let ?c = "content_of files path"
  have full: "ai_written io = None" "\<not> ai_sync_fails io" "receipt' = receipt"
    "files' = files(path \<mapsto> ?c @ line @ [newline])"
    using written(4,5) by (auto simp: write_line_def split: option.splits if_splits)
  from prepared_entry_verifies [OF assms(1) written(2,3)] full(3) assms(3) obtain es where
    es: "read_and_verify C X ?c (audit_partition rec) = Inr es"
    "read_and_verify C X (?c @ line @ [newline]) (audit_partition rec) =
        Inr (es @ [\<lparr>ve_receipt = receipt, ve_record = audit_record_json rec\<rparr>])" by blast
  obtain s h where "chained X (audit_partition rec) (es @ [\<lparr>ve_receipt = receipt, ve_record = audit_record_json rec\<rparr>]) s h"
    using read_and_verify_chained [OF es(2)] by blast
  from chained_nth [OF this, of "length es"] have "unat (rc_sequence receipt) = Suc (length es)" by simp
  moreover have "verify_partition C X q files' = verify_partition C X q files"
    if "partition_path X q \<noteq> partition_path X (audit_partition rec)" for q
    using that written(1) full(4) by (cases "partition_path X q") (auto simp: verify_partition_content)
  ultimately show ?thesis using es written(1) full(4) by (simp add: verify_partition_content)
qed simp_all

text \<open>
  Claim C24. An append is crash safe: whatever step of the input and output fails and however many
  bytes a failed write leaves behind, a partition that verified before either verifies to the
  same entries, or to those and the appended record, or is refused because its final entry is
  incomplete; it never verifies to a history that lost or changed an entry.
\<close>

theorem append_is_crash_safe:
  assumes "codec_ok C" "append_sync C X io rec files = (res, files')"
    and "verify_partition C X p files = Inr es" "length es + 2 < 2 ^ 64"
    and "partition_path X p = partition_path X (audit_partition rec) \<longrightarrow> p = audit_partition rec"
  shows "verify_partition C X p files' = Inr es
    \<or> (\<exists>r. verify_partition C X p files' = Inr (es @ [\<lparr>ve_receipt = r, ve_record = audit_record_json rec\<rparr>]))
    \<or> verify_partition C X p files' =
        Inl (ledger_unavailable ''audit ledger has an incomplete final entry'')"
  using assms(2)
proof (cases rule: append_sync_cases)
  case (written path receipt entry line)
  show ?thesis
  proof (cases "partition_path X p = partition_path X (audit_partition rec)")
    case False
    then have "verify_partition C X p files' = verify_partition C X p files"
      using written(1,5) by (cases "partition_path X p") (auto simp: verify_partition_content)
    with assms(3) show ?thesis by simp
  next
    case True
    then have p: "p = audit_partition rec" using assms(5) by blast
    let ?c = "content_of files path"
    have before: "read_and_verify C X ?c p = Inr es"
      using assms(3) written(1) p by (simp add: verify_partition_content)
    obtain s h where chain: "chained X p es s h" using read_and_verify_chained [OF before] by blast
    have "next_position es = Inr (s, h)" by (rule chained_next_position [OF chain])
    then have "rc_sequence receipt = s"
      using written(2) before p by (auto elim!: prepare_entry_Inr simp: receipt_try_new_Inr)
    then have "rc_sequence receipt \<noteq> u64_max"
      using chained_length [OF chain] assms(4)
      by (auto simp: u64_max_def unsigned_minus_1_eq_mask mask_eq_exp_minus_1)
    from prepared_entry_verifies [OF assms(1) written(2,3) this] before p
    have whole: "read_and_verify C X (?c @ line @ [newline]) p =
        Inr (es @ [\<lparr>ve_receipt = receipt, ve_record = audit_record_json rec\<rparr>])" by simp
    have "\<exists>n. snd (write_line io ?c line) = ?c @ take n (line @ [newline])"
      by (cases "ai_written io")
         (auto simp: write_line_def intro: exI [of _ "Suc (length line)"])
    then obtain n where n: "snd (write_line io ?c line) = ?c @ take n (line @ [newline])" ..
    have after: "verify_partition C X p files' = read_and_verify C X (?c @ take n (line @ [newline])) p"
      using written(1,5) p n by (simp add: verify_partition_content)
    consider "n = 0" | "0 < n" "n \<le> length line" | "length line < n" by linarith
    then show ?thesis
    proof cases
      case 1
      then show ?thesis using after before by simp
    next
      case 2
      then show ?thesis using after torn_write_detected [OF assms(1) written(3)] by simp
    next
      case 3
      then show ?thesis using after whole by auto
    qed
  qed
qed (use assms(3) in \<open>simp_all add: verify_partition_content\<close>)

text \<open>
  Claim C25. The last receipt fixes the whole history: if two states of a partition both verify and
  their last entries carry the same record identifier, all their entries are the same, so a
  verifier who remembers one receipt detects every change, removal or reordering of what came
  before, unless SHA-256 or canonicalization collides on the very values in the two histories.
\<close>

theorem last_receipt_fixes_history:
  assumes "\<forall>s. wf_digest (x_sha256 X s)"
    and "verify_partition C X p files = Inr es" "verify_partition C X p files' = Inr es'"
    and "es \<noteq> []" "es' \<noteq> []"
    and "rc_record_id (ve_receipt (last es)) = rc_record_id (ve_receipt (last es'))"
    and "collision_free X p es es'"
  shows "es = es'"
proof -
  obtain s h s' h' where chains: "chained X p es s h" "chained X p es' s' h'"
    using assms(2,3) read_and_verify_chained by (fastforce simp: verify_partition_content)
  have ids: "rc_record_id (ve_receipt (last xs)) = receipt_record_id p
        (rc_sequence (ve_receipt (last xs))) (rc_record_hash (ve_receipt (last xs)))"
    if "chained X p xs t k" "xs \<noteq> []" for xs t k
    using chained_nth [OF that(1), of "length xs - 1"] that(2) by (simp add: last_conv_nth)
  have "rc_sequence (ve_receipt (last es)) = rc_sequence (ve_receipt (last es'))
      \<and> rc_record_hash (ve_receipt (last es)) = rc_record_hash (ve_receipt (last es'))"
    by (rule receipt_record_id_sequence [where p = p])
       (use ids [OF chains(1) assms(4)] ids [OF chains(2) assms(5)] assms(6) in argo)
  then have "s = s'" "h = h'"
    using chained_last [OF chains(1) assms(4)] chained_last [OF chains(2) assms(5)] by simp_all
  with chain_bound_by_last_hash [OF assms(1) chains(1), of es'] chains(2) assms(7) show ?thesis
    by simp
qed

text \<open>
  Claim C23. Every outcome in a verified partition is tied to the authorization it reports on: the
  record it names is an authorization at an earlier position of the same partition, the only
  entry with that identifier, and the two agree on all 27 correlation fields, none of which is
  missing.
\<close>

theorem verified_outcome_is_authorized:
  assumes "verify_partition C X p files = Inr es" "i < length es"
    and "get_str ''recordType'' (ve_record (es ! i)) = Some ''outcome''"
  shows "\<exists>j < i. \<exists>body abody. get_object ''record'' (ve_record (es ! i)) = Some body
    \<and> authorization_body (es ! j) = Some abody
    \<and> get_str ''writeAheadRecordId'' body = Some (rc_record_id (ve_receipt (es ! j)))
    \<and> (\<forall>f \<in> set linkage_fields. json_get f abody \<noteq> None \<and> json_get f abody = json_get f body)
    \<and> (\<forall>k < length es. rc_record_id (ve_receipt (es ! k)) = rc_record_id (ve_receipt (es ! j)) \<longrightarrow> k = j)"
proof -
  obtain s h where chain: "chained X p es s h"
    using assms(1) read_and_verify_chained by (fastforce simp: verify_partition_content)
  from chained_nth [OF chain assms(2)]
  have "validate_record_linkage (ve_record (es ! i)) p (take i es) = Inr ()" by simp
  then obtain body entry abody where link: "get_object ''record'' (ve_record (es ! i)) = Some body"
    "entry \<in> set (take i es)" "get_str ''writeAheadRecordId'' body = Some (rc_record_id (ve_receipt entry))"
    "authorization_body entry = Some abody"
    "\<forall>f \<in> set linkage_fields. json_get f abody \<noteq> None \<and> json_get f abody = json_get f body"
    using assms(3) by (rule linkage_outcome)
  then obtain j where j: "j < i" "entry = es ! j"
    using assms(2) by (auto simp: in_set_conv_nth)
  have "\<forall>k < length es. rc_record_id (ve_receipt (es ! k)) = rc_record_id (ve_receipt (es ! j)) \<longrightarrow> k = j"
    using chained_record_id_unique [OF chain] j(1) assms(2) by (meson less_trans)
  with link j show ?thesis by blast
qed

definition fault_free :: "append_io \<Rightarrow> bool" where
  "fault_free io =
     (\<not> ai_open_fails io \<and> \<not> ai_lock_fails io \<and> \<not> ai_read_fails io \<and> \<not> ai_seek_fails io
      \<and> ai_written io = None \<and> \<not> ai_sync_fails io)"

definition encodable :: "ledger_codec \<Rightarrow> externals \<Rightarrow> string \<Rightarrow> json \<Rightarrow> string \<Rightarrow> bool" where
  "encodable C X part rec content =
     (x_canonical X rec \<noteq> None
      \<and> (\<forall>r e. prepare_entry C X part rec content = Inr (r, e) \<longrightarrow> lk_encode C e \<noteq> None))"

lemma authorization_body_json [simp]:
  "ve_record e = audit_record_json (RecAuthorization a) \<Longrightarrow>
   authorization_body e = Some (authorization_record_json a)"
  by (simp add: authorization_body_def get_str_def get_object_def json_get_def json_str_def
      json_object_def authorization_record_json_def)

lemma correlation_json_truncate:
  "correlation_json (audit_correlation.truncate r) = correlation_json r"
  by (simp add: correlation_json_def audit_correlation.defs)

lemma correlation_json_get:
  assumes "f \<in> set linkage_fields"
  shows "json_get f (authorization_record_json a) = map_of (correlation_json a) f"
    "json_get f (outcome_record_json out) = map_of (correlation_json out) f"
    "map_of (correlation_json a) f \<noteq> None"
proof -
  have dom: "f \<in> fst ` set (correlation_json a)" "f \<in> fst ` set (correlation_json out)"
    using assms linkage_field_names [of a] linkage_field_names [of out] by (metis set_map)+
  then show "map_of (correlation_json a) f \<noteq> None" by (simp add: map_of_eq_None_iff)
  have left: "map_of (xs @ ys) f = map_of xs f" if "map_of xs f \<noteq> None" for xs ys :: "(string \<times> json) list"
    using that by (auto simp: map_add_def split: option.splits)
  have present: "map_of (correlation_json a) f \<noteq> None" "map_of (correlation_json out) f \<noteq> None"
    using dom by (simp_all add: map_of_eq_None_iff)
  show "json_get f (authorization_record_json a) = map_of (correlation_json a) f"
    unfolding json_get_def authorization_record_json_def json.case by (rule left [OF present(1)])
  have "f \<noteq> ''writeAheadRecordId'' \<and> f \<noteq> ''outcome''" using assms by (auto simp: linkage_fields_def)
  then show "json_get f (outcome_record_json out) = map_of (correlation_json out) f"
    unfolding json_get_def outcome_record_json_def json.case
    by (simp only: append_Cons append_Nil map_of.simps fst_conv snd_conv fun_upd_apply
        if_False left [OF present(2)])
qed

lemma matching_outcome_linked:
  assumes "chained X p es s h" "entry \<in> set es" "ve_record entry = audit_record_json (RecAuthorization a)"
    and "oar_write_ahead_record_id out = rc_record_id (ve_receipt entry)"
    and "audit_correlation.truncate out = audit_correlation.truncate a" "p = ax_tenant_ref out"
  shows "validate_record_linkage (audit_record_json (RecOutcome out)) p es = Inr ()"
proof -
  let ?body = "outcome_record_json out"
  have same: "correlation_json out = correlation_json a"
    using correlation_json_truncate [of out] correlation_json_truncate [of a] assms(5) by simp
  obtain i where i: "i < length es" "es ! i = entry" using assms(2) by (auto simp: in_set_conv_nth)
  obtain e where e: "find (\<lambda>e. rc_record_id (ve_receipt e) = oar_write_ahead_record_id out) es = Some e"
    using find_in_set [OF assms(2), of "\<lambda>e. rc_record_id (ve_receipt e) = oar_write_ahead_record_id out"]
      assms(4) by auto
  from find_SomeD [OF e] obtain j where j: "j < length es" "es ! j = e"
    "rc_record_id (ve_receipt e) = oar_write_ahead_record_id out" by (auto simp: in_set_conv_nth)
  have "i = j" by (rule chained_record_id_unique [OF assms(1) i(1) j(1)]) (use i j assms(4) in simp)
  with i j have "e = entry" by simp
  have fields: "\<forall>f \<in> set linkage_fields. check_linked_field (authorization_record_json a) ?body f = Inr ()"
  proof
    fix f assume f: "f \<in> set linkage_fields"
    show "check_linked_field (authorization_record_json a) ?body f = Inr ()"
      using correlation_json_get(1,3) [OF f, of a] correlation_json_get(2) [OF f, of out] same
      by (auto simp: check_linked_field_def)
  qed
  have "get_str ''tenantRef'' ?body = Some p"
    by (simp add: get_str_def json_get_def outcome_record_json_def correlation_json_def json_str_def assms(6))
  moreover have "get_str ''writeAheadRecordId'' ?body = Some (oar_write_ahead_record_id out)"
    by (simp add: get_str_def json_get_def outcome_record_json_def json_str_def)
  moreover have "get_str ''recordType'' (audit_record_json (RecOutcome out)) = Some ''outcome''"
    "get_object ''record'' (audit_record_json (RecOutcome out)) = Some ?body"
    by (simp_all add: get_str_def get_object_def json_get_def json_str_def json_object_def outcome_record_json_def)
  ultimately show ?thesis
    using e \<open>e = entry\<close> assms(3) fields
    by (simp add: validate_record_linkage_def del: audit_record_json.simps)
qed

text \<open>
  The ledger never refuses an honest outcome: when its partition verifies and holds the
  authorization the outcome names, with the same correlation fields, and no input or output
  step fails, the outcome is appended and a receipt returned.
\<close>

lemma honest_outcome_is_appended:
  assumes "verify_partition C X (ax_tenant_ref out) files = Inr es" "length es + 1 < 2 ^ 64"
    and "entry \<in> set es" "ve_record entry = audit_record_json (RecAuthorization a)"
    and "oar_write_ahead_record_id out = rc_record_id (ve_receipt entry)"
    and "audit_correlation.truncate out = audit_correlation.truncate a"
    and "fault_free io" "partition_path X (ax_tenant_ref out) = Inr path"
    and "encodable C X (ax_tenant_ref out) (audit_record_json (RecOutcome out)) (content_of files path)"
  shows "\<exists>receipt files'. append_sync C X io (RecOutcome out) files = (Inr receipt, files')"
proof -
  let ?p = "ax_tenant_ref out" and ?r = "audit_record_json (RecOutcome out)" and ?c = "content_of files path"
  have verified: "read_and_verify C X ?c ?p = Inr es"
    using assms(1,8) by (simp add: verify_partition_content)
  obtain s h where chain: "chained X ?p es s h" using read_and_verify_chained [OF verified] by blast
  have linked: "validate_record_linkage ?r ?p es = Inr ()"
    by (rule matching_outcome_linked [OF chain assms(3-6) refl])
  obtain canonical where canonical: "x_canonical X ?r = Some canonical"
    using assms(9) by (auto simp: encodable_def)
  have "receipt_partition_ok ?p"
    using assms(8) by (auto simp: partition_path_def validate_partition_def receipt_partition_ok_def)
  moreover have "s \<noteq> 0" using chained_length [OF chain] by auto
  ultimately obtain receipt where
    receipt: "receipt_try_new ?p s h (record_hash X ?p s h canonical) = Inr receipt"
    by (simp add: receipt_try_new_Inr)
  obtain e where prepared: "prepare_entry C X ?p ?r ?c = Inr (receipt, e)"
    using verified linked chained_next_position [OF chain] canonical receipt
    by (simp add: prepare_entry_def Let_def del: audit_record_json.simps)
  then obtain line where "lk_encode C e = Some line" using assms(9) by (auto simp: encodable_def)
  with assms(7,8) prepared show ?thesis
    by (simp add: append_sync_def Let_def fault_free_def content_of_def write_line_def
        del: audit_record_json.simps)
qed

section \<open>Witnesses\<close>

definition sample_correlation :: audit_correlation where
  "sample_correlation =
     \<lparr>ax_tenant_ref = ''t1'', ax_human_principal_ref = ''h1'', ax_workload_principal_ref = ''w1'',
      ax_run_ref = ''run-1'', ax_actor = ''user:1'', ax_agent = ''agent:1'', ax_task = ''task-1'',
      ax_session = ''session-1'', ax_capability = sample_identity, ax_resource = ''doc:7'',
      ax_admission_id = ''adm-1'', ax_grant_digest = sample_digest,
      ax_catalog_identity = sample_catalog, ax_catalog_digest = sample_digest,
      ax_descriptor_digest = sample_digest, ax_authority_revision_digest = sample_digest,
      ax_invocation_id = ''inv-1'', ax_status_id = ''status://inv-1'', ax_idempotency_key = ''key-1'',
      ax_proposal_digest = sample_digest, ax_portable_digest = sample_digest,
      ax_lock_digest = sample_digest, ax_binding_digest = sample_digest,
      ax_resolved_digest = sample_digest, ax_trace_id = ''11111111111111111111111111111111'',
      ax_span_id = ''2222222222222222'', ax_intended_effect = IrreversibleWrite\<rparr>"

definition sample_authorization :: authorization_audit_record where
  "sample_authorization = audit_correlation.extend sample_correlation
     (authorization_audit_record.fields ''decision-1'' [''etag''] [] 105)"

definition sample_receipt_id :: string where
  "sample_receipt_id = receipt_record_id ''t1'' 1 sample_digest"

definition sample_outcome :: outcome_audit_record where
  "sample_outcome = audit_correlation.extend sample_correlation
     (outcome_audit_record.fields sample_receipt_id AuditCompletion
        (Some (StatusSafeResult (JObj []))) None 106)"

definition sample_entry1 :: persisted_entry where
  "sample_entry1 = \<lparr>pe_partition = ''t1'', pe_sequence = 1, pe_previous_hash = zero_digest,
     pe_record_hash = sample_digest, pe_record = audit_record_json (RecAuthorization sample_authorization)\<rparr>"

definition sample_entry2 :: persisted_entry where
  "sample_entry2 = \<lparr>pe_partition = ''t1'', pe_sequence = 2, pe_previous_hash = sample_digest,
     pe_record_hash = sample_digest, pe_record = audit_record_json (RecOutcome sample_outcome)\<rparr>"

definition sample_codec :: ledger_codec where
  "sample_codec =
     \<lparr>lk_encode = \<lambda>e. if e = sample_entry1 then Some ''{1}'' else if e = sample_entry2 then Some ''{2}'' else None,
      lk_decode = \<lambda>l. if l = ''{1}'' then Some sample_entry1 else if l = ''{2}'' then Some sample_entry2 else None\<rparr>"

definition sample_io :: append_io where
  "sample_io = \<lparr>ai_open_fails = False, ai_lock_fails = False, ai_read_fails = False,
     ai_seek_fails = False, ai_written = None, ai_sync_fails = False\<rparr>"

definition sample_path :: string where
  "sample_path = digest_display sample_digest @ ''.audit.jsonl''"

definition sample_receipt :: "u64 \<Rightarrow> sha256_digest \<Rightarrow> audit_receipt" where
  "sample_receipt s previous = \<lparr>rc_partition = ''t1'', rc_sequence = s, rc_previous_hash = previous,
     rc_record_hash = sample_digest, rc_record_id = receipt_record_id ''t1'' s sample_digest\<rparr>"

definition sample_verified1 :: verified_entry where
  "sample_verified1 = \<lparr>ve_receipt = sample_receipt 1 zero_digest,
     ve_record = audit_record_json (RecAuthorization sample_authorization)\<rparr>"

definition sample_verified2 :: verified_entry where
  "sample_verified2 = \<lparr>ve_receipt = sample_receipt 2 sample_digest,
     ve_record = audit_record_json (RecOutcome sample_outcome)\<rparr>"

lemma sample_record_tenant [simp]:
  "ax_tenant_ref sample_authorization = ''t1''" "ax_tenant_ref sample_outcome = ''t1''"
  by (simp_all add: sample_authorization_def sample_outcome_def audit_correlation.defs
      authorization_audit_record.defs outcome_audit_record.defs sample_correlation_def)

lemma sample_utf8: "utf8_ok (map of_char ''{1}'')" "utf8_ok (map of_char ''{2}'')"
  by (simp_all add: utf8_ok.simps)

lemma sample_codec_ok: "codec_ok sample_codec"
  using sample_utf8
  by (auto simp: codec_ok_def sample_codec_def newline_def carriage_return_def split: if_splits)

lemma sample_tenant [simp]: "\<not> is_blank ''t1''"
  by (simp add: is_blank_def ascii_white_def white2_def)

lemma sample_partition_path [simp]: "partition_path sample_externals ''t1'' = Inr sample_path"
  by (simp add: partition_path_def validate_partition_def sample_path_def sample_externals_def
      char_in_def)

lemma sample_t1_ok [simp]: "receipt_partition_ok ''t1''"
  by (simp add: receipt_partition_ok_def char_in_def)

lemma sample_authorization_linked:
  "validate_record_linkage (audit_record_json (RecAuthorization sample_authorization)) ''t1'' es = Inr ()"
  by (simp add: validate_record_linkage_def get_str_def get_object_def json_get_def json_str_def
      json_object_def authorization_record_json_def correlation_json_def sample_authorization_def
      audit_correlation.defs authorization_audit_record.defs sample_correlation_def)

lemma sample_chain1: "chained sample_externals ''t1'' [sample_verified1] 2 sample_digest"
proof -
  have "chained sample_externals ''t1''
      ([] @ [\<lparr>ve_receipt = sample_receipt 1 zero_digest,
        ve_record = audit_record_json (RecAuthorization sample_authorization)\<rparr>]) 2
      (rc_record_hash (sample_receipt 1 zero_digest))"
    by (rule chained_snoc [OF chained_Nil, where canonical = "''json''"])
       (use sample_authorization_linked in \<open>simp_all add: sample_externals_def receipt_try_new_Inr
          record_hash_def sample_receipt_def checked_add_def\<close>)
  then show ?thesis by (simp add: sample_verified1_def sample_receipt_def)
qed

lemma sample_outcome_linked:
  "validate_record_linkage (audit_record_json (RecOutcome sample_outcome)) ''t1'' [sample_verified1] = Inr ()"
  by (rule matching_outcome_linked [OF sample_chain1, where a = sample_authorization and entry = sample_verified1])
     (simp_all add: sample_verified1_def sample_receipt_def sample_outcome_def sample_authorization_def
       sample_receipt_id_def audit_correlation.defs authorization_audit_record.defs
       outcome_audit_record.defs sample_correlation_def)

lemma sample_append1:
  "append_sync sample_codec sample_externals (sample_io\<lparr>ai_written := w\<rparr>) (RecAuthorization sample_authorization) Map.empty =
     (map_ok (\<lambda>_. sample_receipt 1 zero_digest) (fst (write_line (sample_io\<lparr>ai_written := w\<rparr>) [] ''{1}'')),
      [sample_path \<mapsto> snd (write_line (sample_io\<lparr>ai_written := w\<rparr>) [] ''{1}'')])"
proof -
  have "prepare_entry sample_codec sample_externals ''t1''
      (audit_record_json (RecAuthorization sample_authorization)) [] = Inr (sample_receipt 1 zero_digest, sample_entry1)"
    using sample_authorization_linked
    by (simp add: prepare_entry_def Let_def next_position_def sample_externals_def receipt_try_new_def
        record_hash_def sample_receipt_def sample_entry1_def del: audit_record_json.simps)
  then show ?thesis
    by (simp add: append_sync_def Let_def sample_io_def sample_codec_def
        del: audit_record_json.simps split: prod.splits)
qed

lemma sample_verify_line1:
  "verify_line sample_codec sample_externals ''t1'' ([], 1, zero_digest) ''{1}'' =
     Inr ([sample_verified1], 2, sample_digest)"
  unfolding verify_line_Inr using sample_utf8 sample_authorization_linked
  by (simp add: sample_codec_def sample_entry1_def sample_externals_def record_hash_def
      receipt_try_new_Inr checked_add_def sample_verified1_def sample_receipt_def
      del: audit_record_json.simps)

lemma sample_verify_line2:
  "verify_line sample_codec sample_externals ''t1'' ([sample_verified1], 2, sample_digest) ''{2}'' =
     Inr ([sample_verified1, sample_verified2], 3, sample_digest)"
  unfolding verify_line_Inr using sample_utf8 sample_outcome_linked
  by (simp add: sample_codec_def sample_entry2_def sample_externals_def record_hash_def
      receipt_try_new_Inr checked_add_def sample_verified2_def sample_receipt_def
      del: audit_record_json.simps)

definition sample_files :: "string \<Rightarrow> ledger_files" where
  "sample_files content = [sample_path \<mapsto> content]"

lemma sample_verify1:
  "verify_partition sample_codec sample_externals ''t1'' (sample_files (''{1}'' @ [newline])) = Inr [sample_verified1]"
  "verify_partition sample_codec sample_externals ''t1'' (sample_files (''{1}'' @ [carriage_return, newline])) =
     Inr [sample_verified1]"
proof -
  have "file_lines (''{1}'' @ [newline]) = [''{1}'']" "file_lines (''{1}'' @ [carriage_return, newline]) = [''{1}'']"
    by (simp_all add: file_lines_def newline_def strip_cr_def carriage_return_def)
  then show "verify_partition sample_codec sample_externals ''t1'' (sample_files (''{1}'' @ [newline])) = Inr [sample_verified1]"
    "verify_partition sample_codec sample_externals ''t1'' (sample_files (''{1}'' @ [carriage_return, newline])) =
       Inr [sample_verified1]"
    by (simp_all add: verify_partition_content content_of_def sample_files_def read_and_verify_def
        sample_verify_line1)
qed

lemma sample_verify2:
  "verify_partition sample_codec sample_externals ''t1'' (sample_files (''{1}'' @ [newline] @ ''{2}'' @ [newline])) =
     Inr [sample_verified1, sample_verified2]"
proof -
  have "file_lines (''{1}'' @ [newline] @ ''{2}'' @ [newline]) = [''{1}'', ''{2}'']"
    by (simp add: file_lines_def newline_def strip_cr_def carriage_return_def)
  then show ?thesis
    by (simp add: verify_partition_content content_of_def sample_files_def read_and_verify_def
        sample_verify_line1 sample_verify_line2)
qed

theorem append_is_crash_safe_witness:
  "let torn = verify_partition sample_codec sample_externals ''t1'' (sample_files ''{'') in
     torn = Inr [] \<or> (\<exists>r. torn = Inr [\<lparr>ve_receipt = r,
        ve_record = audit_record_json (RecAuthorization sample_authorization)\<rparr>])
     \<or> torn = Inl (ledger_unavailable ''audit ledger has an incomplete final entry'')"
proof -
  have run: "append_sync sample_codec sample_externals (sample_io\<lparr>ai_written := Some 1\<rparr>)
      (RecAuthorization sample_authorization) Map.empty
      = (Inl (ledger_unavailable ''audit ledger entry cannot be flushed''), sample_files ''{'')"
    using sample_append1 [of "Some 1"] by (simp add: sample_io_def write_line_def sample_files_def)
  have "verify_partition sample_codec sample_externals ''t1'' Map.empty = Inr []"
    by (simp add: verify_partition_content content_of_def)
  from append_is_crash_safe [OF sample_codec_ok run this] show ?thesis
    by (simp add: Let_def del: audit_record_json.simps)
qed

theorem last_receipt_fixes_history_witness:
  "\<exists>es. verify_partition sample_codec sample_externals ''t1'' (sample_files (''{1}'' @ [newline])) = Inr es
     \<and> es = [sample_verified1]"
proof -
  have "\<forall>s. wf_digest (x_sha256 sample_externals s)"
    by (simp add: sample_externals_def wf_digest_def sample_digest_def digest_byte_length_def)
  moreover have "collision_free sample_externals ''t1'' [sample_verified1] [sample_verified1]"
  proof -
    have "hash_inputs sample_externals ''t1'' [sample_verified1] =
        {hash_input ''t1'' 1 zero_digest ''json''}"
      by (auto simp: hash_inputs_def sample_verified1_def sample_receipt_def sample_externals_def)
    then show ?thesis by (simp add: collision_free_def)
  qed
  ultimately have "[sample_verified1] = [sample_verified1]"
    using last_receipt_fixes_history [OF _ sample_verify1] by simp
  then show ?thesis using sample_verify1(1) by simp
qed

theorem verified_outcome_is_authorized_witness:
  "\<exists>j < 1. \<exists>abody. authorization_body ([sample_verified1, sample_verified2] ! j) = Some abody
     \<and> (\<forall>f \<in> set linkage_fields. json_get f abody \<noteq> None)"
proof -
  have "get_str ''recordType'' (ve_record ([sample_verified1, sample_verified2] ! 1)) = Some ''outcome''"
    by (simp add: sample_verified2_def get_str_def json_get_def json_str_def)
  with verified_outcome_is_authorized [OF sample_verify2, of 1]
  have "\<exists>j < 1. \<exists>body abody. get_object ''record'' (ve_record ([sample_verified1, sample_verified2] ! 1)) = Some body
      \<and> authorization_body ([sample_verified1, sample_verified2] ! j) = Some abody
      \<and> get_str ''writeAheadRecordId'' body = Some (rc_record_id (ve_receipt ([sample_verified1, sample_verified2] ! j)))
      \<and> (\<forall>f \<in> set linkage_fields. json_get f abody \<noteq> None \<and> json_get f abody = json_get f body)
      \<and> (\<forall>k < length [sample_verified1, sample_verified2].
           rc_record_id (ve_receipt ([sample_verified1, sample_verified2] ! k))
             = rc_record_id (ve_receipt ([sample_verified1, sample_verified2] ! j)) \<longrightarrow> k = j)"
    by (simp only: list.size)
  then show ?thesis by blast
qed

lemma sample_prepare2:
  assumes "read_and_verify sample_codec sample_externals c ''t1'' = Inr [sample_verified1]"
  shows "prepare_entry sample_codec sample_externals ''t1'' (audit_record_json (RecOutcome sample_outcome)) c =
    Inr (sample_receipt 2 sample_digest, sample_entry2)"
proof -
  have "x_canonical sample_externals v = Some ''json''" "x_sha256 sample_externals b = sample_digest" for v b
    by (simp_all add: sample_externals_def)
  then show ?thesis using sample_outcome_linked
    by (simp add: prepare_entry_def assms Let_def chained_next_position [OF sample_chain1]
        receipt_try_new_Inr record_hash_def sample_entry2_def sample_receipt_def
        del: audit_record_json.simps)
qed

end
