(* ===== verification/KF_Effect.thy ===== *)
theory KF_Effect
  imports KF_Store KF_Ledger KF_Checks
begin

text \<open>
  Execution of an effect behind durable audit: \<open>execute_effect\<close> and \<open>persist_suspension\<close> of
  \<open>crates/kiteframe-provider/src/invocation.rs\<close>. Both are asynchronous functions, and an
  asynchronous function is a state machine whose states are its await points. A task holds the
  state, \<open>effect_step\<close> and \<open>suspend_step\<close> run the code from one await to the next, with the
  clock readings and the faults of that stretch as an argument. A provider runs any number of
  tasks; \<open>provider_step\<close> interleaves their steps, so a task that is never stepped again is an
  invocation whose future was dropped. The invocation store and the audit sink are the records
  of functions \<open>store_ops\<close> and \<open>audit_sink_ops\<close>.
\<close>

section \<open>The enforcement plane\<close>

record 's store_ops =
  sto_reserve_or_get :: "u64 \<Rightarrow> reservation_input \<Rightarrow> capability_descriptor \<Rightarrow> u64 \<Rightarrow> 's \<Rightarrow>
    (diagnostic, invocation_reservation) result \<times> 's"
  sto_transition :: "u64 \<Rightarrow> string \<Rightarrow> invocation_transition \<Rightarrow> 's \<Rightarrow> (diagnostic, unit) result \<times> 's"
  sto_status :: "status_request \<Rightarrow> status_context \<Rightarrow> 's \<Rightarrow> (diagnostic, invocation_status) result"
  sto_abandon :: "u64 \<Rightarrow> string \<Rightarrow> status_context \<Rightarrow> abandonment_authorization \<Rightarrow> 's \<Rightarrow>
    (diagnostic, unit) result \<times> 's"

record ('a, 'io) audit_sink_ops =
  aus_append :: "'io \<Rightarrow> audit_record \<Rightarrow> 'a \<Rightarrow> (diagnostic, audit_receipt) result \<times> 'a"

record effect_audit_digests =
  ead_portable_digest :: sha256_digest
  ead_lock_digest :: sha256_digest
  ead_binding_digest :: sha256_digest
  ead_resolved_digest :: sha256_digest

record ('s, 'a, 'io) enforcement_plane =
  ef_store :: "'s store_ops"
  ef_audit :: "('a, 'io) audit_sink_ops"
  ef_digests :: effect_audit_digests

text \<open>
  The world of the provider: the states of the store and of the sink, the events the event sink
  was given, and two history variables that no code reads: the identifiers a new reservation
  was made for, and the executions of operations with the authorization record each relied on.
\<close>

record ('s, 'a) effect_world =
  ew_store :: 's
  ew_audit :: 'a
  ew_events :: "string list"
  ew_reserved :: "string list"
  ew_executed :: "(string \<times> string) list"

record 'io effect_readings =
  rd_clock :: u64
  rd_store_clock :: u64
  rd_io :: 'io

definition record_event :: "string \<Rightarrow> ('s, 'a) effect_world \<Rightarrow> ('s, 'a) effect_world" where
  "record_event event w = w\<lparr>ew_events := ew_events w @ [event]\<rparr>"

definition world_reserve ::
  "'s store_ops \<Rightarrow> u64 \<Rightarrow> reservation_input \<Rightarrow> capability_descriptor \<Rightarrow> u64 \<Rightarrow> ('s, 'a) effect_world \<Rightarrow>
     (diagnostic, invocation_reservation) result \<times> ('s, 'a) effect_world" where
  "world_reserve S now input descriptor retention_until w =
     (let (res, s') = sto_reserve_or_get S now input descriptor retention_until (ew_store w) in
      (res, w\<lparr>ew_store := s', ew_reserved :=
         (case res of
            Inr v \<Rightarrow> if ir_kind v = KindReserved then ri_invocation_id input # ew_reserved w
                     else ew_reserved w
          | Inl _ \<Rightarrow> ew_reserved w)\<rparr>))"

definition world_transition ::
  "'s store_ops \<Rightarrow> u64 \<Rightarrow> string \<Rightarrow> invocation_transition \<Rightarrow> ('s, 'a) effect_world \<Rightarrow>
     (diagnostic, unit) result \<times> ('s, 'a) effect_world" where
  "world_transition S now i t w =
     (let (res, s') = sto_transition S now i t (ew_store w) in (res, w\<lparr>ew_store := s'\<rparr>))"

definition world_append ::
  "('a, 'io) audit_sink_ops \<Rightarrow> 'io \<Rightarrow> audit_record \<Rightarrow> ('s, 'a) effect_world \<Rightarrow>
     (diagnostic, audit_receipt) result \<times> ('s, 'a) effect_world" where
  "world_append A io rec w =
     (let (res, a') = aus_append A io rec (ew_audit w) in (res, w\<lparr>ew_audit := a'\<rparr>))"

section \<open>What an effect reserves\<close>

definition status_context_of :: "auth_context \<Rightarrow> (string, status_context) result" where
  "status_context_of p = status_context_try_new
     \<lparr>sc_tenant_ref = ac_tenant_ref p, sc_human_ref = ac_human_ref p,
      sc_workload_ref = ac_workload_ref p, sc_run_ref = ac_run_ref p,
      sc_actor_ref = ac_actor_ref p, sc_agent_ref = ac_agent_ref p, sc_task_ref = ac_task_ref p,
      sc_session_ref = ac_session_ref p, sc_admission_ref = ac_admission_ref p\<rparr>"

definition status_id_of :: "invocation_request \<Rightarrow> string" where
  "status_id_of q = ''status://'' @ iq_invocation_id q"

definition revisions_digest ::
  "externals \<Rightarrow> authority_revision_set \<Rightarrow> (diagnostic, sha256_digest) result" where
  "revisions_digest X revisions =
     canonical_audit_digest X (''kiteframe:authority-revisions:v1'' @ nul)
       (authority_revision_set_json revisions)"

definition effect_scope ::
  "auth_context \<Rightarrow> invocation_request \<Rightarrow> capability_descriptor \<Rightarrow>
     (diagnostic, idempotency_scope_value) result" where
  "effect_scope p q d = map_err inv_capability_error
     (scope_try_new (ac_actor_ref p) (iq_capability q) (iq_selected_resource q)
        (ci_name (cd_identity d)))"

definition reservation_input_of ::
  "invocation_request \<Rightarrow> invocation_admission \<Rightarrow> effect_proposal \<Rightarrow> string \<Rightarrow> sha256_digest \<Rightarrow>
     status_context \<Rightarrow> idempotency_scope_value \<Rightarrow> string list \<Rightarrow> reservation_input" where
  "reservation_input_of q admission proposal key revision_digest context scope refs =
     \<lparr>ri_invocation_id = iq_invocation_id q, ri_status_id = status_id_of q, ri_scope = scope,
      ri_idempotency_key = key, ri_request_digest = ep_proposal_digest proposal,
      ri_admission_id = iq_admission_id q, ri_grant_digest = iq_grant_digest q,
      ri_catalog_identity = gs_catalog_identity (ia_grant_set admission),
      ri_catalog_digest = gs_catalog_digest (ia_grant_set admission),
      ri_authority_revision_digest = revision_digest, ri_status_context = context,
      ri_proposal_digest = ep_proposal_digest proposal, ri_protected_evidence_refs = refs\<rparr>"

text \<open>The arguments of \<open>execute_effect\<close>, and what its prologue computes of them.\<close>

record effect_call =
  ec_request :: invocation_request
  ec_admission :: invocation_admission
  ec_locked :: locked_capability
  ec_revisions :: authority_revision_set
  ec_context :: invocation_context
  ec_proposal :: effect_proposal
  ec_decision :: authorization_decision
  ec_evidence :: "verified_evidence list"
  ec_operation :: capability_operation
  ec_resumed :: bool

record effect_plan =
  pn_idempotency_key :: string
  pn_revision_digest :: sha256_digest
  pn_retention_until :: u64
  pn_evidence_refs :: "(string \<times> string) list"
  pn_input :: reservation_input

abbreviation ec_descriptor :: "effect_call \<Rightarrow> capability_descriptor" where
  "ec_descriptor c \<equiv> lc_descriptor (ec_locked c)"

abbreviation ec_invocation_id :: "effect_call \<Rightarrow> string" where
  "ec_invocation_id c \<equiv> iq_invocation_id (ec_request c)"

definition effect_prologue ::
  "externals \<Rightarrow> effect_call \<Rightarrow> u64 \<Rightarrow> (diagnostic, effect_plan) result" where
  "effect_prologue X c now =
     and_then (ok_or (inv_capability_error ''effect invocation is missing its required idempotency key'')
        (iq_idempotency_key (ec_request c))) (\<lambda>key.
     and_then (map_err inv_capability_error (status_context_of (ic_principals (ec_context c)))) (\<lambda>context.
     and_then (revisions_digest X (ec_revisions c)) (\<lambda>revision_digest.
     and_then (effect_retention_deadline (ec_descriptor c) now) (\<lambda>retention_until.
     and_then (validated_audit_evidence_refs (ec_request c) (ec_evidence c)) (\<lambda>audit_refs.
     and_then (map_err inv_capability_error (try_map evidence_request_ref_new (map snd audit_refs)))
       (\<lambda>refs.
     and_then (effect_scope (ic_principals (ec_context c)) (ec_request c) (ec_descriptor c)) (\<lambda>scope.
     Inr \<lparr>pn_idempotency_key = key, pn_revision_digest = revision_digest,
          pn_retention_until = retention_until, pn_evidence_refs = audit_refs,
          pn_input = reservation_input_of (ec_request c) (ec_admission c) (ec_proposal c) key
            revision_digest context scope refs\<rparr>)))))))"

section \<open>What an effect writes to the audit sink\<close>

definition effect_correlation ::
  "effect_audit_digests \<Rightarrow> effect_call \<Rightarrow> effect_plan \<Rightarrow> string \<Rightarrow> string \<Rightarrow> audit_correlation" where
  "effect_correlation D c p trace_id span_id =
     (let q = ec_request c; principals = ic_principals (ec_context c) in
      \<lparr>ax_tenant_ref = ac_tenant_ref principals, ax_human_principal_ref = ac_human_ref principals,
       ax_workload_principal_ref = ac_workload_ref principals, ax_run_ref = ac_run_ref principals,
       ax_actor = ac_actor_ref principals, ax_agent = ac_agent_ref principals,
       ax_task = ac_task_ref principals, ax_session = ac_session_ref principals,
       ax_capability = iq_capability q, ax_resource = iq_selected_resource q,
       ax_admission_id = iq_admission_id q, ax_grant_digest = iq_grant_digest q,
       ax_catalog_identity = gs_catalog_identity (ia_grant_set (ec_admission c)),
       ax_catalog_digest = gs_catalog_digest (ia_grant_set (ec_admission c)),
       ax_descriptor_digest = lc_descriptor_digest (ec_locked c),
       ax_authority_revision_digest = pn_revision_digest p,
       ax_invocation_id = iq_invocation_id q, ax_status_id = status_id_of q,
       ax_idempotency_key = pn_idempotency_key p,
       ax_proposal_digest = ep_proposal_digest (ec_proposal c),
       ax_portable_digest = ead_portable_digest D, ax_lock_digest = ead_lock_digest D,
       ax_binding_digest = ead_binding_digest D, ax_resolved_digest = ead_resolved_digest D,
       ax_trace_id = trace_id, ax_span_id = span_id,
       ax_intended_effect = cd_effect (ec_descriptor c)\<rparr>)"

definition authorization_record_of ::
  "effect_audit_digests \<Rightarrow> effect_call \<Rightarrow> effect_plan \<Rightarrow> u64 \<Rightarrow>
     (diagnostic, (string \<times> string) \<times> authorization_audit_record) result" where
  "authorization_record_of D c p timestamp =
     and_then (trace_ids (ec_request c)) (\<lambda>(trace_id, span_id).
     and_then (case ec_decision c of
         DecisionAllow decision_ref _ _ _ \<Rightarrow> Inr decision_ref
       | _ \<Rightarrow> Inl (inv_authorization_error ''validated effect authorization is not an allow decision''))
       (\<lambda>decision_ref.
     and_then (map_err inv_capability_error
         (try_map precondition_ref_new (map fst (iq_preconditions (ec_request c))))) (\<lambda>preconditions.
     Inr ((trace_id, span_id), audit_correlation.extend (effect_correlation D c p trace_id span_id)
         (authorization_audit_record.fields decision_ref preconditions (pn_evidence_refs p) timestamp)))))"

record prepared_outcome =
  po_audit_kind :: outcome_audit_kind
  po_state :: invocation_state
  po_safe_result :: "status_safe_result option"
  po_safe_error :: "status_safe_error option"
  po_outcome :: "(diagnostic, invocation_outcome) result"

definition outcome_record_of ::
  "effect_audit_digests \<Rightarrow> effect_call \<Rightarrow> effect_plan \<Rightarrow> string \<times> string \<Rightarrow> string \<Rightarrow>
     prepared_outcome \<Rightarrow> u64 \<Rightarrow> outcome_audit_record" where
  "outcome_record_of D c p ids authorization_id prepared timestamp =
     audit_correlation.extend (effect_correlation D c p (fst ids) (snd ids))
       (outcome_audit_record.fields authorization_id (po_audit_kind prepared)
          (po_safe_result prepared) (po_safe_error prepared) timestamp)"

section \<open>What an effect answers\<close>

definition effect_outcome_unknown :: "string \<Rightarrow> string \<Rightarrow> (diagnostic, invocation_outcome) result" where
  "effect_outcome_unknown i message =
     map_err inv_capability_error (outcome_unknown_new i (diagnostic_outcome_unknown message))"

definition existing_invocation_outcome ::
  "string \<Rightarrow> invocation_state \<Rightarrow> (diagnostic, invocation_outcome) result" where
  "existing_invocation_outcome i state =
     (if state = StOutcomeUnknown
      then effect_outcome_unknown i ''effect outcome is uncertain; query status before retrying''
      else Inr (OutDeferred i))"

definition prepared_unknown :: "string \<Rightarrow> diagnostic \<Rightarrow> prepared_outcome" where
  "prepared_unknown i d =
     \<lparr>po_audit_kind = AuditOutcomeUnknown, po_state = StOutcomeUnknown, po_safe_result = None,
      po_safe_error = result_ok (status_safe_error_from_diagnostic d),
      po_outcome = effect_outcome_unknown i
        ''effect outcome is uncertain; query status before retrying''\<rparr>"

definition prepare_effect_outcome ::
  "externals \<Rightarrow> string \<Rightarrow> capability_descriptor \<Rightarrow> (operation_failure, json) result \<Rightarrow>
     prepared_outcome" where
  "prepare_effect_outcome X i d execution =
     (case execution of
        Inr result \<Rightarrow>
          (case status_safe_result_try_new X result d of
             Inr safe \<Rightarrow>
               \<lparr>po_audit_kind = AuditCompletion, po_state = StSucceeded safe,
                po_safe_result = Some safe, po_safe_error = None,
                po_outcome = Inr (OutSucceeded i result)\<rparr>
           | Inl _ \<Rightarrow> prepared_unknown i
               (inv_capability_error ''effect result failed its locked output contract''))
      | Inl (FailStable error) \<Rightarrow>
          if \<not> is_ok (validate_stable_error d error)
          then prepared_unknown i (inv_capability_error ''effect returned an undeclared stable error'')
          else (case status_safe_error_from_stable error of
             Inr safe \<Rightarrow>
               \<lparr>po_audit_kind = AuditFailure, po_state = StFailed safe, po_safe_result = None,
                po_safe_error = Some safe, po_outcome = Inr (OutFailed i error)\<rparr>
           | Inl _ \<Rightarrow> prepared_unknown i
               (inv_capability_error ''effect error could not be projected safely''))
      | Inl (FailDiagnostic diagnostic) \<Rightarrow> prepared_unknown i diagnostic)"

section \<open>The execution of an effect\<close>

record effect_grant =
  fa_trace_id :: string
  fa_span_id :: string
  fa_expected :: invocation_state
  fa_record_id :: string

text \<open>
  The await points of \<open>execute_effect\<close>: the reservation, the authorization record, the
  transition into Pending, the operation, the outcome record, the transition out of Pending and
  the fallback transitions into OutcomeUnknown.
\<close>

datatype effect_task =
    TaskReserve effect_call
  | TaskAuthorize effect_call effect_plan invocation_reservation
  | TaskBegin effect_call effect_plan effect_grant
  | TaskExecute effect_call effect_plan effect_grant
  | TaskRecord effect_call effect_plan effect_grant prepared_outcome
  | TaskUnrecorded string
  | TaskComplete string prepared_outcome string
  | TaskUncertain string string
  | TaskDone "(diagnostic, invocation_outcome) result"

fun is_suspended :: "invocation_state \<Rightarrow> bool" where
  "is_suspended (StSuspended _) = True"
| "is_suspended _ = False"

definition effect_reserve ::
  "externals \<Rightarrow> ('s, 'a, 'io) enforcement_plane \<Rightarrow> 'io effect_readings \<Rightarrow> effect_call \<Rightarrow>
     ('s, 'a) effect_world \<Rightarrow> effect_task \<times> ('s, 'a) effect_world" where
  "effect_reserve X P k c w =
     (case effect_prologue X c (rd_clock k) of
        Inl e \<Rightarrow> (TaskDone (Inl e), w)
      | Inr p \<Rightarrow>
          let (res, w') = world_reserve (ef_store P) (rd_store_clock k) (pn_input p) (ec_descriptor c)
                (pn_retention_until p) (record_event ''reserve'' w) in
          (case res of
             Inl e \<Rightarrow> (TaskDone (Inl e), w')
           | Inr reservation \<Rightarrow> (TaskAuthorize c p reservation, w')))"

definition effect_authorize ::
  "('s, 'a, 'io) enforcement_plane \<Rightarrow> 'io effect_readings \<Rightarrow> effect_call \<Rightarrow> effect_plan \<Rightarrow>
     invocation_reservation \<Rightarrow> ('s, 'a) effect_world \<Rightarrow> effect_task \<times> ('s, 'a) effect_world" where
  "effect_authorize P k c p reservation w =
     (let state = is_state (ir_status reservation);
          resuming = ec_resumed c \<and> is_suspended state in
      if ir_kind reservation = KindExisting \<and> \<not> resuming
      then (TaskDone (existing_invocation_outcome (ec_invocation_id c) state), w)
      else
        case authorization_record_of (ef_digests P) c p (rd_clock k) of
          Inl e \<Rightarrow> (TaskDone (Inl e), w)
        | Inr (ids, rec) \<Rightarrow>
            let (res, w') = world_append (ef_audit P) (rd_io k) (RecAuthorization rec) w in
            (case res of
               Inl _ \<Rightarrow> (TaskDone (Inl (audit_unavailable ''durable authorization audit append failed'')), w')
             | Inr receipt \<Rightarrow>
                 (TaskBegin c p \<lparr>fa_trace_id = fst ids, fa_span_id = snd ids,
                    fa_expected = (if resuming then state else StReserved),
                    fa_record_id = rc_record_id receipt\<rparr>,
                  record_event ''audit_authorization'' w')))"

definition effect_begin ::
  "('s, 'a, 'io) enforcement_plane \<Rightarrow> 'io effect_readings \<Rightarrow> effect_call \<Rightarrow> effect_plan \<Rightarrow> effect_grant \<Rightarrow>
     ('s, 'a) effect_world \<Rightarrow> effect_task \<times> ('s, 'a) effect_world" where
  "effect_begin P k c p f w =
     (case transition_try_new (fa_expected f) StPending (AuditAuthorization (fa_record_id f)) of
        Inl e \<Rightarrow> (TaskDone (Inl e), w)
      | Inr t \<Rightarrow>
          let (res, w') = world_transition (ef_store P) (rd_store_clock k) (ec_invocation_id c) t w in
          (case res of
             Inl e \<Rightarrow> (TaskDone (Inl e), w')
           | Inr _ \<Rightarrow> (TaskExecute c p f, w')))"

definition effect_execute ::
  "externals \<Rightarrow> effect_call \<Rightarrow> effect_plan \<Rightarrow> effect_grant \<Rightarrow> ('s, 'a) effect_world \<Rightarrow>
     effect_task \<times> ('s, 'a) effect_world" where
  "effect_execute X c p f w =
     (let execution = co_execute (ec_operation c) (ec_context c) (iq_arguments (ec_request c));
          w' = record_event ''execute'' w in
      (TaskRecord c p f (prepare_effect_outcome X (ec_invocation_id c) (ec_descriptor c) execution),
       w'\<lparr>ew_executed := (ec_invocation_id c, fa_record_id f) # ew_executed w'\<rparr>))"

definition effect_record ::
  "('s, 'a, 'io) enforcement_plane \<Rightarrow> 'io effect_readings \<Rightarrow> effect_call \<Rightarrow> effect_plan \<Rightarrow> effect_grant \<Rightarrow>
     prepared_outcome \<Rightarrow> ('s, 'a) effect_world \<Rightarrow> effect_task \<times> ('s, 'a) effect_world" where
  "effect_record P k c p f prepared w =
     (let rec = outcome_record_of (ef_digests P) c p (fa_trace_id f, fa_span_id f) (fa_record_id f)
                  prepared (rd_clock k);
          (res, w') = world_append (ef_audit P) (rd_io k) (RecOutcome rec) w in
      (case res of
         Inl _ \<Rightarrow> (TaskUnrecorded (ec_invocation_id c), w')
       | Inr receipt \<Rightarrow> (TaskComplete (ec_invocation_id c) prepared (rc_record_id receipt),
                         record_event ''audit_outcome'' w')))"

definition effect_uncertain ::
  "('s, 'a, 'io) enforcement_plane \<Rightarrow> 'io effect_readings \<Rightarrow> string \<Rightarrow> transition_audit \<Rightarrow> string \<Rightarrow>
     ('s, 'a) effect_world \<Rightarrow> effect_task \<times> ('s, 'a) effect_world" where
  "effect_uncertain P k i audit message w =
     (case transition_try_new StPending StOutcomeUnknown audit of
        Inl e \<Rightarrow> (TaskDone (Inl e), w)
      | Inr t \<Rightarrow>
          let (_, w') = world_transition (ef_store P) (rd_store_clock k) i t w in
          (TaskDone (effect_outcome_unknown i message), record_event ''terminal_status'' w'))"

definition effect_complete ::
  "('s, 'a, 'io) enforcement_plane \<Rightarrow> 'io effect_readings \<Rightarrow> string \<Rightarrow> prepared_outcome \<Rightarrow> string \<Rightarrow>
     ('s, 'a) effect_world \<Rightarrow> effect_task \<times> ('s, 'a) effect_world" where
  "effect_complete P k i prepared record_id w =
     (case transition_try_new StPending (po_state prepared) (AuditOutcome record_id) of
        Inl e \<Rightarrow> (TaskDone (Inl e), w)
      | Inr t \<Rightarrow>
          let (res, w') = world_transition (ef_store P) (rd_store_clock k) i t w in
          (case res of
             Inl _ \<Rightarrow> (TaskUncertain i record_id, w')
           | Inr _ \<Rightarrow> (TaskDone (po_outcome prepared), record_event ''terminal_status'' w')))"

fun effect_step ::
  "externals \<Rightarrow> ('s, 'a, 'io) enforcement_plane \<Rightarrow> 'io effect_readings \<Rightarrow> effect_task \<Rightarrow>
     ('s, 'a) effect_world \<Rightarrow> effect_task \<times> ('s, 'a) effect_world" where
  "effect_step X P k (TaskReserve c) w = effect_reserve X P k c w"
| "effect_step X P k (TaskAuthorize c p reservation) w = effect_authorize P k c p reservation w"
| "effect_step X P k (TaskBegin c p f) w = effect_begin P k c p f w"
| "effect_step X P k (TaskExecute c p f) w = effect_execute X c p f w"
| "effect_step X P k (TaskRecord c p f prepared) w = effect_record P k c p f prepared w"
| "effect_step X P k (TaskUnrecorded i) w =
     effect_uncertain P k i AuditNone
       ''effect outcome audit append failed; query status before retrying'' w"
| "effect_step X P k (TaskComplete i prepared record_id) w = effect_complete P k i prepared record_id w"
| "effect_step X P k (TaskUncertain i record_id) w =
     effect_uncertain P k i (AuditOutcome record_id)
       ''effect status transition failed; query status before retrying'' w"
| "effect_step X P k (TaskDone answer) w = (TaskDone answer, w)"

fun effect_run ::
  "externals \<Rightarrow> ('s, 'a, 'io) enforcement_plane \<Rightarrow> 'io effect_readings list \<Rightarrow> effect_task \<Rightarrow>
     ('s, 'a) effect_world \<Rightarrow> effect_task \<times> ('s, 'a) effect_world" where
  "effect_run X P [] task w = (task, w)"
| "effect_run X P (k # ks) task w =
     (let (task', w') = effect_step X P k task w in effect_run X P ks task' w')"

text \<open>
  \<open>execute_effect\<close> run alone: no other task steps in between. The seven readings are those of its
  longest path, and \<open>effect_run_done\<close> below shows that they are enough to reach the answer.
\<close>

definition execute_effect ::
  "externals \<Rightarrow> ('s, 'a, 'io) enforcement_plane \<Rightarrow> 'io effect_readings list \<Rightarrow> effect_call \<Rightarrow>
     ('s, 'a) effect_world \<Rightarrow> effect_task \<times> ('s, 'a) effect_world" where
  "execute_effect X P ks c w = effect_run X P (take 7 ks) (TaskReserve c) w"

section \<open>Suspension\<close>

record suspend_call =
  sp_request :: invocation_request
  sp_admission :: invocation_admission
  sp_locked :: locked_capability
  sp_revisions :: authority_revision_set
  sp_principals :: auth_context
  sp_proposal :: effect_proposal
  sp_suspension :: suspension

datatype suspend_task =
    SuspendReserve suspend_call
  | SuspendTransition suspend_call
  | SuspendDone "(diagnostic, unit) result"

definition suspension_prologue ::
  "externals \<Rightarrow> bool \<Rightarrow> suspend_call \<Rightarrow> u64 \<Rightarrow> (diagnostic, reservation_input \<times> u64) result" where
  "suspension_prologue X enforced c now =
     (let d = lc_descriptor (sp_locked c); q = sp_request c in
      if cd_effect d = ReadOnly
      then Inl (inv_capability_error ''suspendable invocations require a durable effect contract'')
      else
        and_then (ensure enforced (audit_unavailable
           ''suspendable effect requires the durable enforcement plane'')) (\<lambda>_.
        and_then (ok_or (inv_capability_error ''suspendable effect is missing its required idempotency key'')
           (iq_idempotency_key q)) (\<lambda>key.
        and_then (revisions_digest X (sp_revisions c)) (\<lambda>revision_digest.
        and_then (effect_scope (sp_principals c) q d) (\<lambda>scope.
        and_then (map_err inv_capability_error (status_context_of (sp_principals c))) (\<lambda>context.
        map_ok (\<lambda>retention_until.
            (reservation_input_of q (sp_admission c) (sp_proposal c) key revision_digest context scope [],
             retention_until))
          (effect_retention_deadline d now)))))))"

definition suspension_reserve ::
  "externals \<Rightarrow> ('s, 'a, 'io) enforcement_plane \<Rightarrow> 'io effect_readings \<Rightarrow> suspend_call \<Rightarrow>
     ('s, 'a) effect_world \<Rightarrow> suspend_task \<times> ('s, 'a) effect_world" where
  "suspension_reserve X P k c w =
     (case suspension_prologue X True c (rd_clock k) of
        Inl e \<Rightarrow> (SuspendDone (Inl e), w)
      | Inr (input, retention_until) \<Rightarrow>
          let (res, w') = world_reserve (ef_store P) (rd_store_clock k) input
                (lc_descriptor (sp_locked c)) retention_until w in
          (case res of
             Inl e \<Rightarrow> (SuspendDone (Inl e), w')
           | Inr reservation \<Rightarrow>
               (let state = is_state (ir_status reservation) in
                if state = StSuspended (sp_suspension c) then (SuspendDone (Inr ()), w')
                else if state = StReserved then (SuspendTransition c, w')
                else (SuspendDone (Inl (inv_authorization_error
                        ''invocation already has non-suspendable durable state'')), w'))))"

definition suspension_transition ::
  "('s, 'a, 'io) enforcement_plane \<Rightarrow> 'io effect_readings \<Rightarrow> suspend_call \<Rightarrow>
     ('s, 'a) effect_world \<Rightarrow> suspend_task \<times> ('s, 'a) effect_world" where
  "suspension_transition P k c w =
     (case transition_try_new StReserved (StSuspended (sp_suspension c)) AuditNone of
        Inl e \<Rightarrow> (SuspendDone (Inl e), w)
      | Inr t \<Rightarrow>
          let (res, w') = world_transition (ef_store P) (rd_store_clock k)
                (iq_invocation_id (sp_request c)) t w in
          (SuspendDone res, w'))"

fun suspend_step ::
  "externals \<Rightarrow> ('s, 'a, 'io) enforcement_plane \<Rightarrow> 'io effect_readings \<Rightarrow> suspend_task \<Rightarrow>
     ('s, 'a) effect_world \<Rightarrow> suspend_task \<times> ('s, 'a) effect_world" where
  "suspend_step X P k (SuspendReserve c) w = suspension_reserve X P k c w"
| "suspend_step X P k (SuspendTransition c) w = suspension_transition P k c w"
| "suspend_step X P k (SuspendDone answer) w = (SuspendDone answer, w)"

section \<open>A provider that runs many invocations\<close>

record ('s, 'a) provider =
  pr_world :: "('s, 'a) effect_world"
  pr_effects :: "effect_task list"
  pr_suspends :: "suspend_task list"

inductive provider_step ::
  "externals \<Rightarrow> ('s, 'a, 'io) enforcement_plane \<Rightarrow> ('s, 'a) provider \<Rightarrow> ('s, 'a) provider \<Rightarrow> bool"
  for X P where
  step_call: "provider_step X P s (s\<lparr>pr_effects := pr_effects s @ [TaskReserve c]\<rparr>)"
| step_effect: "n < length (pr_effects s) \<Longrightarrow>
    effect_step X P k (pr_effects s ! n) (pr_world s) = (task, w) \<Longrightarrow>
    provider_step X P s (s\<lparr>pr_world := w, pr_effects := (pr_effects s)[n := task]\<rparr>)"
| step_suspend_call: "provider_step X P s (s\<lparr>pr_suspends := pr_suspends s @ [SuspendReserve sc]\<rparr>)"
| step_suspend: "n < length (pr_suspends s) \<Longrightarrow>
    suspend_step X P k (pr_suspends s ! n) (pr_world s) = (stask, w) \<Longrightarrow>
    provider_step X P s (s\<lparr>pr_world := w, pr_suspends := (pr_suspends s)[n := stask]\<rparr>)"
| step_abandon: "sto_abandon (ef_store P) now i context authorization (ew_store (pr_world s)) = (res, st) \<Longrightarrow>
    provider_step X P s (s\<lparr>pr_world := (pr_world s)\<lparr>ew_store := st\<rparr>\<rparr>)"
| step_append: "aus_append (ef_audit P) io rec (ew_audit (pr_world s)) = (res', au) \<Longrightarrow>
    provider_step X P s (s\<lparr>pr_world := (pr_world s)\<lparr>ew_audit := au\<rparr>\<rparr>)"

definition provider_start :: "'s \<Rightarrow> 'a \<Rightarrow> ('s, 'a) provider" where
  "provider_start st au =
     \<lparr>pr_world = \<lparr>ew_store = st, ew_audit = au, ew_events = [], ew_reserved = [], ew_executed = []\<rparr>,
      pr_effects = [], pr_suspends = []\<rparr>"

definition provider_reachable ::
  "externals \<Rightarrow> ('s, 'a, 'io) enforcement_plane \<Rightarrow> ('s, 'a) provider \<Rightarrow> ('s, 'a) provider \<Rightarrow> bool" where
  "provider_reachable X P start s = (provider_step X P)\<^sup>*\<^sup>* start s"

text \<open>A task owns its invocation from the transition into Pending to the one out of it.\<close>

fun owned_id :: "effect_task \<Rightarrow> string option" where
  "owned_id (TaskExecute c p f) = Some (ec_invocation_id c)"
| "owned_id (TaskRecord c p f prepared) = Some (ec_invocation_id c)"
| "owned_id (TaskUnrecorded i) = Some i"
| "owned_id (TaskComplete i prepared record_id) = Some i"
| "owned_id (TaskUncertain i record_id) = Some i"
| "owned_id _ = None"

fun starting_id :: "effect_task \<Rightarrow> string option" where
  "starting_id (TaskExecute c p f) = Some (ec_invocation_id c)"
| "starting_id _ = None"

definition unstarted :: "stored_invocation \<Rightarrow> bool" where
  "unstarted r = (si_state r = StReserved \<or> is_suspended (si_state r))"

definition may_start :: "stored_invocation set \<Rightarrow> effect_task list \<Rightarrow> string \<Rightarrow> bool" where
  "may_start recs tasks i =
     ((\<exists>r \<in> recs. si_invocation_id r = i \<and> unstarted r) \<or> (\<exists>t \<in> set tasks. starting_id t = Some i))"

definition executions :: "('s, 'a) effect_world \<Rightarrow> string \<Rightarrow> nat" where
  "executions w i = count_list (map fst (ew_executed w)) i"

definition owners_distinct :: "effect_task list \<Rightarrow> bool" where
  "owners_distinct tasks =
     (\<forall>m < length tasks. \<forall>n < length tasks.
        owned_id (tasks ! m) \<noteq> None \<longrightarrow> owned_id (tasks ! m) = owned_id (tasks ! n) \<longrightarrow> m = n)"

definition owners_pending :: "stored_invocation set \<Rightarrow> effect_task list \<Rightarrow> bool" where
  "owners_pending recs tasks =
     (\<forall>t \<in> set tasks. \<forall>i. owned_id t = Some i \<longrightarrow>
        (\<exists>r \<in> recs. si_invocation_id r = i \<and> si_state r = StPending))"

definition starts_counted ::
  "stored_invocation set \<Rightarrow> ('s, 'a) effect_world \<Rightarrow> effect_task list \<Rightarrow> bool" where
  "starts_counted recs w tasks =
     (\<forall>i. executions w i + of_bool (may_start recs tasks i) \<le> count_list (ew_reserved w) i)"

definition exclusive_starts ::
  "stored_invocation set \<Rightarrow> ('s, 'a) effect_world \<Rightarrow> effect_task list \<Rightarrow> bool" where
  "exclusive_starts recs w tasks =
     (owners_distinct tasks \<and> owners_pending recs tasks \<and> starts_counted recs w tasks)"

text \<open>
  What the sink must hold for a task: the authorization record of a task that got a receipt, the
  outcome record with its authorization of one that reports an outcome, and both for an answer
  that claims a result.
\<close>

type_synonym 'a durability = "'a \<Rightarrow> string \<Rightarrow> audit_record \<Rightarrow> bool"

definition grant_audited ::
  "'a durability \<Rightarrow> effect_audit_digests \<Rightarrow> 'a \<Rightarrow> effect_call \<Rightarrow> effect_plan \<Rightarrow> effect_grant \<Rightarrow> bool" where
  "grant_audited durable D a c p f =
     (\<exists>rec. durable a (fa_record_id f) (RecAuthorization rec)
        \<and> audit_correlation.truncate rec = effect_correlation D c p (fa_trace_id f) (fa_span_id f))"

definition audited_outcome ::
  "'a durability \<Rightarrow> 'a \<Rightarrow> string \<Rightarrow> outcome_audit_kind \<Rightarrow> status_safe_result option \<Rightarrow>
     status_safe_error option \<Rightarrow> bool" where
  "audited_outcome durable a i kind safe_result safe_error =
     (\<exists>outcome_id outcome authorization.
        durable a outcome_id (RecOutcome outcome) \<and> ax_invocation_id outcome = i
        \<and> oar_outcome outcome = kind \<and> oar_safe_result outcome = safe_result
        \<and> oar_safe_error outcome = safe_error
        \<and> durable a (oar_write_ahead_record_id outcome) (RecAuthorization authorization)
        \<and> audit_correlation.truncate authorization = audit_correlation.truncate outcome)"

definition answer_backed ::
  "externals \<Rightarrow> 'a durability \<Rightarrow> 'a \<Rightarrow> (diagnostic, invocation_outcome) result \<Rightarrow> bool" where
  "answer_backed X durable a answer =
     (case answer of
        Inr (OutSucceeded i v) \<Rightarrow>
          (\<exists>d safe. status_safe_result_try_new X v d = Inr safe
             \<and> audited_outcome durable a i AuditCompletion (Some safe) None)
      | Inr (OutFailed i error) \<Rightarrow>
          (\<exists>d safe. validate_stable_error d error = Inr () \<and> status_safe_error_from_stable error = Inr safe
             \<and> audited_outcome durable a i AuditFailure None (Some safe))
      | Inr (OutDenied _ _) \<Rightarrow> False
      | Inr (OutSuspended _ _) \<Rightarrow> False
      | _ \<Rightarrow> True)"

fun task_audited ::
  "externals \<Rightarrow> 'a durability \<Rightarrow> effect_audit_digests \<Rightarrow> 'a \<Rightarrow> effect_task \<Rightarrow> bool" where
  "task_audited X durable D a (TaskBegin c p f) = grant_audited durable D a c p f"
| "task_audited X durable D a (TaskExecute c p f) = grant_audited durable D a c p f"
| "task_audited X durable D a (TaskRecord c p f prepared) = grant_audited durable D a c p f"
| "task_audited X durable D a (TaskComplete i prepared record_id) =
     audited_outcome durable a i (po_audit_kind prepared) (po_safe_result prepared) (po_safe_error prepared)"
| "task_audited X durable D a (TaskDone answer) = answer_backed X durable a answer"
| "task_audited X durable D a _ = True"

definition execution_audited :: "'a durability \<Rightarrow> 'a \<Rightarrow> string \<times> string \<Rightarrow> bool" where
  "execution_audited durable a e =
     (\<exists>rec. durable a (snd e) (RecAuthorization rec) \<and> ax_invocation_id rec = fst e)"

section \<open>How a step moves a task\<close>

lemma suspended_fences: "is_suspended s \<Longrightarrow> state_fences s"
  by (cases s) simp_all

lemma unstarted_fences: "unstarted r \<Longrightarrow> state_fences (si_state r)"
  by (auto simp: unstarted_def suspended_fences)

lemma allowed_to_pending: "allowed_transition e StPending \<Longrightarrow> e = StReserved \<or> is_suspended e"
  by (cases e) simp_all

lemma starting_owned: "starting_id t = Some i \<Longrightarrow> owned_id t = Some i"
  by (cases t) simp_all

lemma record_event_simps [simp]:
  "ew_store (record_event e w) = ew_store w" "ew_audit (record_event e w) = ew_audit w"
  "ew_reserved (record_event e w) = ew_reserved w" "ew_executed (record_event e w) = ew_executed w"
  by (simp_all add: record_event_def)

lemma prepared_state_final:
  "po_state (prepare_effect_outcome X i d e) \<noteq> StPending"
  "\<not> is_suspended (po_state (prepare_effect_outcome X i d e))"
  by (auto simp: prepare_effect_outcome_def prepared_unknown_def split: sum.splits operation_failure.splits)

text \<open>The moves of a task, as far as reservations, transitions and executions go.\<close>

definition task_keeps :: "effect_task \<Rightarrow> effect_task \<Rightarrow> bool" where
  "task_keeps t t' = ((owned_id t' = None \<or> owned_id t' = owned_id t)
     \<and> (starting_id t' = None \<or> starting_id t' = starting_id t))"

lemma world_append_simps:
  assumes "world_append A io rec w = (res, w')"
  shows "aus_append A io rec (ew_audit w) = (res, ew_audit w')" "ew_store w' = ew_store w"
    "ew_reserved w' = ew_reserved w" "ew_executed w' = ew_executed w"
  using assms by (auto simp: world_append_def split: prod.splits)

lemma world_transition_simps:
  assumes "world_transition S now i t w = (res, w')"
  shows "sto_transition S now i t (ew_store w) = (res, ew_store w')" "ew_audit w' = ew_audit w"
    "ew_reserved w' = ew_reserved w" "ew_executed w' = ew_executed w"
  using assms by (auto simp: world_transition_def split: prod.splits)

lemma world_reserve_simps:
  assumes "world_reserve S now q d ret w = (res, w')"
  shows "sto_reserve_or_get S now q d ret (ew_store w) = (res, ew_store w')" "ew_audit w' = ew_audit w"
    "ew_executed w' = ew_executed w"
    "ew_reserved w' = (if \<exists>v. res = Inr v \<and> ir_kind v = KindReserved
       then ri_invocation_id q # ew_reserved w else ew_reserved w)"
  using assms by (auto simp: world_reserve_def split: prod.splits sum.splits)

fun wf_task :: "externals \<Rightarrow> effect_task \<Rightarrow> bool" where
  "wf_task X (TaskRecord c p f prepared) =
     (\<exists>e. prepared = prepare_effect_outcome X (ec_invocation_id c) (ec_descriptor c) e)"
| "wf_task X (TaskComplete i prepared record_id) = (\<exists>d e. prepared = prepare_effect_outcome X i d e)"
| "wf_task X _ = True"

lemma effect_step_wf:
  assumes "effect_step X P k t w = (t', w')" "wf_task X t" shows "wf_task X t'"
  using assms
  by (cases t; auto simp: effect_reserve_def effect_authorize_def effect_begin_def effect_execute_def
       effect_record_def effect_complete_def effect_uncertain_def Let_def split: sum.splits prod.splits if_splits; blast)

lemma effect_uncertain_moves:
  assumes "effect_uncertain P k i a m w = (t', w')"
  obtains (stay) e where "t' = TaskDone (Inl e)" "w' = w"
  | (refused) now tr e where "sto_transition (ef_store P) now i tr (ew_store w) = (Inl e, ew_store w')"
      "ew_reserved w' = ew_reserved w" "ew_executed w' = ew_executed w" "ew_audit w' = ew_audit w"
      "t' = TaskDone (effect_outcome_unknown i m)"
  | (leave) now tr where "transition_try_new StPending StOutcomeUnknown a = Inr tr"
      "sto_transition (ef_store P) now i tr (ew_store w) = (Inr (), ew_store w')"
      "ew_reserved w' = ew_reserved w" "ew_executed w' = ew_executed w" "ew_audit w' = ew_audit w"
      "t' = TaskDone (effect_outcome_unknown i m)"
proof (cases "transition_try_new StPending StOutcomeUnknown a")
  case (Inl e)
  with assms show thesis by (intro stay [of e]) (simp_all add: effect_uncertain_def)
next
  case (Inr tr)
  obtain res w1 where run: "world_transition (ef_store P) (rd_store_clock k) i tr w = (res, w1)" by fastforce
  have t': "t' = TaskDone (effect_outcome_unknown i m)" "w' = record_event ''terminal_status'' w1"
    using assms Inr run by (simp_all add: effect_uncertain_def)
  with world_transition_simps [OF run] Inr refused leave show thesis by (cases res) auto
qed

lemma effect_step_moves:
  assumes step: "effect_step X P k t w = (t', w')" and wf: "wf_task X t"
  obtains (stay) "ew_store w' = ew_store w" "ew_reserved w' = ew_reserved w"
      "ew_executed w' = ew_executed w" "task_keeps t t'"
  | (refused) now i tr e where "sto_transition (ef_store P) now i tr (ew_store w) = (Inl e, ew_store w')"
      "ew_reserved w' = ew_reserved w" "ew_executed w' = ew_executed w" "task_keeps t t'"
  | (reserve) now q d ret res where "owned_id t' = None"
      "sto_reserve_or_get (ef_store P) now q d ret (ew_store w) = (res, ew_store w')"
      "ew_executed w' = ew_executed w"
      "ew_reserved w' = (if \<exists>v. res = Inr v \<and> ir_kind v = KindReserved
         then ri_invocation_id q # ew_reserved w else ew_reserved w)"
  | (start) now i e a tr where "owned_id t = None" "starting_id t' = Some i"
      "transition_try_new e StPending a = Inr tr"
      "sto_transition (ef_store P) now i tr (ew_store w) = (Inr (), ew_store w')"
      "ew_reserved w' = ew_reserved w" "ew_executed w' = ew_executed w"
  | (run) i record_id where "starting_id t = Some i" "owned_id t' = Some i" "starting_id t' = None"
      "ew_store w' = ew_store w" "ew_reserved w' = ew_reserved w"
      "ew_executed w' = (i, record_id) # ew_executed w"
  | (leave) now i x a tr where "owned_id t = Some i" "starting_id t = None" "owned_id t' = None"
      "transition_try_new StPending x a = Inr tr" "x \<noteq> StPending" "\<not> is_suspended x"
      "sto_transition (ef_store P) now i tr (ew_store w) = (Inr (), ew_store w')"
      "ew_reserved w' = ew_reserved w" "ew_executed w' = ew_executed w"
proof (cases t)
  case (TaskReserve c)
  show thesis
  proof (cases "effect_prologue X c (rd_clock k)")
    case (Inl e)
    with step TaskReserve stay show thesis by (auto simp: effect_reserve_def task_keeps_def)
  next
    case (Inr p)
    obtain res w1 where run: "world_reserve (ef_store P) (rd_store_clock k) (pn_input p) (ec_descriptor c)
        (pn_retention_until p) (record_event ''reserve'' w) = (res, w1)" by fastforce
    with step TaskReserve Inr have "w' = w1" "owned_id t' = None"
      by (auto simp: effect_reserve_def split: sum.splits)
    with world_reserve_simps [OF run] reserve show thesis by simp
  qed
next
  case (TaskAuthorize c p v)
  have "ew_store w' = ew_store w" "ew_reserved w' = ew_reserved w" "ew_executed w' = ew_executed w"
    "owned_id t' = None" "starting_id t' = None"
    using step TaskAuthorize
    by (auto simp: effect_authorize_def Let_def world_append_simps split: if_splits sum.splits prod.splits)
  with stay show thesis by (simp add: task_keeps_def)
next
  case (TaskBegin c p f)
  show thesis
  proof (cases "transition_try_new (fa_expected f) StPending (AuditAuthorization (fa_record_id f))")
    case (Inl e)
    with step TaskBegin stay show thesis by (auto simp: effect_begin_def task_keeps_def)
  next
    case (Inr tr)
    obtain res w1 where run: "world_transition (ef_store P) (rd_store_clock k) (ec_invocation_id c) tr w = (res, w1)"
      by fastforce
    note moved = world_transition_simps [OF run]
    show thesis
    proof (cases res)
      case (Inl e)
      with step TaskBegin Inr run moved refused show thesis by (auto simp: effect_begin_def task_keeps_def)
    next
      case ok: (Inr u)
      with step TaskBegin Inr run have "w' = w1" "t' = TaskExecute c p f" by (auto simp: effect_begin_def)
      with start [OF _ _ Inr] moved ok TaskBegin show thesis by simp
    qed
  qed
next
  case (TaskExecute c p f)
  with step have "t' = TaskRecord c p f (prepare_effect_outcome X (ec_invocation_id c) (ec_descriptor c)
      (co_execute (ec_operation c) (ec_context c) (iq_arguments (ec_request c))))"
    "w' = (record_event ''execute'' w)\<lparr>ew_executed := (ec_invocation_id c, fa_record_id f) # ew_executed w\<rparr>"
    by (auto simp: effect_execute_def Let_def)
  with run TaskExecute show thesis by simp
next
  case (TaskRecord c p f prepared)
  have "ew_store w' = ew_store w" "ew_reserved w' = ew_reserved w" "ew_executed w' = ew_executed w"
    "owned_id t' = Some (ec_invocation_id c)" "starting_id t' = None"
    using step TaskRecord
    by (auto simp: effect_record_def Let_def world_append_simps split: sum.splits prod.splits)
  with stay TaskRecord show thesis by (simp add: task_keeps_def)
next
  case (TaskUnrecorded i)
  with step have "effect_uncertain P k i AuditNone
      ''effect outcome audit append failed; query status before retrying'' w = (t', w')" by simp
  then show thesis
    by (rule effect_uncertain_moves) (use TaskUnrecorded in \<open>auto simp: task_keeps_def intro: stay refused leave\<close>)
next
  case (TaskUncertain i record_id)
  with step have "effect_uncertain P k i (AuditOutcome record_id)
      ''effect status transition failed; query status before retrying'' w = (t', w')" by simp
  then show thesis
    by (rule effect_uncertain_moves) (use TaskUncertain in \<open>auto simp: task_keeps_def intro: stay refused leave\<close>)
next
  case (TaskComplete i prepared record_id)
  then obtain d e where prepared: "prepared = prepare_effect_outcome X i d e" using wf by auto
  show thesis
  proof (cases "transition_try_new StPending (po_state prepared) (AuditOutcome record_id)")
    case (Inl e)
    with step TaskComplete stay show thesis by (auto simp: effect_complete_def task_keeps_def)
  next
    case (Inr tr)
    obtain res w1 where run: "world_transition (ef_store P) (rd_store_clock k) i tr w = (res, w1)"
      by fastforce
    note moved = world_transition_simps [OF run]
    show thesis
    proof (cases res)
      case (Inl e)
      with step TaskComplete Inr run moved refused show thesis by (auto simp: effect_complete_def task_keeps_def)
    next
      case ok: (Inr u)
      with step TaskComplete Inr run have "ew_store w' = ew_store w1" "ew_reserved w' = ew_reserved w1"
        "ew_executed w' = ew_executed w1" "owned_id t' = None" by (auto simp: effect_complete_def)
      with leave [OF _ _ _ Inr] moved ok TaskComplete prepared_state_final prepared show thesis by simp
    qed
  qed
qed (use step stay in \<open>simp add: task_keeps_def\<close>)

lemma owners_distinct_update:
  assumes "owners_distinct tasks" "n < length tasks"
    and "\<And>m. m < length tasks \<Longrightarrow> m \<noteq> n \<Longrightarrow> owned_id t' \<noteq> None \<Longrightarrow> owned_id (tasks ! m) \<noteq> owned_id t'"
  shows "owners_distinct (tasks[n := t'])"
  using assms unfolding owners_distinct_def by (auto simp: nth_list_update)

lemma owners_distinct_keep:
  assumes "owners_distinct tasks" "n < length tasks"
    and "owned_id t' = None \<or> owned_id t' = owned_id (tasks ! n)"
  shows "owners_distinct (tasks[n := t'])"
proof (rule owners_distinct_update [OF assms(1,2)])
  fix m assume "m < length tasks" "m \<noteq> n" "owned_id t' \<noteq> None"
  with assms show "owned_id (tasks ! m) \<noteq> owned_id t'" unfolding owners_distinct_def by metis
qed

lemma owners_pending_update:
  assumes "n < length tasks" "owners_pending recs tasks" "owned_id t' = None \<or> owned_id t' = owned_id (tasks ! n)"
  shows "owners_pending recs (tasks[n := t'])"
  unfolding owners_pending_def
proof (intro ballI allI impI)
  fix t i assume t: "t \<in> set (tasks[n := t'])" "owned_id t = Some i"
  then have "t \<in> set tasks \<or> t = t'" using set_update_subset_insert [of tasks n t'] by blast
  then obtain u where "u \<in> set tasks" "owned_id u = Some i"
    using t(2) assms(3) nth_mem [OF assms(1)] by auto
  with assms(2) show "\<exists>r \<in> recs. si_invocation_id r = i \<and> si_state r = StPending"
    unfolding owners_pending_def by blast
qed

lemma owner_elsewhere:
  assumes "owners_distinct tasks" "n < length tasks" "owned_id (tasks ! n) = Some i"
    and "t \<in> set (tasks[n := t'])" "owned_id t = Some i"
  shows "t = t'"
proof -
  obtain m where m: "m < length tasks" "t = tasks[n := t'] ! m"
    using assms(4) by (auto simp: in_set_conv_nth)
  show ?thesis
  proof (cases "m = n")
    case False
    with m assms have "m = n" unfolding owners_distinct_def by (metis nth_list_update_neq option.discI)
    with False show ?thesis ..
  qed (use m assms(2) in simp)
qed

lemma may_start_mono:
  assumes "may_start recs' (tasks[n := t']) i" "n < length tasks"
    and "\<And>r. r \<in> recs' \<Longrightarrow> unstarted r \<Longrightarrow> si_invocation_id r = i \<Longrightarrow> r \<in> recs"
    and "starting_id t' = None \<or> starting_id t' = starting_id (tasks ! n) \<or> starting_id t' \<noteq> Some i"
  shows "may_start recs tasks i"
  using assms set_update_subset_insert [of tasks n t'] nth_mem [OF assms(2)]
  unfolding may_start_def by fastforce

lemma starts_counted_mono:
  assumes "starts_counted recs w tasks" "ew_reserved w' = ew_reserved w" "ew_executed w' = ew_executed w"
    and "\<And>i. may_start recs' tasks' i \<Longrightarrow> may_start recs tasks i"
  shows "starts_counted recs' w' tasks'"
  unfolding starts_counted_def
proof
  fix i
  have "executions w' i + of_bool (may_start recs' tasks' i) \<le> executions w i + of_bool (may_start recs tasks i)"
    using assms(3,4) by (simp add: executions_def)
  also have "\<dots> \<le> count_list (ew_reserved w') i" using assms(1,2) by (simp add: starts_counted_def)
  finally show "executions w' i + of_bool (may_start recs' tasks' i) \<le> count_list (ew_reserved w') i" .
qed

section \<open>How a step keeps the audit\<close>

definition audit_grows :: "'a durability \<Rightarrow> 'a \<Rightarrow> 'a \<Rightarrow> bool" where
  "audit_grows durable a a' = (\<forall>i x. durable a i x \<longrightarrow> durable a' i x)"

lemma grant_audited_grows:
  "grant_audited durable D a c p f \<Longrightarrow> audit_grows durable a a' \<Longrightarrow> grant_audited durable D a' c p f"
  unfolding grant_audited_def audit_grows_def by blast

lemma audited_outcome_grows:
  "audited_outcome durable a i kind r e \<Longrightarrow> audit_grows durable a a' \<Longrightarrow> audited_outcome durable a' i kind r e"
  unfolding audited_outcome_def audit_grows_def by blast

lemma answer_backed_grows:
  "answer_backed X durable a answer \<Longrightarrow> audit_grows durable a a' \<Longrightarrow> answer_backed X durable a' answer"
  unfolding answer_backed_def
  by (auto split: sum.splits invocation_outcome.splits intro: audited_outcome_grows)

lemma task_audited_grows:
  "task_audited X durable D a t \<Longrightarrow> audit_grows durable a a' \<Longrightarrow> task_audited X durable D a' t"
  by (cases t) (auto intro: grant_audited_grows audited_outcome_grows answer_backed_grows)

lemma execution_audited_grows:
  "execution_audited durable a e \<Longrightarrow> audit_grows durable a a' \<Longrightarrow> execution_audited durable a' e"
  unfolding execution_audited_def audit_grows_def by blast

lemma correlation_truncate [simp]:
  "audit_correlation.truncate (audit_correlation.extend r (m :: 'm)) = r"
  by (cases r) (simp add: audit_correlation.defs)

lemma truncate_invocation_id:
  "audit_correlation.truncate rec = effect_correlation D c p t s \<Longrightarrow> ax_invocation_id rec = ec_invocation_id c"
  by (cases rec) (auto simp: audit_correlation.defs effect_correlation_def Let_def)

lemma authorization_record_correlation:
  "authorization_record_of D c p now = Inr (ids, rec) \<Longrightarrow>
   audit_correlation.truncate rec = effect_correlation D c p (fst ids) (snd ids)"
  by (auto simp: authorization_record_of_def)

lemma unknown_answer_backed [simp]: "answer_backed X durable a (effect_outcome_unknown i m)"
  by (auto simp: answer_backed_def effect_outcome_unknown_def outcome_unknown_new_def status_first_try_new_def
      split: sum.splits invocation_outcome.splits)

lemma existing_answer_backed [simp]: "answer_backed X durable a (existing_invocation_outcome i st)"
  by (simp add: existing_invocation_outcome_def) (simp add: answer_backed_def)

lemma error_answer_backed [simp]: "answer_backed X durable a (Inl e)"
  by (simp add: answer_backed_def)

lemma prepared_answer_backed:
  assumes "prepared = prepare_effect_outcome X i d e"
    and "audited_outcome durable a i (po_audit_kind prepared) (po_safe_result prepared) (po_safe_error prepared)"
  shows "answer_backed X durable a (po_outcome prepared)"
proof (cases e)
  case (Inr v)
  show ?thesis
  proof (cases "status_safe_result_try_new X v d")
    case (Inr safe)
    with assms \<open>e = Inr v\<close> show ?thesis by (auto simp: prepare_effect_outcome_def answer_backed_def)
  qed (use assms \<open>e = Inr v\<close> in \<open>simp add: prepare_effect_outcome_def prepared_unknown_def\<close>)
next
  case (Inl failure)
  show ?thesis
  proof (cases failure)
    case (FailStable error)
    show ?thesis
    proof (cases "is_ok (validate_stable_error d error)")
      case ok: True
      show ?thesis
      proof (cases "status_safe_error_from_stable error")
        case (Inr safe)
        with assms \<open>e = Inl failure\<close> FailStable ok show ?thesis
          by (auto simp: prepare_effect_outcome_def answer_backed_def is_ok_iff)
      qed (use assms \<open>e = Inl failure\<close> FailStable ok in
            \<open>simp add: prepare_effect_outcome_def prepared_unknown_def\<close>)
    qed (use assms \<open>e = Inl failure\<close> FailStable in
          \<open>simp add: prepare_effect_outcome_def prepared_unknown_def\<close>)
  qed (use assms \<open>e = Inl failure\<close> in \<open>simp add: prepare_effect_outcome_def prepared_unknown_def\<close>)
qed

definition provider_inv ::
  "('s \<Rightarrow> bool) \<Rightarrow> ('s \<Rightarrow> stored_invocation set) \<Rightarrow> 'a durability \<Rightarrow> externals \<Rightarrow>
     ('s, 'a, 'io) enforcement_plane \<Rightarrow> ('s, 'a) provider \<Rightarrow> bool" where
  "provider_inv well_formed records durable X P s =
     (let w = pr_world s in
      well_formed (ew_store w) \<and> exclusive_starts (records (ew_store w)) w (pr_effects s)
      \<and> (\<forall>t \<in> set (pr_effects s). wf_task X t \<and> task_audited X durable (ef_digests P) (ew_audit w) t)
      \<and> (\<forall>e \<in> set (ew_executed w). execution_audited durable (ew_audit w) e))"

section \<open>The audit sink's contract and the platform\<close>

text \<open>
  What the execution relies on of its sink: an append that returns a receipt has made the record
  durable under the receipt's identifier, and nothing durable is ever lost, whatever a later
  append meets.
\<close>

locale audit_sink =
  fixes durable :: "'a \<Rightarrow> string \<Rightarrow> audit_record \<Rightarrow> bool"
    and append :: "'io \<Rightarrow> audit_record \<Rightarrow> 'a \<Rightarrow> (diagnostic, audit_receipt) result \<times> 'a"
  assumes append_durable: "append io rec a = (Inr receipt, a') \<Longrightarrow> durable a' (rc_record_id receipt) rec"
    and append_kept: "append io rec a = (res, a') \<Longrightarrow> durable a i x \<Longrightarrow> durable a' i x"

locale effect_platform =
  invocation_store inv records "sto_reserve_or_get (ef_store P)" "sto_transition (ef_store P)"
    "sto_status (ef_store P)" "sto_abandon (ef_store P)" +
  audit_sink durable "aus_append (ef_audit P)"
  for inv :: "'s \<Rightarrow> bool" and records and P :: "('s, 'a, 'io) enforcement_plane" and durable
begin

lemma reserve_keeps_fencing:
  assumes "inv s" "sto_reserve_or_get (ef_store P) now q d ret s = (res, s')" "r \<in> records s"
    "state_fences (si_state r)"
  shows "r \<in> records s'"
  using reserve_kept [OF assms(1-3)] assms(4) by blast

lemma reserve_unstarted:
  assumes "inv s" "sto_reserve_or_get (ef_store P) now q d ret s = (res, s')" "r \<in> records s'"
  shows "r \<in> records s
    \<or> (\<exists>v. res = Inr v \<and> ir_kind v = KindReserved) \<and> si_invocation_id r = ri_invocation_id q"
  using reserve_added [OF assms] stored_try_reserve_Inr(3)
  by (fastforce simp: reservation_from_stored_def)

lemma transition_moves:
  assumes "inv s" "transition_try_new e x a = Inr tr"
    "sto_transition (ef_store P) now i tr s = (Inr u, s')"
  obtains r r' where "r \<in> records s" "si_invocation_id r = i" "si_state r = e" "r' \<in> records s'"
    "si_invocation_id r' = i" "si_state r' = x" "records s' = insert r' (records s - {r})" "inv s'"
proof -
  have tr: "it_expected tr = e" "it_next tr = x" using assms(2) by (auto simp: transition_try_new_Inr)
  obtain r r' where *: "r \<in> records s" "si_invocation_id r = i" "apply_transition now tr r = Inr r'"
    "records s' = insert r' (records s - {r})"
    using transition_ok [OF assms(1,3)] by blast
  have "inv s'" using transition_inv [OF assms(1) transition_try_new_valid [OF assms(2)] assms(3)] .
  with * apply_transition_fields [OF *(3)] tr that [of r r'] show thesis by auto
qed

lemma transition_other:
  assumes "inv s" "transition_try_new e x a = Inr tr"
    "sto_transition (ef_store P) now i tr s = (Inr u, s')" "si_invocation_id y \<noteq> i"
  shows "y \<in> records s' \<longleftrightarrow> y \<in> records s"
proof -
  obtain r r' where "records s' = insert r' (records s - {r})" "si_invocation_id r = i"
    "si_invocation_id r' = i"
    by (rule transition_moves [OF assms(1-3)])
  with assms(4) show ?thesis by auto
qed

lemma transition_same:
  assumes "inv s" "transition_try_new e x a = Inr tr"
    "sto_transition (ef_store P) now i tr s = (Inr u, s')" "y \<in> records s'" "si_invocation_id y = i"
  shows "si_state y = x"
proof -
  obtain r' where "r' \<in> records s'" "si_invocation_id r' = i" "si_state r' = x" "inv s'"
    by (rule transition_moves [OF assms(1-3)])
  with records_unique [of s' y r'] assms(4,5) show ?thesis by simp
qed

lemma abandon_keeps:
  assumes "inv s" "sto_abandon (ef_store P) now i c a s = (res, s')"
  shows "inv s'" "r \<in> records s \<Longrightarrow> state_fences (si_state r) \<Longrightarrow> si_state r \<noteq> StOutcomeUnknown \<Longrightarrow> r \<in> records s'"
    "r \<in> records s' \<Longrightarrow> unstarted r \<Longrightarrow> r \<in> records s"
proof -
  show "inv s'" using abandon_inv [OF assms] .
  show "r \<in> records s'" if "r \<in> records s" "state_fences (si_state r)" "si_state r \<noteq> StOutcomeUnknown"
  proof (cases res)
    case (Inr u)
    with abandon_ok [OF assms(1)] assms(2) obtain x x' where "abandons c a x x'"
      "records s' = insert x' (records s - {x})" by blast
    with that show ?thesis by (auto simp: abandons_def)
  qed (use assms(2) abandon_error that in blast)
  show "r \<in> records s" if "r \<in> records s'" "unstarted r"
  proof (cases res)
    case (Inr u)
    with abandon_ok [OF assms(1)] assms(2) obtain x x' where "abandons c a x x'"
      "records s' = insert x' (records s - {x})" by blast
    with that show ?thesis by (auto simp: abandons_def unstarted_def)
  qed (use assms(2) abandon_error that in blast)
qed

lemma keep_step:
  assumes "exclusive_starts (records st) w tasks" "n < length tasks" "task_keeps (tasks ! n) t'"
    and "ew_reserved w' = ew_reserved w" "ew_executed w' = ew_executed w"
  shows "exclusive_starts (records st) w' (tasks[n := t'])"
proof -
  note excl = assms(1) [unfolded exclusive_starts_def]
  have "owners_pending (records st) (tasks[n := t'])"
    using excl assms(3) by (intro owners_pending_update assms(2)) (auto simp: task_keeps_def)
  moreover have "starts_counted (records st) w' (tasks[n := t'])"
  proof (rule starts_counted_mono [OF conjunct2 [OF conjunct2 [OF excl]] assms(4,5)])
    fix i assume "may_start (records st) (tasks[n := t']) i"
    then show "may_start (records st) tasks i"
      by (rule may_start_mono [OF _ assms(2)]) (use assms(3) in \<open>auto simp: task_keeps_def\<close>)
  qed
  ultimately show ?thesis
    using excl assms(3) owners_distinct_keep [OF _ assms(2)]
    by (simp add: exclusive_starts_def task_keeps_def)
qed

lemma reserve_step:
  assumes "inv (ew_store w)" "exclusive_starts (records (ew_store w)) w tasks"
    and run: "sto_reserve_or_get (ef_store P) now q d ret (ew_store w) = (res, ew_store w')"
    and "ew_executed w' = ew_executed w"
    and reserved: "ew_reserved w' = (if \<exists>v. res = Inr v \<and> ir_kind v = KindReserved
         then ri_invocation_id q # ew_reserved w else ew_reserved w)"
  shows "inv (ew_store w')" "exclusive_starts (records (ew_store w')) w' tasks"
proof -
  note excl = assms(2) [unfolded exclusive_starts_def]
  let ?new = "\<exists>v. res = Inr v \<and> ir_kind v = KindReserved" and ?i = "ri_invocation_id q"
  show "inv (ew_store w')" using reserve_inv [OF assms(1) run] .
  have pending: "owners_pending (records (ew_store w')) tasks"
    using excl reserve_keeps_fencing [OF assms(1) run] unfolding owners_pending_def
    by (metis state_fences.simps(2))
  have mono: "may_start (records (ew_store w)) tasks j"
    if "may_start (records (ew_store w')) tasks j" "\<not> (?new \<and> j = ?i)" for j
    using that reserve_unstarted [OF assms(1) run] unfolding may_start_def by blast
  have "starts_counted (records (ew_store w')) w' tasks"
    unfolding starts_counted_def
  proof
    fix j
    have old: "executions w j + of_bool (may_start (records (ew_store w)) tasks j) \<le> count_list (ew_reserved w) j"
      using excl by (simp add: starts_counted_def)
    show "executions w' j + of_bool (may_start (records (ew_store w')) tasks j) \<le> count_list (ew_reserved w') j"
    proof (cases "?new \<and> j = ?i")
      case True
      then have "count_list (ew_reserved w') j = Suc (count_list (ew_reserved w) j)"
        using reserved by simp
      with old show ?thesis using assms(4) by (simp add: executions_def)
    next
      case False
      then have "count_list (ew_reserved w) j = count_list (ew_reserved w') j"
        using reserved by (simp split: if_splits)
      moreover have "executions w' j = executions w j" using assms(4) by (simp add: executions_def)
      moreover have "of_bool (may_start (records (ew_store w')) tasks j)
          \<le> (of_bool (may_start (records (ew_store w)) tasks j) :: nat)"
        using mono [OF _ False] by simp
      ultimately show ?thesis using old by linarith
    qed
  qed
  with excl pending show "exclusive_starts (records (ew_store w')) w' tasks" by (simp add: exclusive_starts_def)
qed

lemma transition_unstarted:
  assumes "inv (ew_store w)" "transition_try_new e x a = Inr tr" "x \<noteq> StReserved" "\<not> is_suspended x"
    "sto_transition (ef_store P) now i tr (ew_store w) = (Inr u, ew_store w')"
    "r \<in> records (ew_store w')" "unstarted r"
  shows "r \<in> records (ew_store w) \<and> si_invocation_id r \<noteq> i"
  using transition_other [OF assms(1,2,5)] transition_same [OF assms(1,2,5,6)] assms(3,4,6,7)
  by (auto simp: unstarted_def)

lemma start_step:
  assumes "inv (ew_store w)" "exclusive_starts (records (ew_store w)) w tasks" "n < length tasks"
    and task: "owned_id (tasks ! n) = None" "starting_id t' = Some i"
    and tr: "transition_try_new e StPending a = Inr tr"
    and run: "sto_transition (ef_store P) now i tr (ew_store w) = (Inr (), ew_store w')"
    and same: "ew_reserved w' = ew_reserved w" "ew_executed w' = ew_executed w"
  shows "inv (ew_store w')" "exclusive_starts (records (ew_store w')) w' (tasks[n := t'])"
proof -
  note excl = assms(2) [unfolded exclusive_starts_def]
  obtain r r' where r: "r \<in> records (ew_store w)" "si_invocation_id r = i" "si_state r = e"
    "r' \<in> records (ew_store w')" "si_invocation_id r' = i" "si_state r' = StPending" "inv (ew_store w')"
    by (rule transition_moves [OF assms(1) tr run])
  show "inv (ew_store w')" by (rule r(7))
  have e: "e = StReserved \<or> is_suspended e"
    using tr allowed_to_pending by (auto simp: transition_try_new_Inr)
  have before: "may_start (records (ew_store w)) tasks i" "e \<noteq> StPending"
    using r(1-3) e by (auto simp: may_start_def unstarted_def)
  have free: "owned_id t \<noteq> Some i" if "t \<in> set tasks" for t
  proof
    assume "owned_id t = Some i"
    then obtain x where "x \<in> records (ew_store w)" "si_invocation_id x = i" "si_state x = StPending"
      using excl \<open>t \<in> set tasks\<close> unfolding owners_pending_def by blast
    with records_unique [OF assms(1) r(1)] r(2,3) before(2) show False by metis
  qed
  have "owners_distinct (tasks[n := t'])"
    using owners_distinct_update [of tasks n t'] excl assms(3) free starting_owned [OF task(2)]
    by (metis nth_mem)
  moreover have "owners_pending (records (ew_store w')) (tasks[n := t'])"
    unfolding owners_pending_def
  proof (intro ballI allI impI)
    fix t j assume t: "t \<in> set (tasks[n := t'])" "owned_id t = Some j"
    show "\<exists>r \<in> records (ew_store w'). si_invocation_id r = j \<and> si_state r = StPending"
    proof (cases "j = i")
      case True
      with r(4-6) show ?thesis by blast
    next
      case False
      with t starting_owned [OF task(2)] set_update_subset_insert [of tasks n t'] have "t \<in> set tasks" by auto
      then obtain x where "x \<in> records (ew_store w)" "si_invocation_id x = j" "si_state x = StPending"
        using excl t(2) unfolding owners_pending_def by blast
      with transition_other [OF assms(1) tr run, of x] False show ?thesis by blast
    qed
  qed
  moreover have "starts_counted (records (ew_store w')) w' (tasks[n := t'])"
  proof (rule starts_counted_mono [OF conjunct2 [OF conjunct2 [OF excl]] same])
    fix j assume start: "may_start (records (ew_store w')) (tasks[n := t']) j"
    show "may_start (records (ew_store w)) tasks j"
    proof (cases "j = i")
      case False
      show ?thesis
      proof (rule may_start_mono [OF start assms(3)])
        fix y assume "y \<in> records (ew_store w')" "si_invocation_id y = j"
        with transition_other [OF assms(1) tr run, of y] False show "y \<in> records (ew_store w)" by simp
      qed (use False task(2) in simp)
    qed (use before in simp)
  qed
  ultimately show "exclusive_starts (records (ew_store w')) w' (tasks[n := t'])"
    by (simp add: exclusive_starts_def)
qed

lemma run_step:
  assumes "inv (ew_store w)" "exclusive_starts (records (ew_store w)) w tasks" "n < length tasks"
    and task: "starting_id (tasks ! n) = Some i" "owned_id t' = Some i" "starting_id t' = None"
    and same: "ew_store w' = ew_store w" "ew_reserved w' = ew_reserved w"
      "ew_executed w' = (i, record_id) # ew_executed w"
  shows "exclusive_starts (records (ew_store w')) w' (tasks[n := t'])"
proof -
  note excl = assms(2) [unfolded exclusive_starts_def]
  let ?recs = "records (ew_store w)"
  have owned: "owned_id (tasks ! n) = Some i" using starting_owned [OF task(1)] .
  then obtain r where r: "r \<in> ?recs" "si_invocation_id r = i" "si_state r = StPending"
    using excl assms(3) nth_mem unfolding owners_pending_def by blast
  have before: "may_start ?recs tasks i" using task(1) nth_mem [OF assms(3)] unfolding may_start_def by blast
  have after: "\<not> may_start ?recs (tasks[n := t']) i"
  proof
    assume "may_start ?recs (tasks[n := t']) i"
    then consider (rec) x where "x \<in> ?recs" "si_invocation_id x = i" "unstarted x"
      | (other) t where "t \<in> set (tasks[n := t'])" "starting_id t = Some i"
      unfolding may_start_def by blast
    then show False
    proof cases
      case rec
      with records_unique [OF assms(1) r(1)] r(2,3) show False by (auto simp: unstarted_def)
    next
      case other
      then have "t = t'"
        using owner_elsewhere [OF _ assms(3) owned other(1) starting_owned [OF other(2)]] excl by simp
      with other(2) task(3) show False by simp
    qed
  qed
  have "starts_counted ?recs w' (tasks[n := t'])"
    unfolding starts_counted_def
  proof
    fix j
    have old: "executions w j + of_bool (may_start ?recs tasks j) \<le> count_list (ew_reserved w) j"
      using excl by (simp add: starts_counted_def)
    have "may_start ?recs (tasks[n := t']) j \<Longrightarrow> may_start ?recs tasks j"
      using may_start_mono [OF _ assms(3)] task(3) by blast
    with old before after same
    show "executions w' j + of_bool (may_start ?recs (tasks[n := t']) j) \<le> count_list (ew_reserved w') j"
      by (cases "j = i") (auto simp: executions_def)
  qed
  moreover have "owners_pending ?recs (tasks[n := t'])"
    using excl task(2) owned by (intro owners_pending_update assms(3)) auto
  ultimately show ?thesis
    using excl owners_distinct_keep [OF _ assms(3)] owned task(2) same(1) by (simp add: exclusive_starts_def)
qed

lemma leave_step:
  assumes "inv (ew_store w)" "exclusive_starts (records (ew_store w)) w tasks" "n < length tasks"
    and task: "owned_id (tasks ! n) = Some i" "owned_id t' = None"
    and tr: "transition_try_new StPending x a = Inr tr" and x: "x \<noteq> StPending" "\<not> is_suspended x"
    and run: "sto_transition (ef_store P) now i tr (ew_store w) = (Inr (), ew_store w')"
    and same: "ew_reserved w' = ew_reserved w" "ew_executed w' = ew_executed w"
  shows "inv (ew_store w')" "exclusive_starts (records (ew_store w')) w' (tasks[n := t'])"
proof -
  note excl = assms(2) [unfolded exclusive_starts_def]
  show "inv (ew_store w')" by (rule transition_moves [OF assms(1) tr run])
  have x': "x \<noteq> StReserved" using tr allowed_not_reserved by (auto simp: transition_try_new_Inr)
  have start': "starting_id t' = None" using task(2) starting_owned [of t'] by (cases "starting_id t'") auto
  have "owners_pending (records (ew_store w')) (tasks[n := t'])"
    unfolding owners_pending_def
  proof (intro ballI allI impI)
    fix t j assume t: "t \<in> set (tasks[n := t'])" "owned_id t = Some j"
    with task(2) set_update_subset_insert [of tasks n t'] have old: "t \<in> set tasks" by auto
    have other: "j \<noteq> i"
    proof
      assume "j = i"
      with owner_elsewhere [OF _ assms(3) task(1) t(1)] excl t(2) have "t = t'" by simp
      with t(2) task(2) show False by simp
    qed
    obtain y where "y \<in> records (ew_store w)" "si_invocation_id y = j" "si_state y = StPending"
      using excl old t(2) unfolding owners_pending_def by blast
    with transition_other [OF assms(1) tr run, of y] other
    show "\<exists>r \<in> records (ew_store w'). si_invocation_id r = j \<and> si_state r = StPending" by blast
  qed
  moreover have "starts_counted (records (ew_store w')) w' (tasks[n := t'])"
  proof (rule starts_counted_mono [OF conjunct2 [OF conjunct2 [OF excl]] same])
    fix j assume start: "may_start (records (ew_store w')) (tasks[n := t']) j"
    show "may_start (records (ew_store w)) tasks j"
      using transition_unstarted [OF assms(1) tr x' x(2) run] start' by (intro may_start_mono [OF start assms(3)]) auto
  qed
  ultimately show "exclusive_starts (records (ew_store w')) w' (tasks[n := t'])"
    using excl task(2) owners_distinct_keep [OF _ assms(3)] by (simp add: exclusive_starts_def)
qed

lemma append_grows:
  "world_append (ef_audit P) io rec w = (res, w') \<Longrightarrow> audit_grows durable (ew_audit w) (ew_audit w')"
  unfolding audit_grows_def by (blast dest: world_append_simps(1) intro: append_kept)

lemma grows_refl [simp]: "audit_grows durable a a"
  by (simp add: audit_grows_def)

lemma authorize_audited:
  assumes "effect_authorize P k c p v w = (t', w')"
  shows "audit_grows durable (ew_audit w) (ew_audit w')
    \<and> task_audited X durable (ef_digests P) (ew_audit w') t' \<and> ew_executed w' = ew_executed w"
proof (cases "ir_kind v = KindExisting \<and> \<not> (ec_resumed c \<and> is_suspended (is_state (ir_status v)))")
  case True
  with assms show ?thesis by (auto simp: effect_authorize_def Let_def)
next
  case False
  show ?thesis
  proof (cases "authorization_record_of (ef_digests P) c p (rd_clock k)")
    case (Inl e)
    with assms False show ?thesis by (auto simp: effect_authorize_def Let_def)
  next
    case (Inr made)
    obtain ids rec where made: "made = (ids, rec)" by fastforce
    obtain res w1 where run: "world_append (ef_audit P) (rd_io k) (RecAuthorization rec) w = (res, w1)"
      by fastforce
    note appended = world_append_simps [OF run] and grows = append_grows [OF run]
    show ?thesis
    proof (cases res)
      case (Inl e)
      with assms False Inr \<open>authorization_record_of _ _ _ _ = _\<close> made run grows appended show ?thesis
        by (auto simp: effect_authorize_def Let_def)
    next
      case ok: (Inr receipt)
      then have "durable (ew_audit w1) (rc_record_id receipt) (RecAuthorization rec)"
        using appended(1) append_durable by blast
      moreover have "audit_correlation.truncate rec = effect_correlation (ef_digests P) c p (fst ids) (snd ids)"
        using authorization_record_correlation Inr made by blast
      ultimately have "grant_audited durable (ef_digests P) (ew_audit w1) c p
          \<lparr>fa_trace_id = fst ids, fa_span_id = snd ids, fa_expected = e, fa_record_id = rc_record_id receipt\<rparr>" for e
        unfolding grant_audited_def by auto
      then show ?thesis
        using assms False Inr made run grows appended ok by (auto simp: effect_authorize_def Let_def)
    qed
  qed
qed

lemma record_audited:
  assumes "effect_record P k c p f prepared w = (t', w')"
    and granted: "grant_audited durable (ef_digests P) (ew_audit w) c p f"
  shows "audit_grows durable (ew_audit w) (ew_audit w')
    \<and> task_audited X durable (ef_digests P) (ew_audit w') t' \<and> ew_executed w' = ew_executed w"
proof -
  let ?rec = "outcome_record_of (ef_digests P) c p (fa_trace_id f, fa_span_id f) (fa_record_id f)
                prepared (rd_clock k)"
  obtain res w1 where run: "world_append (ef_audit P) (rd_io k) (RecOutcome ?rec) w = (res, w1)"
    by fastforce
  note appended = world_append_simps [OF run] and grows = append_grows [OF run]
  show ?thesis
  proof (cases res)
    case (Inl e)
    with assms run grows appended show ?thesis by (auto simp: effect_record_def Let_def)
  next
    case (Inr receipt)
    have rec: "ax_invocation_id ?rec = ec_invocation_id c"
      "audit_correlation.truncate ?rec = effect_correlation (ef_digests P) c p (fa_trace_id f) (fa_span_id f)"
      using truncate_invocation_id [of ?rec] by (simp_all add: outcome_record_of_def)
    have fields: "oar_write_ahead_record_id ?rec = fa_record_id f" "oar_outcome ?rec = po_audit_kind prepared"
      "oar_safe_result ?rec = po_safe_result prepared" "oar_safe_error ?rec = po_safe_error prepared"
      by (simp_all add: outcome_record_of_def audit_correlation.defs outcome_audit_record.defs)
    have "durable (ew_audit w1) (rc_record_id receipt) (RecOutcome ?rec)"
      using appended(1) Inr append_durable by blast
    moreover obtain arec where "durable (ew_audit w1) (fa_record_id f) (RecAuthorization arec)"
      "audit_correlation.truncate arec = effect_correlation (ef_digests P) c p (fa_trace_id f) (fa_span_id f)"
      using grant_audited_grows [OF granted grows] unfolding grant_audited_def by blast
    ultimately have "audited_outcome durable (ew_audit w1) (ec_invocation_id c) (po_audit_kind prepared)
        (po_safe_result prepared) (po_safe_error prepared)"
      unfolding audited_outcome_def using rec fields by metis
    with assms run grows appended Inr show ?thesis by (auto simp: effect_record_def Let_def)
  qed
qed

lemma effect_step_audited:
  assumes step: "effect_step X P k t w = (t', w')" and "wf_task X t"
    and audited: "task_audited X durable (ef_digests P) (ew_audit w) t"
    and executed: "\<forall>e \<in> set (ew_executed w). execution_audited durable (ew_audit w) e"
  shows "audit_grows durable (ew_audit w) (ew_audit w')
    \<and> task_audited X durable (ef_digests P) (ew_audit w') t'
    \<and> (\<forall>e \<in> set (ew_executed w'). execution_audited durable (ew_audit w') e)"
proof (cases t)
  case (TaskReserve c)
  with step have "ew_audit w' = ew_audit w \<and> ew_executed w' = ew_executed w \<and> task_audited X durable (ef_digests P) (ew_audit w') t'"
    by (auto simp: effect_reserve_def world_reserve_simps split: sum.splits prod.splits)
  with executed show ?thesis by auto
next
  case (TaskAuthorize c p v)
  with step have "effect_authorize P k c p v w = (t', w')" by simp
  from authorize_audited [OF this] executed execution_audited_grows show ?thesis by metis
next
  case (TaskBegin c p f)
  with step audited have "ew_audit w' = ew_audit w \<and> ew_executed w' = ew_executed w \<and> task_audited X durable (ef_digests P) (ew_audit w') t'"
    by (auto simp: effect_begin_def world_transition_simps split: sum.splits prod.splits)
  with executed show ?thesis by auto
next
  case (TaskExecute c p f)
  with audited obtain rec where rec: "durable (ew_audit w) (fa_record_id f) (RecAuthorization rec)"
    "audit_correlation.truncate rec = effect_correlation (ef_digests P) c p (fa_trace_id f) (fa_span_id f)"
    by (auto simp: grant_audited_def)
  then have "execution_audited durable (ew_audit w) (ec_invocation_id c, fa_record_id f)"
    using truncate_invocation_id [OF rec(2)] by (auto simp: execution_audited_def)
  with TaskExecute step audited executed show ?thesis by (auto simp: effect_execute_def Let_def)
next
  case (TaskRecord c p f prepared)
  with step have "effect_record P k c p f prepared w = (t', w')" by simp
  from record_audited [OF this] audited TaskRecord executed execution_audited_grows show ?thesis by (metis task_audited.simps(3))
next
  case (TaskUnrecorded i)
  with step have "effect_uncertain P k i AuditNone
      ''effect outcome audit append failed; query status before retrying'' w = (t', w')" by simp
  then show ?thesis by (rule effect_uncertain_moves) (use executed in auto)
next
  case (TaskUncertain i record_id)
  with step have "effect_uncertain P k i (AuditOutcome record_id)
      ''effect status transition failed; query status before retrying'' w = (t', w')" by simp
  then show ?thesis by (rule effect_uncertain_moves) (use executed in auto)
next
  case (TaskComplete i prepared record_id)
  then obtain d e where prepared: "prepared = prepare_effect_outcome X i d e" using assms(2) by auto
  have backed: "answer_backed X durable (ew_audit w) (po_outcome prepared)"
    by (rule prepared_answer_backed [OF prepared]) (use audited TaskComplete in simp)
  with TaskComplete step have "ew_audit w' = ew_audit w \<and> ew_executed w' = ew_executed w \<and> answer_backed X durable (ew_audit w) (po_outcome prepared)"
    by (auto simp: effect_complete_def world_transition_simps split: sum.splits prod.splits)
  moreover have "t' = TaskUncertain i record_id \<or> t' = TaskDone (po_outcome prepared) \<or> (\<exists>e. t' = TaskDone (Inl e))"
    using TaskComplete step by (auto simp: effect_complete_def split: sum.splits prod.splits)
  ultimately show ?thesis using executed by auto
next
  case (TaskDone answer)
  with step audited executed show ?thesis by auto
qed

lemma effect_step_exclusive:
  assumes "inv (ew_store w)" "exclusive_starts (records (ew_store w)) w tasks" "n < length tasks"
    and step: "effect_step X P k (tasks ! n) w = (t', w')" "wf_task X (tasks ! n)"
  shows "inv (ew_store w') \<and> exclusive_starts (records (ew_store w')) w' (tasks[n := t'])"
proof (rule effect_step_moves [OF step], goal_cases)
  case 1
  then show ?case using assms(1) keep_step [OF assms(2,3)] by simp
next
  case (2 now i tr e)
  then have "ew_store w' = ew_store w" using transition_error by blast
  with 2 show ?case using assms(1) keep_step [OF assms(2,3)] by simp
next
  case (3 now q d ret res)
  note reserved = reserve_step [OF assms(1,2) 3(2,3,4)]
  have "task_keeps (tasks ! n) t'" using 3(1) starting_owned [of t'] by (cases "starting_id t'") (auto simp: task_keeps_def)
  with reserved keep_step [of "ew_store w'" w' tasks n t' w'] assms(3) show ?case by simp
next
  case (4 now i e a tr)
  with start_step [OF assms(1-3) 4] show ?case by blast
next
  case (5 i record_id)
  with run_step [OF assms(1-3) 5] assms(1) show ?case by simp
next
  case (6 now i x a tr)
  with leave_step [OF assms(1-3) 6(1) 6(3-9)] show ?case by blast
qed

lemma park_step:
  assumes "inv (ew_store w)" "exclusive_starts (records (ew_store w)) w tasks"
    and tr: "transition_try_new StReserved (StSuspended su) a = Inr tr"
    and run: "sto_transition (ef_store P) now i tr (ew_store w) = (Inr (), ew_store w')"
    and same: "ew_reserved w' = ew_reserved w" "ew_executed w' = ew_executed w"
  shows "inv (ew_store w')" "exclusive_starts (records (ew_store w')) w' tasks"
proof -
  note excl = assms(2) [unfolded exclusive_starts_def]
  obtain r r' where r: "r \<in> records (ew_store w)" "si_invocation_id r = i" "si_state r = StReserved"
    "inv (ew_store w')"
    by (rule transition_moves [OF assms(1) tr run])
  show "inv (ew_store w')" by (rule r(4))
  have "owners_pending (records (ew_store w')) tasks"
    unfolding owners_pending_def
  proof (intro ballI allI impI)
    fix t j assume "t \<in> set tasks" "owned_id t = Some j"
    then obtain y where y: "y \<in> records (ew_store w)" "si_invocation_id y = j" "si_state y = StPending"
      using excl unfolding owners_pending_def by blast
    have "j \<noteq> i"
    proof
      assume "j = i"
      with records_unique [OF assms(1) r(1) y(1)] r(2) y(2) have "r = y" by simp
      with r(3) y(3) show False by simp
    qed
    with transition_other [OF assms(1) tr run, of y] y
    show "\<exists>r \<in> records (ew_store w'). si_invocation_id r = j \<and> si_state r = StPending" by blast
  qed
  moreover have "starts_counted (records (ew_store w')) w' tasks"
  proof (rule starts_counted_mono [OF conjunct2 [OF conjunct2 [OF excl]] same])
    fix j assume start: "may_start (records (ew_store w')) tasks j"
    show "may_start (records (ew_store w)) tasks j"
    proof (cases "j = i")
      case True
      with r(1-3) show ?thesis by (auto simp: may_start_def unstarted_def)
    next
      case False
      then have "y \<in> records (ew_store w)" if "y \<in> records (ew_store w')" "si_invocation_id y = j" for y
        using transition_other [OF assms(1) tr run, of y] that by simp
      with start show ?thesis unfolding may_start_def by blast
    qed
  qed
  ultimately show "exclusive_starts (records (ew_store w')) w' tasks"
    using excl by (simp add: exclusive_starts_def)
qed

lemma same_step:
  assumes "exclusive_starts recs w tasks" "ew_reserved w' = ew_reserved w" "ew_executed w' = ew_executed w"
  shows "exclusive_starts recs w' tasks"
  using assms by (simp add: exclusive_starts_def starts_counted_def executions_def)

lemma suspend_step_exclusive:
  assumes "inv (ew_store w)" "exclusive_starts (records (ew_store w)) w tasks"
    and step: "suspend_step X P k t w = (t', w')"
  shows "inv (ew_store w') \<and> exclusive_starts (records (ew_store w')) w' tasks"
    "ew_audit w' = ew_audit w" "ew_executed w' = ew_executed w"
proof -
  have "(inv (ew_store w') \<and> exclusive_starts (records (ew_store w')) w' tasks)
      \<and> ew_audit w' = ew_audit w \<and> ew_executed w' = ew_executed w"
  proof (cases t)
    case (SuspendReserve c)
    show ?thesis
    proof (cases "suspension_prologue X True c (rd_clock k)")
      case (Inl e)
      with step SuspendReserve assms show ?thesis by (auto simp: suspension_reserve_def)
    next
      case (Inr made)
      obtain input ret where made: "made = (input, ret)" by fastforce
      obtain res w1 where run: "world_reserve (ef_store P) (rd_store_clock k) input
          (lc_descriptor (sp_locked c)) ret w = (res, w1)" by fastforce
      with step SuspendReserve Inr made have "w' = w1"
        by (auto simp: suspension_reserve_def Let_def split: sum.splits if_splits)
      with world_reserve_simps [OF run] reserve_step [OF assms(1,2)] show ?thesis by blast
    qed
  next
    case (SuspendTransition c)
    show ?thesis
    proof (cases "transition_try_new StReserved (StSuspended (sp_suspension c)) AuditNone")
      case (Inl e)
      with step SuspendTransition assms show ?thesis by (auto simp: suspension_transition_def)
    next
      case (Inr tr)
      obtain res w1 where run: "world_transition (ef_store P) (rd_store_clock k)
          (iq_invocation_id (sp_request c)) tr w = (res, w1)" by fastforce
      with step SuspendTransition Inr have w': "w' = w1" by (auto simp: suspension_transition_def)
      note moved = world_transition_simps [OF run]
      show ?thesis
      proof (cases res)
        case (Inl e)
        then have "ew_store w1 = ew_store w" using moved(1) transition_error by blast
        with moved w' assms same_step show ?thesis by metis
      next
        case (Inr u)
        have "sto_transition (ef_store P) (rd_store_clock k) (iq_invocation_id (sp_request c)) tr (ew_store w) =
            (Inr (), ew_store w1)" using moved(1) Inr by simp
        with park_step [OF assms(1,2) \<open>transition_try_new _ _ _ = _\<close>] moved w' show ?thesis by blast
      qed
    qed
  qed (use step assms in auto)
  then show "inv (ew_store w') \<and> exclusive_starts (records (ew_store w')) w' tasks"
    "ew_audit w' = ew_audit w" "ew_executed w' = ew_executed w" by blast+
qed

lemma abandon_step:
  assumes "inv (ew_store w)" "exclusive_starts (records (ew_store w)) w tasks"
    and run: "sto_abandon (ef_store P) now i c a (ew_store w) = (res, st)"
  shows "inv st" "exclusive_starts (records st) (w\<lparr>ew_store := st\<rparr>) tasks"
proof -
  note excl = assms(2) [unfolded exclusive_starts_def] and kept = abandon_keeps [OF assms(1) run]
  show "inv st" by (rule kept(1))
  have "owners_pending (records st) tasks"
    unfolding owners_pending_def
  proof (intro ballI allI impI)
    fix t j assume "t \<in> set tasks" "owned_id t = Some j"
    then obtain y where y: "y \<in> records (ew_store w)" "si_invocation_id y = j" "si_state y = StPending"
      using excl unfolding owners_pending_def by blast
    with kept(2) [of y] show "\<exists>r \<in> records st. si_invocation_id r = j \<and> si_state r = StPending" by auto
  qed
  moreover have "starts_counted (records st) (w\<lparr>ew_store := st\<rparr>) tasks"
    by (rule starts_counted_mono [OF conjunct2 [OF conjunct2 [OF excl]]])
       (use kept(3) in \<open>auto simp: may_start_def\<close>)
  ultimately show "exclusive_starts (records st) (w\<lparr>ew_store := st\<rparr>) tasks"
    using excl by (simp add: exclusive_starts_def)
qed

lemma provider_step_inv:
  assumes "provider_step X P s s'" "provider_inv inv records durable X P s"
  shows "provider_inv inv records durable X P s'"
  using assms
proof (induction rule: provider_step.induct)
  case (step_call s c)
  have "owners_distinct (pr_effects s @ [TaskReserve c])"
    if "owners_distinct (pr_effects s)" using that unfolding owners_distinct_def by (auto simp: nth_append)
  moreover have "may_start recs (pr_effects s @ [TaskReserve c]) i = may_start recs (pr_effects s) i" for recs i
    by (simp add: may_start_def)
  moreover have "owners_pending recs (pr_effects s @ [TaskReserve c]) = owners_pending recs (pr_effects s)" for recs
    by (simp add: owners_pending_def)
  ultimately show ?case
    using step_call by (simp add: provider_inv_def exclusive_starts_def starts_counted_def Let_def)
next
  case (step_effect n s k task w)
  note old = step_effect.prems [unfolded provider_inv_def Let_def]
  let ?t = "pr_effects s ! n" and ?w = "pr_world s"
  have t: "?t \<in> set (pr_effects s)" using step_effect.hyps(1) by simp
  have wf: "wf_task X ?t" and audited: "task_audited X durable (ef_digests P) (ew_audit ?w) ?t" using old t by blast+
  have moved: "inv (ew_store w) \<and> exclusive_starts (records (ew_store w)) w ((pr_effects s)[n := task])"
    by (rule effect_step_exclusive [OF _ _ step_effect.hyps wf]) (use old in blast)+
  have kept: "audit_grows durable (ew_audit ?w) (ew_audit w)
    \<and> task_audited X durable (ef_digests P) (ew_audit w) task
    \<and> (\<forall>e \<in> set (ew_executed w). execution_audited durable (ew_audit w) e)"
    by (rule effect_step_audited [OF step_effect.hyps(2) wf audited]) (use old in blast)
  have "wf_task X u \<and> task_audited X durable (ef_digests P) (ew_audit w) u"
    if "u \<in> set ((pr_effects s)[n := task])" for u
    using that set_update_subset_insert [of "pr_effects s" n task] old kept effect_step_wf [OF step_effect.hyps(2) wf]
      task_audited_grows [of X durable "ef_digests P" "ew_audit ?w" u "ew_audit w"] by blast
  with moved kept show ?case by (simp add: provider_inv_def Let_def)
next
  case (step_suspend_call s sc)
  then show ?case by (simp add: provider_inv_def Let_def)
next
  case (step_suspend n s k stask w)
  note old = step_suspend.prems [unfolded provider_inv_def Let_def]
  note parked = suspend_step_exclusive
    [OF conjunct1 [OF old] conjunct1 [OF conjunct2 [OF old]] step_suspend.hyps(2)]
  with old show ?case by (simp add: provider_inv_def Let_def)
next
  case (step_abandon now i c a s res st)
  note old = step_abandon.prems [unfolded provider_inv_def Let_def]
  note kept = abandon_step
    [OF conjunct1 [OF old] conjunct1 [OF conjunct2 [OF old]] step_abandon.hyps]
  with old show ?case by (simp add: provider_inv_def Let_def)
next
  case (step_append io rec s res au)
  have grows: "audit_grows durable (ew_audit (pr_world s)) au"
    using append_kept [OF step_append.hyps] by (simp add: audit_grows_def)
  note old = step_append.prems [unfolded provider_inv_def Let_def]
  have "exclusive_starts (records (ew_store (pr_world s))) (pr_world s\<lparr>ew_audit := au\<rparr>) (pr_effects s)"
    by (rule same_step [of _ "pr_world s"]) (use old in simp_all)
  with old show ?case
    using task_audited_grows [OF _ grows] execution_audited_grows [OF _ grows]
    by (auto simp: provider_inv_def Let_def)
qed

lemma provider_reachable_inv:
  assumes "provider_reachable X P (provider_start st au) s" "inv st" "\<forall>r \<in> records st. \<not> unstarted r"
  shows "provider_inv inv records durable X P s"
  using assms(1) [unfolded provider_reachable_def]
proof (induction rule: rtranclp_induct)
  case base
  with assms(2,3) show ?case
    by (auto simp: provider_inv_def Let_def provider_start_def exclusive_starts_def owners_distinct_def
        owners_pending_def starts_counted_def may_start_def executions_def)
next
  case (step s s')
  with provider_step_inv show ?case by blast
qed

end

section \<open>The provider's store and ledger\<close>

definition mem_ops :: "memory_store store_ops" where
  "mem_ops = \<lparr>sto_reserve_or_get = mem_reserve_or_get, sto_transition = mem_transition,
     sto_status = mem_status, sto_abandon = \<lambda>_. mem_abandon\<rparr>"

definition ledger_ops :: "ledger_codec \<Rightarrow> externals \<Rightarrow> (ledger_files, append_io) audit_sink_ops" where
  "ledger_ops C X = \<lparr>aus_append = append_sync C X\<rparr>"

definition memory_plane ::
  "ledger_codec \<Rightarrow> externals \<Rightarrow> effect_audit_digests \<Rightarrow>
     (memory_store, ledger_files, append_io) enforcement_plane" where
  "memory_plane C X D = \<lparr>ef_store = mem_ops, ef_audit = ledger_ops C X, ef_digests = D\<rparr>"

text \<open>
  A record is durable in the ledger under an identifier when its partition file has a complete
  line for it: the line the ledger prepared for this record on the file up to that line, with a
  receipt of that identifier.
\<close>

definition ledger_durable ::
  "ledger_codec \<Rightarrow> externals \<Rightarrow> ledger_files \<Rightarrow> string \<Rightarrow> audit_record \<Rightarrow> bool" where
  "ledger_durable C X files i rec =
     (\<exists>path pre line post receipt entry.
        partition_path X (audit_partition rec) = Inr path
        \<and> content_of files path = pre @ line @ newline # post
        \<and> prepare_entry C X (audit_partition rec) (audit_record_json rec) pre = Inr (receipt, entry)
        \<and> lk_encode C entry = Some line \<and> rc_record_id receipt = i)"

lemma append_sync_extends:
  assumes "append_sync C X io rec files = (res, files')"
  shows "\<exists>more. content_of files' path = content_of files path @ more"
  using assms
proof (cases rule: append_sync_cases)
  case (written path' receipt entry line)
  then show ?thesis by (auto simp: write_line_def split: option.splits)
qed simp_all

lemma append_sync_durable:
  assumes "append_sync C X io rec files = (Inr receipt, files')"
  shows "ledger_durable C X files' (rc_record_id receipt) rec"
  using assms
proof (cases rule: append_sync_cases)
  case (written path receipt' entry line)
  then have "receipt' = receipt"
    "snd (write_line io (content_of files path) line) = content_of files path @ line @ [newline]"
    by (auto simp: write_line_def split: option.splits if_splits)
  with written show ?thesis by (auto simp: ledger_durable_def)
qed simp_all

interpretation ledger: audit_sink "ledger_durable C X" "append_sync C X" for C X
proof
  fix io rec a receipt a'
  assume "append_sync C X io rec a = (Inr receipt, a')"
  then show "ledger_durable C X a' (rc_record_id receipt) rec" by (rule append_sync_durable)
next
  fix io rec a res a' i x
  assume run: "append_sync C X io rec a = (res, a')" and "ledger_durable C X a i x"
  then obtain path pre line post receipt entry where *:
    "partition_path X (audit_partition x) = Inr path" "content_of a path = pre @ line @ newline # post"
    "prepare_entry C X (audit_partition x) (audit_record_json x) pre = Inr (receipt, entry)"
    "lk_encode C entry = Some line" "rc_record_id receipt = i"
    unfolding ledger_durable_def by blast
  obtain more where "content_of a' path = pre @ line @ newline # (post @ more)"
    using append_sync_extends [OF run, of path] *(2) by auto
  with * show "ledger_durable C X a' i x" unfolding ledger_durable_def by blast
qed

interpretation plane: effect_platform mem_inv mem_records "memory_plane C X D" "ledger_durable C X" for C X D
proof -
  have "invocation_store mem_inv mem_records mem_reserve_or_get mem_transition mem_status (\<lambda>_. mem_abandon)"
    by unfold_locales
  then show "effect_platform mem_inv mem_records (memory_plane C X D) (ledger_durable C X)"
    using ledger.audit_sink_axioms
    by (simp add: effect_platform_def memory_plane_def mem_ops_def ledger_ops_def)
qed

section \<open>One invocation run alone\<close>

fun task_rank :: "effect_task \<Rightarrow> nat" where
  "task_rank (TaskReserve c) = 7"
| "task_rank (TaskAuthorize c p v) = 6"
| "task_rank (TaskBegin c p f) = 5"
| "task_rank (TaskExecute c p f) = 4"
| "task_rank (TaskRecord c p f prepared) = 3"
| "task_rank (TaskComplete i prepared record_id) = 2"
| "task_rank (TaskUnrecorded i) = 1"
| "task_rank (TaskUncertain i record_id) = 1"
| "task_rank (TaskDone answer) = 0"

lemma effect_step_rank:
  "effect_step X P k t w = (t', w') \<Longrightarrow> task_rank t' < task_rank t \<or> (\<exists>a. t = TaskDone a \<and> t' = t)"
  by (cases t)
     (auto simp: effect_reserve_def effect_authorize_def effect_begin_def effect_execute_def
       effect_record_def effect_complete_def effect_uncertain_def Let_def split: sum.splits prod.splits if_splits)

lemma effect_run_done:
  "task_rank t \<le> length ks \<Longrightarrow> \<exists>answer w'. effect_run X P ks t w = (TaskDone answer, w')"
proof (induction ks arbitrary: t w)
  case Nil
  then show ?case by (cases t) auto
next
  case (Cons k ks)
  obtain t' w' where step: "effect_step X P k t w = (t', w')" by fastforce
  from effect_step_rank [OF step] Cons.prems have "task_rank t' \<le> length ks" by auto
  from Cons.IH [OF this] step show ?case by simp
qed

lemma effect_run_append:
  "effect_run X P (ks @ ls) t w = (let (t', w') = effect_run X P ks t w in effect_run X P ls t' w')"
  by (induction ks arbitrary: t w) (auto split: prod.splits)

lemma effect_run_reachable:
  "n < length (pr_effects s) \<Longrightarrow> pr_effects s ! n = t \<Longrightarrow> effect_run X P ks t (pr_world s) = (t', w') \<Longrightarrow>
   (provider_step X P)\<^sup>*\<^sup>* s (s\<lparr>pr_world := w', pr_effects := (pr_effects s)[n := t']\<rparr>)"
proof (induction ks arbitrary: s t)
  case Nil
  then have "s\<lparr>pr_world := w', pr_effects := (pr_effects s)[n := t']\<rparr> = s" by (cases s) auto
  then show ?case by simp
next
  case (Cons k ks)
  obtain u w where step: "effect_step X P k t (pr_world s) = (u, w)" by fastforce
  let ?s = "s\<lparr>pr_world := w, pr_effects := (pr_effects s)[n := u]\<rparr>"
  have "provider_step X P s ?s" by (rule provider_step.step_effect) (use Cons.prems step in auto)
  moreover have "(provider_step X P)\<^sup>*\<^sup>* ?s (?s\<lparr>pr_world := w', pr_effects := (pr_effects ?s)[n := t']\<rparr>)"
    by (rule Cons.IH [of ?s u]) (use Cons.prems step in simp_all)
  ultimately show ?case by (simp add: converse_rtranclp_into_rtranclp)
qed

lemma memory_plane_simps [simp]:
  "ef_store (memory_plane C X D) = mem_ops" "ef_audit (memory_plane C X D) = ledger_ops C X"
  "ef_digests (memory_plane C X D) = D" "sto_reserve_or_get mem_ops = mem_reserve_or_get"
  "sto_transition mem_ops = mem_transition" "sto_abandon mem_ops = (\<lambda>_. mem_abandon)"
  "sto_status mem_ops = mem_status" "aus_append (ledger_ops C X) = append_sync C X"
  by (simp_all add: memory_plane_def mem_ops_def ledger_ops_def)

lemma receipt_id_not_blank: "\<not> is_blank (receipt_record_id part n h)"
  by (simp add: receipt_record_id_def is_blank_def ascii_white_def white2_def white3_def)

lemma appended_id_not_blank:
  assumes "append_sync C X io rec files = (Inr receipt, files')"
  shows "\<not> is_blank (rc_record_id receipt)"
  using assms
proof (cases rule: append_sync_cases)
  case (written path receipt' entry line)
  then have "receipt' = receipt" by (auto simp: write_line_def split: option.splits if_splits)
  with written(2) receipt_id_not_blank show ?thesis
    by (auto simp: receipt_try_new_Inr elim!: prepare_entry_Inr)
qed simp_all

section \<open>The undisturbed run\<close>

lemma mem_transition_run:
  assumes "mem_inv m" "r \<in> mem_records m" "apply_transition now tr r = Inr r'"
  shows "\<exists>m'. mem_transition now (si_invocation_id r) tr m = (Inr (), m')
    \<and> mem_records m' = insert r' (mem_records m - {r})"
proof -
  have "mem_find m (si_invocation_id r) = Some r" using mem_records_find [OF assms(1)] assms(2) by blast
  moreover from this have "mem_records (mem_update (si_invocation_id r) r' m) = insert r' (mem_records m - {r})"
    by (rule mem_update_records [OF mem_inv_ids [OF assms(1)]])
  ultimately show ?thesis using assms(3) by (simp add: mem_transition_def)
qed

lemma prepared_transition:
  assumes "\<not> is_blank i"
  shows "\<exists>tr. transition_try_new StPending (po_state (prepare_effect_outcome X n d e)) (AuditOutcome i) = Inr tr
    \<and> tr = \<lparr>it_expected = StPending, it_next = po_state (prepare_effect_outcome X n d e),
            it_audit_record = AuditOutcome i\<rparr>"
  using assms
  by (auto simp: transition_try_new_Inr prepare_effect_outcome_def prepared_unknown_def
      audit_matches_transition_def split: sum.splits operation_failure.splits)

lemma mem_linked_transition:
  assumes inv: "mem_inv m" and r: "r \<in> mem_records m" "si_state r = e" "si_updated_at r \<le> now"
    and tr: "transition_try_new e x a = Inr tr"
    and l: "audit_link_from_transition a now = Inr (Some l)" "\<forall>y \<in> set (si_audit_links r). al_kind y \<noteq> al_kind l"
  obtains m' r' where "mem_transition now (si_invocation_id r) tr m = (Inr (), m')" "mem_inv m'"
    "r' \<in> mem_records m'" "si_invocation_id r' = si_invocation_id r" "si_state r' = x"
    "si_updated_at r' = now" "si_audit_links r' = si_audit_links r @ [l]"
proof -
  let ?r = "r\<lparr>si_audit_links := si_audit_links r @ [l], si_state := x, si_updated_at := now\<rparr>"
  have "it_expected tr = e" "it_next tr = x" "it_audit_record tr = a"
    using tr by (auto simp: transition_try_new_Inr)
  then have "apply_transition now tr r = Inr ?r"
    using r l by (auto simp: apply_transition_Inr attach_link_Inr)
  then obtain m' where m': "mem_transition now (si_invocation_id r) tr m = (Inr (), m')" "?r \<in> mem_records m'"
    using mem_transition_run [OF inv r(1)] by blast
  moreover have "mem_inv m'"
    using mem_transition_inv [OF inv transition_try_new_valid [OF tr] m'(1)] .
  ultimately show thesis by (intro that [of m' ?r]) simp_all
qed

lemma authorized_transition:
  "\<not> is_blank i \<Longrightarrow> \<exists>tr. transition_try_new StReserved StPending (AuditAuthorization i) = Inr tr"
  by (auto simp: transition_try_new_Inr audit_matches_transition_def)

lemma effect_run_finished: "effect_run X P ks (TaskDone a) w = (TaskDone a, w)"
  by (induction ks) auto

lemma effect_step_reserved:
  assumes "effect_prologue X c (rd_clock k) = Inr p" "ef_store P = mem_ops"
    and "mem_reserve_or_get (rd_store_clock k) (pn_input p) (ec_descriptor c) (pn_retention_until p)
          (ew_store w) = (Inr v, st)" "ir_kind v = KindReserved"
  shows "effect_step X P k (TaskReserve c) w = (TaskAuthorize c p v,
    (record_event ''reserve'' w)\<lparr>ew_store := st, ew_reserved := ec_invocation_id c # ew_reserved w\<rparr>)"
  using assms
  by (auto simp: effect_reserve_def world_reserve_def mem_ops_def record_event_def effect_prologue_def
      reservation_input_of_def)

section \<open>Retrying a reservation that never became Pending\<close>

lemma mem_reserve_same:
  assumes inv: "mem_inv m" and r: "r \<in> mem_records m" "state_fences (si_state r)"
    and same: "si_scope r = ri_scope q" "si_idempotency_key r = ri_idempotency_key q"
    and run: "mem_reserve_or_get now q d ret m = (res, m')"
  shows "(\<exists>e. res = Inl e) \<or> res = Inr (reservation_from_stored KindExisting r)"
proof -
  have kept: "mem_inv (mem_retain now m)" by (rule mem_retain_inv [OF inv])
  have "r \<in> mem_records (mem_retain now m)" using r by (simp add: mem_retain_records)
  then have entry: "(key_from_invocation r, r) \<in> set (mem_retain now m)"
    using kept by (auto simp: mem_records_def mem_inv_def)
  have "distinct (map fst (mem_retain now m))"
    using kept by (intro btree_ok_distinct) (simp add: mem_inv_def)
  then have found: "map_of (mem_retain now m) (key_from_invocation r) = Some r"
    using entry by (rule map_of_is_SomeI)
  have key: "key_from_invocation s = key_from_invocation r" if "stored_try_reserve q d now ret = Inr s" for s
    using stored_try_reserve_Inr(4,5) [OF that] same by (simp add: key_from_invocation_def)
  from run show ?thesis
  proof (cases rule: mem_reserve_cases)
    case (existing s x)
    with key [OF existing(1)] found show ?thesis by simp
  next
    case (created s)
    with key [OF created(1)] found show ?thesis by simp
  qed simp_all
qed

lemma effect_prologue_input:
  assumes "effect_prologue X c now = Inr p" "effect_prologue X c now' = Inr p'"
  shows "pn_input p' = pn_input p"
  using assms by (auto simp: effect_prologue_def)

definition reserved_for :: "externals \<Rightarrow> effect_call \<Rightarrow> memory_store \<Rightarrow> stored_invocation \<Rightarrow> bool" where
  "reserved_for X c m r =
     (mem_inv m \<and> r \<in> mem_records m \<and> si_state r = StReserved
      \<and> (\<forall>now p. effect_prologue X c now = Inr p \<longrightarrow>
           si_scope r = ri_scope (pn_input p) \<and> si_idempotency_key r = ri_idempotency_key (pn_input p)))"

lemma reserved_retry:
  assumes plane: "ef_store P = mem_ops" and r: "reserved_for X c (ew_store w) r"
  shows "\<exists>answer w'. effect_run X P [k, k'] (TaskReserve c) w = (TaskDone answer, w')
    \<and> (answer = Inr (OutDeferred (ec_invocation_id c)) \<or> (\<exists>e. answer = Inl e))
    \<and> ew_executed w' = ew_executed w \<and> reserved_for X c (ew_store w') r"
proof (cases "effect_prologue X c (rd_clock k)")
  case (Inl e)
  then show ?thesis using r by (simp add: effect_reserve_def)
next
  case (Inr p)
  obtain res w1 where run: "world_reserve mem_ops (rd_store_clock k) (pn_input p) (ec_descriptor c)
      (pn_retention_until p) (record_event ''reserve'' w) = (res, w1)" by fastforce
  note moved = world_reserve_simps [OF run, unfolded memory_plane_simps record_event_simps]
  have inv: "mem_inv (ew_store w)" "r \<in> mem_records (ew_store w)" "state_fences (si_state r)"
    using r by (auto simp: reserved_for_def)
  have "(\<exists>e. res = Inl e) \<or> res = Inr (reservation_from_stored KindExisting r)"
    using mem_reserve_same [OF inv _ _ moved(1)] r Inr by (auto simp: reserved_for_def)
  moreover have "reserved_for X c (ew_store w1) r"
    using r mem_reserve_inv [OF inv(1) moved(1)] mem_reserve_records(1) [OF inv(1) moved(1) inv(2)] inv(3)
    by (auto simp: reserved_for_def)
  moreover have "is_state (ir_status (reservation_from_stored KindExisting r)) = StReserved"
    using r by (simp add: reserved_for_def reservation_from_stored_def status_from_stored_def)
  ultimately show ?thesis
    using Inr run moved(3) plane
    by (auto simp: effect_reserve_def effect_authorize_def Let_def existing_invocation_outcome_def
        reservation_from_stored_def)
qed

fun effect_retries ::
  "externals \<Rightarrow> ('s, 'a, 'io) enforcement_plane \<Rightarrow> ('io effect_readings \<times> 'io effect_readings) list \<Rightarrow>
     effect_call \<Rightarrow> ('s, 'a) effect_world \<Rightarrow> effect_task list \<times> ('s, 'a) effect_world" where
  "effect_retries X P [] c w = ([], w)"
| "effect_retries X P ((k, k') # ks) c w =
     (let (task, w') = effect_run X P [k, k'] (TaskReserve c) w;
          (tasks, w'') = effect_retries X P ks c w' in (task # tasks, w''))"

lemma reserved_retries:
  assumes "ef_store P = mem_ops" "reserved_for X c (ew_store w) r" "effect_retries X P ks c w = (tasks, w')"
  shows "(\<forall>t \<in> set tasks. t = TaskDone (Inr (OutDeferred (ec_invocation_id c))) \<or> (\<exists>e. t = TaskDone (Inl e)))
    \<and> ew_executed w' = ew_executed w \<and> reserved_for X c (ew_store w') r"
  using assms(2,3)
proof (induction ks arbitrary: w tasks w')
  case (Cons kk ks)
  obtain k k' where kk: "kk = (k, k')" by fastforce
  obtain answer w1 where first: "effect_run X P [k, k'] (TaskReserve c) w = (TaskDone answer, w1)"
    "answer = Inr (OutDeferred (ec_invocation_id c)) \<or> (\<exists>e. answer = Inl e)"
    "ew_executed w1 = ew_executed w" "reserved_for X c (ew_store w1) r"
    using reserved_retry [OF assms(1) Cons.prems(1), of k k'] by blast
  obtain ts w2 where rest: "effect_retries X P ks c w1 = (ts, w2)" by fastforce
  have "tasks = TaskDone answer # ts" "w' = w2"
    using Cons.prems(2) kk first(1) rest by (simp_all del: effect_run.simps)
  with Cons.IH [OF first(4) rest] first(2,3) show ?case by auto
qed simp

lemma undisturbed_run:
  fixes A :: "('a, 'io) audit_sink_ops"
  assumes "mem_inv (ew_store w)"
    and prologue: "effect_prologue X c (rd_clock k1) = Inr p"
    and reserve: "mem_reserve_or_get (rd_store_clock k1) (pn_input p) (ec_descriptor c)
          (pn_retention_until p) (ew_store w) = (Inr v, st)" "ir_kind v = KindReserved"
    and authorized: "authorization_record_of D c p (rd_clock k2) = Inr (ids, rec)"
    and prepared: "prepared = prepare_effect_outcome X (ec_invocation_id c) (ec_descriptor c)
          (co_execute (ec_operation c) (ec_context c) (iq_arguments (ec_request c)))"
    and append1: "aus_append A (rd_io k2) (RecAuthorization rec) (ew_audit w) = (Inr receipt1, a1)"
    and append2: "aus_append A (rd_io k5) (RecOutcome (outcome_record_of D c p ids (rc_record_id receipt1)
          prepared (rd_clock k5))) a1 = (Inr receipt2, a2)"
    and visible: "\<not> is_blank (rc_record_id receipt1)" "\<not> is_blank (rc_record_id receipt2)"
    and clock: "rd_store_clock k1 \<le> rd_store_clock k3" "rd_store_clock k3 \<le> rd_store_clock k6"
  shows "\<exists>w' r. execute_effect X \<lparr>ef_store = mem_ops, ef_audit = A, ef_digests = D\<rparr>
        (k1 # k2 # k3 # k4 # k5 # k6 # ks) c w = (TaskDone (po_outcome prepared), w')
    \<and> ew_executed w' = (ec_invocation_id c, rc_record_id receipt1) # ew_executed w \<and> ew_audit w' = a2
    \<and> ew_events w' = ew_events w @
        [''reserve'', ''audit_authorization'', ''execute'', ''audit_outcome'', ''terminal_status'']
    \<and> r \<in> mem_records (ew_store w') \<and> si_invocation_id r = ec_invocation_id c
    \<and> si_state r = po_state prepared
    \<and> map (\<lambda>l. (al_kind l, al_record_id l)) (si_audit_links r) =
        [(LinkAuthorization, rc_record_id receipt1), (LinkOutcome, rc_record_id receipt2)]"
proof -
  let ?i = "ec_invocation_id c" and ?P = "\<lparr>ef_store = mem_ops, ef_audit = A, ef_digests = D\<rparr>"
  obtain r0 where r0: "stored_try_reserve (pn_input p) (ec_descriptor c) (rd_store_clock k1)
      (pn_retention_until p) = Inr r0" "v = reservation_from_stored KindReserved r0" "r0 \<in> mem_records st"
    using mem_reserve_new [OF assms(1) reserve] by blast
  note fresh = stored_try_reserve_Inr [OF r0(1)]
  have i: "si_invocation_id r0 = ?i"
    using prologue fresh(3) by (auto simp: effect_prologue_def reservation_input_of_def)
  have state: "is_state (ir_status v) = StReserved"
    using r0(2) fresh(2) by (simp add: reservation_from_stored_def status_from_stored_def)
  let ?w1 = "(record_event ''reserve'' w)\<lparr>ew_store := st, ew_reserved := ?i # ew_reserved w\<rparr>"
  have step1: "effect_step X ?P k1 (TaskReserve c) w = (TaskAuthorize c p v, ?w1)"
    by (rule effect_step_reserved [OF prologue _ reserve]) simp
  let ?f = "\<lparr>fa_trace_id = fst ids, fa_span_id = snd ids, fa_expected = StReserved,
      fa_record_id = rc_record_id receipt1\<rparr>"
  let ?w2 = "record_event ''audit_authorization'' (?w1\<lparr>ew_audit := a1\<rparr>)"
  have step2: "effect_step X ?P k2 (TaskAuthorize c p v) ?w1 = (TaskBegin c p ?f, ?w2)"
    using state reserve(2) authorized append1
    by (simp add: effect_authorize_def Let_def world_append_def record_event_def)
  obtain tr1 where tr1: "transition_try_new StReserved StPending (AuditAuthorization (rc_record_id receipt1)) = Inr tr1"
    using authorized_transition [OF visible(1)] by blast
  let ?l1 = "\<lparr>al_kind = LinkAuthorization, al_record_id = rc_record_id receipt1, al_attached_at = rd_store_clock k3\<rparr>"
  obtain st1 r1 where st1: "mem_transition (rd_store_clock k3) ?i tr1 st = (Inr (), st1)" "mem_inv st1"
    "r1 \<in> mem_records st1" "si_invocation_id r1 = ?i" "si_state r1 = StPending"
    "si_updated_at r1 = rd_store_clock k3" "si_audit_links r1 = [?l1]"
    by (rule mem_linked_transition [OF mem_reserve_inv [OF assms(1) reserve(1)] r0(3) fresh(2) _ tr1,
          of "rd_store_clock k3" ?l1])
       (use fresh(8,10) clock(1) visible(1) i in \<open>simp_all add: audit_link_try_new_def\<close>)
  let ?w3 = "?w2\<lparr>ew_store := st1\<rparr>"
  have step3: "effect_step X ?P k3 (TaskBegin c p ?f) ?w2 = (TaskExecute c p ?f, ?w3)"
    using tr1 st1(1) by (simp add: effect_begin_def world_transition_def mem_ops_def record_event_def)
  let ?w4 = "(record_event ''execute'' ?w3)\<lparr>ew_executed := (?i, rc_record_id receipt1) # ew_executed w\<rparr>"
  have step4: "effect_step X ?P k4 (TaskExecute c p ?f) ?w3 = (TaskRecord c p ?f prepared, ?w4)"
    using prepared by (simp add: effect_execute_def Let_def record_event_def)
  let ?w5 = "record_event ''audit_outcome'' (?w4\<lparr>ew_audit := a2\<rparr>)"
  have step5: "effect_step X ?P k5 (TaskRecord c p ?f prepared) ?w4 =
      (TaskComplete ?i prepared (rc_record_id receipt2), ?w5)"
    using append2 by (simp add: effect_record_def Let_def world_append_def record_event_def)
  obtain tr2 where tr2: "transition_try_new StPending (po_state prepared) (AuditOutcome (rc_record_id receipt2)) = Inr tr2"
    using prepared_transition [OF visible(2)] prepared by blast
  let ?l2 = "\<lparr>al_kind = LinkOutcome, al_record_id = rc_record_id receipt2, al_attached_at = rd_store_clock k6\<rparr>"
  obtain st2 r2 where st2: "mem_transition (rd_store_clock k6) ?i tr2 st1 = (Inr (), st2)"
    "r2 \<in> mem_records st2" "si_invocation_id r2 = ?i" "si_state r2 = po_state prepared"
    "si_audit_links r2 = [?l1, ?l2]"
    by (rule mem_linked_transition [OF st1(2,3,5) _ tr2, of "rd_store_clock k6" ?l2])
       (use st1(4,6,7) clock(2) visible(2) in \<open>simp_all add: audit_link_try_new_def\<close>)
  let ?w6 = "record_event ''terminal_status'' (?w5\<lparr>ew_store := st2\<rparr>)"
  have step6: "effect_step X ?P k6 (TaskComplete ?i prepared (rc_record_id receipt2)) ?w5 =
      (TaskDone (po_outcome prepared), ?w6)"
    using tr2 st2(1) by (simp add: effect_complete_def world_transition_def mem_ops_def record_event_def)
  have "execute_effect X ?P (k1 # k2 # k3 # k4 # k5 # k6 # ks) c w = (TaskDone (po_outcome prepared), ?w6)"
    unfolding execute_effect_def
    using step1 step2 step3 step4 step5 step6 effect_run_finished by (simp del: effect_step.simps)
  then show ?thesis
    using st2(2-5) by (intro exI [of _ ?w6] exI [of _ r2]) (simp add: record_event_def)
qed

section \<open>Properties\<close>

text \<open>
  Claim C6. A provider that runs any number of invocations, fresh and resumed, interleaved at
  every await point, dropped anywhere, with any clock readings and any fault of the ledger,
  executes an operation at most once for each new reservation of its invocation identifier; it
  executes only under an authorization record for that invocation that is durable in the
  ledger; two tasks never run one invocation at the same time; and whenever a task is between
  the two transitions, the stored invocation is Pending.
\<close>

theorem effects_execute_at_most_once:
  assumes "provider_reachable X (memory_plane C X D) (provider_start [] files) s"
  shows "(\<forall>i. executions (pr_world s) i \<le> count_list (ew_reserved (pr_world s)) i)
    \<and> (\<forall>(i, record_id) \<in> set (ew_executed (pr_world s)).
         \<exists>rec. ledger_durable C X (ew_audit (pr_world s)) record_id (RecAuthorization rec)
           \<and> ax_invocation_id rec = i)
    \<and> owners_distinct (pr_effects s)
    \<and> owners_pending (mem_records (ew_store (pr_world s))) (pr_effects s)"
proof -
  have "provider_inv mem_inv mem_records (ledger_durable C X) X (memory_plane C X D) s"
    by (rule plane.provider_reachable_inv [OF assms]) (simp_all add: mem_inv_empty mem_records_def)
  then have inv: "exclusive_starts (mem_records (ew_store (pr_world s))) (pr_world s) (pr_effects s)"
    "\<forall>e \<in> set (ew_executed (pr_world s)). execution_audited (ledger_durable C X) (ew_audit (pr_world s)) e"
    by (simp_all add: provider_inv_def Let_def)
  then have "\<forall>i. executions (pr_world s) i \<le> count_list (ew_reserved (pr_world s)) i"
    by (auto simp: exclusive_starts_def starts_counted_def intro: add_leD1)
  with inv show ?thesis by (fastforce simp: exclusive_starts_def execution_audited_def)
qed



text \<open>
  Claim C10. An effect is carried out when nothing fails: on a new reservation, with an allowing
  decision, a sink that accepts both records under identifiers of its own and a store clock
  that does not run backwards, \<open>execute_effect\<close> answers what the operation's result projects to,
  has run the operation once and under the authorization's record, has gone through its stages
  in the order reserve, authorize, execute, record, finish, and leaves the invocation in the
  state of that outcome with exactly the two audit links.
\<close>

theorem undisturbed_effect_completes:
  fixes A :: "('a, 'io) audit_sink_ops"
  assumes "mem_inv (ew_store w)"
    and prologue: "effect_prologue X c (rd_clock k1) = Inr p"
    and reserve: "mem_reserve_or_get (rd_store_clock k1) (pn_input p) (ec_descriptor c)
          (pn_retention_until p) (ew_store w) = (Inr v, st)" "ir_kind v = KindReserved"
    and authorized: "authorization_record_of D c p (rd_clock k2) = Inr (ids, rec)"
    and prepared: "prepared = prepare_effect_outcome X (ec_invocation_id c) (ec_descriptor c)
          (co_execute (ec_operation c) (ec_context c) (iq_arguments (ec_request c)))"
    and append1: "aus_append A (rd_io k2) (RecAuthorization rec) (ew_audit w) = (Inr receipt1, a1)"
    and append2: "aus_append A (rd_io k5) (RecOutcome (outcome_record_of D c p ids (rc_record_id receipt1)
          prepared (rd_clock k5))) a1 = (Inr receipt2, a2)"
    and visible: "\<not> is_blank (rc_record_id receipt1)" "\<not> is_blank (rc_record_id receipt2)"
    and clock: "rd_store_clock k1 \<le> rd_store_clock k3" "rd_store_clock k3 \<le> rd_store_clock k6"
  shows "\<exists>w' r. execute_effect X \<lparr>ef_store = mem_ops, ef_audit = A, ef_digests = D\<rparr>
        (k1 # k2 # k3 # k4 # k5 # k6 # ks) c w = (TaskDone (po_outcome prepared), w')
    \<and> ew_executed w' = (ec_invocation_id c, rc_record_id receipt1) # ew_executed w \<and> ew_audit w' = a2
    \<and> ew_events w' = ew_events w @
        [''reserve'', ''audit_authorization'', ''execute'', ''audit_outcome'', ''terminal_status'']
    \<and> r \<in> mem_records (ew_store w') \<and> si_invocation_id r = ec_invocation_id c
    \<and> si_state r = po_state prepared
    \<and> map (\<lambda>l. (al_kind l, al_record_id l)) (si_audit_links r) =
        [(LinkAuthorization, rc_record_id receipt1), (LinkOutcome, rc_record_id receipt2)]"
  by (rule undisturbed_run) fact+


section \<open>Witnesses\<close>

definition sample_digests :: effect_audit_digests where
  "sample_digests = \<lparr>ead_portable_digest = sample_digest, ead_lock_digest = sample_digest,
     ead_binding_digest = sample_digest, ead_resolved_digest = sample_digest\<rparr>"

definition sample_call :: effect_call where
  "sample_call =
     \<lparr>ec_request = sample_invocation,
      ec_admission = \<lparr>ia_grant_set = sample_grant_set, ia_locked_capabilities = [(sample_identity, sample_locked)]\<rparr>,
      ec_locked = sample_locked, ec_revisions = sample_revisions,
      ec_context = sample_context_for IrreversibleWrite, ec_proposal = sample_proposal,
      ec_decision = DecisionAllow ''decision-1'' sample_revisions 110 sample_conditions,
      ec_evidence = [], ec_operation = sample_operation\<lparr>co_execute := \<lambda>_ _. Inr (JObj [])\<rparr>,
      ec_resumed = False\<rparr>"

definition sample_status_context :: status_context where
  "sample_status_context = \<lparr>sc_tenant_ref = ''t1'', sc_human_ref = ''h1'', sc_workload_ref = ''w1'',
     sc_run_ref = ''run-1'', sc_actor_ref = ''user:1'', sc_agent_ref = ''agent:1'',
     sc_task_ref = ''task-1'', sc_session_ref = ''session-1'', sc_admission_ref = ''adm-1''\<rparr>"

definition sample_input :: reservation_input where
  "sample_input = reservation_input_of sample_invocation (ec_admission sample_call) sample_proposal
     ''key-1'' sample_digest sample_status_context
     \<lparr>isv_actor = ''user:1'', isv_capability = sample_identity, isv_normalized_resource = ''doc:7'',
      isv_semantic_operation = ''docs.read''\<rparr> []"

definition sample_plan :: effect_plan where
  "sample_plan = \<lparr>pn_idempotency_key = ''key-1'', pn_revision_digest = sample_digest,
     pn_retention_until = 700, pn_evidence_refs = [], pn_input = sample_input\<rparr>"

lemma sample_names_visible [simp]:
  "\<not> is_blank ''h1''" "\<not> is_blank ''w1''" "\<not> is_blank ''run-1''" "\<not> is_blank ''user:1''" "\<not> is_blank ''agent:1''"
  "\<not> is_blank ''task-1''" "\<not> is_blank ''session-1''" "\<not> is_blank ''adm-1''" "\<not> is_blank ''docs.read''"
  "\<not> is_blank ''etag''" "\<not> is_blank ''main''" "\<not> is_blank ''1''" "\<not> is_blank ''status://inv-1''"
  by (simp_all add: blank_simps)

lemma sample_prologue: "effect_prologue sample_externals sample_call 100 = Inr sample_plan"
  by (simp add: effect_prologue_def sample_call_def sample_invocation_def sample_context_for_def
      sample_auth_context_def status_context_of_def status_context_try_new_def revisions_digest_def
      canonical_audit_digest_def effect_retention_deadline_def validated_audit_evidence_refs_def
      evidence_references_try_new_def effect_scope_def scope_try_new_def sample_plan_def sample_input_def
      sample_status_context_def sample_data checked_add_def)

definition sample_reserved_record :: stored_invocation where
  "sample_reserved_record =
     \<lparr>si_invocation_id = ''inv-1'', si_status_id = ''status://inv-1'', si_scope = ri_scope sample_input,
      si_idempotency_key = ''key-1'', si_request_digest = sample_digest, si_admission_id = ''adm-1'',
      si_grant_digest = sample_digest, si_catalog_identity = sample_catalog,
      si_catalog_digest = sample_digest, si_descriptor_digest = sample_digest,
      si_authority_revision_digest = sample_digest, si_status_context = sample_status_context,
      si_proposal_digest = sample_digest, si_protected_evidence_refs = [], si_state = StReserved,
      si_audit_links = [], si_created_at = 100, si_updated_at = 100, si_retention_until = 700,
      si_abandonment = None\<rparr>"

lemma sample_effect_reserved:
  "mem_reserve_or_get 100 (pn_input sample_plan) (ec_descriptor sample_call) (pn_retention_until sample_plan) [] =
     (Inr (reservation_from_stored KindReserved sample_reserved_record),
      [(key_from_invocation sample_reserved_record, sample_reserved_record)])"
proof -
  have "stored_try_reserve sample_input sample_descriptor 100 700 = Inr sample_reserved_record"
    by (simp add: stored_try_reserve_def reservation_validate_def sample_input_def reservation_input_of_def
        sample_status_context_def sample_call_def sample_invocation_def sample_proposal_def sample_data
        status_id_of_def sample_reserved_record_def checked_add_def proposal_of_request_def)
  then show ?thesis
    by (simp add: mem_reserve_or_get_def mem_retain_def sample_plan_def sample_call_def sample_locked_def)
qed

lemma sample_trace_ids:
  "trace_ids sample_invocation = Inr (''11111111111111111111111111111111'', ''2222222222222222'')"
  by code_simp

lemma sample_effect_authorized:
  "authorization_record_of sample_digests sample_call sample_plan 105 =
     Inr ((''11111111111111111111111111111111'', ''2222222222222222''), sample_authorization)"
proof -
  have "effect_correlation sample_digests sample_call sample_plan ''11111111111111111111111111111111''
      ''2222222222222222'' = sample_correlation"
    by (simp add: effect_correlation_def sample_call_def sample_context_for_def sample_auth_context_def
        sample_invocation_def sample_plan_def sample_digests_def sample_correlation_def sample_proposal_def
        status_id_of_def sample_data)
  moreover have "trace_ids (ec_request sample_call) =
      Inr (''11111111111111111111111111111111'', ''2222222222222222'')"
    using sample_trace_ids by (simp add: sample_call_def)
  ultimately show ?thesis
    by (simp add: authorization_record_of_def sample_authorization_def)
       (simp add: sample_call_def sample_invocation_def precondition_ref_new_def string_ref_new_def sample_plan_def)
qed

definition sample_prepared :: prepared_outcome where
  "sample_prepared = \<lparr>po_audit_kind = AuditCompletion, po_state = StSucceeded (StatusSafeResult (JObj [])),
     po_safe_result = Some (StatusSafeResult (JObj [])), po_safe_error = None,
     po_outcome = Inr (OutSucceeded ''inv-1'' (JObj []))\<rparr>"

lemma sample_effect_prepared:
  "prepare_effect_outcome sample_externals (ec_invocation_id sample_call) (ec_descriptor sample_call)
     (co_execute (ec_operation sample_call) (ec_context sample_call) (iq_arguments (ec_request sample_call))) =
   sample_prepared"
  by (simp add: prepare_effect_outcome_def sample_call_def sample_invocation_def status_safe_result_try_new_def
      validate_output_def validate_instance_def status_project_def project_field_def sample_prepared_def sample_data)

lemma sample_effect_outcome:
  "outcome_record_of sample_digests sample_call sample_plan
     (''11111111111111111111111111111111'', ''2222222222222222'') sample_receipt_id sample_prepared 106 = sample_outcome"
proof -
  have "effect_correlation sample_digests sample_call sample_plan ''11111111111111111111111111111111''
      ''2222222222222222'' = sample_correlation"
    by (simp add: effect_correlation_def sample_call_def sample_context_for_def sample_auth_context_def
        sample_invocation_def sample_plan_def sample_digests_def sample_correlation_def sample_proposal_def
        status_id_of_def sample_data)
  then show ?thesis by (simp add: outcome_record_of_def sample_outcome_def sample_prepared_def)
qed

lemma sample_appends:
  "append_sync sample_codec sample_externals sample_io (RecAuthorization sample_authorization) Map.empty =
     (Inr (sample_receipt 1 zero_digest), sample_files (''{1}'' @ [newline]))"
  "\<exists>files. append_sync sample_codec sample_externals sample_io (RecOutcome sample_outcome)
     (sample_files (''{1}'' @ [newline])) = (Inr (sample_receipt 2 sample_digest), files)"
proof -
  have io: "sample_io\<lparr>ai_written := None\<rparr> = sample_io" by (simp add: sample_io_def)
  show "append_sync sample_codec sample_externals sample_io (RecAuthorization sample_authorization) Map.empty =
     (Inr (sample_receipt 1 zero_digest), sample_files (''{1}'' @ [newline]))"
    using sample_append1 [of None] unfolding io by (simp add: write_line_def sample_io_def sample_files_def)
  let ?f = "sample_files (''{1}'' @ [newline])"
  have "read_and_verify sample_codec sample_externals (''{1}'' @ [newline]) ''t1'' = Inr [sample_verified1]"
    using sample_verify1(1) by (simp add: verify_partition_content sample_files_def content_of_def)
  note prepared = sample_prepare2 [OF this]
  have "lk_encode sample_codec sample_entry2 = Some ''{2}''"
    by (simp add: sample_codec_def sample_entry1_def sample_entry2_def)
  then show "\<exists>files. append_sync sample_codec sample_externals sample_io (RecOutcome sample_outcome) ?f =
      (Inr (sample_receipt 2 sample_digest), files)"
    using prepared
    by (simp add: append_sync_def Let_def sample_io_def sample_files_def write_line_def
        del: audit_record_json.simps)
qed

definition sample_readings :: "u64 \<Rightarrow> u64 \<Rightarrow> append_io effect_readings" where
  "sample_readings now store_now = \<lparr>rd_clock = now, rd_store_clock = store_now, rd_io = sample_io\<rparr>"

definition sample_schedule :: "append_io effect_readings list" where
  "sample_schedule = [sample_readings 100 100, sample_readings 105 0, sample_readings 0 106,
     sample_readings 0 0, sample_readings 106 0, sample_readings 0 107, sample_readings 0 0]"

abbreviation sample_plane :: "(memory_store, ledger_files, append_io) enforcement_plane" where
  "sample_plane \<equiv> memory_plane sample_codec sample_externals sample_digests"

definition sample_world :: "(memory_store, ledger_files) effect_world" where
  "sample_world = pr_world (provider_start [] Map.empty)"

definition sample_outcome_files :: ledger_files where
  "sample_outcome_files = snd (append_sync sample_codec sample_externals sample_io
     (RecOutcome sample_outcome) (sample_files (''{1}'' @ [newline])))"

lemma sample_run_hypotheses:
  "mem_inv (ew_store sample_world)"
  "effect_prologue sample_externals sample_call (rd_clock (sample_readings 100 100)) = Inr sample_plan"
  "mem_reserve_or_get (rd_store_clock (sample_readings 100 100)) (pn_input sample_plan) (ec_descriptor sample_call)
     (pn_retention_until sample_plan) (ew_store sample_world) =
     (Inr (reservation_from_stored KindReserved sample_reserved_record),
      [(key_from_invocation sample_reserved_record, sample_reserved_record)])"
  "ir_kind (reservation_from_stored KindReserved sample_reserved_record) = KindReserved"
  "authorization_record_of sample_digests sample_call sample_plan (rd_clock (sample_readings 105 0)) =
     Inr ((''11111111111111111111111111111111'', ''2222222222222222''), sample_authorization)"
  "sample_prepared = prepare_effect_outcome sample_externals (ec_invocation_id sample_call)
     (ec_descriptor sample_call)
     (co_execute (ec_operation sample_call) (ec_context sample_call) (iq_arguments (ec_request sample_call)))"
  "aus_append (ledger_ops sample_codec sample_externals) (rd_io (sample_readings 105 0))
     (RecAuthorization sample_authorization) (ew_audit sample_world) =
     (Inr (sample_receipt 1 zero_digest), sample_files (''{1}'' @ [newline]))"
  "aus_append (ledger_ops sample_codec sample_externals) (rd_io (sample_readings 106 0))
     (RecOutcome (outcome_record_of sample_digests sample_call sample_plan
        (''11111111111111111111111111111111'', ''2222222222222222'')
        (rc_record_id (sample_receipt 1 zero_digest)) sample_prepared (rd_clock (sample_readings 106 0))))
     (sample_files (''{1}'' @ [newline])) = (Inr (sample_receipt 2 sample_digest), sample_outcome_files)"
  "\<not> is_blank (rc_record_id (sample_receipt 1 zero_digest))"
  "\<not> is_blank (rc_record_id (sample_receipt 2 sample_digest))"
  "rd_store_clock (sample_readings 100 100) \<le> rd_store_clock (sample_readings 0 106)"
  "rd_store_clock (sample_readings 0 106) \<le> rd_store_clock (sample_readings 0 107)"
proof -
  have id: "rc_record_id (sample_receipt 1 zero_digest) = sample_receipt_id"
    by (simp add: sample_receipt_def sample_receipt_id_def)
  obtain files where "append_sync sample_codec sample_externals sample_io (RecOutcome sample_outcome)
     (sample_files (''{1}'' @ [newline])) = (Inr (sample_receipt 2 sample_digest), files)"
    using sample_appends(2) by blast
  then show "aus_append (ledger_ops sample_codec sample_externals) (rd_io (sample_readings 106 0))
     (RecOutcome (outcome_record_of sample_digests sample_call sample_plan
        (''11111111111111111111111111111111'', ''2222222222222222'')
        (rc_record_id (sample_receipt 1 zero_digest)) sample_prepared (rd_clock (sample_readings 106 0))))
     (sample_files (''{1}'' @ [newline])) = (Inr (sample_receipt 2 sample_digest), sample_outcome_files)"
    using sample_effect_outcome unfolding id by (simp add: sample_readings_def sample_outcome_files_def)
qed (use sample_prologue sample_effect_reserved sample_appends(1) receipt_id_not_blank sample_effect_authorized
      sample_effect_prepared in
     \<open>simp_all add: sample_world_def provider_start_def mem_inv_empty sample_receipt_def
       reservation_from_stored_def sample_readings_def\<close>)

lemma sample_plane_fields:
  "\<lparr>ef_store = mem_ops, ef_audit = ledger_ops sample_codec sample_externals, ef_digests = sample_digests\<rparr> = sample_plane"
  by (simp add: memory_plane_def)

lemma sample_call_id: "ec_invocation_id sample_call = ''inv-1''" "ew_executed sample_world = []"
  "po_outcome sample_prepared = Inr (OutSucceeded ''inv-1'' (JObj []))"
  "rc_record_id (sample_receipt 1 zero_digest) = sample_receipt_id"
  by (simp_all add: sample_call_def sample_invocation_def sample_world_def provider_start_def
      sample_prepared_def sample_receipt_def sample_receipt_id_def)

theorem undisturbed_effect_completes_witness:
  "\<exists>w'. execute_effect sample_externals sample_plane sample_schedule sample_call sample_world =
      (TaskDone (Inr (OutSucceeded ''inv-1'' (JObj []))), w')
    \<and> ew_executed w' = [(''inv-1'', sample_receipt_id)]"
  using undisturbed_effect_completes [OF sample_run_hypotheses, where ?k4.0 = "sample_readings 0 0"
      and ks = "[sample_readings 0 0]"]
  unfolding sample_plane_fields sample_schedule_def [symmetric] sample_call_id by blast

definition sample_provider :: "(memory_store, ledger_files) provider" where
  "sample_provider =
     (let (task, w) = execute_effect sample_externals sample_plane sample_schedule sample_call sample_world in
      \<lparr>pr_world = w, pr_effects = [task], pr_suspends = []\<rparr>)"

lemma sample_provider_run:
  "provider_reachable sample_externals sample_plane (provider_start [] Map.empty) sample_provider"
  "pr_effects sample_provider = [TaskDone (Inr (OutSucceeded ''inv-1'' (JObj [])))]"
  "ew_executed (pr_world sample_provider) = [(''inv-1'', sample_receipt_id)]"
proof -
  obtain w' where run: "execute_effect sample_externals sample_plane sample_schedule sample_call sample_world =
      (TaskDone (Inr (OutSucceeded ''inv-1'' (JObj []))), w')"
    "ew_executed w' = [(''inv-1'', sample_receipt_id)]"
    using undisturbed_run [OF sample_run_hypotheses, where ?k4.0 = "sample_readings 0 0"
      and ks = "[sample_readings 0 0]"]
    unfolding sample_plane_fields sample_schedule_def [symmetric] sample_call_id by blast
  then show "pr_effects sample_provider = [TaskDone (Inr (OutSucceeded ''inv-1'' (JObj [])))]"
    "ew_executed (pr_world sample_provider) = [(''inv-1'', sample_receipt_id)]"
    by (simp_all add: sample_provider_def)
  let ?s = "(provider_start [] Map.empty)\<lparr>pr_effects := [TaskReserve sample_call]\<rparr>"
  have "provider_step sample_externals sample_plane (provider_start [] Map.empty) ?s"
    using provider_step.step_call [of sample_externals sample_plane "provider_start [] Map.empty" sample_call]
    by (simp add: provider_start_def)
  moreover have "(provider_step sample_externals sample_plane)\<^sup>*\<^sup>* ?s sample_provider"
    using effect_run_reachable [of 0 ?s "TaskReserve sample_call" sample_externals sample_plane
        "take 7 sample_schedule" "TaskDone (Inr (OutSucceeded ''inv-1'' (JObj [])))" w'] run(1)
    by (simp add: execute_effect_def sample_provider_def sample_world_def provider_start_def)
  ultimately show "provider_reachable sample_externals sample_plane (provider_start [] Map.empty) sample_provider"
    unfolding provider_reachable_def by (rule converse_rtranclp_into_rtranclp)
qed

theorem effects_execute_at_most_once_witness:
  "1 \<le> count_list (ew_reserved (pr_world sample_provider)) ''inv-1''
   \<and> (\<exists>rec. ledger_durable sample_codec sample_externals (ew_audit (pr_world sample_provider))
         sample_receipt_id (RecAuthorization rec) \<and> ax_invocation_id rec = ''inv-1'')"
  using effects_execute_at_most_once [OF sample_provider_run(1)] sample_provider_run(3)
  by (auto simp: executions_def dest: spec [of _ "''inv-1''"])


definition down_plane :: "(memory_store, unit, unit) enforcement_plane" where
  "down_plane = \<lparr>ef_store = mem_ops,
     ef_audit = \<lparr>aus_append = \<lambda>_ _ a. (Inl (audit_unavailable ''down''), a)\<rparr>, ef_digests = sample_digests\<rparr>"

definition down_world :: "(memory_store, unit) effect_world" where
  "down_world = \<lparr>ew_store = [], ew_audit = (), ew_events = [], ew_reserved = [], ew_executed = []\<rparr>"

definition down_readings :: "u64 \<Rightarrow> u64 \<Rightarrow> unit effect_readings" where
  "down_readings now store_now = \<lparr>rd_clock = now, rd_store_clock = store_now, rd_io = ()\<rparr>"

lemma down_run_hypotheses:
  "mem_inv (ew_store down_world)" "ef_store down_plane = mem_ops"
  "effect_prologue sample_externals sample_call (rd_clock (down_readings 100 100)) = Inr sample_plan"
  "mem_reserve_or_get (rd_store_clock (down_readings 100 100)) (pn_input sample_plan) (ec_descriptor sample_call)
     (pn_retention_until sample_plan) (ew_store down_world) =
     (Inr (reservation_from_stored KindReserved sample_reserved_record),
      [(key_from_invocation sample_reserved_record, sample_reserved_record)])"
  "ir_kind (reservation_from_stored KindReserved sample_reserved_record) = KindReserved"
  "authorization_record_of (ef_digests down_plane) sample_call sample_plan (rd_clock (down_readings 105 0)) =
     Inr ((''11111111111111111111111111111111'', ''2222222222222222''), sample_authorization)"
  "aus_append (ef_audit down_plane) (rd_io (down_readings 105 0)) (RecAuthorization sample_authorization)
     (ew_audit down_world) = (Inl (audit_unavailable ''down''), ())"
  using sample_prologue sample_effect_reserved sample_effect_authorized
  by (simp_all add: down_world_def down_plane_def down_readings_def mem_inv_empty reservation_from_stored_def)


end
