(* ===== verification/KF_Invocation.thy ===== *)
theory KF_Invocation
  imports KF_Effect
begin

text \<open>
  The invocation service of \<open>crates/kiteframe-provider/src/invocation.rs\<close>: the validation every
  invocation passes before an operation may run, \<open>invoke\<close> and \<open>resume\<close>, the map of pending
  suspensions and the leases that give a checkpoint to one resume at a time. Validation logs the
  events it emits; the deployment's answers (admission store, principal verifier, evidence
  provider, checkpoint issuer, policy backend) are the fields of \<open>invocation_deployment\<close>, and the
  clock readings are arguments. What comes after validation is \<open>KF_Effect\<close>.
\<close>

section \<open>Logged results\<close>

type_synonym 'a logged = "string list \<times> (diagnostic, 'a) result"

definition unlogged :: "(diagnostic, 'a) result \<Rightarrow> 'a logged" where
  "unlogged r = ([], r)"

definition log_event :: "string \<Rightarrow> unit logged" where
  "log_event event = ([event], Inr ())"

definition log_then :: "'a logged \<Rightarrow> ('a \<Rightarrow> 'b logged) \<Rightarrow> 'b logged" where
  "log_then m f =
     (case m of
        (events, Inl e) \<Rightarrow> (events, Inl e)
      | (events, Inr x) \<Rightarrow> (case f x of (later, r) \<Rightarrow> (events @ later, r)))"

section \<open>The service\<close>

record admission_snapshot =
  sn_grant_digest :: sha256_digest
  sn_catalog_digest :: sha256_digest
  sn_authority_revisions :: authority_revision_set
  sn_descriptor_digest :: sha256_digest
  sn_input_schema_digest :: sha256_digest
  sn_output_schema_digest :: sha256_digest
  sn_stable_error_set_digest :: sha256_digest
  sn_safety_metadata_digest :: sha256_digest
  sn_grant :: effective_grant

definition snapshot_new ::
  "invocation_admission \<Rightarrow> locked_capability \<Rightarrow> effective_grant \<Rightarrow> admission_snapshot" where
  "snapshot_new admission locked grant =
     \<lparr>sn_grant_digest = gs_grant_digest (ia_grant_set admission),
      sn_catalog_digest = gs_catalog_digest (ia_grant_set admission),
      sn_authority_revisions = gs_authority_revisions (ia_grant_set admission),
      sn_descriptor_digest = lc_descriptor_digest locked,
      sn_input_schema_digest = lc_input_schema_digest locked,
      sn_output_schema_digest = lc_output_schema_digest locked,
      sn_stable_error_set_digest = lc_stable_error_set_digest locked,
      sn_safety_metadata_digest = lc_safety_metadata_digest locked, sn_grant = grant\<rparr>"

record pending_suspension =
  ps_suspension :: suspension
  ps_snapshot :: admission_snapshot

record invocation_deployment =
  vs_load :: "string \<Rightarrow> sha256_digest \<Rightarrow> (diagnostic, invocation_admission) result"
  vs_verify :: "(diagnostic, verified_human \<times> verified_workload) result"
  vs_operations :: operation_registry
  vs_evidence :: evidence_provider
  vs_issue :: "effect_proposal \<Rightarrow> (diagnostic, string) result"
  vs_enforced :: bool

definition invocation_service_try_new ::
  "invocation_deployment \<Rightarrow> (diagnostic, invocation_deployment) result" where
  "invocation_service_try_new vs =
     (if \<not> registry_is_frozen (vs_operations vs)
      then Inl (inv_runtime_error
             ''invocation service requires a deployment-bound frozen operation registry'')
      else Inr (vs\<lparr>vs_enforced := False\<rparr>))"

definition with_effect_enforcement :: "invocation_deployment \<Rightarrow> invocation_deployment" where
  "with_effect_enforcement vs = vs\<lparr>vs_enforced := True\<rparr>"

section \<open>Validation, stage by stage\<close>

definition validate_invocation_modes ::
  "capability_descriptor \<Rightarrow> effective_grant \<Rightarrow> (diagnostic, unit) result" where
  "validate_invocation_modes d grant =
     (if eg_maximum_effect grant < cd_effect d
      then Inl (inv_authorization_error ''locked operation effect exceeds the effective grant'')
      else if cd_effect d = ReadOnly
         \<and> (ModeImmediate \<notin> cd_execution_modes d \<or> ModeImmediate \<notin> eg_execution_modes grant)
      then Inl (inv_authorization_error
             ''immediate read execution is not permitted by the effective grant'')
      else Inr ())"

definition validate_admission_stage ::
  "externals \<Rightarrow> invocation_deployment \<Rightarrow> invocation_request \<Rightarrow> pending_suspension option \<Rightarrow> u64 \<Rightarrow>
     (invocation_admission \<times> locked_capability \<times> effective_grant) logged" where
  "validate_admission_stage X vs q resumed now =
     log_then (unlogged (vs_load vs (iq_admission_id q) (iq_grant_digest q))) (\<lambda>admission.
     log_then (unlogged (ia_locked_capability admission (iq_capability q))) (\<lambda>locked.
     log_then (unlogged (validate_locked_semantics X locked)) (\<lambda>_.
     log_then (log_event ''validate_request'') (\<lambda>_.
     log_then (unlogged (map_err (\<lambda>_. inv_capability_error
         ''invocation request does not match its persisted admission and locked schema'')
       (request_validate_against_admission X q (ia_grant_set admission) (lc_descriptor locked)))) (\<lambda>_.
     log_then (unlogged (ia_effective_grant admission (iq_capability q))) (\<lambda>grant.
     log_then (unlogged (ensure
         (case resumed of None \<Rightarrow> True | Some pending \<Rightarrow> ps_snapshot pending = snapshot_new admission locked grant)
         (inv_authorization_error ''persisted admission state changed across suspension''))) (\<lambda>_.
     log_then (log_event ''validate_grant'') (\<lambda>_.
     log_then (unlogged (validate_grant_against_locked grant locked (gs_expires_at (ia_grant_set admission)))) (\<lambda>_.
     log_then (unlogged (ensure
         (\<not> (gs_expires_at (ia_grant_set admission) \<le> now \<or> eg_expires_at grant \<le> now))
         (inv_grant_error ''capability grant or admission has expired at point of use''))) (\<lambda>_.
     log_then (unlogged (validate_invocation_modes (lc_descriptor locked) grant)) (\<lambda>_.
     unlogged (Inr (admission, locked, grant)))))))))))))"

definition authenticated_principals ::
  "invocation_deployment \<Rightarrow> invocation_admission \<Rightarrow> u64 \<Rightarrow> (diagnostic, auth_context) result" where
  "authenticated_principals vs admission now =
     and_then (map_err (\<lambda>_. inv_authorization_error ''authenticated principal verification failed'')
       (vs_verify vs)) (\<lambda>(human, workload).
     correlate_principals human workload
       \<lparr>pr_actor_ref = gs_actor (ia_grant_set admission), pr_agent_ref = gs_agent (ia_grant_set admission),
        pr_run_ref = vw_run_ref workload, pr_task_ref = gs_task (ia_grant_set admission),
        pr_session_ref = gs_session (ia_grant_set admission),
        pr_admission_ref = gs_admission_id (ia_grant_set admission), pr_correlated_at = now\<rparr>)"

definition authenticate_stage ::
  "invocation_deployment \<Rightarrow> invocation_request \<Rightarrow> invocation_admission \<Rightarrow> u64 \<Rightarrow> auth_context logged" where
  "authenticate_stage vs q admission now =
     log_then (log_event ''authenticate'') (\<lambda>_.
     log_then (unlogged (authenticated_principals vs admission now)) (\<lambda>principals.
     log_then (unlogged (ensure (ac_admission_ref principals = iq_admission_id q)
       (inv_authorization_error ''authenticated principal admission does not match the invocation''))) (\<lambda>_.
     unlogged (Inr principals))))"

definition freshness_stage ::
  "invocation_deployment \<Rightarrow> invocation_admission \<Rightarrow> locked_capability \<Rightarrow> effective_grant \<Rightarrow> u64 \<Rightarrow>
     (authorization_backend \<times> authority_revision_set) logged" where
  "freshness_stage vs admission locked grant now =
     log_then (log_event ''validate_freshness'') (\<lambda>_.
     log_then (unlogged (registry_backend (vs_operations vs))) (\<lambda>backend.
     log_then (unlogged (map_err (\<lambda>_. inv_policy_error ''current authority revisions cannot be proven'')
       (ab_revisions backend))) (\<lambda>current.
     log_then (unlogged (validate_freshness (ia_grant_set admission) grant
       (cd_freshness (lc_descriptor locked)) current now)) (\<lambda>_.
     unlogged (Inr (backend, current))))))"

definition proposal_stage ::
  "externals \<Rightarrow> invocation_request \<Rightarrow> locked_capability \<Rightarrow> effective_grant \<Rightarrow>
     pending_suspension option \<Rightarrow> effect_proposal logged" where
  "proposal_stage X q locked grant resumed =
     log_then (log_event ''validate_resource'') (\<lambda>_.
     log_then (unlogged (inv_validate_resource X grant (lc_descriptor locked) (iq_selected_resource q))) (\<lambda>_.
     log_then (unlogged (map_err inv_first_diagnostic (proposal_try_new X q (lc_descriptor locked)))) (\<lambda>proposal.
     log_then (unlogged (ensure
         (case resumed of None \<Rightarrow> True
          | Some pending \<Rightarrow> su_proposal_digest (ps_suspension pending) = ep_proposal_digest proposal)
         (inv_authorization_error ''resumed request does not match the pending effect proposal''))) (\<lambda>_.
     unlogged (Inr proposal)))))"

datatype verdict =
    VerdictRead effect_call
  | VerdictEffect effect_call
  | VerdictDeferred
  | VerdictSuspend suspend_call admission_snapshot

definition suspend_verdict ::
  "invocation_deployment \<Rightarrow> invocation_request \<Rightarrow> invocation_admission \<Rightarrow> locked_capability \<Rightarrow>
     effective_grant \<Rightarrow> authority_revision_set \<Rightarrow> auth_context \<Rightarrow> effect_proposal \<Rightarrow> evidence_kind \<Rightarrow>
     (diagnostic, verdict) result" where
  "suspend_verdict vs q admission locked grant current principals proposal kind =
     (if ModeSuspendable \<notin> cd_execution_modes (lc_descriptor locked)
         \<or> ModeSuspendable \<notin> eg_execution_modes grant
      then Inl (inv_authorization_error
             ''required evidence is absent and invocation is not suspendable'')
      else
        and_then (vs_issue vs proposal) (\<lambda>checkpoint.
        and_then (validate_checkpoint_reference checkpoint (ep_proposal_digest proposal)) (\<lambda>_.
        and_then (map_err inv_authorization_error (evidence_request_ref_new
            (''evidence-request://'' @ digest_display (ep_proposal_digest proposal)))) (\<lambda>reference.
        Inr (VerdictSuspend
          \<lparr>sp_request = q, sp_admission = admission, sp_locked = locked, sp_revisions = current,
           sp_principals = principals, sp_proposal = proposal,
           sp_suspension = \<lparr>su_checkpoint_ref = checkpoint, su_evidence_kind = kind,
             su_evidence_request_ref = reference, su_proposal_digest = ep_proposal_digest proposal\<rparr>\<rparr>
          (snapshot_new admission locked grant))))))"

definition invocation_preconditions ::
  "invocation_request \<Rightarrow> (diagnostic, precondition list) result" where
  "invocation_preconditions q =
     try_map (\<lambda>(name, value). map_err inv_precondition_error (precondition_try_new name (JStr value)))
       (iq_preconditions q)"

definition effect_verdict ::
  "invocation_deployment \<Rightarrow> effect_call \<Rightarrow> effective_grant \<Rightarrow> (diagnostic, verdict) result" where
  "effect_verdict vs c grant =
     (if cd_effect (ec_descriptor c) = ReadOnly then Inr (VerdictRead c)
      else if ModeDeferred \<notin> cd_execution_modes (ec_descriptor c) \<or> ModeDeferred \<notin> eg_execution_modes grant
      then Inl (inv_capability_error
             ''effect invocation reached the pre-execution handoff without deferred mode'')
      else Inr (if vs_enforced vs then VerdictEffect c else VerdictDeferred))"

definition point_of_use_stage ::
  "externals \<Rightarrow> invocation_deployment \<Rightarrow> invocation_request \<Rightarrow> bool \<Rightarrow> invocation_admission \<Rightarrow>
     locked_capability \<Rightarrow> effective_grant \<Rightarrow> auth_context \<Rightarrow> authorization_backend \<Rightarrow>
     authority_revision_set \<Rightarrow> effect_proposal \<Rightarrow> verified_evidence list \<Rightarrow> u64 \<Rightarrow> verdict logged" where
  "point_of_use_stage X vs q resumed admission locked grant principals backend current proposal evidence
      dispatch_now =
     log_then (unlogged (registry_resolve (vs_operations vs) (iq_capability q))) (\<lambda>operation.
     log_then (unlogged (invocation_context_try_new
       \<lparr>ic_principals = principals, ic_capability = iq_capability q,
        ic_selected_resource = iq_selected_resource q, ic_trace_context = iq_trace_context q,
        ic_locked_capability = locked, ic_effective_grant = grant, ic_grant_digest = iq_grant_digest q,
        ic_loaded_revisions = current\<rparr>)) (\<lambda>context.
     log_then (unlogged (invocation_preconditions q)) (\<lambda>preconditions.
     log_then (log_event ''validate_preconditions'') (\<lambda>_.
     log_then (unlogged (validate_required_preconditions grant (lc_descriptor locked) preconditions)) (\<lambda>_.
     log_then (unlogged (map_err (\<lambda>_. inv_precondition_error ''operation precondition is missing or stale'')
       (co_validate_preconditions operation context preconditions))) (\<lambda>_.
     log_then (log_event ''authorize'') (\<lambda>_.
     log_then (unlogged (ab_check backend (invocation_auth_request_of context))) (\<lambda>decision.
     log_then (unlogged (validate_final_point_of_use (ia_grant_set admission) context decision current
       preconditions evidence dispatch_now)) (\<lambda>_.
     unlogged (effect_verdict vs
       \<lparr>ec_request = q, ec_admission = admission, ec_locked = locked, ec_revisions = current,
        ec_context = context, ec_proposal = proposal, ec_decision = decision, ec_evidence = evidence,
        ec_operation = operation, ec_resumed = resumed\<rparr> grant))))))))))"

definition validate_invocation ::
  "externals \<Rightarrow> invocation_deployment \<Rightarrow> invocation_request \<Rightarrow> pending_suspension option \<Rightarrow>
     u64 \<Rightarrow> u64 \<Rightarrow> verdict logged" where
  "validate_invocation X vs q resumed now dispatch_now =
     log_then (validate_admission_stage X vs q resumed now) (\<lambda>(admission, locked, grant).
     log_then (authenticate_stage vs q admission now) (\<lambda>principals.
     log_then (freshness_stage vs admission locked grant now) (\<lambda>(backend, current).
     log_then (proposal_stage X q locked grant resumed) (\<lambda>proposal.
     log_then (log_event ''validate_evidence'') (\<lambda>_.
     log_then (unlogged (validate_evidence (vs_evidence vs) q grant principals proposal now)) (\<lambda>status.
       case status of
         EvidenceMissing kind \<Rightarrow>
           unlogged (if resumed = None
             then suspend_verdict vs q admission locked grant current principals proposal kind
             else Inl (inv_evidence_error ''required evidence is still absent at resume''))
       | EvidenceComplete evidence \<Rightarrow>
           point_of_use_stage X vs q (resumed \<noteq> None) admission locked grant principals backend current
             proposal evidence dispatch_now))))))"

definition read_outcome ::
  "externals \<Rightarrow> effect_call \<Rightarrow> (diagnostic, invocation_outcome) result" where
  "read_outcome X c =
     (case co_execute (ec_operation c) (ec_context c) (iq_arguments (ec_request c)) of
        Inr result \<Rightarrow>
          map_ok (\<lambda>_. OutSucceeded (ec_invocation_id c) result) (validate_output X (ec_descriptor c) result)
      | Inl (FailStable error) \<Rightarrow>
          map_ok (\<lambda>_. OutFailed (ec_invocation_id c) error) (validate_stable_error (ec_descriptor c) error)
      | Inl (FailDiagnostic d) \<Rightarrow> Inl d)"

section \<open>Pending suspensions and leases\<close>

datatype suspension_state = SuPending pending_suspension | SuInFlight

type_synonym pending_map = "(string \<times> suspension_state) list"

definition park_suspension ::
  "suspension \<Rightarrow> admission_snapshot \<Rightarrow> pending_map \<Rightarrow> (diagnostic, unit) result \<times> pending_map" where
  "park_suspension s snapshot m =
     (if map_of m (su_checkpoint_ref s) \<noteq> None
      then (Inl (inv_authorization_error ''checkpoint issuer returned a pending reference collision''), m)
      else (Inr (), btree_insert (su_checkpoint_ref s)
              (SuPending \<lparr>ps_suspension = s, ps_snapshot = snapshot\<rparr>) m))"

definition checkpoint_not_pending :: string where
  "checkpoint_not_pending = ''suspension checkpoint is not pending''"

definition begin_resume ::
  "string \<Rightarrow> suspension \<Rightarrow> pending_map \<Rightarrow> (diagnostic, pending_suspension) result \<times> pending_map" where
  "begin_resume checkpoint s m =
     (case map_of m checkpoint of
        None \<Rightarrow> (Inl (inv_authorization_error checkpoint_not_pending), m)
      | Some (SuPending pending) \<Rightarrow>
          if ps_suspension pending \<noteq> s
          then (Inl (inv_authorization_error
                  ''resume suspension does not exact-match the pending checkpoint''), m)
          else (Inr pending, btree_insert checkpoint SuInFlight m)
      | Some SuInFlight \<Rightarrow>
          (Inl (inv_authorization_error ''suspension checkpoint already has an in-flight resume''), m))"

definition finish_resume ::
  "string \<Rightarrow> pending_suspension \<Rightarrow> (diagnostic, invocation_outcome) result \<Rightarrow> pending_map \<Rightarrow> pending_map" where
  "finish_resume checkpoint pending outcome m =
     (case outcome of
        Inr _ \<Rightarrow> filter (\<lambda>e. fst e \<noteq> checkpoint) m
      | Inl error \<Rightarrow>
          if d_retry error \<noteq> RetryNever then btree_insert checkpoint (SuPending pending) m
          else filter (\<lambda>e. fst e \<noteq> checkpoint) m)"

definition restore_cancelled_resume ::
  "string \<Rightarrow> pending_suspension \<Rightarrow> pending_map \<Rightarrow> pending_map" where
  "restore_cancelled_resume checkpoint pending m =
     (if map_of m checkpoint = Some SuInFlight then btree_insert checkpoint (SuPending pending) m else m)"

definition insert_restored ::
  "pending_suspension \<Rightarrow> pending_map \<Rightarrow> (diagnostic, unit) result \<times> pending_map" where
  "insert_restored pending m =
     (let checkpoint = su_checkpoint_ref (ps_suspension pending) in
      case map_of m checkpoint of
        None \<Rightarrow> (Inr (), btree_insert checkpoint (SuPending pending) m)
      | Some (SuPending existing) \<Rightarrow>
          if ps_suspension existing = ps_suspension pending then (Inr (), m)
          else (Inl (inv_authorization_error ''suspension checkpoint already has incompatible state''), m)
      | Some SuInFlight \<Rightarrow>
          (Inl (inv_authorization_error ''suspension checkpoint already has incompatible state''), m))"

definition durable_suspension ::
  "externals \<Rightarrow> invocation_deployment \<Rightarrow> ('s \<Rightarrow> status_request \<Rightarrow> status_context \<Rightarrow>
     (diagnostic, invocation_status) result) \<Rightarrow> 's \<Rightarrow> invocation_request \<Rightarrow> suspension \<Rightarrow> u64 \<Rightarrow>
     (diagnostic, pending_suspension) result" where
  "durable_suspension X vs status store q s now =
     and_then (ensure (vs_enforced vs) (inv_authorization_error ''suspension has no durable enforcement plane''))
       (\<lambda>_.
     and_then (vs_load vs (iq_admission_id q) (iq_grant_digest q)) (\<lambda>admission.
     and_then (ia_locked_capability admission (iq_capability q)) (\<lambda>locked.
     and_then (validate_locked_semantics X locked) (\<lambda>_.
     and_then (map_err (\<lambda>_. inv_capability_error
         ''resume request does not match its persisted admission and locked schema'')
       (request_validate_against_admission X q (ia_grant_set admission) (lc_descriptor locked))) (\<lambda>_.
     and_then (ia_effective_grant admission (iq_capability q)) (\<lambda>grant.
     and_then (map_err inv_first_diagnostic (proposal_try_new X q (lc_descriptor locked))) (\<lambda>proposal.
     and_then (ensure (su_proposal_digest s = ep_proposal_digest proposal)
       (inv_authorization_error ''resume suspension does not match the invocation proposal'')) (\<lambda>_.
     and_then (authenticated_principals vs admission now) (\<lambda>principals.
     and_then (map_err inv_capability_error (status_context_of principals)) (\<lambda>context.
     and_then (status store \<lparr>sq_invocation_id = iq_invocation_id q, sq_trace_context = iq_trace_context q\<rparr>
       context) (\<lambda>st.
     if is_state st = StSuspended s
     then Inr \<lparr>ps_suspension = s, ps_snapshot = snapshot_new admission locked grant\<rparr>
     else Inl (inv_authorization_error
            ''durable suspension does not exact-match the resume request''))))))))))))"

section \<open>Invoking and resuming\<close>

text \<open>
  The service run by one caller: the world of \<open>KF_Effect\<close> and the map of pending suspensions. The
  readings are those of the awaits the run gets; when they end before the answer, the future
  was dropped there and the result is \<open>None\<close>. Seven readings are always enough.
\<close>

record ('s, 'a) service =
  srv_world :: "('s, 'a) effect_world"
  srv_pending :: pending_map

type_synonym invocation_answer = "(diagnostic, invocation_outcome) result option"

fun suspend_run ::
  "externals \<Rightarrow> ('s, 'a, 'io) enforcement_plane \<Rightarrow> 'io effect_readings list \<Rightarrow> suspend_task \<Rightarrow>
     ('s, 'a) effect_world \<Rightarrow> suspend_task \<times> ('s, 'a) effect_world" where
  "suspend_run X P [] task w = (task, w)"
| "suspend_run X P (k # ks) task w =
     (let (task', w') = suspend_step X P k task w in suspend_run X P ks task' w')"

definition park_stage ::
  "suspend_call \<Rightarrow> admission_snapshot \<Rightarrow> suspend_task \<Rightarrow> ('s, 'a) service \<Rightarrow>
     invocation_answer \<times> ('s, 'a) service" where
  "park_stage sc snapshot task srv =
     (case task of
        SuspendDone (Inl e) \<Rightarrow> (Some (Inl e), srv)
      | SuspendDone (Inr _) \<Rightarrow>
          (case park_suspension (sp_suspension sc) snapshot (srv_pending srv) of
             (Inl e, m) \<Rightarrow> (Some (Inl e), srv\<lparr>srv_pending := m\<rparr>)
           | (Inr _, m) \<Rightarrow>
               (Some (Inr (OutSuspended (iq_invocation_id (sp_request sc)) (sp_suspension sc))),
                srv\<lparr>srv_pending := m\<rparr>))
      | _ \<Rightarrow> (None, srv))"

definition dispatch_verdict ::
  "externals \<Rightarrow> invocation_deployment \<Rightarrow> ('s, 'a, 'io) enforcement_plane \<Rightarrow> 'io effect_readings list \<Rightarrow>
     invocation_request \<Rightarrow> verdict \<Rightarrow> ('s, 'a) service \<Rightarrow> invocation_answer \<times> ('s, 'a) service" where
  "dispatch_verdict X vs P ks q v srv =
     (case v of
        VerdictRead c \<Rightarrow>
          (Some (read_outcome X c), srv\<lparr>srv_world := record_event ''execute'' (srv_world srv)\<rparr>)
      | VerdictDeferred \<Rightarrow> (Some (Inr (OutDeferred (iq_invocation_id q))), srv)
      | VerdictEffect c \<Rightarrow>
          (case execute_effect X P ks c (srv_world srv) of
             (TaskDone answer, w) \<Rightarrow> (Some answer, srv\<lparr>srv_world := w\<rparr>)
           | (_, w) \<Rightarrow> (None, srv\<lparr>srv_world := w\<rparr>))
      | VerdictSuspend sc snapshot \<Rightarrow>
          if vs_enforced vs
          then (case suspend_run X P (take 2 ks) (SuspendReserve sc) (srv_world srv) of
             (task, w) \<Rightarrow> park_stage sc snapshot task (srv\<lparr>srv_world := w\<rparr>))
          else (case suspension_prologue X False sc 0 of
             Inl e \<Rightarrow> (Some (Inl e), srv)
           | Inr _ \<Rightarrow> (None, srv)))"

definition validated_run ::
  "externals \<Rightarrow> invocation_deployment \<Rightarrow> ('s, 'a, 'io) enforcement_plane \<Rightarrow> 'io effect_readings list \<Rightarrow>
     invocation_request \<Rightarrow> pending_suspension option \<Rightarrow> u64 \<Rightarrow> u64 \<Rightarrow> ('s, 'a) service \<Rightarrow>
     invocation_answer \<times> ('s, 'a) service" where
  "validated_run X vs P ks q resumed now dispatch_now srv =
     (case validate_invocation X vs q resumed now dispatch_now of
        (events, verdict) \<Rightarrow>
          let srv' = srv\<lparr>srv_world := (srv_world srv)\<lparr>ew_events := ew_events (srv_world srv) @ events\<rparr>\<rparr> in
          (case verdict of
             Inl e \<Rightarrow> (Some (Inl e), srv')
           | Inr v \<Rightarrow> dispatch_verdict X vs P ks q v srv'))"

definition invoke ::
  "externals \<Rightarrow> invocation_deployment \<Rightarrow> ('s, 'a, 'io) enforcement_plane \<Rightarrow> 'io effect_readings list \<Rightarrow>
     invocation_request \<Rightarrow> u64 \<Rightarrow> u64 \<Rightarrow> ('s, 'a) service \<Rightarrow> invocation_answer \<times> ('s, 'a) service" where
  "invoke X vs P ks q now dispatch_now srv = validated_run X vs P ks q None now dispatch_now srv"

definition resume_leased ::
  "externals \<Rightarrow> invocation_deployment \<Rightarrow> ('s, 'a, 'io) enforcement_plane \<Rightarrow> 'io effect_readings list \<Rightarrow>
     invocation_request \<Rightarrow> string \<Rightarrow> pending_suspension \<Rightarrow> u64 \<Rightarrow> u64 \<Rightarrow> ('s, 'a) service \<Rightarrow>
     invocation_answer \<times> ('s, 'a) service" where
  "resume_leased X vs P ks q checkpoint pending now dispatch_now srv =
     (case validated_run X vs P ks q (Some pending) now dispatch_now srv of
        (None, srv') \<Rightarrow>
          (None, srv'\<lparr>srv_pending := restore_cancelled_resume checkpoint pending (srv_pending srv')\<rparr>)
      | (Some answer, srv') \<Rightarrow>
          (Some answer, srv'\<lparr>srv_pending := finish_resume checkpoint pending answer (srv_pending srv')\<rparr>))"

definition restore_durable_suspension ::
  "externals \<Rightarrow> invocation_deployment \<Rightarrow> ('s, 'a, 'io) enforcement_plane \<Rightarrow> invocation_request \<Rightarrow>
     suspension \<Rightarrow> u64 \<Rightarrow> ('s, 'a) service \<Rightarrow> (diagnostic, unit) result \<times> ('s, 'a) service" where
  "restore_durable_suspension X vs P q s now srv =
     (case durable_suspension X vs (\<lambda>st q c. sto_status (ef_store P) q c st) (ew_store (srv_world srv)) q s now of
        Inl e \<Rightarrow> (Inl e, srv)
      | Inr pending \<Rightarrow>
          (case insert_restored pending (srv_pending srv) of
             (res, m) \<Rightarrow> (res, srv\<lparr>srv_pending := m\<rparr>)))"

definition resume ::
  "externals \<Rightarrow> invocation_deployment \<Rightarrow> ('s, 'a, 'io) enforcement_plane \<Rightarrow> 'io effect_readings list \<Rightarrow>
     invocation_request \<Rightarrow> suspension \<Rightarrow> u64 \<Rightarrow> u64 \<Rightarrow> u64 \<Rightarrow> ('s, 'a) service \<Rightarrow>
     invocation_answer \<times> ('s, 'a) service" where
  "resume X vs P ks q s restored_at now dispatch_now srv =
     (let checkpoint = su_checkpoint_ref s in
      case begin_resume checkpoint s (srv_pending srv) of
        (Inr pending, m) \<Rightarrow>
          resume_leased X vs P ks q checkpoint pending now dispatch_now (srv\<lparr>srv_pending := m\<rparr>)
      | (Inl error, m) \<Rightarrow>
          if d_message error \<noteq> checkpoint_not_pending then (Some (Inl error), srv)
          else
            (case restore_durable_suspension X vs P q s restored_at srv of
               (Inl e, srv') \<Rightarrow> (Some (Inl e), srv')
             | (Inr _, srv') \<Rightarrow>
                 (case begin_resume checkpoint s (srv_pending srv') of
                    (Inl e, m') \<Rightarrow> (Some (Inl e), srv'\<lparr>srv_pending := m'\<rparr>)
                  | (Inr pending, m') \<Rightarrow>
                      resume_leased X vs P ks q checkpoint pending now dispatch_now
                        (srv'\<lparr>srv_pending := m'\<rparr>))))"

section \<open>Logs\<close>

lemma unlogged_simps [simp]: "fst (unlogged r) = []" "snd (unlogged r) = r"
  by (simp_all add: unlogged_def)

lemma log_event_simps [simp]: "fst (log_event e) = [e]" "snd (log_event e) = Inr ()"
  by (simp_all add: log_event_def)

lemma snd_log_then [simp]: "snd (log_then m f) = and_then (snd m) (\<lambda>x. snd (f x))"
  by (cases m; cases "snd m") (auto simp: log_then_def split: prod.splits)

lemma fst_log_then:
  "fst (log_then m f) = fst m @ (case snd m of Inl _ \<Rightarrow> [] | Inr x \<Rightarrow> fst (f x))"
  by (cases m; cases "snd m") (auto simp: log_then_def split: prod.splits)

definition logs :: "string list \<Rightarrow> 'a logged \<Rightarrow> bool" where
  "logs events m = (prefix (fst m) events \<and> (is_ok (snd m) \<longrightarrow> fst m = events))"

lemma logs_unlogged: "logs [] (unlogged r)"
  by (simp add: logs_def)

lemma logs_event: "logs [e] (log_event e)"
  by (simp add: logs_def)

lemma logs_then:
  assumes "logs events m" "\<And>x. snd m = Inr x \<Longrightarrow> logs later (f x)"
  shows "logs (events @ later) (log_then m f)"
proof (cases "snd m")
  case (Inl e)
  with assms(1) show ?thesis by (simp add: logs_def fst_log_then prefix_append)
next
  case (Inr x)
  with assms(1) assms(2) [OF Inr] show ?thesis
    by (auto simp: logs_def fst_log_then)
qed

lemma logs_quiet:
  assumes "\<And>x. r = Inr x \<Longrightarrow> logs later (f x)" shows "logs later (log_then (unlogged r) f)"
  using logs_then [OF logs_unlogged, of r later f] assms by simp

lemma logs_step: "logs later (f ()) \<Longrightarrow> logs (e # later) (log_then (log_event e) f)"
  using logs_then [OF logs_event, of e later f] by simp

lemma admission_stage_logs:
  "logs [''validate_request'', ''validate_grant''] (validate_admission_stage X vs q resumed now)"
  unfolding validate_admission_stage_def by (intro logs_quiet logs_step logs_unlogged)

lemma authenticate_stage_logs: "logs [''authenticate''] (authenticate_stage vs q admission now)"
  unfolding authenticate_stage_def by (intro logs_quiet logs_step logs_unlogged)

lemma freshness_stage_logs:
  "logs [''validate_freshness''] (freshness_stage vs admission locked grant now)"
  unfolding freshness_stage_def by (intro logs_quiet logs_step logs_unlogged)

lemma proposal_stage_logs: "logs [''validate_resource''] (proposal_stage X q locked grant resumed)"
  unfolding proposal_stage_def by (intro logs_quiet logs_step logs_unlogged)

lemma point_of_use_logs:
  "logs [''validate_preconditions'', ''authorize'']
     (point_of_use_stage X vs q resumed admission locked grant principals backend current proposal evidence
        dispatch_now)"
  unfolding point_of_use_stage_def by (intro logs_quiet logs_step logs_unlogged)

definition validation_stages :: "string list" where
  "validation_stages =
     [''validate_request'', ''validate_grant'', ''authenticate'', ''validate_freshness'',
      ''validate_resource'', ''validate_evidence'', ''validate_preconditions'', ''authorize'']"

fun verdict_stages :: "verdict \<Rightarrow> string list" where
  "verdict_stages (VerdictSuspend _ _) = take 6 validation_stages"
| "verdict_stages _ = validation_stages"

definition follows :: "string list \<Rightarrow> string list \<Rightarrow> ('a \<Rightarrow> string list) \<Rightarrow> 'a logged \<Rightarrow> bool" where
  "follows before stages ends m =
     (prefix (before @ fst m) stages \<and> (\<forall>v. snd m = Inr v \<longrightarrow> before @ fst m = ends v))"

lemma prefix_within: "prefix a b \<Longrightarrow> prefix (before @ b) s \<Longrightarrow> prefix (before @ a) s"
  by (metis prefix_order.trans same_prefix_prefix)

lemma follows_then:
  assumes "logs events m" "prefix (before @ events) stages"
    and "\<And>x. snd m = Inr x \<Longrightarrow> follows (before @ events) stages ends (f x)"
  shows "follows before stages ends (log_then m f)"
proof (cases "snd m")
  case (Inl e)
  with assms(1,2) show ?thesis
    by (auto simp: follows_def logs_def fst_log_then intro: prefix_within)
next
  case (Inr x)
  with assms(1) have "fst m = events" by (simp add: logs_def)
  with Inr assms(3) [OF Inr] show ?thesis by (simp add: follows_def fst_log_then)
qed

lemma follows_last:
  assumes "logs events m" "prefix (before @ events) stages" "\<And>v. snd m = Inr v \<Longrightarrow> before @ events = ends v"
  shows "follows before stages ends m"
  using assms by (auto simp: follows_def logs_def intro: prefix_within)

section \<open>What validation establishes\<close>

lemma admission_stage_Inr [result_simps]:
  "snd (validate_admission_stage X vs q resumed now) = Inr (admission, locked, grant) \<longleftrightarrow>
     vs_load vs (iq_admission_id q) (iq_grant_digest q) = Inr admission
     \<and> ia_locked_capability admission (iq_capability q) = Inr locked
     \<and> validate_locked_semantics X locked = Inr ()
     \<and> request_validate_against_admission X q (ia_grant_set admission) (lc_descriptor locked) = Inr ()
     \<and> ia_effective_grant admission (iq_capability q) = Inr grant
     \<and> (\<forall>pending. resumed = Some pending \<longrightarrow> ps_snapshot pending = snapshot_new admission locked grant)
     \<and> validate_grant_against_locked grant locked (gs_expires_at (ia_grant_set admission)) = Inr ()
     \<and> now < gs_expires_at (ia_grant_set admission) \<and> now < eg_expires_at grant
     \<and> validate_invocation_modes (lc_descriptor locked) grant = Inr ()"
  by (auto simp: validate_admission_stage_def not_le split: option.splits)

lemma authenticate_stage_Inr [result_simps]:
  "snd (authenticate_stage vs q admission now) = Inr principals \<longleftrightarrow>
     authenticated_principals vs admission now = Inr principals
     \<and> ac_admission_ref principals = iq_admission_id q"
  by (auto simp: authenticate_stage_def)

lemma freshness_stage_Inr [result_simps]:
  "snd (freshness_stage vs admission locked grant now) = Inr (backend, current) \<longleftrightarrow>
     or_backend (vs_operations vs) = Some backend \<and> ab_revisions backend = Inr current
     \<and> validate_freshness (ia_grant_set admission) grant (cd_freshness (lc_descriptor locked)) current now = Inr ()"
  by (auto simp: freshness_stage_def registry_backend_def)

lemma proposal_stage_Inr [result_simps]:
  "snd (proposal_stage X q locked grant resumed) = Inr proposal \<longleftrightarrow>
     inv_validate_resource X grant (lc_descriptor locked) (iq_selected_resource q) = Inr ()
     \<and> proposal_try_new X q (lc_descriptor locked) = Inr proposal
     \<and> (\<forall>pending. resumed = Some pending \<longrightarrow>
           su_proposal_digest (ps_suspension pending) = ep_proposal_digest proposal)"
  by (auto simp: proposal_stage_def split: option.splits)

lemma suspend_verdict_kind:
  "suspend_verdict vs q admission locked grant current principals proposal kind = Inr v \<Longrightarrow>
     verdict_stages v = take 6 validation_stages"
  by (auto simp: suspend_verdict_def split: if_splits)

lemma point_of_use_kind:
  "snd (point_of_use_stage X vs q resumed admission locked grant principals backend current proposal
     evidence dispatch_now) = Inr v \<Longrightarrow> verdict_stages v = validation_stages"
  by (auto simp: point_of_use_stage_def effect_verdict_def split: if_splits)

lemma validation_follows:
  "follows [] validation_stages verdict_stages (validate_invocation X vs q resumed now dispatch_now)"
proof -
  have evidence: "follows [''validate_request'', ''validate_grant'', ''authenticate'', ''validate_freshness'',
      ''validate_resource'', ''validate_evidence''] validation_stages verdict_stages
      (case status of
         EvidenceMissing kind \<Rightarrow>
           unlogged (if resumed = None
             then suspend_verdict vs q admission locked grant current principals proposal kind
             else Inl (inv_evidence_error ''required evidence is still absent at resume''))
       | EvidenceComplete evidence \<Rightarrow>
           point_of_use_stage X vs q (resumed \<noteq> None) admission locked grant principals backend current
             proposal evidence dispatch_now)" for admission locked grant principals backend current proposal status
    by (cases status)
      (auto intro!: follows_last [OF point_of_use_logs] follows_last [OF logs_unlogged]
        simp: point_of_use_kind validation_stages_def dest!: suspend_verdict_kind split: if_splits)
  show ?thesis
    unfolding validate_invocation_def
    by ((rule follows_then [OF admission_stage_logs] follows_then [OF authenticate_stage_logs]
          follows_then [OF freshness_stage_logs] follows_then [OF proposal_stage_logs]
          follows_then [OF logs_event] follows_then [OF logs_unlogged]
        | (simp add: validation_stages_def; fail) | simp only: append_Nil append_Cons split_paired_all prod.case
        | rule evidence)+)
qed

text \<open>
  What an operation may rely on when it runs: the call \<open>c\<close> was admitted, the grant covers it and
  is current at the first and the last clock reading, the callers are who the admission names,
  every demanded piece of evidence is bound to this proposal, and the policy engine allows it
  now, at the revisions the admission was decided under.
\<close>

definition invocation_permitted ::
  "externals \<Rightarrow> invocation_deployment \<Rightarrow> invocation_request \<Rightarrow> pending_suspension option \<Rightarrow> u64 \<Rightarrow> u64 \<Rightarrow>
     effect_call \<Rightarrow> bool" where
  "invocation_permitted X vs q resumed now dispatch_now c =
     (\<exists>grant backend principals preconditions ref at cond.
       (let gs = ia_grant_set (ec_admission c); d = ec_descriptor c in
        vs_load vs (iq_admission_id q) (iq_grant_digest q) = Inr (ec_admission c)
        \<and> ec_request c = q \<and> ec_resumed c = (resumed \<noteq> None)
        \<and> map_of (ia_locked_capabilities (ec_admission c)) (iq_capability q) = Some (ec_locked c)
        \<and> validate_locked_semantics X (ec_locked c) = Inr ()
        \<and> [g \<leftarrow> gs_grants gs. eg_capability g = iq_capability q] = [grant]
        \<and> eg_maximum_effect grant = cd_effect d
        \<and> (if cd_effect d = ReadOnly then ModeImmediate \<in> eg_execution_modes grant
           else vs_enforced vs \<and> ModeDeferred \<in> eg_execution_modes grant)
        \<and> eg_execution_modes grant \<subseteq> cd_execution_modes d
        \<and> is_ok (validate_concrete_resource_selector (iq_selected_resource q))
        \<and> (\<exists>allowed \<in> set (eg_resources grant). resource_selector_is_subset (iq_selected_resource q) allowed)
        \<and> eg_expires_at grant \<le> gs_expires_at gs \<and> max now dispatch_now < eg_expires_at grant
        \<and> authenticated_principals vs (ec_admission c) now = Inr principals
        \<and> ic_principals (ec_context c) = principals
        \<and> ac_actor_ref principals = gs_actor gs \<and> ac_agent_ref principals = gs_agent gs
        \<and> ac_task_ref principals = gs_task gs \<and> ac_session_ref principals = gs_session gs
        \<and> ac_admission_ref principals = iq_admission_id q
        \<and> max now dispatch_now < ac_expires_at principals
        \<and> proposal_try_new X q d = Inr (ec_proposal c)
        \<and> list_all2 (evidence_supplied (vs_evidence vs) q principals (ec_proposal c) now)
             (demanded grant) (ec_evidence c)
        \<and> list_all (\<lambda>e. dispatch_now < vd_expires_at e) (ec_evidence c)
        \<and> map_of (or_operations (vs_operations vs)) (iq_capability q) = Some (ec_operation c)
        \<and> invocation_preconditions q = Inr preconditions
        \<and> validate_required_preconditions grant d preconditions = Inr ()
        \<and> co_validate_preconditions (ec_operation c) (ec_context c) preconditions = Inr ()
        \<and> or_backend (vs_operations vs) = Some backend
        \<and> ab_revisions backend = Inr (gs_authority_revisions gs)
        \<and> ab_check backend (invocation_auth_request_of (ec_context c))
             = Inr (DecisionAllow ref (gs_authority_revisions gs) at cond)
        \<and> at \<le> dispatch_now \<and> dispatch_now < nc_expires_at cond
        \<and> condition_allows_resource cond (iq_selected_resource q)
        \<and> (\<forall>pending. resumed = Some pending \<longrightarrow>
             ps_snapshot pending = snapshot_new (ec_admission c) (ec_locked c) grant
             \<and> su_proposal_digest (ps_suspension pending) = ep_proposal_digest (ec_proposal c))))"

lemma registry_resolve_Inr [result_simps]:
  "registry_resolve r i = Inr op \<longleftrightarrow> or_backend r \<noteq> None \<and> map_of (or_operations r) i = Some op"
  by (auto simp: registry_resolve_def)

lemma invocation_context_Inr:
  "invocation_context_try_new c = Inr c' \<Longrightarrow> c' = c"
  by (auto simp: invocation_context_try_new_def split: if_splits)

lemma point_of_use_verdict:
  assumes "snd (point_of_use_stage X vs q resumed admission locked grant principals backend current proposal
      evidence dispatch_now) = Inr v" "v = VerdictRead c \<or> v = VerdictEffect c"
  shows "c = \<lparr>ec_request = q, ec_admission = admission, ec_locked = locked, ec_revisions = current,
        ec_context = ec_context c, ec_proposal = proposal, ec_decision = ec_decision c, ec_evidence = evidence,
        ec_operation = ec_operation c, ec_resumed = resumed\<rparr>"
    "ec_context c =  \<lparr>ic_principals = principals, ic_capability = iq_capability q,
        ic_selected_resource = iq_selected_resource q, ic_trace_context = iq_trace_context q,
        ic_locked_capability = locked, ic_effective_grant = grant, ic_grant_digest = iq_grant_digest q,
        ic_loaded_revisions = current\<rparr>"
    "map_of (or_operations (vs_operations vs)) (iq_capability q) = Some (ec_operation c)"
    "\<exists>preconditions. invocation_preconditions q = Inr preconditions
       \<and> validate_required_preconditions grant (lc_descriptor locked) preconditions = Inr ()
       \<and> co_validate_preconditions (ec_operation c) (ec_context c) preconditions = Inr ()
       \<and> ab_check backend (invocation_auth_request_of (ec_context c)) = Inr (ec_decision c)
       \<and> validate_final_point_of_use (ia_grant_set admission) (ec_context c) (ec_decision c) current
           preconditions evidence dispatch_now = Inr ()"
    "cd_effect (lc_descriptor locked) = ReadOnly \<or> vs_enforced vs \<and> ModeDeferred \<in> eg_execution_modes grant"
  using assms
  by (auto simp: point_of_use_stage_def registry_resolve_Inr effect_verdict_def
      dest: invocation_context_Inr split: if_splits)

lemma final_point_of_use_Inr:
  "validate_final_point_of_use gs context decision current supplied evidence now = Inr u \<Longrightarrow>
     now < eg_expires_at (ic_effective_grant context) \<and> list_all (\<lambda>e. now < vd_expires_at e) evidence
     \<and> now < ac_expires_at (ic_principals context)
     \<and> (\<exists>ref at cond. decision = DecisionAllow ref current at cond \<and> at \<le> now \<and> now < nc_expires_at cond
          \<and> condition_allows_resource cond (ic_selected_resource context))"
  by (auto simp: validate_final_point_of_use_def validate_authorization_def validate_narrowed_conditions_def
      list_all_iff not_le not_less split: if_splits authorization_decision.splits)

lemma grant_within_lock:
  assumes "validate_grant_against_locked grant locked e = Inr u"
    "validate_invocation_modes (lc_descriptor locked) grant = Inr u'"
  shows "eg_maximum_effect grant = cd_effect (lc_descriptor locked)"
    "eg_execution_modes grant \<subseteq> cd_execution_modes (lc_descriptor locked)" "eg_expires_at grant \<le> e"
    "cd_effect (lc_descriptor locked) = ReadOnly \<Longrightarrow> ModeImmediate \<in> eg_execution_modes grant"
  using assms
  by (auto simp: validate_grant_against_locked_def validate_invocation_modes_def Let_def split: if_splits)

lemma correlated_admission:
  assumes "authenticated_principals vs admission now = Inr principals"
  shows "ac_actor_ref principals = gs_actor (ia_grant_set admission)"
    "ac_agent_ref principals = gs_agent (ia_grant_set admission)"
    "ac_task_ref principals = gs_task (ia_grant_set admission)"
    "ac_session_ref principals = gs_session (ia_grant_set admission)"
    "now < ac_expires_at principals"
  using assms by (auto simp: authenticated_principals_def correlate_principals_def not_le split: if_splits)

lemma freshness_current:
  "validate_freshness gs grant d current now = Inr u \<Longrightarrow> current = gs_authority_revisions gs"
  by (auto simp: validate_freshness_def Let_def split: if_splits)

lemma resource_within_grant:
  "inv_validate_resource X grant d selected = Inr u \<Longrightarrow>
     is_ok (validate_concrete_resource_selector selected)
     \<and> (\<exists>allowed \<in> set (eg_resources grant). resource_selector_is_subset selected allowed)"
  by (auto simp: inv_validate_resource_def split: if_splits)

lemma effective_grant_only:
  "ia_effective_grant a c = Inr grant \<Longrightarrow> [g \<leftarrow> gs_grants (ia_grant_set a). eg_capability g = c] = [grant]"
  by (auto simp: ia_effective_grant_def split: list.splits)

lemma validated_permitted:
  assumes "snd (validate_invocation X vs q resumed now dispatch_now) = Inr v"
    and "v = VerdictRead c \<or> v = VerdictEffect c"
  shows "invocation_permitted X vs q resumed now dispatch_now c"
proof -
  obtain admission locked grant principals backend current proposal status where
    stage1: "snd (validate_admission_stage X vs q resumed now) = Inr (admission, locked, grant)"
    and stage2: "snd (authenticate_stage vs q admission now) = Inr principals"
    and stage3: "snd (freshness_stage vs admission locked grant now) = Inr (backend, current)"
    and stage4: "snd (proposal_stage X q locked grant resumed) = Inr proposal"
    and stage5: "validate_evidence (vs_evidence vs) q grant principals proposal now = Inr status"
    and last: "snd (case status of
         EvidenceMissing kind \<Rightarrow>
           unlogged (if resumed = None
             then suspend_verdict vs q admission locked grant current principals proposal kind
             else Inl (inv_evidence_error ''required evidence is still absent at resume''))
       | EvidenceComplete evidence \<Rightarrow>
           point_of_use_stage X vs q (resumed \<noteq> None) admission locked grant principals backend current
             proposal evidence dispatch_now) = Inr v"
    using assms(1) by (auto simp: validate_invocation_def simp del: admission_stage_Inr freshness_stage_Inr not_None_eq)
  obtain evidence where status: "status = EvidenceComplete evidence"
  proof (cases status)
    case (EvidenceMissing kind)
    with last assms(2) have False by (auto simp: suspend_verdict_def split: if_splits)
    then show thesis ..
  qed
  with last have "snd (point_of_use_stage X vs q (resumed \<noteq> None) admission locked grant principals backend
      current proposal evidence dispatch_now) = Inr v" by simp
  note use = point_of_use_verdict [OF this assms(2)]
  from use(4) obtain preconditions where pre: "invocation_preconditions q = Inr preconditions"
      "validate_required_preconditions grant (lc_descriptor locked) preconditions = Inr ()"
      "co_validate_preconditions (ec_operation c) (ec_context c) preconditions = Inr ()"
      "ab_check backend (invocation_auth_request_of (ec_context c)) = Inr (ec_decision c)"
    and final: "validate_final_point_of_use (ia_grant_set admission) (ec_context c) (ec_decision c) current
           preconditions evidence dispatch_now = Inr ()" by blast
  from final_point_of_use_Inr [OF final] use(2) obtain ref at cond where
    decision: "ec_decision c = DecisionAllow ref current at cond" "at \<le> dispatch_now"
      "dispatch_now < nc_expires_at cond" "condition_allows_resource cond (iq_selected_resource q)"
      "dispatch_now < eg_expires_at grant" "dispatch_now < ac_expires_at principals"
      "list_all (\<lambda>e. dispatch_now < vd_expires_at e) evidence" by auto
  note admitted = stage1 [unfolded admission_stage_Inr] and authenticated = stage2 [unfolded authenticate_stage_Inr]
    and fresh = stage3 [unfolded freshness_stage_Inr] and proposed = stage4 [unfolded proposal_stage_Inr]
  have current: "current = gs_authority_revisions (ia_grant_set admission)"
    using fresh freshness_current by blast
  have fields: "ec_request c = q" "ec_admission c = admission" "ec_locked c = locked" "ec_proposal c = proposal"
      "ec_evidence c = evidence" "ec_resumed c = (resumed \<noteq> None)"
    by (subst use(1), simp)+
  have grant: "validate_grant_against_locked grant locked (gs_expires_at (ia_grant_set admission)) = Inr ()"
    "validate_invocation_modes (lc_descriptor locked) grant = Inr ()"
    using admitted by blast+
  show ?thesis
    unfolding invocation_permitted_def Let_def fields
    apply (intro exI [of _ grant] exI [of _ backend] exI [of _ principals] exI [of _ preconditions]
        exI [of _ ref] exI [of _ at] exI [of _ cond] conjI)
    using admitted authenticated fresh proposed current use(2,3,5) pre decision fields
      grant_within_lock [OF grant] correlated_admission [of vs admission now principals]
      resource_within_grant effective_grant_only validate_evidence_complete [OF stage5 [unfolded status]]
    by (auto simp: ia_locked_capability_def)
qed

lemma suspend_step_silent:
  assumes "suspend_step X P k task w = (task', w')" shows "ew_events w' = ew_events w"
  using assms
  by (cases task)
    (auto simp: suspension_reserve_def suspension_transition_def world_reserve_def world_transition_def Let_def
      split: sum.splits prod.splits if_splits)

lemma suspend_run_silent: "suspend_run X P ks task w = (task', w') \<Longrightarrow> ew_events w' = ew_events w"
  by (induction X P ks task w rule: suspend_run.induct) (auto dest: suspend_step_silent split: prod.splits)

lemma park_stage_world: "srv_world (snd (park_stage sc snapshot task srv)) = srv_world srv"
  by (auto simp: park_stage_def split: suspend_task.splits sum.splits prod.splits)

lemma dispatch_silent:
  assumes "dispatch_verdict X vs P ks q v srv = (answer, srv')" "\<forall>c. v \<noteq> VerdictRead c \<and> v \<noteq> VerdictEffect c"
  shows "ew_events (srv_world srv') = ew_events (srv_world srv)"
proof (cases v)
  case (VerdictSuspend sc snapshot)
  obtain task w where run: "suspend_run X P (take 2 ks) (SuspendReserve sc) (srv_world srv) = (task, w)"
    by fastforce
  note silent = suspend_run_silent [OF run]
  show ?thesis
  proof (cases "vs_enforced vs")
    case True
    with assms(1) run VerdictSuspend
    have "(answer, srv') = park_stage sc snapshot task (srv\<lparr>srv_world := w\<rparr>)" by (simp add: dispatch_verdict_def)
    then have "srv' = snd (park_stage sc snapshot task (srv\<lparr>srv_world := w\<rparr>))" by (metis snd_conv)
    then have "srv_world srv' = w" by (simp add: park_stage_world)
    with silent show ?thesis by simp
  next
    case False
    with assms(1) VerdictSuspend show ?thesis by (auto simp: dispatch_verdict_def split: sum.splits)
  qed
qed (use assms in \<open>auto simp: dispatch_verdict_def\<close>)

lemma stages_do_not_execute: "prefix events validation_stages \<Longrightarrow> ''execute'' \<notin> set events"
  by (auto simp: validation_stages_def dest!: set_mono_prefix)

lemma validation_does_not_execute:
  "''execute'' \<notin> set (fst (validate_invocation X vs q resumed now dispatch_now))"
  using validation_follows [of X vs q resumed now dispatch_now] stages_do_not_execute
  by (simp add: follows_def)

section \<open>Properties of validation\<close>

text \<open>
  Validation passes its stages in one order and skips none: the events it emits are a
  prefix of the eight stage events; a verdict that lets the operation run (or defers it) follows
  all eight of them, and a suspension exactly the six up to the evidence stage.
\<close>

lemma validation_events_in_order:
  "case validate_invocation X vs q resumed now dispatch_now of
     (events, Inl _) \<Rightarrow> prefix events validation_stages
   | (events, Inr v) \<Rightarrow> events = verdict_stages v"
  using validation_follows [of X vs q resumed now dispatch_now]
  by (auto simp: follows_def split: prod.splits sum.splits)

text \<open>
  Claim C7. No operation runs without permission. If a run of the service (\<open>invoke\<close>, or
  \<open>resume\<close> with its lease) emits an \<open>execute\<close> event, then the invocation was permitted: its
  admission loads and its lock verifies, the one grant for the capability has exactly the
  operation's effect, allows its execution mode and covers the concrete resource, grant and
  principals are unexpired at the first and the last clock reading, the principals are the
  admission's, every demanded piece of evidence is valid for exactly this proposal, the
  operation's preconditions hold, and the policy engine currently allows the request at the
  admitted authority revisions; and a resumed invocation has the snapshot and the proposal that
  were suspended.
\<close>

theorem executed_invocation_is_permitted:
  assumes "validated_run X vs P ks q resumed now dispatch_now srv = (answer, srv')"
    and "count_list (ew_events (srv_world srv)) ''execute'' < count_list (ew_events (srv_world srv')) ''execute''"
  shows "\<exists>c. invocation_permitted X vs q resumed now dispatch_now c"
proof (rule ccontr)
  assume refused: "\<nexists>c. invocation_permitted X vs q resumed now dispatch_now c"
  obtain events verdict where run: "validate_invocation X vs q resumed now dispatch_now = (events, verdict)"
    by fastforce
  let ?srv = "srv\<lparr>srv_world := (srv_world srv)\<lparr>ew_events := ew_events (srv_world srv) @ events\<rparr>\<rparr>"
  have quiet: "''execute'' \<notin> set events"
    using validation_does_not_execute [of X vs q resumed now dispatch_now] run by simp
  have "ew_events (srv_world srv') = ew_events (srv_world ?srv)"
  proof (cases verdict)
    case (Inl e)
    with assms(1) run show ?thesis by (auto simp: validated_run_def)
  next
    case (Inr v)
    then have "snd (validate_invocation X vs q resumed now dispatch_now) = Inr v" using run by simp
    note permitted = validated_permitted [OF this]
    have "\<forall>c. v \<noteq> VerdictRead c \<and> v \<noteq> VerdictEffect c" using refused permitted by blast
    moreover have "dispatch_verdict X vs P ks q v ?srv = (answer, srv')"
      using assms(1) run Inr by (simp add: validated_run_def Let_def)
    ultimately show ?thesis by (intro dispatch_silent)
  qed
  with quiet assms(2) show False by (simp add: count_notin)
qed

section \<open>Leases\<close>

text \<open>
  The pending map is behind a mutex, so calls of \<open>resume\<close> and \<open>invoke\<close> that run concurrently
  interleave at its critical sections. A state is the map with the leases that are outstanding;
  a lease ends by \<open>finish\<close> with the outcome of its run or by being dropped.
\<close>

record lease_state =
  ls_pending :: pending_map
  ls_leases :: "(string \<times> pending_suspension) list"

inductive lease_step :: "lease_state \<Rightarrow> lease_state \<Rightarrow> bool" where
  lease_park: "park_suspension s snapshot (ls_pending l) = (res, m) \<Longrightarrow>
    lease_step l (l\<lparr>ls_pending := m\<rparr>)"
| lease_restore: "insert_restored pending (ls_pending l) = (res, m) \<Longrightarrow>
    lease_step l (l\<lparr>ls_pending := m\<rparr>)"
| lease_refused: "begin_resume (su_checkpoint_ref s) s (ls_pending l) = (Inl e, m) \<Longrightarrow>
    lease_step l (l\<lparr>ls_pending := m\<rparr>)"
| lease_begin: "begin_resume (su_checkpoint_ref s) s (ls_pending l) = (Inr pending, m) \<Longrightarrow>
    lease_step l (l\<lparr>ls_pending := m, ls_leases := (su_checkpoint_ref s, pending) # ls_leases l\<rparr>)"
| lease_finish: "(checkpoint, pending) \<in> set (ls_leases l) \<Longrightarrow>
    lease_step l (l\<lparr>ls_pending := finish_resume checkpoint pending outcome (ls_pending l),
      ls_leases := remove1 (checkpoint, pending) (ls_leases l)\<rparr>)"
| lease_drop: "(checkpoint, pending) \<in> set (ls_leases l) \<Longrightarrow>
    lease_step l (l\<lparr>ls_pending := restore_cancelled_resume checkpoint pending (ls_pending l),
      ls_leases := remove1 (checkpoint, pending) (ls_leases l)\<rparr>)"

definition lease_reachable :: "lease_state \<Rightarrow> bool" where
  "lease_reachable l = lease_step\<^sup>*\<^sup>* \<lparr>ls_pending = [], ls_leases = []\<rparr> l"

definition keyed_by_checkpoint :: "pending_map \<Rightarrow> bool" where
  "keyed_by_checkpoint m =
     (\<forall>k p. map_of m k = Some (SuPending p) \<longrightarrow> su_checkpoint_ref (ps_suspension p) = k)"

definition lease_inv :: "lease_state \<Rightarrow> bool" where
  "lease_inv l =
     (btree_ok (ls_pending l) \<and> keyed_by_checkpoint (ls_pending l) \<and> distinct (map fst (ls_leases l))
      \<and> (\<forall>k. map_of (ls_pending l) k = Some SuInFlight \<longleftrightarrow> k \<in> fst ` set (ls_leases l))
      \<and> (\<forall>(k, p) \<in> set (ls_leases l). su_checkpoint_ref (ps_suspension p) = k))"

lemma map_of_without: "map_of (filter (\<lambda>e. fst e \<noteq> k) m) = (map_of m)(k := None)"
  by (induction m) auto

lemma begin_resume_Inr:
  "begin_resume k s m = (Inr p, m') \<longleftrightarrow>
     map_of m k = Some (SuPending p) \<and> ps_suspension p = s \<and> m' = btree_insert k SuInFlight m"
  by (auto simp: begin_resume_def split: option.splits suspension_state.splits if_splits)

lemma begin_resume_Inl: "begin_resume k s m = (Inl e, m') \<Longrightarrow> m' = m"
  by (auto simp: begin_resume_def split: option.splits suspension_state.splits if_splits)

lemma park_moves:
  assumes "park_suspension s snapshot m = (res, m')"
  shows "m' = m \<or> (\<exists>q. map_of m (su_checkpoint_ref (ps_suspension q)) = None
    \<and> m' = btree_insert (su_checkpoint_ref (ps_suspension q)) (SuPending q) m)"
  using assms
  by (auto simp: park_suspension_def split: if_splits
      intro!: exI [of _ "\<lparr>ps_suspension = s, ps_snapshot = snapshot\<rparr>"])

lemma restore_moves:
  assumes "insert_restored q m = (res, m')"
  shows "m' = m \<or> (\<exists>q. map_of m (su_checkpoint_ref (ps_suspension q)) = None
    \<and> m' = btree_insert (su_checkpoint_ref (ps_suspension q)) (SuPending q) m)"
  using assms
  by (auto simp: insert_restored_def Let_def split: option.splits suspension_state.splits if_splits)

lemma lease_put:
  assumes "lease_inv l" "map_of (ls_pending l) (su_checkpoint_ref (ps_suspension q)) = None"
  shows "lease_inv (l\<lparr>ls_pending := btree_insert (su_checkpoint_ref (ps_suspension q)) (SuPending q) (ls_pending l)\<rparr>)"
proof -
  have "su_checkpoint_ref (ps_suspension q) \<notin> fst ` set (ls_leases l)"
    using assms by (metis lease_inv_def option.distinct(1))
  with assms show ?thesis
    by (auto simp: lease_inv_def keyed_by_checkpoint_def map_of_btree_insert btree_ok_insert)
qed

lemma remove1_keys:
  "distinct (map fst xs) \<Longrightarrow> (k, p) \<in> set xs \<Longrightarrow>
   fst ` set (remove1 (k, p) xs) = fst ` set xs - {k} \<and> distinct (map fst (remove1 (k, p) xs))"
  by (induction xs) (auto simp: rev_image_eqI)

lemma lease_end:
  assumes "lease_inv l" "(k, p) \<in> set (ls_leases l)"
    and "m = filter (\<lambda>e. fst e \<noteq> k) (ls_pending l) \<or> m = btree_insert k (SuPending p) (ls_pending l)"
  shows "lease_inv (l\<lparr>ls_pending := m, ls_leases := remove1 (k, p) (ls_leases l)\<rparr>)"
proof -
  have old: "btree_ok (ls_pending l)" "keyed_by_checkpoint (ls_pending l)" "distinct (map fst (ls_leases l))"
    "\<And>i. map_of (ls_pending l) i = Some SuInFlight \<longleftrightarrow> i \<in> fst ` set (ls_leases l)"
    "\<And>i q. (i, q) \<in> set (ls_leases l) \<Longrightarrow> su_checkpoint_ref (ps_suspension q) = i"
    using assms(1) by (auto simp: lease_inv_def)
  note left = remove1_keys [OF old(3) assms(2)]
  have at: "map_of m i = (if i = k then map_of m k else map_of (ls_pending l) i)" for i
    using assms(3) old(1) by (auto simp: map_of_without map_of_btree_insert)
  have k: "map_of m k = None \<or> map_of m k = Some (SuPending p)"
    using assms(3) old(1) by (auto simp: map_of_without map_of_btree_insert)
  have "btree_ok m" using assms(3) old(1) by (auto simp: btree_ok_filter btree_ok_insert)
  moreover have "keyed_by_checkpoint m"
    unfolding keyed_by_checkpoint_def
  proof (intro allI impI)
    fix i q
    assume i: "map_of m i = Some (SuPending q)"
    show "su_checkpoint_ref (ps_suspension q) = i"
    proof (cases "i = k")
      case True
      with i k old(5) [OF assms(2)] show ?thesis by simp
    next
      case False
      with i at [of i] have "map_of (ls_pending l) i = Some (SuPending q)" by simp
      with old(2) show ?thesis unfolding keyed_by_checkpoint_def by blast
    qed
  qed
  moreover have "map_of m i = Some SuInFlight \<longleftrightarrow> i \<in> fst ` set (remove1 (k, p) (ls_leases l))" for i
    using at [of i] k old(4) [of i] left by auto
  moreover have "\<forall>(i, q) \<in> set (remove1 (k, p) (ls_leases l)). su_checkpoint_ref (ps_suspension q) = i"
    using old(5) set_remove1_subset by fast
  ultimately show ?thesis using left by (simp add: lease_inv_def)
qed

lemma lease_step_inv:
  assumes "lease_step l l'" "lease_inv l" shows "lease_inv l'"
  using assms
proof cases
  case (lease_park s snapshot res m)
  with assms(2) show ?thesis by (auto dest!: park_moves intro: lease_put)
next
  case (lease_restore pending res m)
  with assms(2) show ?thesis by (auto dest!: restore_moves intro: lease_put)
next
  case (lease_refused s e m)
  with assms(2) show ?thesis by (auto dest: begin_resume_Inl)
next
  case (lease_begin s pending m)
  then have "map_of (ls_pending l) (su_checkpoint_ref s) = Some (SuPending pending)"
    by (simp add: begin_resume_Inr)
  then have "su_checkpoint_ref s \<notin> fst ` set (ls_leases l)"
    using assms(2) by (metis lease_inv_def option.inject suspension_state.distinct(1))
  with lease_begin assms(2) show ?thesis
    by (auto simp: lease_inv_def keyed_by_checkpoint_def begin_resume_Inr map_of_btree_insert btree_ok_insert)
next
  case (lease_finish checkpoint pending outcome)
  with assms(2) show ?thesis
    by (auto intro!: lease_end simp: finish_resume_def split: sum.splits)
next
  case (lease_drop checkpoint pending)
  then have "checkpoint \<in> fst ` set (ls_leases l)" by force
  then have "map_of (ls_pending l) checkpoint = Some SuInFlight"
    using assms(2) unfolding lease_inv_def by blast
  with lease_drop assms(2) show ?thesis
    by (auto intro!: lease_end simp: restore_cancelled_resume_def)
qed

lemma lease_reachable_inv:
  assumes "lease_reachable l" shows "lease_inv l"
  using assms unfolding lease_reachable_def
proof (induction rule: rtranclp_induct)
  case base
  show ?case by (simp add: lease_inv_def keyed_by_checkpoint_def)
next
  case (step l l')
  then show ?case using lease_step_inv by blast
qed

text \<open>What \<open>invoke\<close> and \<open>resume\<close> do to the pending map is a sequence of these steps.\<close>

lemma park_stage_pending:
  "srv_pending (snd (park_stage sc snapshot task srv)) = srv_pending srv
   \<or> (\<exists>res. park_suspension (sp_suspension sc) snapshot (srv_pending srv)
         = (res, srv_pending (snd (park_stage sc snapshot task srv))))"
  by (auto simp: park_stage_def split: suspend_task.splits sum.splits prod.splits)

lemma dispatch_pending:
  "srv_pending (snd (dispatch_verdict X vs P ks q v srv)) = srv_pending srv
   \<or> (\<exists>s snapshot res. park_suspension s snapshot (srv_pending srv)
         = (res, srv_pending (snd (dispatch_verdict X vs P ks q v srv))))"
proof (cases v)
  case (VerdictSuspend sc snapshot)
  obtain task w where run: "suspend_run X P (take 2 ks) (SuspendReserve sc) (srv_world srv) = (task, w)"
    by fastforce
  show ?thesis
  proof (cases "vs_enforced vs")
    case True
    then have "dispatch_verdict X vs P ks q v srv = park_stage sc snapshot task (srv\<lparr>srv_world := w\<rparr>)"
      using run VerdictSuspend by (simp add: dispatch_verdict_def)
    with park_stage_pending [of sc snapshot task "srv\<lparr>srv_world := w\<rparr>"] show ?thesis by auto
  next
    case False
    with VerdictSuspend show ?thesis by (auto simp: dispatch_verdict_def split: sum.splits)
  qed
qed (auto simp: dispatch_verdict_def split: prod.splits effect_task.splits)

abbreviation leased :: "('s, 'a) service \<Rightarrow> (string \<times> pending_suspension) list \<Rightarrow> lease_state" where
  "leased srv leases \<equiv> \<lparr>ls_pending = srv_pending srv, ls_leases = leases\<rparr>"

lemma run_leases:
  "lease_step\<^sup>*\<^sup>* (leased srv leases) (leased (snd (validated_run X vs P ks q resumed now dispatch_now srv)) leases)"
proof -
  obtain events verdict where run: "validate_invocation X vs q resumed now dispatch_now = (events, verdict)"
    by fastforce
  let ?srv = "srv\<lparr>srv_world := (srv_world srv)\<lparr>ew_events := ew_events (srv_world srv) @ events\<rparr>\<rparr>"
  show ?thesis
  proof (cases verdict)
    case (Inl e)
    with run show ?thesis by (simp add: validated_run_def)
  next
    case (Inr v)
    then have after: "snd (validated_run X vs P ks q resumed now dispatch_now srv)
        = snd (dispatch_verdict X vs P ks q v ?srv)" using run by (simp add: validated_run_def Let_def)
    from dispatch_pending [of X vs P ks q v ?srv] show ?thesis
    proof (elim disjE exE)
      fix s snapshot res
      assume "park_suspension s snapshot (srv_pending ?srv) = (res, srv_pending (snd (dispatch_verdict X vs P ks q v ?srv)))"
      with after have "lease_step (leased srv leases)
          (leased (snd (validated_run X vs P ks q resumed now dispatch_now srv)) leases)"
        using lease_park [of s snapshot "leased srv leases" res] by simp
      then show ?thesis by blast
    qed (use after in simp)
  qed
qed

lemma resume_leased_leases:
  "lease_step\<^sup>*\<^sup>* (leased srv [(k, p)]) (leased (snd (resume_leased X vs P ks q k p now dispatch_now srv)) [])"
proof -
  obtain answer srv' where run: "validated_run X vs P ks q (Some p) now dispatch_now srv = (answer, srv')"
    by fastforce
  have "lease_step\<^sup>*\<^sup>* (leased srv [(k, p)]) (leased srv' [(k, p)])"
    using run_leases [of srv "[(k, p)]" X vs P ks q "Some p" now dispatch_now] run by simp
  moreover have "lease_step (leased srv' [(k, p)]) (leased (snd (resume_leased X vs P ks q k p now dispatch_now srv)) [])"
    using run lease_drop [of k p "leased srv' [(k, p)]"] lease_finish [of k p "leased srv' [(k, p)]"]
    by (cases answer) (simp_all add: resume_leased_def)
  ultimately show ?thesis by simp
qed

lemma resume_leases:
  "lease_step\<^sup>*\<^sup>* (leased srv []) (leased (snd (resume X vs P ks q s restored_at now dispatch_now srv)) [])"
proof -
  let ?k = "su_checkpoint_ref s"
  have begins: "lease_step\<^sup>*\<^sup>* (leased srv1 [])
      (leased (snd (resume_leased X vs P ks q ?k p now dispatch_now (srv1\<lparr>srv_pending := m\<rparr>))) [])"
    if "begin_resume ?k s (srv_pending srv1) = (Inr p, m)" for srv1 p m
  proof -
    have "lease_step (leased srv1 []) (leased (srv1\<lparr>srv_pending := m\<rparr>) [(?k, p)])"
      using lease_begin [of s "leased srv1 []" p m] that by simp
    with resume_leased_leases [of "srv1\<lparr>srv_pending := m\<rparr>" ?k p] show ?thesis
      by (metis converse_rtranclp_into_rtranclp)
  qed
  have restores: "lease_step\<^sup>*\<^sup>* (leased srv []) (leased srv1 [])"
    if "restore_durable_suspension X vs P q s restored_at srv = (res, srv1)" for res srv1
    using that lease_restore [of _ "leased srv []"]
    by (auto simp: restore_durable_suspension_def split: sum.splits prod.splits intro!: r_into_rtranclp)
  show ?thesis
  proof (cases "begin_resume ?k s (srv_pending srv)")
    case (Pair res m)
    show ?thesis
    proof (cases res)
      case (Inr p)
      with Pair begins [of srv p m] show ?thesis by (simp add: resume_def Let_def)
    next
      case refused: (Inl e)
      obtain res1 srv1 where restore: "restore_durable_suspension X vs P q s restored_at srv = (res1, srv1)"
        by fastforce
      obtain res2 m2 where again: "begin_resume ?k s (srv_pending srv1) = (res2, m2)" by fastforce
      show ?thesis
      proof (cases "d_message e \<noteq> checkpoint_not_pending \<or> \<not> is_ok res1")
        case True
        then show ?thesis using Pair refused restore restores [OF restore]
          by (auto simp: resume_def Let_def is_ok_iff split: sum.splits)
      next
        case False
        then obtain u where "res1 = Inr u" by (auto simp: is_ok_iff)
        with False Pair refused restore again restores [OF restore] begins [of srv1 _ m2]
        show ?thesis
          by (cases res2) (auto simp: resume_def Let_def dest: begin_resume_Inl intro: rtranclp_trans)
      qed
    qed
  qed
qed

section \<open>Restart\<close>

lemma suspend_verdict_fields:
  assumes "suspend_verdict vs q admission locked grant current principals proposal kind
      = Inr (VerdictSuspend sc snapshot)"
  shows "sp_request sc = q" "sp_admission sc = admission" "sp_locked sc = locked" "sp_proposal sc = proposal"
    "sp_principals sc = principals" "su_proposal_digest (sp_suspension sc) = ep_proposal_digest proposal"
    "snapshot = snapshot_new admission locked grant"
  using assms by (auto simp: suspend_verdict_def split: if_splits)

lemma validated_suspension:
  assumes "snd (validate_invocation X vs q None now dispatch_now) = Inr (VerdictSuspend sc snapshot)"
  shows "\<exists>locked grant proposal.
     vs_load vs (iq_admission_id q) (iq_grant_digest q) = Inr (sp_admission sc)
     \<and> ia_locked_capability (sp_admission sc) (iq_capability q) = Inr locked
     \<and> validate_locked_semantics X locked = Inr ()
     \<and> request_validate_against_admission X q (ia_grant_set (sp_admission sc)) (lc_descriptor locked) = Inr ()
     \<and> ia_effective_grant (sp_admission sc) (iq_capability q) = Inr grant
     \<and> proposal_try_new X q (lc_descriptor locked) = Inr proposal
     \<and> su_proposal_digest (sp_suspension sc) = ep_proposal_digest proposal
     \<and> snapshot = snapshot_new (sp_admission sc) locked grant"
proof -
  obtain admission locked grant principals backend current proposal status where
    stage1: "snd (validate_admission_stage X vs q None now) = Inr (admission, locked, grant)"
    and stage4: "snd (proposal_stage X q locked grant None) = Inr proposal"
    and last: "snd (case status of
         EvidenceMissing kind \<Rightarrow>
           unlogged (suspend_verdict vs q admission locked grant current principals proposal kind)
       | EvidenceComplete evidence \<Rightarrow>
           point_of_use_stage X vs q False admission locked grant principals backend current
             proposal evidence dispatch_now) = Inr (VerdictSuspend sc snapshot)"
    using assms
    by (auto simp: validate_invocation_def simp del: admission_stage_Inr freshness_stage_Inr cong: evidence_status.case_cong)
  obtain kind where "status = EvidenceMissing kind"
  proof (cases status)
    case (EvidenceComplete evidence)
    with last have False
      by (auto simp: point_of_use_stage_def effect_verdict_def split: if_splits)
    then show thesis ..
  qed
  with last have "suspend_verdict vs q admission locked grant current principals proposal kind
      = Inr (VerdictSuspend sc snapshot)" by simp
  note fields = suspend_verdict_fields [OF this]
  from stage1 [unfolded admission_stage_Inr] stage4 [unfolded proposal_stage_Inr] fields show ?thesis by blast
qed

lemma durable_suspension_found:
  assumes "snd (validate_invocation X vs q None now dispatch_now) = Inr (VerdictSuspend sc snapshot)"
    and "vs_enforced vs"
    and "authenticated_principals vs (sp_admission sc) restored_at = Inr principals"
    and "status_context_of principals = Inr context"
    and "status store \<lparr>sq_invocation_id = iq_invocation_id q, sq_trace_context = iq_trace_context q\<rparr> context = Inr st"
    and "is_state st = StSuspended (sp_suspension sc)"
  shows "durable_suspension X vs status store q (sp_suspension sc) restored_at
    = Inr \<lparr>ps_suspension = sp_suspension sc, ps_snapshot = snapshot\<rparr>"
  using validated_suspension [OF assms(1)] assms(2-) by (auto simp: durable_suspension_def)

section \<open>Properties of suspension\<close>

text \<open>
  Claim C9. A checkpoint is resumed by at most one caller at a time, and never lost. However the
  critical sections of concurrent calls interleave, no two outstanding leases are for one
  checkpoint; while a lease is out every other resume of its checkpoint is refused and changes
  nothing; dropping the lease before an answer (a cancelled call) makes exactly the suspension it
  took resumable again; and a checkpoint in flight has a lease out, so none stays blocked.
\<close>

theorem one_resume_per_checkpoint:
  assumes "lease_reachable l"
  shows "distinct (map fst (ls_leases l))
    \<and> (\<forall>(k, p) \<in> set (ls_leases l).
         (\<forall>s. \<exists>e. begin_resume k s (ls_pending l) = (Inl e, ls_pending l))
         \<and> fst (begin_resume k (ps_suspension p) (restore_cancelled_resume k p (ls_pending l))) = Inr p)
    \<and> (\<forall>k. map_of (ls_pending l) k = Some SuInFlight \<longrightarrow> (\<exists>p. (k, p) \<in> set (ls_leases l)))"
proof -
  have ok: "btree_ok (ls_pending l)" "distinct (map fst (ls_leases l))"
    and flight: "map_of (ls_pending l) k = Some SuInFlight \<longleftrightarrow> k \<in> fst ` set (ls_leases l)" for k
    using lease_reachable_inv [OF assms] by (simp_all add: lease_inv_def)
  have "(\<exists>e. begin_resume k s (ls_pending l) = (Inl e, ls_pending l))
      \<and> fst (begin_resume k (ps_suspension p) (restore_cancelled_resume k p (ls_pending l))) = Inr p"
    if "(k, p) \<in> set (ls_leases l)" for k p s
  proof -
    have "map_of (ls_pending l) k = Some SuInFlight" using flight [of k] that by force
    then show ?thesis
      by (simp add: begin_resume_def restore_cancelled_resume_def map_of_btree_insert ok(1))
  qed
  then show ?thesis using ok(2) flight by fastforce
qed

text \<open>
  A suspension survives a restart of the service. When an invocation was suspended and
  its record in the store still says so, a service started anew, whose pending map is empty,
  resumes it with the answer, the effects on store and ledger and the pending map that the
  service that suspended it would have given: the suspension is restored from the durable record
  for the same authenticated caller, with the snapshot the checkpoint was parked with.
\<close>

lemma restart_preserves_suspension:
  assumes "snd (validate_invocation X vs q None now dispatch_now) = Inr (VerdictSuspend sc snapshot)"
    and "vs_enforced vs"
    and "authenticated_principals vs (sp_admission sc) restored_at = Inr principals"
    and "status_context_of principals = Inr context"
    and "sto_status (ef_store P) \<lparr>sq_invocation_id = iq_invocation_id q, sq_trace_context = iq_trace_context q\<rparr>
      context (ew_store (srv_world srv)) = Inr st"
    and "is_state st = StSuspended (sp_suspension sc)"
  shows "resume X vs P ks q (sp_suspension sc) restored_at now' dispatch_now' (srv\<lparr>srv_pending := []\<rparr>)
    = resume X vs P ks q (sp_suspension sc) restored_at now' dispatch_now'
        (srv\<lparr>srv_pending := [(su_checkpoint_ref (sp_suspension sc),
           SuPending \<lparr>ps_suspension = sp_suspension sc, ps_snapshot = snapshot\<rparr>)]\<rparr>)"
proof -
  let ?P = "\<lparr>ps_suspension = sp_suspension sc, ps_snapshot = snapshot\<rparr>"
  have "restore_durable_suspension X vs P q (sp_suspension sc) restored_at (srv\<lparr>srv_pending := []\<rparr>)
      = (Inr (), srv\<lparr>srv_pending := [(su_checkpoint_ref (sp_suspension sc), SuPending ?P)]\<rparr>)"
    using durable_suspension_found [OF assms(1-4), of "\<lambda>st q c. sto_status (ef_store P) q c st"] assms(5,6)
    by (simp add: restore_durable_suspension_def insert_restored_def)
  moreover have "d_message (inv_authorization_error checkpoint_not_pending) = checkpoint_not_pending"
    by (simp add: inv_authorization_error_def diagnostic_error_def)
  ultimately show ?thesis by (simp add: resume_def begin_resume_def Let_def)
qed

section \<open>Witnesses\<close>

definition sample_use_locked :: "effect_classification \<Rightarrow> locked_capability" where
  "sample_use_locked effect = sample_locked\<lparr>lc_descriptor := sample_descriptor
     \<lparr>cd_execution_modes := {ModeImmediate, ModeSuspendable, ModeDeferred}, cd_effect := effect\<rparr>\<rparr>"

definition sample_use_grant :: "effect_classification \<Rightarrow> effective_grant" where
  "sample_use_grant effect = sample_grant\<lparr>eg_maximum_effect := effect,
     eg_execution_modes := {ModeImmediate, ModeSuspendable, ModeDeferred}\<rparr>"

definition sample_use_admission :: "effect_classification \<Rightarrow> invocation_admission" where
  "sample_use_admission effect =
     \<lparr>ia_grant_set = sample_grant_set\<lparr>gs_actor := ''user:1'', gs_agent := ''agent:1'', gs_task := ''task-1'',
        gs_session := ''session-1'', gs_authority_revisions := sample_revisions,
        gs_grants := [sample_use_grant effect]\<rparr>,
      ia_locked_capabilities = [(sample_identity, sample_use_locked effect)]\<rparr>"

definition sample_checkpoint :: string where
  "sample_checkpoint = ''checkpoint://'' @ digest_display sample_digest @ ''/'' @ replicate 64 CHR ''a''"

definition sample_deployment :: "effect_classification \<Rightarrow> invocation_deployment" where
  "sample_deployment effect =
     \<lparr>vs_load = \<lambda>_ _. Inr (sample_use_admission effect), vs_verify = Inr (sample_human, sample_workload),
      vs_operations = sample_registry, vs_evidence = sample_evidence_provider,
      vs_issue = \<lambda>_. Inr sample_checkpoint, vs_enforced = True\<rparr>"

lemma descriptor_fields:
  "descriptor_field (descriptor_json d) ''inputSchema'' = Inr (cd_input_schema d)"
  "descriptor_field (descriptor_json d) ''outputSchema'' = Inr (cd_output_schema d)"
  "descriptor_field (descriptor_json d) ''stableErrors'' = Inr (JArr (map error_descriptor_json (cd_stable_errors d)))"
  "\<exists>safety. try_map (\<lambda>name. map_ok (\<lambda>v. (name, v)) (descriptor_field (descriptor_json d) name)) safety_fields
     = Inr safety"
  "\<exists>entries. descriptor_json d = JObj entries"
  by (simp_all add: descriptor_field_def descriptor_json_def add_entry_def descriptor_wire_def json_get_def
      parts_of_descriptor_def safety_fields_def)

lemma sample_use_semantics: "validate_locked_semantics sample_externals (sample_use_locked effect) = Inr ()"
proof -
  let ?d = "lc_descriptor (sample_use_locked effect)"
  have part: "descriptor_part_digest sample_externals domain v = Inr sample_digest" for domain v
    by (simp add: descriptor_part_digest_def sample_externals_def)
  obtain safety where safety: "try_map (\<lambda>name. map_ok (\<lambda>v. (name, v)) (descriptor_field (descriptor_json ?d) name))
      safety_fields = Inr safety" using descriptor_fields(4) by blast
  obtain entries where object: "descriptor_json ?d = JObj entries" using descriptor_fields(5) by blast
  have digests: "lc_input_schema_digest (sample_use_locked effect) = sample_digest"
      "lc_output_schema_digest (sample_use_locked effect) = sample_digest"
      "lc_stable_error_set_digest (sample_use_locked effect) = sample_digest"
      "lc_safety_metadata_digest (sample_use_locked effect) = sample_digest"
    by (simp_all add: sample_use_locked_def sample_locked_def)
  have fields: "descriptor_field (JObj entries) ''inputSchema'' = Inr (cd_input_schema ?d)"
    "descriptor_field (JObj entries) ''outputSchema'' = Inr (cd_output_schema ?d)"
    "descriptor_field (JObj entries) ''stableErrors'' = Inr (JArr (map error_descriptor_json (cd_stable_errors ?d)))"
    unfolding object [symmetric] by (rule descriptor_fields)+
  show ?thesis
    using safety by (simp add: validate_locked_semantics_def object Let_def part digests fields)
qed

definition sample_asking :: "(string \<times> string) list \<Rightarrow> invocation_request" where
  "sample_asking refs = sample_invocation\<lparr>iq_evidence_refs := refs\<rparr>"

lemma sample_use_admitted:
  "snd (validate_admission_stage sample_externals (sample_deployment effect) (sample_asking refs) None 100)
     = Inr (sample_use_admission effect, sample_use_locked effect, sample_use_grant effect)"
  unfolding admission_stage_Inr
  by (cases effect)
    (simp_all add: sample_use_semantics, simp_all add: sample_deployment_def sample_use_admission_def ia_locked_capability_def
      ia_effective_grant_def sample_asking_def sample_invocation_def sample_use_grant_def
      sample_use_locked_def request_validate_against_admission_def validate_admission_correlation_def
      request_validate_against_def validate_grant_against_locked_def grant_evidence_at_least_locked_def
      inv_freshness_at_least_def validate_invocation_modes_def sample_data)

lemma sample_use_authenticated:
  "authenticated_principals (sample_deployment effect) (sample_use_admission effect) 100 = Inr sample_auth_context"
  using sample_correlated
  by (simp add: authenticated_principals_def sample_deployment_def sample_use_admission_def sample_data
      sample_refs_def sample_workload_def)

lemma sample_use_fresh:
  "snd (freshness_stage (sample_deployment effect) (sample_use_admission effect) (sample_use_locked effect)
     (sample_use_grant effect) 100) = Inr (sample_backend, sample_revisions)"
  unfolding freshness_stage_Inr
  by (simp add: sample_deployment_def sample_use_admission_def sample_use_locked_def sample_use_grant_def
      sample_registry_def sample_backend_def validate_freshness_def checked_sub_def sample_data)

definition sample_use_proposal :: "effect_classification \<Rightarrow> (string \<times> string) list \<Rightarrow> effect_proposal" where
  "sample_use_proposal effect refs =
     (case proposal_try_new sample_externals (sample_asking refs) (lc_descriptor (sample_use_locked effect)) of
        Inr p \<Rightarrow> p)"

lemma sample_use_proposed:
  "snd (proposal_stage sample_externals (sample_asking refs) (sample_use_locked effect)
     (sample_use_grant effect) None) = Inr (sample_use_proposal effect refs)"
  "ep_proposal_digest (sample_use_proposal effect refs) = sample_digest"
proof -
  have "is_ok (validate_concrete_resource_selector ''doc:7'')" by code_simp
  then show "snd (proposal_stage sample_externals (sample_asking refs) (sample_use_locked effect)
     (sample_use_grant effect) None) = Inr (sample_use_proposal effect refs)"
    unfolding proposal_stage_Inr
    by (simp add: inv_validate_resource_def sample_asking_def sample_invocation_def sample_use_grant_def
        sample_use_locked_def sample_doc_below sample_use_proposal_def proposal_try_new_def
        request_validate_against_def canonical_digest_def proposal_from_digests_def sample_data)
  show "ep_proposal_digest (sample_use_proposal effect refs) = sample_digest"
    by (simp add: sample_asking_def sample_invocation_def sample_use_locked_def sample_use_proposal_def
        proposal_try_new_def request_validate_against_def canonical_digest_def proposal_from_digests_def sample_data)
qed

abbreviation sample_refs_supplied :: "(string \<times> string) list" where
  "sample_refs_supplied \<equiv> [(''manager'', ''vault://a'')]"

lemma sample_use_evidence:
  "validate_evidence sample_evidence_provider (sample_asking sample_refs_supplied) (sample_use_grant effect)
     sample_auth_context (sample_use_proposal effect sample_refs_supplied) 100
     = Inr (EvidenceComplete [sample_evidence])"
  "validate_evidence sample_evidence_provider (sample_asking []) (sample_use_grant effect)
     sample_auth_context (sample_use_proposal effect []) 100 = Inr (EvidenceMissing EvApproval)"
  by (simp_all add: validate_evidence_def required_evidence_list_def sample_use_grant_def sample_grant_def
      sample_asking_def sample_evidence_provider_def sample_evidence_protected evidence_request_ref_new_def
      sample_nonblank validate_verified_evidence_Inr sample_evidence_def sample_invocation_def
      sample_use_proposed(2) [unfolded sample_asking_def])

definition sample_use_context :: "effect_classification \<Rightarrow> invocation_context" where
  "sample_use_context effect =
     \<lparr>ic_principals = sample_auth_context, ic_capability = sample_identity, ic_selected_resource = ''doc:7'',
      ic_trace_context = sample_trace, ic_locked_capability = sample_use_locked effect,
      ic_effective_grant = sample_use_grant effect, ic_grant_digest = sample_digest,
      ic_loaded_revisions = sample_revisions\<rparr>"

definition sample_use_call :: "effect_classification \<Rightarrow> effect_call" where
  "sample_use_call effect =
     \<lparr>ec_request = sample_asking sample_refs_supplied, ec_admission = sample_use_admission effect,
      ec_locked = sample_use_locked effect, ec_revisions = sample_revisions,
      ec_context = sample_use_context effect, ec_proposal = sample_use_proposal effect sample_refs_supplied,
      ec_decision = DecisionAllow ''decision-1'' sample_revisions 110 sample_conditions,
      ec_evidence = [sample_evidence], ec_operation = sample_operation, ec_resumed = False\<rparr>"

lemma sample_use_point:
  "snd (point_of_use_stage sample_externals (sample_deployment effect) (sample_asking sample_refs_supplied) False
     (sample_use_admission effect) (sample_use_locked effect) (sample_use_grant effect) sample_auth_context
     sample_backend sample_revisions (sample_use_proposal effect sample_refs_supplied) [sample_evidence] 120)
   = effect_verdict (sample_deployment effect) (sample_use_call effect) (sample_use_grant effect)"
proof -
  have pre: "invocation_preconditions (sample_asking sample_refs_supplied) =
      Inr [\<lparr>pc_name = ''etag'', pc_value = JStr ''v3''\<rparr>]"
    by (simp add: invocation_preconditions_def sample_asking_def sample_invocation_def precondition_try_new_def)
  have op: "registry_resolve (vs_operations (sample_deployment effect)) (iq_capability (sample_asking sample_refs_supplied))
      = Inr sample_operation"
    by (simp add: sample_deployment_def sample_registry_def sample_asking_def sample_invocation_def
        registry_resolve_def)
  have ctx: "invocation_context_try_new (sample_use_context effect) = Inr (sample_use_context effect)"
    by (simp add: invocation_context_try_new_def sample_use_context_def sample_use_locked_def sample_use_grant_def
        sample_locked_def sample_grant_def sample_doc_below)
  have build: "\<lparr>ic_principals = sample_auth_context, ic_capability = iq_capability (sample_asking sample_refs_supplied),
      ic_selected_resource = iq_selected_resource (sample_asking sample_refs_supplied),
      ic_trace_context = iq_trace_context (sample_asking sample_refs_supplied),
      ic_locked_capability = sample_use_locked effect, ic_effective_grant = sample_use_grant effect,
      ic_grant_digest = iq_grant_digest (sample_asking sample_refs_supplied),
      ic_loaded_revisions = sample_revisions\<rparr> = sample_use_context effect"
    by (simp add: sample_use_context_def sample_asking_def sample_invocation_def)
  have required: "validate_required_preconditions (sample_use_grant effect) (lc_descriptor (sample_use_locked effect))
      [\<lparr>pc_name = ''etag'', pc_value = JStr ''v3''\<rparr>] = Inr ()"
    by (simp add: validate_required_preconditions_def sample_use_grant_def sample_use_locked_def sample_data)
  have final: "validate_final_point_of_use (ia_grant_set (sample_use_admission effect)) (sample_use_context effect)
      (DecisionAllow ''decision-1'' sample_revisions 110 sample_conditions) sample_revisions
      [\<lparr>pc_name = ''etag'', pc_value = JStr ''v3''\<rparr>] [sample_evidence] 120 = Inr ()"
    by (simp add: validate_final_point_of_use_def validate_authorization_def validate_narrowed_conditions_def
        sample_use_admission_def sample_use_context_def sample_use_grant_def sample_evidence_def
        sample_conditions_def sample_auth_context_def condition_allows_resource_def sample_doc_below sample_data)
  show ?thesis
    by (simp add: point_of_use_stage_def op build ctx pre required final sample_backend_def
        sample_use_call_def sample_operation_def)
qed

lemma sample_use_verdict:
  "snd (validate_invocation sample_externals (sample_deployment effect) (sample_asking sample_refs_supplied) None 100 120)
     = Inr ((if effect = ReadOnly then VerdictRead else VerdictEffect) (sample_use_call effect))"
proof -
  have principals: "snd (authenticate_stage (sample_deployment effect) (sample_asking sample_refs_supplied)
      (sample_use_admission effect) 100) = Inr sample_auth_context"
    unfolding authenticate_stage_Inr
    by (simp add: sample_use_authenticated sample_auth_context_def sample_asking_def sample_invocation_def)
  have evidence: "validate_evidence (vs_evidence (sample_deployment effect)) (sample_asking sample_refs_supplied)
      (sample_use_grant effect) sample_auth_context (sample_use_proposal effect sample_refs_supplied) 100
      = Inr (EvidenceComplete [sample_evidence])"
    using sample_use_evidence(1) by (simp add: sample_deployment_def)
  have verdict: "effect_verdict (sample_deployment effect) (sample_use_call effect) (sample_use_grant effect)
      = Inr ((if effect = ReadOnly then VerdictRead else VerdictEffect) (sample_use_call effect))"
    by (simp add: effect_verdict_def sample_use_call_def sample_use_locked_def sample_use_grant_def
        sample_deployment_def)
  show ?thesis
    by (simp add: validate_invocation_def sample_use_admitted principals sample_use_fresh sample_use_proposed(1)
        evidence sample_use_point verdict del: admission_stage_Inr authenticate_stage_Inr freshness_stage_Inr
        proposal_stage_Inr)
qed

theorem executed_invocation_is_permitted_witness:
  "\<exists>c. invocation_permitted sample_externals (sample_deployment ReadOnly) (sample_asking sample_refs_supplied)
     None 100 120 c"
proof -
  let ?srv = "\<lparr>srv_world = down_world, srv_pending = []\<rparr>"
  obtain answer srv' where run: "validated_run sample_externals (sample_deployment ReadOnly) down_plane []
      (sample_asking sample_refs_supplied) None 100 120 ?srv = (answer, srv')" by fastforce
  obtain events r where pair: "validate_invocation sample_externals (sample_deployment ReadOnly)
      (sample_asking sample_refs_supplied) None 100 120 = (events, r)" by fastforce
  with sample_use_verdict [of ReadOnly] have events: "validate_invocation sample_externals (sample_deployment ReadOnly)
      (sample_asking sample_refs_supplied) None 100 120 = (events, Inr (VerdictRead (sample_use_call ReadOnly)))"
    by simp
  have "''execute'' \<notin> set events"
    using validation_does_not_execute [of sample_externals "sample_deployment ReadOnly"
        "sample_asking sample_refs_supplied" None 100 120] events by simp
  moreover have "ew_events (srv_world srv') = events @ [''execute'']"
    using run events by (auto simp: validated_run_def Let_def dispatch_verdict_def record_event_def down_world_def)
  ultimately have "count_list (ew_events (srv_world ?srv)) ''execute''
      < count_list (ew_events (srv_world srv')) ''execute''" by (simp add: down_world_def)
  from executed_invocation_is_permitted [OF run this] show ?thesis .
qed

definition sample_use_suspension :: suspension where
  "sample_use_suspension = \<lparr>su_checkpoint_ref = sample_checkpoint, su_evidence_kind = EvApproval,
     su_evidence_request_ref = ''evidence-request://'' @ digest_display sample_digest,
     su_proposal_digest = sample_digest\<rparr>"

definition sample_use_suspend :: suspend_call where
  "sample_use_suspend =
     \<lparr>sp_request = sample_asking [], sp_admission = sample_use_admission IrreversibleWrite,
      sp_locked = sample_use_locked IrreversibleWrite, sp_revisions = sample_revisions,
      sp_principals = sample_auth_context, sp_proposal = sample_use_proposal IrreversibleWrite [],
      sp_suspension = sample_use_suspension\<rparr>"

abbreviation sample_use_snapshot :: admission_snapshot where
  "sample_use_snapshot \<equiv> snapshot_new (sample_use_admission IrreversibleWrite)
     (sample_use_locked IrreversibleWrite) (sample_use_grant IrreversibleWrite)"

lemma checkpoint_reference_ok:
  assumes "length entropy = 64" "list_all is_hex_lower entropy"
  shows "validate_checkpoint_reference (''checkpoint://'' @ digest_display d @ ''/'' @ entropy) d = Inr ()"
proof -
  obtain namespace where n: "''checkpoint://'' @ digest_display d @ ''/'' = namespace" by blast
  then have whole: "''checkpoint://'' @ digest_display d @ ''/'' @ entropy = namespace @ entropy"
    by (metis append.assoc)
  show ?thesis using assms unfolding validate_checkpoint_reference_def whole n by (simp add: Let_def)
qed

lemma sample_checkpoint_ok: "validate_checkpoint_reference sample_checkpoint sample_digest = Inr ()"
proof -
  have "is_hex_lower CHR ''a''" by code_simp
  then show ?thesis unfolding sample_checkpoint_def by (intro checkpoint_reference_ok) (simp_all add: list_all_iff)
qed

lemma sample_request_ref: "evidence_request_ref_new (''evidence-request://'' @ digest_display sample_digest)
    = Inr (''evidence-request://'' @ digest_display sample_digest)"
  by (simp add: evidence_request_ref_new_def string_ref_new_def blank_simps)

lemma sample_use_suspended:
  "snd (validate_invocation sample_externals (sample_deployment IrreversibleWrite) (sample_asking []) None 100 120)
     = Inr (VerdictSuspend sample_use_suspend sample_use_snapshot)"
proof -
  have principals: "snd (authenticate_stage (sample_deployment IrreversibleWrite) (sample_asking [])
      (sample_use_admission IrreversibleWrite) 100) = Inr sample_auth_context"
    unfolding authenticate_stage_Inr
    by (simp add: sample_use_authenticated sample_auth_context_def sample_asking_def sample_invocation_def)
  have evidence: "validate_evidence (vs_evidence (sample_deployment IrreversibleWrite)) (sample_asking [])
      (sample_use_grant IrreversibleWrite) sample_auth_context (sample_use_proposal IrreversibleWrite []) 100
      = Inr (EvidenceMissing EvApproval)"
    using sample_use_evidence(2) by (simp add: sample_deployment_def)
  have issue: "vs_issue (sample_deployment IrreversibleWrite) p = Inr sample_checkpoint" for p
    by (simp add: sample_deployment_def)
  have modes: "cd_execution_modes (lc_descriptor (sample_use_locked IrreversibleWrite))
      = {ModeImmediate, ModeSuspendable, ModeDeferred}"
    "eg_execution_modes (sample_use_grant IrreversibleWrite) = {ModeImmediate, ModeSuspendable, ModeDeferred}"
    by (simp_all add: sample_use_locked_def sample_use_grant_def)
  have "suspend_verdict (sample_deployment IrreversibleWrite) (sample_asking [])
      (sample_use_admission IrreversibleWrite) (sample_use_locked IrreversibleWrite)
      (sample_use_grant IrreversibleWrite) sample_revisions sample_auth_context
      (sample_use_proposal IrreversibleWrite []) EvApproval
      = Inr (VerdictSuspend sample_use_suspend sample_use_snapshot)"
    by (simp add: suspend_verdict_def issue modes sample_use_proposed(2) sample_checkpoint_ok sample_request_ref [simplified]
        sample_use_suspend_def sample_use_suspension_def)
  then show ?thesis
    by (simp add: validate_invocation_def sample_use_admitted principals sample_use_fresh sample_use_proposed(1)
        evidence del: admission_stage_Inr authenticate_stage_Inr freshness_stage_Inr proposal_stage_Inr)
qed

theorem one_resume_per_checkpoint_witness:
  "\<exists>e. begin_resume sample_checkpoint sample_use_suspension [(sample_checkpoint, SuInFlight)]
     = (Inl e, [(sample_checkpoint, SuInFlight)])"
proof -
  let ?p = "\<lparr>ps_suspension = sample_use_suspension, ps_snapshot = sample_use_snapshot\<rparr>"
  let ?parked = "\<lparr>ls_pending = [(sample_checkpoint, SuPending ?p)], ls_leases = []\<rparr>"
  let ?leased = "\<lparr>ls_pending = [(sample_checkpoint, SuInFlight)], ls_leases = [(sample_checkpoint, ?p)]\<rparr>"
  have key: "su_checkpoint_ref sample_use_suspension = sample_checkpoint"
    by (simp add: sample_use_suspension_def)
  have "lease_step \<lparr>ls_pending = [], ls_leases = []\<rparr> ?parked"
    using lease_park [of sample_use_suspension sample_use_snapshot "\<lparr>ls_pending = [], ls_leases = []\<rparr>" "Inr ()"]
    by (simp add: park_suspension_def key)
  moreover have "lease_step ?parked ?leased"
    using lease_begin [of sample_use_suspension ?parked ?p "[(sample_checkpoint, SuInFlight)]"]
    by (simp add: begin_resume_def key)
  ultimately have "lease_reachable ?leased"
    unfolding lease_reachable_def by (blast intro: rtranclp.intros)
  from one_resume_per_checkpoint [OF this] show ?thesis by simp
qed

definition sample_suspended_record :: stored_invocation where
  "sample_suspended_record = sample_reserved_record\<lparr>si_state := StSuspended sample_use_suspension\<rparr>"

definition sample_suspended_world :: "(memory_store, ledger_files) effect_world" where
  "sample_suspended_world = sample_world\<lparr>ew_store :=
     [(key_from_invocation sample_suspended_record, sample_suspended_record)]\<rparr>"

end
