(* ===== verification/KF_Package.thy ===== *)
theory KF_Package
  imports KF_Catalog
begin

text \<open>
  Agent packages and what they are bound to: the manifest, feature, package path, component and
  runtime binding types of \<open>kiteframe-contract/src\<close> (\<open>manifest.rs\<close>, \<open>feature.rs\<close>, \<open>package.rs\<close>,
  \<open>component.rs\<close>, \<open>binding.rs\<close>) with the checks of their constructors, and the portable digest of
  \<open>kiteframe-core/src/canonical.rs\<close> over a package and its nested agents. A package is the value
  that the loader of \<open>KF_Load\<close> assembles.
\<close>

section \<open>Validated strings\<close>

fun symbol_rest :: "bool \<Rightarrow> string \<Rightarrow> bool" where
  "symbol_rest previous_separator [] = (\<not> previous_separator)"
| "symbol_rest previous_separator (c # cs) =
     (if is_ascii_lower c \<or> is_ascii_digit c then symbol_rest False cs
      else if c \<in> {CHR ''.'', CHR ''_'', CHR ''-''} \<and> \<not> previous_separator then symbol_rest True cs
      else False)"

definition is_symbol :: "string \<Rightarrow> bool" where
  "is_symbol value = (case value of [] \<Rightarrow> False | c # cs \<Rightarrow> is_ascii_lower c \<and> symbol_rest False cs)"

definition symbol_new :: "string \<Rightarrow> string \<Rightarrow> (string, string) result" where
  "symbol_new message value = (if is_symbol value then Inr value else Inl message)"

text \<open>
  The semantic version library: a version is parsed into an ordered type, a version requirement
  is checked for syntax and matched against a version.
\<close>

record 'v semver =
  sv_version :: "string \<Rightarrow> 'v option"
  sv_req_ok :: "string \<Rightarrow> bool"
  sv_matches :: "string \<Rightarrow> 'v \<Rightarrow> bool"

definition is_package_version :: "'v semver \<Rightarrow> string \<Rightarrow> bool" where
  "is_package_version V value = (sv_version V value \<noteq> None)"

definition decimal_component :: "string \<Rightarrow> bool" where
  "decimal_component s =
     (s \<noteq> [] \<and> list_all is_ascii_digit s \<and> (s = ''0'' \<or> hd s \<noteq> CHR ''0''))"

definition is_capability_version :: "'v semver \<Rightarrow> string \<Rightarrow> bool" where
  "is_capability_version V value =
     (case value of
        [] \<Rightarrow> False
      | c # version \<Rightarrow>
          c = CHR ''^'' \<and> length (split_on CHR ''.'' version) \<in> {2, 3}
          \<and> list_all decimal_component (split_on CHR ''.'' version) \<and> sv_req_ok V value)"

definition rsplit_once :: "char \<Rightarrow> string \<Rightarrow> (string \<times> string) option" where
  "rsplit_once sep s =
     (if sep \<in> set s
      then Some (rev (tl (dropWhile (\<lambda>c. c \<noteq> sep) (rev s))), rev (takeWhile (\<lambda>c. c \<noteq> sep) (rev s)))
      else None)"

definition major_version :: "string \<Rightarrow> bool" where
  "major_version major = (major \<noteq> [] \<and> hd major \<noteq> CHR ''0'' \<and> list_all is_ascii_digit major)"

definition is_feature :: "string \<Rightarrow> bool" where
  "is_feature value =
     (case rsplit_once CHR ''@'' value of
        None \<Rightarrow> False
      | Some (name, major) \<Rightarrow> is_symbol name \<and> major_version major)"

definition decimal_value :: "string \<Rightarrow> nat" where
  "decimal_value s = fold (\<lambda>c n. 10 * n + (of_char c - 48)) s 0"

definition feature_id_new :: "string \<Rightarrow> (string, string) result" where
  "feature_id_new value =
     (case rsplit_once CHR ''@'' value of
        None \<Rightarrow> Inl ''feature must include a major version''
      | Some (name, major) \<Rightarrow>
          if name = [] \<or> \<not> major_version major then Inl ''invalid feature identifier''
          else if 2 ^ 64 \<le> decimal_value major then Inl ''feature major version exceeds u64''
          else Inr value)"

definition feature_name :: "string \<Rightarrow> string" where
  "feature_name f = (case rsplit_once CHR ''@'' f of Some (name, _) \<Rightarrow> name | None \<Rightarrow> [])"

definition feature_major :: "string \<Rightarrow> nat" where
  "feature_major f = (case rsplit_once CHR ''@'' f of Some (_, major) \<Rightarrow> decimal_value major | None \<Rightarrow> 0)"

fun has_control :: "string \<Rightarrow> bool" where
  "has_control [] = False"
| "has_control (c # cs) =
     (char_in 0 31 c \<or> char_in 127 127 c
      \<or> char_in 194 194 c \<and> (case cs of [] \<Rightarrow> False | d # _ \<Rightarrow> char_in 128 159 d)
      \<or> has_control cs)"

definition is_resource_selector :: "string \<Rightarrow> bool" where
  "is_resource_selector value = (value \<noteq> [] \<and> \<not> has_control value)"

definition package_path_new :: "string \<Rightarrow> (string, string) result" where
  "package_path_new path =
     (if path = [] \<or> hd path = CHR ''/'' \<or> CHR 0x5C \<in> set path \<or> has_control path
         \<or> 2 \<le> length path \<and> (is_ascii_lower (hd path) \<or> is_ascii_upper (hd path)) \<and> path ! 1 = CHR '':''
         \<or> list_ex (\<lambda>segment. segment \<in> {[], ''.'', ''..''}) (split_on CHR ''/'' path)
      then Inl ''package path must be a normalized relative '/'-separated path''
      else Inr path)"

section \<open>Manifests\<close>

datatype package_identity = PackageIdentity (pi_name: string) (pi_version: string)

instantiation package_identity :: linorder
begin
definition less_eq_package_identity :: "package_identity \<Rightarrow> package_identity \<Rightarrow> bool" where
  "less_eq_package_identity a b = ((pi_name a, pi_version a) \<le> (pi_name b, pi_version b))"
definition less_package_identity :: "package_identity \<Rightarrow> package_identity \<Rightarrow> bool" where
  "less_package_identity a b = ((pi_name a, pi_version a) < (pi_name b, pi_version b))"
instance
  by standard
     (auto simp: less_eq_package_identity_def less_package_identity_def intro: package_identity.expand)
end

datatype model_capability = CapText | CapToolCalling | CapStructuredOutput
datatype latency_class = LatencyInteractive
datatype data_classification = Confidential

record model_requirement =
  mr_capabilities :: "model_capability set"
  mr_min_context_tokens :: "32 word option"
  mr_max_latency_class :: "latency_class option"
  mr_residency :: "string option"
  mr_required :: bool

record capability_requirement =
  cr_name :: string
  cr_version :: string
  cr_required :: bool
  cr_resources :: "string list"

record delegation_requirement =
  dr_agent :: string
  dr_capabilities :: "string list"

record agent_manifest =
  am_metadata :: package_identity
  am_prompt :: string
  am_skills :: "string list"
  am_models :: "(string \<times> model_requirement) list"
  am_capabilities :: "capability_requirement list"
  am_delegation :: "delegation_requirement list"
  am_required_features :: "string list"
  am_optional_features :: "string list"
  am_capture_allowed :: bool
  am_capture_classifications :: "data_classification set"

definition identity_wire :: "package_identity \<Rightarrow> json" where
  "identity_wire i = JObj [(''name'', JStr (pi_name i)), (''version'', JStr (pi_version i))]"

definition model_capabilities_json :: "model_capability set \<Rightarrow> json" where
  "model_capabilities_json cs =
     JArr (map (\<lambda>(_, name). JStr name) (filter (\<lambda>(c, _). c \<in> cs)
       [(CapText, ''text''), (CapToolCalling, ''tool-calling''), (CapStructuredOutput, ''structured-output'')]))"

definition model_requirement_json :: "model_requirement \<Rightarrow> json" where
  "model_requirement_json r = JObj
     ([(''capabilities'', model_capabilities_json (mr_capabilities r)),
       (''minContextTokens'', opt_json (\<lambda>n. JInt (uint n)) (mr_min_context_tokens r)),
       (''maxLatencyClass'', opt_json (\<lambda>_. JStr ''interactive'') (mr_max_latency_class r))]
      @ (case mr_residency r of None \<Rightarrow> [] | Some residency \<Rightarrow> [(''residency'', JStr residency)])
      @ [(''required'', JBool (mr_required r))])"

definition capability_requirement_json :: "capability_requirement \<Rightarrow> json" where
  "capability_requirement_json r = JObj
     [(''name'', JStr (cr_name r)), (''version'', JStr (cr_version r)),
      (''required'', JBool (cr_required r)), (''resources'', JArr (map JStr (cr_resources r)))]"

definition delegation_requirement_json :: "delegation_requirement \<Rightarrow> json" where
  "delegation_requirement_json r = JObj
     [(''agent'', JStr (dr_agent r)), (''capabilities'', JArr (map JStr (dr_capabilities r)))]"

definition classifications_json :: "data_classification set \<Rightarrow> json" where
  "classifications_json cs = JArr (if Confidential \<in> cs then [JStr ''confidential''] else [])"

definition manifest_json :: "agent_manifest \<Rightarrow> json" where
  "manifest_json m = JObj
     [(''apiVersion'', JStr ''kiteframe.dev/v1alpha1''), (''kind'', JStr ''Agent''),
      (''metadata'', identity_wire (am_metadata m)),
      (''spec'', JObj
        [(''prompt'', JObj [(''system'', JStr (am_prompt m))]),
         (''skills'', JArr (map JStr (am_skills m))),
         (''models'', JObj (map (\<lambda>(role, r). (role, model_requirement_json r)) (am_models m))),
         (''capabilities'', JArr (map capability_requirement_json (am_capabilities m))),
         (''delegation'', JArr (map delegation_requirement_json (am_delegation m))),
         (''features'', JObj
           [(''required'', JArr (map JStr (am_required_features m))),
            (''optional'', JArr (map JStr (am_optional_features m)))]),
         (''observability'', JObj
           [(''contentCapture'', JObj
             [(''allowed'', JBool (am_capture_allowed m)),
              (''classifications'', classifications_json (am_capture_classifications m))])])])]"

section \<open>Components and bindings\<close>

datatype component_kind =
    KindModel | KindMiddleware | KindBackend | KindCheckpointer | KindAuthorityProvider
  | KindAdmittedToolRegistry | KindCapabilityProvider | KindAuditSink | KindRedactionPolicy
  | KindRetentionPolicy | KindAccessPolicy | KindEncryptedContentStore | KindHarnessProfile

datatype model_modality = ModalityText
datatype model_latency_class = ModelInteractive | ModelBatch

record model_metadata =
  mm_modalities :: "model_modality set"
  mm_tool_calling :: bool
  mm_structured_output :: bool
  mm_max_context_tokens :: "32 word"
  mm_residency :: string
  mm_latency_class :: model_latency_class

record component_metadata =
  cm_kind :: component_kind
  cm_model :: "model_metadata option"
  cm_features :: "string list"
  cm_durable :: bool

record component_catalog =
  co_target :: string
  co_components :: "(string \<times> component_metadata) list"

record runtime_target =
  rt_target :: string
  rt_supported_features :: "string list"
  rt_target_digest :: sha256_digest

record capture_policy =
  bp_enabled :: bool
  bp_classifications :: "data_classification set"
  bp_redaction_policy :: string
  bp_retention_policy :: string
  bp_access_policy :: string
  bp_encrypted_content_store :: string

record runtime_binding =
  rb_runtime :: string
  rb_models :: "(string \<times> string) list"
  rb_middleware :: "string list"
  rb_backend :: "string option"
  rb_checkpointer :: "string option"
  rb_authority_provider :: "string option"
  rb_admitted_tool_registry :: "string option"
  rb_harness_profile :: "string option"
  rb_capability_provider :: string
  rb_audit_sink :: string
  rb_content_capture :: "capture_policy option"

definition capture_policy_json :: "capture_policy \<Rightarrow> json" where
  "capture_policy_json p = JObj
     [(''enabled'', JBool (bp_enabled p)), (''classifications'', classifications_json (bp_classifications p)),
      (''redactionPolicy'', JStr (bp_redaction_policy p)), (''retentionPolicy'', JStr (bp_retention_policy p)),
      (''accessPolicy'', JStr (bp_access_policy p)),
      (''encryptedContentStore'', JStr (bp_encrypted_content_store p))]"

definition binding_json :: "runtime_binding \<Rightarrow> json" where
  "binding_json b = JObj
     [(''apiVersion'', JStr ''kiteframe.dev/binding/v1alpha1''), (''kind'', JStr ''RuntimeBinding''),
      (''metadata'', JObj [(''runtime'', JStr (rb_runtime b))]),
      (''spec'', JObj
        [(''models'', JObj (map (\<lambda>(role, symbol). (role, JStr symbol)) (rb_models b))),
         (''components'', JObj
           [(''middleware'', JArr (map JStr (rb_middleware b))), (''backend'', opt_json JStr (rb_backend b)),
            (''checkpointer'', opt_json JStr (rb_checkpointer b)),
            (''authorityProvider'', opt_json JStr (rb_authority_provider b)),
            (''admittedToolRegistry'', opt_json JStr (rb_admitted_tool_registry b)),
            (''harnessProfile'', opt_json JStr (rb_harness_profile b))]),
         (''capabilityProvider'', JStr (rb_capability_provider b)), (''auditSink'', JStr (rb_audit_sink b)),
         (''contentCapture'', opt_json capture_policy_json (rb_content_capture b))])]"

fun kind_wire :: "component_kind \<Rightarrow> string" where
  "kind_wire KindModel = ''model''"
| "kind_wire KindMiddleware = ''middleware''"
| "kind_wire KindBackend = ''backend''"
| "kind_wire KindCheckpointer = ''checkpointer''"
| "kind_wire KindAuthorityProvider = ''authority_provider''"
| "kind_wire KindAdmittedToolRegistry = ''admitted_tool_registry''"
| "kind_wire KindCapabilityProvider = ''capability_provider''"
| "kind_wire KindAuditSink = ''audit_sink''"
| "kind_wire KindRedactionPolicy = ''redaction_policy''"
| "kind_wire KindRetentionPolicy = ''retention_policy''"
| "kind_wire KindAccessPolicy = ''access_policy''"
| "kind_wire KindEncryptedContentStore = ''encrypted_content_store''"
| "kind_wire KindHarnessProfile = ''harness_profile''"

definition model_metadata_json :: "model_metadata \<Rightarrow> json" where
  "model_metadata_json m = JObj
     [(''modalities'', JArr (if ModalityText \<in> mm_modalities m then [JStr ''text''] else [])),
      (''toolCalling'', JBool (mm_tool_calling m)), (''structuredOutput'', JBool (mm_structured_output m)),
      (''maxContextTokens'', JInt (uint (mm_max_context_tokens m))), (''residency'', JStr (mm_residency m)),
      (''latencyClass'', JStr (case mm_latency_class m of
         ModelInteractive \<Rightarrow> ''interactive'' | ModelBatch \<Rightarrow> ''batch''))]"

definition component_metadata_json :: "component_metadata \<Rightarrow> json" where
  "component_metadata_json c = JObj
     [(''kind'', JStr (kind_wire (cm_kind c))), (''model'', opt_json model_metadata_json (cm_model c)),
      (''features'', JArr (map JStr (cm_features c))), (''durable'', JBool (cm_durable c))]"

definition component_catalog_json :: "component_catalog \<Rightarrow> json" where
  "component_catalog_json c = JObj
     [(''target'', JStr (co_target c)),
      (''components'', JObj (map (\<lambda>(symbol, m). (symbol, component_metadata_json m)) (co_components c)))]"

section \<open>Digests over canonical content\<close>

definition hash_frame :: "string \<Rightarrow> string list \<Rightarrow> string" where
  "hash_frame domain chunks =
     ''kiteframe:v1'' @ nul @ be_bytes (of_nat (length domain)) @ domain
       @ concat (map (\<lambda>chunk. be_bytes (of_nat (length chunk)) @ chunk) chunks)"

definition hash_domain :: "externals \<Rightarrow> string \<Rightarrow> string list \<Rightarrow> sha256_digest" where
  "hash_domain X domain chunks = x_sha256 X (hash_frame domain chunks)"

definition digest_text :: "sha256_digest \<Rightarrow> string" where
  "digest_text d = map byte_char (digest_bytes d)"

definition canonicalization_diagnostic :: diagnostic where
  "canonicalization_diagnostic =
     diagnostic_error PackageInvalid CatPackage StageValidate
       ''portable package semantics cannot be canonicalized''"

definition core_canonical_json :: "externals \<Rightarrow> json \<Rightarrow> (diagnostic, string) result" where
  "core_canonical_json X v = ok_or canonicalization_diagnostic (x_canonical X v)"

record text_asset =
  ta_path :: string
  ta_text :: string

datatype agent_package =
  AgentPackage (ag_root: string) (ag_manifest: agent_manifest)
    (ag_prompt_assets: "(string \<times> text_asset) list") (ag_skill_assets: "(string \<times> text_asset) list")
    (ag_subagents: "(string \<times> agent_package) list") (ag_portable_digest: sha256_digest)

definition merged_assets ::
  "(string \<times> text_asset) list \<Rightarrow> (string \<times> text_asset) list \<Rightarrow> (string \<times> text_asset) list" where
  "merged_assets prompts skills = fold (\<lambda>(path, asset). btree_insert path asset) (prompts @ skills) []"

definition asset_chunk :: "externals \<Rightarrow> string \<times> text_asset \<Rightarrow> string" where
  "asset_chunk X entry =
     digest_text (hash_domain X ''portable-asset'' [fst entry, ta_text (snd entry)])"

definition child_chunk :: "externals \<Rightarrow> string \<times> sha256_digest \<Rightarrow> string" where
  "child_chunk X entry = digest_text (hash_domain X ''portable-child'' [fst entry, digest_text (snd entry)])"

definition portable_digest ::
  "externals \<Rightarrow> agent_manifest \<Rightarrow> (string \<times> text_asset) list \<Rightarrow> (string \<times> text_asset) list \<Rightarrow>
     (string \<times> agent_package) list \<Rightarrow> (diagnostic, sha256_digest) result" where
  "portable_digest X manifest prompts skills subagents =
     map_ok (\<lambda>canonical. hash_domain X ''portable-package''
         (canonical # map (asset_chunk X) (merged_assets prompts skills)
            @ map (\<lambda>(path, child). child_chunk X (path, ag_portable_digest child)) subagents))
       (core_canonical_json X (manifest_json manifest))"

definition package_from_validated_parts ::
  "externals \<Rightarrow> string \<Rightarrow> agent_manifest \<Rightarrow> (string \<times> text_asset) list \<Rightarrow> (string \<times> text_asset) list \<Rightarrow>
     (string \<times> agent_package) list \<Rightarrow> (diagnostic, agent_package) result" where
  "package_from_validated_parts X root manifest prompts skills subagents =
     map_ok (AgentPackage root manifest prompts skills subagents)
       (portable_digest X manifest prompts skills subagents)"

definition single_diagnostic :: "string \<Rightarrow> diagnostic list" where
  "single_diagnostic message = [diagnostic_error ComponentUnresolved CatRuntime StageResolve message]"

definition runtime_target_of ::
  "externals \<Rightarrow> component_catalog \<Rightarrow> (diagnostic list, runtime_target) result" where
  "runtime_target_of X components =
     map_ok (\<lambda>canonical.
         \<lparr>rt_target = co_target components,
          rt_supported_features = btree_set (concat (map (\<lambda>(_, c). cm_features c) (co_components components))),
          rt_target_digest = hash_domain X ''runtime-target-catalog'' [canonical]\<rparr>)
       (map_err (\<lambda>_. single_diagnostic ''runtime target metadata cannot be canonicalized'')
         (core_canonical_json X (component_catalog_json components)))"

section \<open>What the portable digest fixes\<close>

lemma be_length_inject:
  assumes "m < 2 ^ 64" "n < 2 ^ 64" "be_bytes (of_nat m) = be_bytes (of_nat n)"
  shows "m = n"
proof -
  have "unat (of_nat m :: u64) = unat (of_nat n :: u64)" using assms(3) by (simp add: be_bytes_inject)
  with assms(1,2) show ?thesis by (simp add: unsigned_of_nat take_bit_eq_mod)
qed

lemma framed_inject:
  assumes "length c < 2 ^ 64" "length d < 2 ^ 64"
    and "be_bytes (of_nat (length c)) @ c @ r = be_bytes (of_nat (length d)) @ d @ s"
  shows "c = d \<and> r = s"
  using assms be_length_inject [of "length c" "length d"] by (simp add: append_eq_append_conv)

lemma chunks_inject:
  assumes "\<forall>c \<in> set cs. length c < 2 ^ 64" "\<forall>d \<in> set ds. length d < 2 ^ 64"
    and "concat (map (\<lambda>c. be_bytes (of_nat (length c)) @ c) cs) =
         concat (map (\<lambda>c. be_bytes (of_nat (length c)) @ c) ds)"
  shows "cs = ds"
  using assms
proof (induction cs arbitrary: ds)
  case Nil
  then show ?case by (cases ds) (auto simp: be_bytes_def)
next
  case (Cons c cs)
  then obtain d ds' where ds: "ds = d # ds'" by (cases ds) (auto simp: be_bytes_def)
  from Cons.prems(3) have "be_bytes (of_nat (length c)) @ c @ concat (map (\<lambda>c. be_bytes (of_nat (length c)) @ c) cs)
      = be_bytes (of_nat (length d)) @ d @ concat (map (\<lambda>c. be_bytes (of_nat (length c)) @ c) ds')"
    by (simp add: ds)
  from framed_inject [OF _ _ this] Cons.prems(1,2)
  have same: "c = d" "concat (map (\<lambda>c. be_bytes (of_nat (length c)) @ c) cs) =
      concat (map (\<lambda>c. be_bytes (of_nat (length c)) @ c) ds')"
    by (simp_all add: ds)
  have "cs = ds'" by (rule Cons.IH [OF _ _ same(2)]) (use Cons.prems(1,2) in \<open>simp_all add: ds\<close>)
  with same(1) show ?case by (simp add: ds)
qed

lemma chunk_shorter: "c \<in> set chunks \<Longrightarrow> length c \<le> length (hash_frame domain chunks)"
  by (induction chunks) (auto simp: hash_frame_def)

lemma hash_frame_inject:
  assumes "length (hash_frame domain cs) < 2 ^ 64" "length (hash_frame domain' ds) < 2 ^ 64"
    and "hash_frame domain cs = hash_frame domain' ds"
  shows "domain = domain' \<and> cs = ds"
proof -
  have "length domain < 2 ^ 64" "length domain' < 2 ^ 64"
    using assms(1,2) by (simp_all add: hash_frame_def)
  moreover have "be_bytes (of_nat (length domain)) @ domain @ concat (map (\<lambda>c. be_bytes (of_nat (length c)) @ c) cs)
      = be_bytes (of_nat (length domain')) @ domain' @ concat (map (\<lambda>c. be_bytes (of_nat (length c)) @ c) ds)"
    using assms(3) by (simp add: hash_frame_def)
  ultimately have same: "domain = domain' \<and> concat (map (\<lambda>c. be_bytes (of_nat (length c)) @ c) cs) =
      concat (map (\<lambda>c. be_bytes (of_nat (length c)) @ c) ds)"
    by (rule framed_inject)
  have "\<forall>c \<in> set cs. length c < 2 ^ 64" "\<forall>d \<in> set ds. length d < 2 ^ 64"
    using le_less_trans [OF chunk_shorter assms(1)] le_less_trans [OF chunk_shorter assms(2)] by blast+
  from chunks_inject [OF this] same show ?thesis by blast
qed

lemma digest_text_inject [simp]: "digest_text a = digest_text b \<longleftrightarrow> a = b"
  by (cases a; cases b) (auto simp: digest_text_def inj_map_eq_map inj_def)

lemma two_kinds_inject:
  assumes "map f xs @ map g ys = map f xs' @ map g ys'"
    and "\<And>x x'. x \<in> set xs \<Longrightarrow> x' \<in> set xs' \<Longrightarrow> f x = f x' \<Longrightarrow> p x = p x'"
    and "\<And>y y'. y \<in> set ys \<Longrightarrow> y' \<in> set ys' \<Longrightarrow> g y = g y' \<Longrightarrow> q y = q y'"
    and "\<And>x y. x \<in> set xs \<Longrightarrow> y \<in> set ys' \<Longrightarrow> f x \<noteq> g y"
    and "\<And>x y. x \<in> set xs' \<Longrightarrow> y \<in> set ys \<Longrightarrow> f x \<noteq> g y"
  shows "map p xs = map p xs' \<and> map q ys = map q ys'"
  using assms
proof (induction xs arbitrary: xs')
  case Nil
  show ?case
  proof (cases xs')
    case Nil
    with Nil.prems(1,3) show ?thesis
      by (auto simp: list_eq_iff_nth_eq [of "map g ys"] list_eq_iff_nth_eq [of "map q ys"])
  next
    case (Cons x' zs)
    then have "f x' \<in> set (map f xs' @ map g ys')" by simp
    then have "f x' \<in> g ` set ys" unfolding Nil.prems(1) [symmetric] by simp
    with Nil.prems(5) Cons show ?thesis by auto
  qed
next
  case (Cons x xs)
  show ?case
  proof (cases xs')
    case Nil
    have "f x \<in> set (map f (x # xs) @ map g ys)" by simp
    then have "f x \<in> g ` set ys'" unfolding Cons.prems(1) using Nil by simp
    with Cons.prems(4) show ?thesis by auto
  next
    case (Cons x' zs)
    with Cons.prems Cons.IH [of zs] show ?thesis by auto
  qed
qed

text \<open>
  A package is \<open>built\<close> when the digest of every package of its tree is the portable digest of its
  parts, as the loader makes it; \<open>hashed\<close> are the strings that enter the hash function on the way,
  and \<open>tree_content\<close> is what the digest is meant to fix: the canonical manifest, the texts of
  the assets by path, and the nested agents by path.
\<close>

datatype content_tree =
  ContentTree string "(string \<times> string) list" "(string \<times> content_tree) list"

definition portable_chunks ::
  "externals \<Rightarrow> agent_manifest \<Rightarrow> (string \<times> text_asset) list \<Rightarrow> (string \<times> agent_package) list \<Rightarrow> string list" where
  "portable_chunks X manifest assets subagents =
     the (x_canonical X (manifest_json manifest)) # map (asset_chunk X) assets
       @ map (\<lambda>(path, child). child_chunk X (path, ag_portable_digest child)) subagents"

definition own_hashed ::
  "externals \<Rightarrow> agent_manifest \<Rightarrow> (string \<times> text_asset) list \<Rightarrow> (string \<times> agent_package) list \<Rightarrow> string set" where
  "own_hashed X manifest assets subagents =
     insert (hash_frame ''portable-package'' (portable_chunks X manifest assets subagents))
       ((\<lambda>(path, a). hash_frame ''portable-asset'' [path, ta_text a]) ` set assets
        \<union> (\<lambda>(path, c). hash_frame ''portable-child'' [path, digest_text (ag_portable_digest c)]) ` set subagents)"

fun built :: "externals \<Rightarrow> agent_package \<Rightarrow> bool" where
  "built X (AgentPackage root manifest prompts skills subagents d) =
     (portable_digest X manifest prompts skills subagents = Inr d
      \<and> list_all (\<lambda>(path, child). built X child) subagents)"

fun hashed :: "externals \<Rightarrow> agent_package \<Rightarrow> string set" where
  "hashed X (AgentPackage root manifest prompts skills subagents d) =
     own_hashed X manifest (merged_assets prompts skills) subagents
     \<union> \<Union> (set (map (\<lambda>(path, child). hashed X child) subagents))"

fun tree_content :: "externals \<Rightarrow> agent_package \<Rightarrow> content_tree" where
  "tree_content X (AgentPackage root manifest prompts skills subagents d) =
     ContentTree (the (x_canonical X (manifest_json manifest)))
       (map (\<lambda>(path, a). (path, ta_text a)) (merged_assets prompts skills))
       (map (\<lambda>(path, child). (path, tree_content X child)) subagents)"

lemma own_content_fixed:
  assumes "portable_digest X m ps ss subs = Inr d" "portable_digest X m' ps' ss' subs' = Inr d"
    and inj: "inj_on (x_sha256 X) S"
    and sub: "own_hashed X m (merged_assets ps ss) subs \<subseteq> S" "own_hashed X m' (merged_assets ps' ss') subs' \<subseteq> S"
    and short: "\<forall>s \<in> S. length s < 2 ^ 64"
  shows "the (x_canonical X (manifest_json m)) = the (x_canonical X (manifest_json m'))
    \<and> map (\<lambda>(path, a). (path, ta_text a)) (merged_assets ps ss) =
        map (\<lambda>(path, a). (path, ta_text a)) (merged_assets ps' ss')
    \<and> map (\<lambda>(path, c). (path, ag_portable_digest c)) subs = map (\<lambda>(path, c). (path, ag_portable_digest c)) subs'"
proof -
  have same: "domain = domain' \<and> cs = ds"
    if "hash_domain X domain cs = hash_domain X domain' ds" "hash_frame domain cs \<in> S" "hash_frame domain' ds \<in> S"
    for domain domain' cs ds
    using that inj short by (intro hash_frame_inject) (auto simp: hash_domain_def inj_on_def)
  have "d = hash_domain X ''portable-package'' (portable_chunks X m (merged_assets ps ss) subs)"
      "d = hash_domain X ''portable-package'' (portable_chunks X m' (merged_assets ps' ss') subs')"
    using assms(1,2) by (auto simp: portable_digest_def core_canonical_json_def portable_chunks_def)
  then have "portable_chunks X m (merged_assets ps ss) subs = portable_chunks X m' (merged_assets ps' ss') subs'"
    using sub by (intro conjunct2 [OF same]) (auto simp: own_hashed_def)
  then have manifest: "the (x_canonical X (manifest_json m)) = the (x_canonical X (manifest_json m'))"
    and rest: "map (asset_chunk X) (merged_assets ps ss)
        @ map (\<lambda>(path, c). child_chunk X (path, ag_portable_digest c)) subs =
      map (asset_chunk X) (merged_assets ps' ss') @ map (\<lambda>(path, c). child_chunk X (path, ag_portable_digest c)) subs'"
    by (simp_all add: portable_chunks_def)
  have frames: "hash_frame ''portable-asset'' [fst x, ta_text (snd x)] \<in> S"
    if "x \<in> set (merged_assets ps ss) \<or> x \<in> set (merged_assets ps' ss')" for x
    using that sub by (cases x) (force simp: own_hashed_def)
  have child_frames: "hash_frame ''portable-child'' [fst y, digest_text (ag_portable_digest (snd y))] \<in> S"
    if "y \<in> set subs \<or> y \<in> set subs'" for y
    using that sub by (cases y) (force simp: own_hashed_def)
  have "map (\<lambda>(path, a). (path, ta_text a)) (merged_assets ps ss) =
        map (\<lambda>(path, a). (path, ta_text a)) (merged_assets ps' ss')
    \<and> map (\<lambda>(path, c). (path, ag_portable_digest c)) subs = map (\<lambda>(path, c). (path, ag_portable_digest c)) subs'"
  proof (rule two_kinds_inject [OF rest])
    show "(case x of (path, a) \<Rightarrow> (path, ta_text a)) = (case x' of (path, a) \<Rightarrow> (path, ta_text a))"
      if "x \<in> set (merged_assets ps ss)" "x' \<in> set (merged_assets ps' ss')" "asset_chunk X x = asset_chunk X x'" for x x'
      using that same [OF _ frames frames, of x x'] by (simp add: asset_chunk_def split_beta)
    show "(case y of (path, c) \<Rightarrow> (path, ag_portable_digest c)) = (case y' of (path, c) \<Rightarrow> (path, ag_portable_digest c))"
      if "y \<in> set subs" "y' \<in> set subs'" "(case y of (path, c) \<Rightarrow> child_chunk X (path, ag_portable_digest c)) =
          (case y' of (path, c) \<Rightarrow> child_chunk X (path, ag_portable_digest c))" for y y'
      using that same [OF _ child_frames child_frames, of y y'] by (simp add: child_chunk_def split_beta)
    show "asset_chunk X x \<noteq> (case y of (path, c) \<Rightarrow> child_chunk X (path, ag_portable_digest c))"
      if "x \<in> set (merged_assets ps ss)" "y \<in> set subs'" for x y
      using that same [OF _ frames child_frames, of x y] by (auto simp: asset_chunk_def child_chunk_def split_beta)
    show "asset_chunk X x \<noteq> (case y of (path, c) \<Rightarrow> child_chunk X (path, ag_portable_digest c))"
      if "x \<in> set (merged_assets ps' ss')" "y \<in> set subs" for x y
      using that same [OF _ frames child_frames, of x y] by (auto simp: asset_chunk_def child_chunk_def split_beta)
  qed
  with manifest show ?thesis by simp
qed

lemma same_children:
  assumes "map (\<lambda>(path, c). (path, ag_portable_digest c)) subs =
      map (\<lambda>(path, c). (path, ag_portable_digest c)) subs'"
    and "\<And>path c c'. (path, c) \<in> set subs \<Longrightarrow> (path, c') \<in> set subs' \<Longrightarrow>
      ag_portable_digest c = ag_portable_digest c' \<Longrightarrow> h c = h c'"
  shows "map (\<lambda>(path, c). (path, h c)) subs = map (\<lambda>(path, c). (path, h c)) subs'"
  using assms
proof (induction subs arbitrary: subs')
  case (Cons s subs)
  obtain path c where s: "s = (path, c)" by (cases s)
  with Cons.prems(1) obtain c' zs where subs': "subs' = (path, c') # zs" "ag_portable_digest c = ag_portable_digest c'"
      "map (\<lambda>(path, c). (path, ag_portable_digest c)) subs = map (\<lambda>(path, c). (path, ag_portable_digest c)) zs"
    by (cases subs') (auto split: prod.splits)
  have "h c = h c'" by (rule Cons.prems(2) [of path]) (simp_all add: s subs')
  moreover have "map (\<lambda>(path, c). (path, h c)) subs = map (\<lambda>(path, c). (path, h c)) zs"
    by (rule Cons.IH [OF subs'(3)]) (rule Cons.prems(2), auto simp: subs')
  ultimately show ?case by (simp add: s subs')
qed simp

text \<open>
  The portable digest fixes the content of the whole package tree. Two packages whose
  digests were computed by the loader and agree have, unless the hash function collides on the strings
  it is applied to, the same canonical manifest, the same asset texts under the same
  paths and, under the same paths, nested agents with the same content, to any depth: the framing
  with domains and lengths leaves no way to move bytes between two parts.
\<close>

lemma built_content_fixed:
  assumes "built X p" and "built X q" and "ag_portable_digest p = ag_portable_digest q"
    and "inj_on (x_sha256 X) (hashed X p \<union> hashed X q)"
    and "\<forall>s \<in> hashed X p \<union> hashed X q. length s < 2 ^ 64"
  shows "tree_content X p = tree_content X q"
  using assms
proof (induction p arbitrary: q rule: measure_induct_rule [of size])
  case (less p)
  obtain root m ps ss subs d where p: "p = AgentPackage root m ps ss subs d" by (cases p)
  obtain root' m' ps' ss' subs' d' where q: "q = AgentPackage root' m' ps' ss' subs' d'" by (cases q)
  let ?S = "hashed X p \<union> hashed X q"
  have own: "the (x_canonical X (manifest_json m)) = the (x_canonical X (manifest_json m'))
    \<and> map (\<lambda>(path, a). (path, ta_text a)) (merged_assets ps ss) =
        map (\<lambda>(path, a). (path, ta_text a)) (merged_assets ps' ss')
    \<and> map (\<lambda>(path, c). (path, ag_portable_digest c)) subs = map (\<lambda>(path, c). (path, ag_portable_digest c)) subs'"
    using less.prems by (intro own_content_fixed [where S = ?S and d = d]) (auto simp: p q)
  have "tree_content X c = tree_content X c'"
    if c: "(path, c) \<in> set subs" "(path, c') \<in> set subs'" "ag_portable_digest c = ag_portable_digest c'" for path c c'
  proof (rule less.IH)
    have "size_prod (\<lambda>_. 0) size (path, c) \<le> size_list (size_prod (\<lambda>_. 0) size) subs"
      by (rule size_list_estimation' [OF c(1)]) simp
    then show "size c < size p" by (simp add: p)
    show "built X c" "built X c'" using less.prems(1,2) c by (auto simp: p q list_all_iff)
    have sub: "hashed X c \<union> hashed X c' \<subseteq> ?S" using c by (auto simp: p q)
    show "inj_on (x_sha256 X) (hashed X c \<union> hashed X c')" by (rule inj_on_subset [OF less.prems(4) sub])
    show "\<forall>s \<in> hashed X c \<union> hashed X c'. length s < 2 ^ 64" using less.prems(5) sub by blast
  qed (rule c)
  from same_children [OF own [THEN conjunct2, THEN conjunct2] this]
  have "map (\<lambda>(path, c). (path, tree_content X c)) subs = map (\<lambda>(path, c). (path, tree_content X c)) subs'" .
  with own show ?case by (simp add: p q)
qed

definition plain_externals :: externals where
  "plain_externals =
     \<lparr>x_canonical = \<lambda>_. Some ''manifest'', x_sha256 = \<lambda>s. Sha256Digest (map char_byte s), x_schema_valid = \<lambda>_. True,
      x_schema_builds = \<lambda>_. True, x_instance_valid = \<lambda>_ _. True, x_version_ok = \<lambda>_. True\<rparr>"

lemma plain_inj: "inj (x_sha256 plain_externals)"
  by (rule injI) (auto simp: plain_externals_def intro: map_injective [OF _ inj_on_inverseI [where g = byte_char]])

end
