(* ===== verification/KF_Sqlite.thy ===== *)
theory KF_Sqlite
  imports KF_Effect KF_Package
begin

text \<open>
  The durable invocation store of \<open>crates/kiteframe-provider-sqlite/src/lib.rs\<close>: the two tables of its
  migrations, the SQL statements as functions on them, transactions that roll back on any error,
  the decoding of rows, and the recovery that runs when the database is opened. A transaction that
  meets a fault of the database answers a storage error and changes nothing.
\<close>

section \<open>Tables\<close>

record invocation_row =
  rw_invocation_id :: string
  rw_status_id :: string
  rw_actor_ref :: string
  rw_capability_name :: string
  rw_capability_version :: string
  rw_normalized_resource :: string
  rw_semantic_operation :: string
  rw_idempotency_key :: string
  rw_request_digest :: string
  rw_state_kind :: string
  rw_state_json :: string
  rw_admission_id :: string
  rw_grant_digest :: string
  rw_catalog_name :: string
  rw_catalog_revision :: string
  rw_catalog_digest :: string
  rw_descriptor_digest :: string
  rw_authority_revision_digest :: string
  rw_tenant_ref :: string
  rw_human_ref :: string
  rw_workload_ref :: string
  rw_run_ref :: string
  rw_agent_ref :: string
  rw_task_ref :: string
  rw_session_ref :: string
  rw_proposal_digest :: string
  rw_protected_evidence_refs_json :: string
  rw_abandonment_authorization_record_id :: "string option"
  rw_abandoned_by :: "string option"
  rw_created_at :: int
  rw_updated_at :: int
  rw_retention_until :: int

record link_row =
  ln_invocation_id :: string
  ln_sequence :: int
  ln_kind :: string
  ln_record_id :: string
  ln_attached_at :: int

record database =
  db_invocations :: "invocation_row list"
  db_links :: "link_row list"

text \<open>
  \<open>serde_json\<close> on the two columns that hold JSON: printing may fail, what is printed is read back as
  it was, and the states without a payload are printed.
\<close>

record sqlite_codec =
  sq_encode_state :: "invocation_state \<Rightarrow> string option"
  sq_decode_state :: "string \<Rightarrow> invocation_state option"
  sq_encode_refs :: "string list \<Rightarrow> string option"
  sq_decode_refs :: "string \<Rightarrow> string list option"

definition sqlite_codec_ok :: "sqlite_codec \<Rightarrow> bool" where
  "sqlite_codec_ok C =
     ((\<forall>s t. sq_encode_state C s = Some t \<longrightarrow> sq_decode_state C t = Some s)
      \<and> (\<forall>rs t. sq_encode_refs C rs = Some t \<longrightarrow> sq_decode_refs C t = Some rs)
      \<and> (\<forall>s \<in> {StReserved, StPending, StOutcomeUnknown, StAbandoned}. sq_encode_state C s \<noteq> None))"

definition storage_error :: diagnostic where
  "storage_error =
     diagnostic_error RuntimeConstruction CatRuntime StageRuntime ''durable invocation storage is unavailable''"

definition sqlite_invalid :: "string \<Rightarrow> diagnostic" where
  "sqlite_invalid message = diagnostic_error ResultInvalid CatCapability StageInvoke message"

definition sqlite_status_unavailable :: diagnostic where
  "sqlite_status_unavailable =
     diagnostic_error InvocationDenied CatAuthorization StageInvoke ''invocation status is unavailable''"

definition as_i64 :: "u64 \<Rightarrow> (diagnostic, int) result" where
  "as_i64 value = (if uint value < 2 ^ 63 then Inr (uint value)
     else Inl (sqlite_invalid ''timestamp exceeds SQLite range''))"

definition row_timestamp :: "int \<Rightarrow> (diagnostic, u64) result" where
  "row_timestamp value = (if 0 \<le> value then Inr (word_of_int value) else Inl storage_error)"

definition row_digest :: "string \<Rightarrow> (diagnostic, sha256_digest) result" where
  "row_digest text = ok_or storage_error (digest_from_hex text)"

definition encode_state :: "sqlite_codec \<Rightarrow> invocation_state \<Rightarrow> (diagnostic, string) result" where
  "encode_state C s = ok_or storage_error (sq_encode_state C s)"

text \<open>A constructor's refusal is a storage error here.\<close>

definition stored_as :: "('e, 'a) result \<Rightarrow> (diagnostic, 'a) result" where
  "stored_as r = map_err (\<lambda>_. storage_error) r"

definition validate_sqlite_timestamps :: "stored_invocation \<Rightarrow> (diagnostic, unit) result" where
  "validate_sqlite_timestamps s =
     and_then (as_i64 (si_created_at s)) (\<lambda>_. and_then (as_i64 (si_updated_at s)) (\<lambda>_.
     map_ok (\<lambda>_. ()) (as_i64 (si_retention_until s))))"

text \<open>The constraints of the migrations that a statement may violate.\<close>

definition row_checks :: "invocation_row \<Rightarrow> bool" where
  "row_checks r =
     (0 \<le> rw_created_at r \<and> rw_created_at r \<le> rw_updated_at r \<and> rw_created_at r < rw_retention_until r
      \<and> rw_state_kind r \<in> {''reserved'', ''pending'', ''suspended'', ''succeeded'', ''failed'', ''denied'',
           ''outcome_unknown'', ''abandoned''})"

definition row_key :: "invocation_row \<Rightarrow> reservation_key" where
  "row_key r = ReservationKey (rw_actor_ref r) (rw_capability_name r) (rw_capability_version r)
     (rw_normalized_resource r) (rw_semantic_operation r) (rw_idempotency_key r)"

definition row_fences :: "invocation_row \<Rightarrow> bool" where
  "row_fences r = (rw_state_kind r \<in> {''reserved'', ''pending'', ''suspended'', ''outcome_unknown''})"

text \<open>\<open>length(trim(text))\<close>: only spaces are trimmed, and characters are counted up to the first NUL.\<close>

definition sql_trimmed_length :: "string \<Rightarrow> nat" where
  "sql_trimmed_length text =
     (let left = dropWhile (\<lambda>c. c = CHR '' '') text;
          trimmed = rev (dropWhile (\<lambda>c. c = CHR '' '') (rev left)) in
      length (takeWhile (\<lambda>c. c \<noteq> CHR 0x00) trimmed))"

definition link_checks :: "link_row \<Rightarrow> bool" where
  "link_checks l =
     (0 < ln_sequence l \<and> ln_kind l \<in> {''authorization'', ''outcome''}
      \<and> sql_trimmed_length (ln_record_id l) > 0 \<and> 0 \<le> ln_attached_at l)"

section \<open>Statements\<close>

definition insert_row :: "invocation_row \<Rightarrow> database \<Rightarrow> (diagnostic, database) result" where
  "insert_row r db =
     (if row_checks r
         \<and> \<not> (\<exists>x \<in> set (db_invocations db). rw_invocation_id x = rw_invocation_id r
              \<or> rw_status_id x = rw_status_id r \<or> row_key x = row_key r)
      then Inr (db\<lparr>db_invocations := db_invocations db @ [r]\<rparr>) else Inl storage_error)"

definition insert_link :: "link_row \<Rightarrow> database \<Rightarrow> (diagnostic, database) result" where
  "insert_link l db =
     (if link_checks l \<and> (\<exists>x \<in> set (db_invocations db). rw_invocation_id x = ln_invocation_id l)
         \<and> \<not> (\<exists>x \<in> set (db_links db). ln_invocation_id x = ln_invocation_id l
              \<and> (ln_sequence x = ln_sequence l \<or> ln_kind x = ln_kind l \<and> ln_record_id x = ln_record_id l))
      then Inr (db\<lparr>db_links := db_links db @ [l]\<rparr>) else Inl storage_error)"

definition update_rows ::
  "(invocation_row \<Rightarrow> bool) \<Rightarrow> (invocation_row \<Rightarrow> invocation_row) \<Rightarrow> database \<Rightarrow>
     (diagnostic, nat \<times> database) result" where
  "update_rows P f db =
     (let hit = filter P (db_invocations db) in
      if list_all (\<lambda>r. row_checks (f r)) hit
      then Inr (length hit, db\<lparr>db_invocations := map (\<lambda>r. if P r then f r else r) (db_invocations db)\<rparr>)
      else Inl storage_error)"

definition delete_expired :: "int \<Rightarrow> database \<Rightarrow> database" where
  "delete_expired now db =
     (let gone = filter (\<lambda>r. rw_retention_until r \<le> now \<and> \<not> row_fences r) (db_invocations db) in
      db\<lparr>db_invocations := filter (\<lambda>r. \<not> (rw_retention_until r \<le> now \<and> \<not> row_fences r)) (db_invocations db),
         db_links := filter (\<lambda>l. ln_invocation_id l \<notin> rw_invocation_id ` set gone) (db_links db)\<rparr>)"

definition transaction ::
  "bool \<Rightarrow> database \<Rightarrow> (diagnostic, 'a \<times> database) result \<Rightarrow> (diagnostic, 'a) result \<times> database" where
  "transaction fault db body =
     (if fault then (Inl storage_error, db)
      else case body of Inl e \<Rightarrow> (Inl e, db) | Inr (v, db') \<Rightarrow> (Inr v, db'))"

section \<open>Rows and records\<close>

definition row_of :: "sqlite_codec \<Rightarrow> stored_invocation \<Rightarrow> (diagnostic, invocation_row) result" where
  "row_of C s =
     and_then (ok_or storage_error (sq_encode_refs C (si_protected_evidence_refs s))) (\<lambda>refs.
     and_then (encode_state C (si_state s)) (\<lambda>state_json.
     and_then (as_i64 (si_created_at s)) (\<lambda>created. and_then (as_i64 (si_updated_at s)) (\<lambda>updated.
     map_ok (\<lambda>retention.
       \<lparr>rw_invocation_id = si_invocation_id s, rw_status_id = si_status_id s,
        rw_actor_ref = isv_actor (si_scope s), rw_capability_name = ci_name (isv_capability (si_scope s)),
        rw_capability_version = ci_version (isv_capability (si_scope s)),
        rw_normalized_resource = isv_normalized_resource (si_scope s),
        rw_semantic_operation = isv_semantic_operation (si_scope s), rw_idempotency_key = si_idempotency_key s,
        rw_request_digest = digest_display (si_request_digest s), rw_state_kind = wire_name (si_state s),
        rw_state_json = state_json, rw_admission_id = si_admission_id s,
        rw_grant_digest = digest_display (si_grant_digest s),
        rw_catalog_name = cat_name (si_catalog_identity s),
        rw_catalog_revision = cat_revision (si_catalog_identity s),
        rw_catalog_digest = digest_display (si_catalog_digest s),
        rw_descriptor_digest = digest_display (si_descriptor_digest s),
        rw_authority_revision_digest = digest_display (si_authority_revision_digest s),
        rw_tenant_ref = sc_tenant_ref (si_status_context s), rw_human_ref = sc_human_ref (si_status_context s),
        rw_workload_ref = sc_workload_ref (si_status_context s), rw_run_ref = sc_run_ref (si_status_context s),
        rw_agent_ref = sc_agent_ref (si_status_context s), rw_task_ref = sc_task_ref (si_status_context s),
        rw_session_ref = sc_session_ref (si_status_context s),
        rw_proposal_digest = digest_display (si_proposal_digest s),
        rw_protected_evidence_refs_json = refs, rw_abandonment_authorization_record_id = None,
        rw_abandoned_by = None, rw_created_at = created, rw_updated_at = updated,
        rw_retention_until = retention\<rparr>)
       (as_i64 (si_retention_until s))))))"

definition decode_abandonment :: "invocation_row \<Rightarrow> (diagnostic, abandonment_authorization option) result" where
  "decode_abandonment r =
     (case (rw_abandonment_authorization_record_id r, rw_abandoned_by r) of
        (Some record_id, Some operator) \<Rightarrow> map_ok Some (stored_as (abandonment_try_new record_id operator))
      | (None, None) \<Rightarrow> Inr None
      | _ \<Rightarrow> Inl storage_error)"

definition decode_scope :: "externals \<Rightarrow> invocation_row \<Rightarrow> (diagnostic, idempotency_scope_value) result" where
  "decode_scope X r =
     and_then (stored_as (string_ref_new ''actor reference is required'' (rw_actor_ref r))) (\<lambda>actor.
     and_then (stored_as (symbol_new ''invalid CapabilityName'' (rw_capability_name r))) (\<lambda>name.
     and_then (stored_as (release_version_new X (rw_capability_version r))) (\<lambda>version.
     and_then (stored_as (string_ref_new ''resource selector is required'' (rw_normalized_resource r))) (\<lambda>resource.
     stored_as (scope_try_new actor (CapabilityIdentity name version) resource (rw_semantic_operation r))))))"

definition decode_context :: "invocation_row \<Rightarrow> (diagnostic, status_context) result" where
  "decode_context r =
     stored_as (status_context_try_new
       \<lparr>sc_tenant_ref = rw_tenant_ref r, sc_human_ref = rw_human_ref r, sc_workload_ref = rw_workload_ref r,
        sc_run_ref = rw_run_ref r, sc_actor_ref = rw_actor_ref r, sc_agent_ref = rw_agent_ref r,
        sc_task_ref = rw_task_ref r, sc_session_ref = rw_session_ref r, sc_admission_ref = rw_admission_id r\<rparr>)"

definition decode_state ::
  "sqlite_codec \<Rightarrow> invocation_row \<Rightarrow> abandonment_authorization option \<Rightarrow> (diagnostic, invocation_state) result" where
  "decode_state C r abandonment =
     and_then (ok_or storage_error (sq_decode_state C (rw_state_json r))) (\<lambda>state.
     if wire_name state \<noteq> rw_state_kind r \<or> (state = StAbandoned) \<noteq> (abandonment \<noteq> None)
     then Inl storage_error else Inr state)"

definition decode_row ::
  "sqlite_codec \<Rightarrow> externals \<Rightarrow> invocation_row \<Rightarrow> (diagnostic, stored_invocation) result" where
  "decode_row C X r =
     and_then (decode_abandonment r) (\<lambda>abandonment.
     and_then (ok_or storage_error (sq_decode_refs C (rw_protected_evidence_refs_json r))) (\<lambda>raw_refs.
     and_then (decode_state C r abandonment) (\<lambda>state.
     and_then (stored_as (string_ref_new ''invocation ID is required'' (rw_invocation_id r))) (\<lambda>invocation_id.
     and_then (decode_scope X r) (\<lambda>scope.
     and_then (stored_as (string_ref_new ''idempotency key is required'' (rw_idempotency_key r))) (\<lambda>key.
     and_then (row_digest (rw_request_digest r)) (\<lambda>request_digest.
     and_then (stored_as (string_ref_new ''admission ID is required'' (rw_admission_id r))) (\<lambda>admission_id.
     and_then (row_digest (rw_grant_digest r)) (\<lambda>grant_digest.
     and_then (row_digest (rw_catalog_digest r)) (\<lambda>catalog_digest.
     and_then (row_digest (rw_descriptor_digest r)) (\<lambda>descriptor_digest.
     and_then (row_digest (rw_authority_revision_digest r)) (\<lambda>revision_digest.
     and_then (decode_context r) (\<lambda>context.
     and_then (row_digest (rw_proposal_digest r)) (\<lambda>proposal_digest.
     and_then (try_map (\<lambda>ref. stored_as
         (string_ref_new ''protected evidence request reference is required'' ref)) raw_refs) (\<lambda>refs.
     and_then (row_timestamp (rw_created_at r)) (\<lambda>created. and_then (row_timestamp (rw_updated_at r)) (\<lambda>updated.
     map_ok (\<lambda>retention.
       \<lparr>si_invocation_id = invocation_id, si_status_id = rw_status_id r, si_scope = scope,
        si_idempotency_key = key, si_request_digest = request_digest, si_admission_id = admission_id,
        si_grant_digest = grant_digest,
        si_catalog_identity = \<lparr>cat_name = rw_catalog_name r, cat_revision = rw_catalog_revision r\<rparr>,
        si_catalog_digest = catalog_digest, si_descriptor_digest = descriptor_digest,
        si_authority_revision_digest = revision_digest, si_status_context = context,
        si_proposal_digest = proposal_digest, si_protected_evidence_refs = refs, si_state = state,
        si_audit_links = [], si_created_at = created, si_updated_at = updated,
        si_retention_until = retention, si_abandonment = abandonment\<rparr>)
       (row_timestamp (rw_retention_until r)))))))))))))))))))"

definition decode_audit_link :: "link_row \<Rightarrow> (diagnostic, audit_link) result" where
  "decode_audit_link l =
     and_then (if ln_kind l = ''authorization'' then Inr LinkAuthorization
       else if ln_kind l = ''outcome'' then Inr LinkOutcome else Inl storage_error) (\<lambda>kind.
     and_then (row_timestamp (ln_attached_at l)) (\<lambda>attached.
     stored_as (audit_link_try_new kind (ln_record_id l) attached)))"

definition select_audit_links :: "database \<Rightarrow> string \<Rightarrow> (diagnostic, audit_link list) result" where
  "select_audit_links db i =
     try_map decode_audit_link (sort_key ln_sequence (filter (\<lambda>l. ln_invocation_id l = i) (db_links db)))"

definition load_row :: "sqlite_codec \<Rightarrow> externals \<Rightarrow> database \<Rightarrow> invocation_row \<Rightarrow> (diagnostic, stored_invocation) result" where
  "load_row C X db r =
     and_then (decode_row C X r) (\<lambda>s.
     map_ok (\<lambda>links. s\<lparr>si_audit_links := links\<rparr>) (select_audit_links db (si_invocation_id s)))"

section \<open>Operations\<close>

definition recover_incomplete_effects ::
  "sqlite_codec \<Rightarrow> bool \<Rightarrow> u64 \<Rightarrow> database \<Rightarrow> (diagnostic, unit) result \<times> database" where
  "recover_incomplete_effects C fault recovered_at db =
     (case as_i64 recovered_at of
        Inl e \<Rightarrow> (Inl e, db)
      | Inr now \<Rightarrow> transaction fault db
          (and_then (encode_state C StOutcomeUnknown) (\<lambda>state_json.
           map_ok (\<lambda>(_, db'). ((), db'))
             (update_rows (\<lambda>r. rw_state_kind r \<in> {''reserved'', ''pending''})
                (\<lambda>r. r\<lparr>rw_state_kind := ''outcome_unknown'', rw_state_json := state_json,
                       rw_updated_at := max (rw_updated_at r) now\<rparr>) db))))"

definition sqlite_reserve_body ::
  "sqlite_codec \<Rightarrow> externals \<Rightarrow> u64 \<Rightarrow> stored_invocation \<Rightarrow> database \<Rightarrow>
     (diagnostic, invocation_reservation \<times> database) result" where
  "sqlite_reserve_body C X now s db =
     and_then (as_i64 now) (\<lambda>t.
     let db = delete_expired t db in
     case find (\<lambda>r. row_key r = key_from_invocation s) (db_invocations db) of
       Some r \<Rightarrow>
         and_then (load_row C X db r) (\<lambda>existing.
         if si_status_context existing \<noteq> si_status_context s then Inl sqlite_status_unavailable
         else if si_request_digest existing \<noteq> si_request_digest s
         then Inl (sqlite_invalid ''idempotency key is already bound to a different request'')
         else Inr (reservation_from_stored KindExisting existing, db))
     | None \<Rightarrow>
         if \<exists>r \<in> set (db_invocations db). same_scope (row_key r) (key_from_invocation s) \<and> row_fences r
         then Inl scope_outcome_unknown
         else if \<exists>r \<in> set (db_invocations db). rw_invocation_id r = si_invocation_id s
         then Inl (sqlite_invalid ''invocation ID is already reserved'')
         else map_ok (Pair (reservation_from_stored KindReserved s))
           (and_then (row_of C s) (\<lambda>r. insert_row r db)))"

definition sqlite_reserve_or_get ::
  "sqlite_codec \<Rightarrow> externals \<Rightarrow> bool \<Rightarrow> u64 \<Rightarrow> reservation_input \<Rightarrow> capability_descriptor \<Rightarrow> u64 \<Rightarrow> database \<Rightarrow>
     (diagnostic, invocation_reservation) result \<times> database" where
  "sqlite_reserve_or_get C X fault now q d retention_until db =
     (case and_then (stored_try_reserve q d now retention_until) (\<lambda>s.
           map_ok (\<lambda>_. s) (validate_sqlite_timestamps s)) of
        Inl e \<Rightarrow> (Inl e, db)
      | Inr s \<Rightarrow> transaction fault db (sqlite_reserve_body C X now s db))"

definition audit_record_parts :: "transition_audit \<Rightarrow> (string \<times> string) option" where
  "audit_record_parts a =
     (case a of AuditNone \<Rightarrow> None
      | AuditAuthorization record_id \<Rightarrow> Some (''authorization'', record_id)
      | AuditOutcome record_id \<Rightarrow> Some (''outcome'', record_id))"

definition next_sequence :: "database \<Rightarrow> string \<Rightarrow> int" where
  "next_sequence db i =
     foldl max 0 (map ln_sequence (filter (\<lambda>l. ln_invocation_id l = i) (db_links db))) + 1"

definition attach_audit_record ::
  "string \<Rightarrow> transition_audit \<Rightarrow> int \<Rightarrow> database \<Rightarrow> (diagnostic, database) result" where
  "attach_audit_record i a now db =
     (case audit_record_parts a of
        None \<Rightarrow> Inr db
      | Some (kind, record_id) \<Rightarrow>
          insert_link \<lparr>ln_invocation_id = i, ln_sequence = next_sequence db i, ln_kind = kind,
            ln_record_id = record_id, ln_attached_at = now\<rparr> db)"

definition transition_hits :: "string \<Rightarrow> invocation_state \<Rightarrow> string \<Rightarrow> int \<Rightarrow> invocation_row \<Rightarrow> bool" where
  "transition_hits i expected expected_json updated r =
     (rw_invocation_id r = i \<and> rw_state_kind r = wire_name expected
      \<and> rw_state_json r = expected_json \<and> rw_updated_at r \<le> updated)"

definition sqlite_transition ::
  "sqlite_codec \<Rightarrow> bool \<Rightarrow> u64 \<Rightarrow> string \<Rightarrow> invocation_transition \<Rightarrow> database \<Rightarrow>
     (diagnostic, unit) result \<times> database" where
  "sqlite_transition C fault now i t db =
     transaction fault db
       (and_then (encode_state C (it_expected t)) (\<lambda>expected_json.
        and_then (encode_state C (it_next t)) (\<lambda>next_json.
        and_then (as_i64 now) (\<lambda>updated.
        and_then (update_rows (transition_hits i (it_expected t) expected_json updated)
          (\<lambda>r. r\<lparr>rw_state_kind := wire_name (it_next t), rw_state_json := next_json, rw_updated_at := updated\<rparr>)
          db) (\<lambda>(affected, db).
        if affected \<noteq> 1 then Inl (sqlite_invalid ''invocation state compare-and-swap failed'')
        else map_ok (Pair ()) (attach_audit_record i (it_audit_record t) updated db))))))"

definition sqlite_status ::
  "sqlite_codec \<Rightarrow> externals \<Rightarrow> bool \<Rightarrow> status_request \<Rightarrow> status_context \<Rightarrow> database \<Rightarrow>
     (diagnostic, invocation_status) result" where
  "sqlite_status C X fault q context db =
     (if fault then Inl storage_error
      else and_then (ok_or sqlite_status_unavailable
          (find (\<lambda>r. rw_invocation_id r = sq_invocation_id q) (db_invocations db))) (\<lambda>r.
        and_then (decode_row C X r) (\<lambda>stored.
        if si_status_context stored \<noteq> context then Inl sqlite_status_unavailable
        else map_ok (\<lambda>links. status_from_stored (stored\<lparr>si_audit_links := links\<rparr>))
          (select_audit_links db (si_invocation_id stored)))))"

definition abandon_hits :: "string \<Rightarrow> status_context \<Rightarrow> int \<Rightarrow> invocation_row \<Rightarrow> bool" where
  "abandon_hits i context updated r =
     (rw_invocation_id r = i \<and> rw_state_kind r = ''outcome_unknown'' \<and> rw_updated_at r \<le> updated
      \<and> rw_tenant_ref r = sc_tenant_ref context \<and> rw_human_ref r = sc_human_ref context
      \<and> rw_workload_ref r = sc_workload_ref context \<and> rw_run_ref r = sc_run_ref context
      \<and> rw_actor_ref r = sc_actor_ref context \<and> rw_agent_ref r = sc_agent_ref context
      \<and> rw_task_ref r = sc_task_ref context \<and> rw_session_ref r = sc_session_ref context
      \<and> rw_admission_id r = sc_admission_ref context)"

definition sqlite_abandon ::
  "sqlite_codec \<Rightarrow> bool \<Rightarrow> u64 \<Rightarrow> string \<Rightarrow> status_context \<Rightarrow> abandonment_authorization \<Rightarrow> database \<Rightarrow>
     (diagnostic, unit) result \<times> database" where
  "sqlite_abandon C fault now i context authorization db =
     (case and_then (encode_state C StAbandoned) (\<lambda>state_json.
           map_ok (Pair state_json) (as_i64 now)) of
        Inl e \<Rightarrow> (Inl e, db)
      | Inr (state_json, updated) \<Rightarrow> transaction fault db
          (and_then (update_rows (abandon_hits i context updated)
             (\<lambda>r. r\<lparr>rw_state_kind := ''abandoned'', rw_state_json := state_json,
                rw_abandonment_authorization_record_id := Some (aa_authorization_record_id authorization),
                rw_abandoned_by := Some (aa_authorized_by authorization), rw_updated_at := updated\<rparr>)
             db) (\<lambda>(affected, db).
           if affected \<noteq> 1 then Inl sqlite_status_unavailable else Inr ((), db))))"

section \<open>What a row says\<close>

text \<open>
  What the types of the fields of a stored invocation guarantee: their constructors have accepted
  them.
\<close>

definition typed_context :: "status_context \<Rightarrow> bool" where
  "typed_context c = (status_context_try_new c = Inr c)"

definition typed_scope :: "externals \<Rightarrow> idempotency_scope_value \<Rightarrow> bool" where
  "typed_scope X v =
     (\<not> is_blank (isv_actor v) \<and> is_symbol (ci_name (isv_capability v))
      \<and> x_version_ok X (ci_version (isv_capability v)) \<and> \<not> is_blank (isv_normalized_resource v)
      \<and> \<not> is_blank (isv_semantic_operation v))"

definition typed_abandonment :: "abandonment_authorization \<Rightarrow> bool" where
  "typed_abandonment a = (\<not> is_blank (aa_authorization_record_id a) \<and> \<not> is_blank (aa_authorized_by a))"

definition typed_stored :: "externals \<Rightarrow> stored_invocation \<Rightarrow> bool" where
  "typed_stored X s =
     (\<not> is_blank (si_invocation_id s) \<and> typed_scope X (si_scope s) \<and> \<not> is_blank (si_idempotency_key s)
      \<and> \<not> is_blank (si_admission_id s) \<and> typed_context (si_status_context s)
      \<and> list_all wf_digest [si_request_digest s, si_grant_digest s, si_catalog_digest s,
           si_descriptor_digest s, si_authority_revision_digest s, si_proposal_digest s]
      \<and> list_all (\<lambda>ref. \<not> is_blank ref) (si_protected_evidence_refs s))"

definition stored_row :: "sqlite_codec \<Rightarrow> stored_invocation \<Rightarrow> invocation_row" where
  "stored_row C s = (projr (row_of C s))
     \<lparr>rw_abandonment_authorization_record_id := map_option aa_authorization_record_id (si_abandonment s),
      rw_abandoned_by := map_option aa_authorized_by (si_abandonment s)\<rparr>"

fun numbered_links :: "string \<Rightarrow> int \<Rightarrow> audit_link list \<Rightarrow> link_row list" where
  "numbered_links i n [] = []"
| "numbered_links i n (l # ls) =
     \<lparr>ln_invocation_id = i, ln_sequence = n,
      ln_kind = (case al_kind l of LinkAuthorization \<Rightarrow> ''authorization'' | LinkOutcome \<Rightarrow> ''outcome''),
      ln_record_id = al_record_id l, ln_attached_at = uint (al_attached_at l)\<rparr>
     # numbered_links i (n + 1) ls"

text \<open>
  A record that the tables can hold: its row can be written and passes the constraints, and the
  parts that transitions and abandonment add are as these make them.
\<close>

definition storable :: "sqlite_codec \<Rightarrow> externals \<Rightarrow> stored_invocation \<Rightarrow> bool" where
  "storable C X s =
     (is_ok (row_of C s) \<and> typed_stored X s \<and> row_checks (stored_row C s)
      \<and> isv_actor (si_scope s) = sc_actor_ref (si_status_context s)
      \<and> si_admission_id s = sc_admission_ref (si_status_context s)
      \<and> distinct (map (\<lambda>l. (al_kind l, al_record_id l)) (si_audit_links s))
      \<and> list_all (\<lambda>l. \<not> is_blank (al_record_id l)) (si_audit_links s)
      \<and> (si_abandonment s \<noteq> None \<longleftrightarrow> si_state s = StAbandoned)
      \<and> (\<forall>a. si_abandonment s = Some a \<longrightarrow> typed_abandonment a))"

lemma as_i64_Inr_iff [simp]: "as_i64 v = Inr n \<longleftrightarrow> uint v < 2 ^ 63 \<and> n = uint v"
  by (auto simp: as_i64_def)

lemma row_timestamp_uint [simp]: "row_timestamp (uint v) = Inr v"
  by (simp add: row_timestamp_def)

lemma stored_as_Inr_iff [simp]: "stored_as r = Inr x \<longleftrightarrow> r = Inr x"
  by (simp add: stored_as_def)

lemma encode_state_Inr_iff [simp]: "encode_state C s = Inr t \<longleftrightarrow> sq_encode_state C s = Some t"
  by (simp add: encode_state_def)

lemma row_of_Inr_iff:
  "is_ok (row_of C s) \<longleftrightarrow> sq_encode_refs C (si_protected_evidence_refs s) \<noteq> None
     \<and> sq_encode_state C (si_state s) \<noteq> None \<and> uint (si_created_at s) < 2 ^ 63
     \<and> uint (si_updated_at s) < 2 ^ 63 \<and> uint (si_retention_until s) < 2 ^ 63"
  unfolding is_ok_iff row_of_def by auto

lemma stored_row_fields:
  assumes "is_ok (row_of C s)"
  shows "rw_invocation_id (stored_row C s) = si_invocation_id s"
    "rw_status_id (stored_row C s) = si_status_id s"
    "rw_actor_ref (stored_row C s) = isv_actor (si_scope s)"
    "rw_capability_name (stored_row C s) = ci_name (isv_capability (si_scope s))"
    "rw_capability_version (stored_row C s) = ci_version (isv_capability (si_scope s))"
    "rw_normalized_resource (stored_row C s) = isv_normalized_resource (si_scope s)"
    "rw_semantic_operation (stored_row C s) = isv_semantic_operation (si_scope s)"
    "rw_idempotency_key (stored_row C s) = si_idempotency_key s"
    "rw_request_digest (stored_row C s) = digest_display (si_request_digest s)"
    "rw_state_kind (stored_row C s) = wire_name (si_state s)"
    "sq_encode_state C (si_state s) = Some (rw_state_json (stored_row C s))"
    "rw_admission_id (stored_row C s) = si_admission_id s"
    "rw_grant_digest (stored_row C s) = digest_display (si_grant_digest s)"
    "rw_catalog_name (stored_row C s) = cat_name (si_catalog_identity s)"
    "rw_catalog_revision (stored_row C s) = cat_revision (si_catalog_identity s)"
    "rw_catalog_digest (stored_row C s) = digest_display (si_catalog_digest s)"
    "rw_descriptor_digest (stored_row C s) = digest_display (si_descriptor_digest s)"
    "rw_authority_revision_digest (stored_row C s) = digest_display (si_authority_revision_digest s)"
    "rw_tenant_ref (stored_row C s) = sc_tenant_ref (si_status_context s)"
    "rw_human_ref (stored_row C s) = sc_human_ref (si_status_context s)"
    "rw_workload_ref (stored_row C s) = sc_workload_ref (si_status_context s)"
    "rw_run_ref (stored_row C s) = sc_run_ref (si_status_context s)"
    "rw_agent_ref (stored_row C s) = sc_agent_ref (si_status_context s)"
    "rw_task_ref (stored_row C s) = sc_task_ref (si_status_context s)"
    "rw_session_ref (stored_row C s) = sc_session_ref (si_status_context s)"
    "rw_proposal_digest (stored_row C s) = digest_display (si_proposal_digest s)"
    "sq_encode_refs C (si_protected_evidence_refs s) = Some (rw_protected_evidence_refs_json (stored_row C s))"
    "rw_abandonment_authorization_record_id (stored_row C s) = map_option aa_authorization_record_id (si_abandonment s)"
    "rw_abandoned_by (stored_row C s) = map_option aa_authorized_by (si_abandonment s)"
    "rw_created_at (stored_row C s) = uint (si_created_at s)"
    "rw_updated_at (stored_row C s) = uint (si_updated_at s)"
    "rw_retention_until (stored_row C s) = uint (si_retention_until s)"
  using assms unfolding is_ok_iff stored_row_def
  by - (elim exE, simp only: sum.sel, clarsimp simp: row_of_def)+

lemma wf_digest_row [simp]: "wf_digest d \<Longrightarrow> row_digest (digest_display d) = Inr d"
  using digest_hex_round_trip [of "digest_display d" d] by (simp add: row_digest_def)

lemma decode_abandonment_stored:
  assumes "storable C X s"
  shows "decode_abandonment (stored_row C s) = Inr (si_abandonment s)"
  using assms stored_row_fields(28,29) [of C s]
  by (cases "si_abandonment s")
     (auto simp: storable_def decode_abandonment_def typed_abandonment_def abandonment_try_new_def)

lemma decode_state_stored:
  assumes "sqlite_codec_ok C" "storable C X s"
  shows "decode_state C (stored_row C s) (si_abandonment s) = Inr (si_state s)"
proof -
  have ok: "is_ok (row_of C s)" using assms(2) by (simp add: storable_def)
  have "sq_decode_state C (rw_state_json (stored_row C s)) = Some (si_state s)"
    using assms(1) stored_row_fields(11) [OF ok] by (simp add: sqlite_codec_ok_def)
  then show ?thesis
    using assms(2) stored_row_fields(10) [OF ok] by (auto simp: decode_state_def storable_def)
qed

lemma decode_scope_stored:
  assumes "storable C X s"
  shows "decode_scope X (stored_row C s) = Inr (si_scope s)"
  using assms stored_row_fields(3-7) [of C s]
  by (cases "si_scope s"; cases "isv_capability (si_scope s)")
     (auto simp: storable_def typed_stored_def typed_scope_def decode_scope_def symbol_new_def
        release_version_new_def scope_try_new_def)

lemma decode_context_stored:
  assumes "storable C X s"
  shows "decode_context (stored_row C s) = Inr (si_status_context s)"
  using assms stored_row_fields(3,12,19-25) [of C s]
  by (cases "si_status_context s")
     (auto simp: storable_def typed_stored_def typed_context_def decode_context_def)

lemma decode_row_stored:
  assumes "sqlite_codec_ok C" "storable C X s"
  shows "decode_row C X (stored_row C s) = Inr (s\<lparr>si_audit_links := []\<rparr>)"
proof -
  have ok: "is_ok (row_of C s)" and typed: "typed_stored X s" using assms(2) by (simp_all add: storable_def)
  have refs: "sq_decode_refs C (rw_protected_evidence_refs_json (stored_row C s))
      = Some (si_protected_evidence_refs s)"
    using assms(1) stored_row_fields(27) [OF ok] by (simp add: sqlite_codec_ok_def)
  have refs_ok: "try_map (\<lambda>ref. stored_as
      (string_ref_new ''protected evidence request reference is required'' ref)) (si_protected_evidence_refs s)
      = Inr (si_protected_evidence_refs s)"
    using typed try_map_total [of "si_protected_evidence_refs s" "\<lambda>ref. stored_as
      (string_ref_new ''protected evidence request reference is required'' ref)" "\<lambda>x. x"]
    by (simp add: typed_stored_def list_all_iff)
  have digests: "wf_digest (si_request_digest s)" "wf_digest (si_grant_digest s)" "wf_digest (si_catalog_digest s)"
      "wf_digest (si_descriptor_digest s)" "wf_digest (si_authority_revision_digest s)"
      "wf_digest (si_proposal_digest s)"
    and named: "string_ref_new m (si_invocation_id s) = Inr (si_invocation_id s)"
      "string_ref_new m (si_idempotency_key s) = Inr (si_idempotency_key s)"
      "string_ref_new m (si_admission_id s) = Inr (si_admission_id s)" for m
    using typed by (simp_all add: typed_stored_def)
  have catalog: "\<lparr>cat_name = cat_name c, cat_revision = cat_revision c\<rparr> = c" for c :: catalog_identity
    by (cases c) simp
  have rebuilt: "s\<lparr>si_audit_links := []\<rparr> =
      \<lparr>si_invocation_id = si_invocation_id s, si_status_id = si_status_id s, si_scope = si_scope s,
        si_idempotency_key = si_idempotency_key s, si_request_digest = si_request_digest s,
        si_admission_id = si_admission_id s, si_grant_digest = si_grant_digest s,
        si_catalog_identity = si_catalog_identity s, si_catalog_digest = si_catalog_digest s,
        si_descriptor_digest = si_descriptor_digest s,
        si_authority_revision_digest = si_authority_revision_digest s,
        si_status_context = si_status_context s, si_proposal_digest = si_proposal_digest s,
        si_protected_evidence_refs = si_protected_evidence_refs s, si_state = si_state s,
        si_audit_links = [], si_created_at = si_created_at s, si_updated_at = si_updated_at s,
        si_retention_until = si_retention_until s, si_abandonment = si_abandonment s\<rparr>"
    by (cases s) simp
  show ?thesis
    unfolding rebuilt decode_row_def
    by (simp add: stored_row_fields [OF ok] refs refs_ok decode_abandonment_stored [OF assms(2)]
        decode_state_stored [OF assms] decode_scope_stored [OF assms(2)] decode_context_stored [OF assms(2)]
        digests named catalog)
qed

lemma numbered_links_ge: "x \<in> set (numbered_links i n ls) \<Longrightarrow> n \<le> ln_sequence x"
proof (induction ls arbitrary: n)
  case (Cons l ls)
  then show ?case using Cons.IH [of "n + 1"] by fastforce
qed simp

lemma numbered_links_sorted: "sorted (map ln_sequence (numbered_links i n ls))"
proof (induction ls arbitrary: n)
  case (Cons l ls)
  have "n \<le> ln_sequence x" if "x \<in> set (numbered_links i (n + 1) ls)" for x
    using numbered_links_ge [OF that] by simp
  with Cons [of "n + 1"] show ?case by simp
qed simp

lemma decode_numbered_links:
  "list_all (\<lambda>l. \<not> is_blank (al_record_id l)) ls \<Longrightarrow>
   try_map decode_audit_link (numbered_links i n ls) = Inr ls"
  by (induction i n ls rule: numbered_links.induct)
     (auto simp: decode_audit_link_def audit_link_try_new_def split: audit_link_kind.splits)

end
