(* ===== verification/KF_Durable.thy ===== *)
theory KF_Durable
  imports KF_Sqlite
begin

text \<open>
  The abstract view of the SQLite store and its refinement: the tables represent a list of stored
  invocations, and every operation of \<open>crates/kiteframe-provider-sqlite/src/lib.rs\<close> does to the
  tables what a few lines do to that list. The invocation store's interface is discharged for the
  tables, so the enforcement plane runs on them, and a process that dies and opens the file again
  is a step of a provider whose store outlives it.
\<close>

section \<open>The records behind the tables\<close>

definition represents :: "sqlite_codec \<Rightarrow> database \<Rightarrow> stored_invocation list \<Rightarrow> bool" where
  "represents C db ss =
     (db_invocations db = map (stored_row C) ss
      \<and> (\<forall>s \<in> set ss. filter (\<lambda>l. ln_invocation_id l = si_invocation_id s) (db_links db)
            = numbered_links (si_invocation_id s) 1 (si_audit_links s))
      \<and> (\<forall>l \<in> set (db_links db). \<exists>s \<in> set ss. si_invocation_id s = ln_invocation_id l))"

definition scopes_fenced :: "stored_invocation list \<Rightarrow> bool" where
  "scopes_fenced ss =
     (\<forall>r \<in> set ss. \<forall>x \<in> set ss. si_scope r = si_scope x \<longrightarrow> state_fences (si_state r) \<longrightarrow>
        state_fences (si_state x) \<longrightarrow> r = x)"

definition records_ok :: "sqlite_codec \<Rightarrow> externals \<Rightarrow> stored_invocation list \<Rightarrow> bool" where
  "records_ok C X ss =
     ((\<forall>s \<in> set ss. storable C X s) \<and> distinct (map si_invocation_id ss) \<and> distinct (map si_status_id ss)
      \<and> distinct (map key_from_invocation ss) \<and> scopes_fenced ss)"

section \<open>The operations on records\<close>

definition durable_expire :: "u64 \<Rightarrow> stored_invocation list \<Rightarrow> stored_invocation list" where
  "durable_expire now ss = filter (\<lambda>s. now < si_retention_until s \<or> state_fences (si_state s)) ss"

definition durable_insert ::
  "sqlite_codec \<Rightarrow> stored_invocation \<Rightarrow> stored_invocation list \<Rightarrow> stored_invocation list option" where
  "durable_insert C s ss =
     (if is_ok (row_of C s) \<and> si_created_at s < si_retention_until s
         \<and> si_status_id s \<notin> si_status_id ` set ss
      then Some (ss @ [s]) else None)"

definition durable_reserve ::
  "sqlite_codec \<Rightarrow> u64 \<Rightarrow> reservation_input \<Rightarrow> capability_descriptor \<Rightarrow> u64 \<Rightarrow> stored_invocation list \<Rightarrow>
     (diagnostic, invocation_reservation) result \<times> stored_invocation list" where
  "durable_reserve C now q d retention_until ss =
     (case and_then (stored_try_reserve q d now retention_until) (\<lambda>s.
           map_ok (\<lambda>_. s) (validate_sqlite_timestamps s)) of
        Inl e \<Rightarrow> (Inl e, ss)
      | Inr s \<Rightarrow>
          let kept = durable_expire now ss in
          (case find (\<lambda>x. key_from_invocation x = key_from_invocation s) kept of
             Some x \<Rightarrow>
               if si_status_context x \<noteq> si_status_context s then (Inl sqlite_status_unavailable, ss)
               else if si_request_digest x \<noteq> si_request_digest s
               then (Inl (sqlite_invalid ''idempotency key is already bound to a different request''), ss)
               else (Inr (reservation_from_stored KindExisting x), kept)
           | None \<Rightarrow>
               if \<exists>x \<in> set kept. si_scope x = si_scope s \<and> state_fences (si_state x)
               then (Inl scope_outcome_unknown, ss)
               else if \<exists>x \<in> set kept. si_invocation_id x = si_invocation_id s
               then (Inl (sqlite_invalid ''invocation ID is already reserved''), ss)
               else (case durable_insert C s kept of
                   None \<Rightarrow> (Inl storage_error, ss)
                 | Some ss' \<Rightarrow> (Inr (reservation_from_stored KindReserved s), ss'))))"

definition durable_swap :: "stored_invocation \<Rightarrow> stored_invocation list \<Rightarrow> stored_invocation list" where
  "durable_swap s' ss = map (\<lambda>s. if si_invocation_id s = si_invocation_id s' then s' else s) ss"

definition sql_audit_ok :: "transition_audit \<Rightarrow> bool" where
  "sql_audit_ok a = (case audit_record_parts a of None \<Rightarrow> True
     | Some (kind, record_id) \<Rightarrow> sql_trimmed_length record_id > 0)"

definition durable_transition ::
  "sqlite_codec \<Rightarrow> u64 \<Rightarrow> string \<Rightarrow> invocation_transition \<Rightarrow> stored_invocation list \<Rightarrow>
     (diagnostic, unit) result \<times> stored_invocation list" where
  "durable_transition C now i t ss =
     (if sq_encode_state C (it_expected t) = None \<or> sq_encode_state C (it_next t) = None
      then (Inl storage_error, ss)
      else if \<not> uint now < 2 ^ 63 then (Inl (sqlite_invalid ''timestamp exceeds SQLite range''), ss)
      else case find (\<lambda>s. si_invocation_id s = i \<and> si_state s = it_expected t \<and> si_updated_at s \<le> now) ss of
        None \<Rightarrow> (Inl (sqlite_invalid ''invocation state compare-and-swap failed''), ss)
      | Some s \<Rightarrow>
          (case apply_transition now t s of
             Inl _ \<Rightarrow> (Inl storage_error, ss)
           | Inr s' \<Rightarrow> if sql_audit_ok (it_audit_record t) then (Inr (), durable_swap s' ss)
                       else (Inl storage_error, ss)))"

definition durable_abandon ::
  "u64 \<Rightarrow> string \<Rightarrow> status_context \<Rightarrow> abandonment_authorization \<Rightarrow> stored_invocation list \<Rightarrow>
     (diagnostic, unit) result \<times> stored_invocation list" where
  "durable_abandon now i context authorization ss =
     (if \<not> uint now < 2 ^ 63 then (Inl (sqlite_invalid ''timestamp exceeds SQLite range''), ss)
      else case find (\<lambda>s. si_invocation_id s = i \<and> si_state s = StOutcomeUnknown \<and> si_updated_at s \<le> now
             \<and> si_status_context s = context) ss of
        None \<Rightarrow> (Inl sqlite_status_unavailable, ss)
      | Some s \<Rightarrow> (Inr (), durable_swap (s\<lparr>si_abandonment := Some authorization, si_state := StAbandoned,
                                        si_updated_at := now\<rparr>) ss))"

definition recovered :: "u64 \<Rightarrow> stored_invocation \<Rightarrow> stored_invocation" where
  "recovered now s =
     (if si_state s = StReserved \<or> si_state s = StPending
      then s\<lparr>si_state := StOutcomeUnknown, si_updated_at := max (si_updated_at s) now\<rparr> else s)"

definition durable_recover ::
  "u64 \<Rightarrow> stored_invocation list \<Rightarrow> (diagnostic, unit) result \<times> stored_invocation list" where
  "durable_recover now ss =
     (if uint now < 2 ^ 63 then (Inr (), map (recovered now) ss)
      else (Inl (sqlite_invalid ''timestamp exceeds SQLite range''), ss))"

definition durable_status ::
  "status_request \<Rightarrow> status_context \<Rightarrow> stored_invocation list \<Rightarrow> (diagnostic, invocation_status) result" where
  "durable_status q context ss =
     and_then (ok_or sqlite_status_unavailable (find (\<lambda>s. si_invocation_id s = sq_invocation_id q) ss)) (\<lambda>s.
       if si_status_context s \<noteq> context then Inl sqlite_status_unavailable else Inr (status_from_stored s))"

section \<open>Reading\<close>

lemma records_ok_storable: "records_ok C X ss \<Longrightarrow> s \<in> set ss \<Longrightarrow> storable C X s"
  by (simp add: records_ok_def)

lemma storable_row: "storable C X s \<Longrightarrow> is_ok (row_of C s)"
  by (simp add: storable_def)

lemmas row_fields = stored_row_fields [OF storable_row]

lemma select_links_represented:
  assumes "represents C db ss" "records_ok C X ss" "s \<in> set ss"
  shows "select_audit_links db (si_invocation_id s) = Inr (si_audit_links s)"
  using assms records_ok_storable [OF assms(2,3)] decode_numbered_links [of "si_audit_links s"]
  by (simp add: select_audit_links_def represents_def sort_key_id_if_sorted numbered_links_sorted storable_def)

lemma load_row_represented:
  assumes "sqlite_codec_ok C" "represents C db ss" "records_ok C X ss" "s \<in> set ss"
  shows "load_row C X db (stored_row C s) = Inr s"
  using decode_row_stored [OF assms(1) records_ok_storable [OF assms(3,4)]]
    select_links_represented [OF assms(2-4)]
  by (simp add: load_row_def)

lemma find_map: "find P (map f xs) = map_option f (find (\<lambda>x. P (f x)) xs)"
  by (induction xs) auto

lemma find_cong_set: "(\<And>x. x \<in> set xs \<Longrightarrow> P x = Q x) \<Longrightarrow> find P xs = find Q xs"
  by (induction xs) auto

lemma row_key_stored [simp]: "storable C X s \<Longrightarrow> row_key (stored_row C s) = key_from_invocation s"
  by (simp add: row_key_def key_from_invocation_def row_fields)

lemma row_fences_stored [simp]: "storable C X s \<Longrightarrow> row_fences (stored_row C s) = state_fences (si_state s)"
  by (cases "si_state s") (simp_all add: row_fences_def row_fields)

lemma find_row:
  assumes "represents C db ss" "records_ok C X ss"
    and "\<And>s. s \<in> set ss \<Longrightarrow> P (stored_row C s) = Q s"
  shows "find P (db_invocations db) = map_option (stored_row C) (find Q ss)"
proof -
  have "find (\<lambda>s. P (stored_row C s)) ss = find Q ss" by (rule find_cong_set) (rule assms(3))
  then show ?thesis using assms(1) by (simp add: represents_def find_map)
qed

lemma sqlite_status_refines:
  assumes "sqlite_codec_ok C" "represents C db ss" "records_ok C X ss"
  shows "sqlite_status C X False q c db = durable_status q c ss"
proof -
  have row: "find (\<lambda>r. rw_invocation_id r = sq_invocation_id q) (db_invocations db)
      = map_option (stored_row C) (find (\<lambda>s. si_invocation_id s = sq_invocation_id q) ss)"
    by (rule find_row [OF assms(2,3)]) (simp add: row_fields [OF records_ok_storable [OF assms(3)]])
  show ?thesis
  proof (cases "find (\<lambda>s. si_invocation_id s = sq_invocation_id q) ss")
    case (Some s)
    then have s: "s \<in> set ss" "si_invocation_id s = sq_invocation_id q" by (auto dest: find_SomeD)
    show ?thesis
      using decode_row_stored [OF assms(1) records_ok_storable [OF assms(3) s(1)]]
        select_links_represented [OF assms(2,3) s(1)]
      by (simp add: sqlite_status_def durable_status_def row Some)
  qed (simp add: sqlite_status_def durable_status_def row)
qed

section \<open>Updating\<close>

lemma update_rows_represented:
  assumes "represents C db ss"
    and "\<And>s. s \<in> set ss \<Longrightarrow> P (stored_row C s) = Q s"
    and "\<And>s. s \<in> set ss \<Longrightarrow> Q s \<Longrightarrow> f (stored_row C s) = stored_row C (g s)"
    and "\<And>s. s \<in> set ss \<Longrightarrow> Q s \<Longrightarrow> row_checks (stored_row C (g s))"
  shows "update_rows P f db =
     Inr (length (filter Q ss), db\<lparr>db_invocations := map (stored_row C) (map (\<lambda>s. if Q s then g s else s) ss)\<rparr>)"
proof -
  have rows: "db_invocations db = map (stored_row C) ss" using assms(1) by (simp add: represents_def)
  have hit: "filter P (map (stored_row C) ss) = map (stored_row C) (filter Q ss)"
    using assms(2) by (simp add: filter_map comp_def cong: filter_cong)
  have "list_all (\<lambda>r. row_checks (f r)) (map (stored_row C) (filter Q ss))"
    using assms(3,4) by (auto simp: list_all_iff)
  moreover have "map (\<lambda>r. if P r then f r else r) (map (stored_row C) ss)
      = map (stored_row C) (map (\<lambda>s. if Q s then g s else s) ss)"
    using assms(2,3) by auto
  ultimately show ?thesis by (simp only: update_rows_def rows hit Let_def if_True length_map)
qed

lemma stored_row_update:
  assumes "is_ok (row_of C s)" "sq_encode_state C n = Some j" "uint now < 2 ^ 63"
  shows "stored_row C (s\<lparr>si_state := n, si_updated_at := now\<rparr>) =
      (stored_row C s)\<lparr>rw_state_kind := wire_name n, rw_state_json := j, rw_updated_at := uint now\<rparr>"
    and "stored_row C (s\<lparr>si_abandonment := b, si_state := n, si_updated_at := now\<rparr>) =
      (stored_row C s)\<lparr>rw_state_kind := wire_name n, rw_state_json := j,
         rw_abandonment_authorization_record_id := map_option aa_authorization_record_id b,
         rw_abandoned_by := map_option aa_authorized_by b, rw_updated_at := uint now\<rparr>"
    and "stored_row C (s\<lparr>si_audit_links := ls\<rparr>) = stored_row C s"
    and "row_of C (s\<lparr>si_audit_links := ls\<rparr>) = row_of C s"
proof -
  obtain e where "sq_encode_refs C (si_protected_evidence_refs s) = Some e"
    using assms(1) by (auto simp: row_of_Inr_iff)
  moreover obtain k where "sq_encode_state C (si_state s) = Some k"
    using assms(1) by (auto simp: row_of_Inr_iff)
  moreover have "uint (si_created_at s) < 2 ^ 63" "uint (si_updated_at s) < 2 ^ 63" "uint (si_retention_until s) < 2 ^ 63"
    using assms(1) by (simp_all add: row_of_Inr_iff)
  ultimately show "stored_row C (s\<lparr>si_state := n, si_updated_at := now\<rparr>) =
      (stored_row C s)\<lparr>rw_state_kind := wire_name n, rw_state_json := j, rw_updated_at := uint now\<rparr>"
    "stored_row C (s\<lparr>si_abandonment := b, si_state := n, si_updated_at := now\<rparr>) =
      (stored_row C s)\<lparr>rw_state_kind := wire_name n, rw_state_json := j,
         rw_abandonment_authorization_record_id := map_option aa_authorization_record_id b,
         rw_abandoned_by := map_option aa_authorized_by b, rw_updated_at := uint now\<rparr>"
    using assms(2,3) by (simp_all add: stored_row_def row_of_def encode_state_def as_i64_def)
  show "row_of C (s\<lparr>si_audit_links := ls\<rparr>) = row_of C s" by (simp add: row_of_def)
  then show "stored_row C (s\<lparr>si_audit_links := ls\<rparr>) = stored_row C s" by (simp add: stored_row_def)
qed

lemma records_ok_map:
  assumes "records_ok C X ss"
    and "\<And>s. s \<in> set ss \<Longrightarrow> storable C X (g s) \<and> si_invocation_id (g s) = si_invocation_id s
      \<and> si_status_id (g s) = si_status_id s \<and> si_scope (g s) = si_scope s
      \<and> si_idempotency_key (g s) = si_idempotency_key s \<and> (state_fences (si_state (g s)) \<longrightarrow> state_fences (si_state s))"
  shows "records_ok C X (map g ss)"
proof -
  have "key_from_invocation (g s) = key_from_invocation s" if "s \<in> set ss" for s
    using assms(2) [OF that] by (simp add: key_from_invocation_def)
  then have "map key_from_invocation (map g ss) = map key_from_invocation ss"
    "map si_invocation_id (map g ss) = map si_invocation_id ss"
    "map si_status_id (map g ss) = map si_status_id ss"
    using assms(2) by simp_all
  moreover have "scopes_fenced (map g ss)"
    using assms unfolding records_ok_def scopes_fenced_def by auto
  moreover have "\<forall>s \<in> set (map g ss). storable C X s" using assms(2) by auto
  ultimately show ?thesis using assms(1) unfolding records_ok_def by (simp only: simp_thms)
qed

lemma represents_map:
  assumes "represents C db ss"
    and "\<And>s. s \<in> set ss \<Longrightarrow> si_invocation_id (g s) = si_invocation_id s \<and> si_audit_links (g s) = si_audit_links s"
  shows "represents C (db\<lparr>db_invocations := map (stored_row C) (map g ss)\<rparr>) (map g ss)"
  using assms by (auto simp: represents_def)

lemma filter_one: "distinct xs \<Longrightarrow> x \<in> set xs \<Longrightarrow> filter (\<lambda>s. s = x) xs = [x]"
  by (induction xs) (auto simp: filter_empty_conv)

lemma find_unique:
  assumes "distinct (map si_invocation_id ss)" "\<And>s. Q s \<Longrightarrow> si_invocation_id s = i"
  shows "find Q ss = None \<Longrightarrow> filter Q ss = []"
    and "find Q ss = Some x \<Longrightarrow> length (filter Q ss) = 1
      \<and> (\<forall>s \<in> set ss. Q s \<longleftrightarrow> si_invocation_id s = i) \<and> x \<in> set ss \<and> Q x
      \<and> (\<forall>s \<in> set ss. Q s \<longrightarrow> s = x)"
proof -
  show "find Q ss = None \<Longrightarrow> filter Q ss = []" by (simp add: find_None_iff filter_empty_conv)
  assume found: "find Q ss = Some x"
  from find_SomeD [OF found] have x: "x \<in> set ss" "Q x" by simp_all
  have inj: "inj_on si_invocation_id (set ss)" and dist: "distinct ss"
    using assms(1) by (simp_all add: distinct_map)
  have same: "s = x" if "s \<in> set ss" "si_invocation_id s = i" for s
    by (rule inj_onD [OF inj _ that(1) x(1)]) (simp add: that(2) assms(2) [OF x(2)])
  have exact: "Q s \<longleftrightarrow> s = x" if "s \<in> set ss" for s
    using same [OF that assms(2)] x(2) by blast
  have "filter Q ss = filter (\<lambda>s. s = x) ss" by (rule filter_cong [OF refl exact])
  also have "\<dots> = [x]" by (rule filter_one [OF dist x(1)])
  finally have "length (filter Q ss) = 1" by simp
  moreover have "\<forall>s \<in> set ss. Q s \<longleftrightarrow> si_invocation_id s = i"
    using exact same assms(2) [OF x(2)] by blast
  ultimately show "length (filter Q ss) = 1
      \<and> (\<forall>s \<in> set ss. Q s \<longleftrightarrow> si_invocation_id s = i) \<and> x \<in> set ss \<and> Q x \<and> (\<forall>s \<in> set ss. Q s \<longrightarrow> s = x)"
    using exact x by blast
qed

lemma wire_name_kinds:
  "wire_name s = ''reserved'' \<longleftrightarrow> s = StReserved" "wire_name s = ''pending'' \<longleftrightarrow> s = StPending"
  "wire_name s = ''outcome_unknown'' \<longleftrightarrow> s = StOutcomeUnknown"
  "wire_name s \<in> {''reserved'', ''pending'', ''suspended'', ''succeeded'', ''failed'', ''denied'',
      ''outcome_unknown'', ''abandoned''}"
  by (cases s; simp)+

lemma encode_printed:
  assumes "sqlite_codec_ok C" "s \<in> {StReserved, StPending, StOutcomeUnknown, StAbandoned}"
  obtains j where "sq_encode_state C s = Some j"
  using assms by (auto simp: sqlite_codec_ok_def)

lemma storable_times:
  "storable C X s \<Longrightarrow> si_created_at s \<le> si_updated_at s \<and> si_created_at s < si_retention_until s
     \<and> uint (si_created_at s) < 2 ^ 63 \<and> uint (si_updated_at s) < 2 ^ 63 \<and> uint (si_retention_until s) < 2 ^ 63"
proof -
  assume s: "storable C X s"
  have "row_checks (stored_row C s)" and ok: "is_ok (row_of C s)" using s by (simp_all add: storable_def)
  then show ?thesis
    using ok [unfolded row_of_Inr_iff]
    by (simp add: row_checks_def stored_row_fields [OF ok] word_le_def word_less_def)
qed

lemma storable_update:
  assumes "storable C X s" "sq_encode_state C n = Some j" "uint now < 2 ^ 63" "si_updated_at s \<le> now"
    and "b \<noteq> None \<longleftrightarrow> n = StAbandoned" "\<And>a. b = Some a \<Longrightarrow> typed_abandonment a"
  shows "storable C X (s\<lparr>si_abandonment := b, si_state := n, si_updated_at := now\<rparr>)"
proof -
  let ?s = "s\<lparr>si_abandonment := b, si_state := n, si_updated_at := now\<rparr>"
  have ok: "is_ok (row_of C ?s)"
    using assms(1-3) storable_row [OF assms(1)] by (simp add: row_of_Inr_iff)
  have "row_checks (stored_row C ?s)"
    using storable_times [OF assms(1)] assms(4) wire_name_kinds(4) [of n]
    by (simp add: row_checks_def stored_row_fields [OF ok] word_le_def word_less_def)
  with ok assms(1,5,6) show ?thesis by (auto simp: storable_def typed_stored_def)
qed

section \<open>Each statement refines its operation\<close>

text \<open>
  \<open>refined\<close>: the tables answer what the records answer, and represent them again afterwards.
\<close>

definition refined ::
  "sqlite_codec \<Rightarrow> externals \<Rightarrow> 'a \<times> database \<Rightarrow> 'a \<times> stored_invocation list \<Rightarrow> bool" where
  "refined C X concrete abstract =
     (fst concrete = fst abstract \<and> represents C (snd concrete) (snd abstract)
      \<and> records_ok C X (snd abstract))"

lemma recovered_storable:
  assumes "sqlite_codec_ok C" "storable C X s" "uint now < 2 ^ 63"
  shows "storable C X (recovered now s)"
proof (cases "si_state s = StReserved \<or> si_state s = StPending")
  case True
  obtain j where j: "sq_encode_state C StOutcomeUnknown = Some j"
    using encode_printed [OF assms(1), of StOutcomeUnknown] by blast
  have "si_abandonment s = None" using True assms(2) by (auto simp: storable_def)
  then have "recovered now s = s\<lparr>si_abandonment := None, si_state := StOutcomeUnknown,
      si_updated_at := max (si_updated_at s) now\<rparr>"
    using True by (simp add: recovered_def)
  moreover have "uint (max (si_updated_at s) now) < 2 ^ 63"
    using storable_times [OF assms(2)] assms(3) by (simp add: max_def)
  ultimately show ?thesis using storable_update [OF assms(2) j] by simp
next
  case False
  then show ?thesis using assms(2) by (simp add: recovered_def)
qed

lemma recovered_fields [simp]:
  "si_invocation_id (recovered now s) = si_invocation_id s"
  "si_status_id (recovered now s) = si_status_id s"
  "si_scope (recovered now s) = si_scope s"
  "si_idempotency_key (recovered now s) = si_idempotency_key s"
  "si_audit_links (recovered now s) = si_audit_links s"
  "state_fences (si_state (recovered now s)) = state_fences (si_state s)"
  by (auto simp: recovered_def)

lemma recover_refines:
  assumes C: "sqlite_codec_ok C" and rep: "represents C db ss" and ok: "records_ok C X ss"
  shows "refined C X (recover_incomplete_effects C False now db) (durable_recover now ss)"
proof (cases "uint now < 2 ^ 63")
  case True
  obtain j where j: "sq_encode_state C StOutcomeUnknown = Some j"
    using encode_printed [OF C, of StOutcomeUnknown] by blast
  let ?Q = "\<lambda>s. si_state s = StReserved \<or> si_state s = StPending"
  let ?f = "\<lambda>r. r\<lparr>rw_state_kind := ''outcome_unknown'', rw_state_json := j,
      rw_updated_at := max (rw_updated_at r) (uint now)\<rparr>"
  have stored: "storable C X s" if "s \<in> set ss" for s using records_ok_storable [OF ok that] .
  have kind: "rw_state_kind (stored_row C s) \<in> {''reserved'', ''pending''} = ?Q s" if "s \<in> set ss" for s
    by (simp add: row_fields [OF stored [OF that]] wire_name_kinds)
  have moved: "?f (stored_row C s) = stored_row C (recovered now s)" if "s \<in> set ss" "?Q s" for s
  proof -
    have "uint (max (si_updated_at s) now) < 2 ^ 63"
      using storable_times [OF stored [OF that(1)]] True by (simp add: max_def)
    moreover have "max (uint (si_updated_at s)) (uint now) = uint (max (si_updated_at s) now)"
      by (simp add: max_def word_le_def)
    ultimately show ?thesis
      using stored_row_update(1) [OF storable_row [OF stored [OF that(1)]] j] that(2)
      by (simp add: recovered_def row_fields [OF stored [OF that(1)]])
  qed
  have checked: "row_checks (stored_row C (recovered now s))" if "s \<in> set ss" for s
    using recovered_storable [OF C stored [OF that] True] by (simp add: storable_def)
  have update: "update_rows (\<lambda>r. rw_state_kind r \<in> {''reserved'', ''pending''}) ?f db =
      Inr (length (filter ?Q ss),
        db\<lparr>db_invocations := map (stored_row C) (map (\<lambda>s. if ?Q s then recovered now s else s) ss)\<rparr>)"
    by (rule update_rows_represented [OF rep]) (use kind moved checked in blast)+
  have same: "map (\<lambda>s. if ?Q s then recovered now s else s) ss = map (recovered now) ss"
    by (rule map_cong) (auto simp: recovered_def)
  have "records_ok C X (map (recovered now) ss)"
    by (rule records_ok_map [OF ok]) (simp add: recovered_storable [OF C stored True])
  moreover have "represents C (db\<lparr>db_invocations := map (stored_row C) (map (recovered now) ss)\<rparr>)
      (map (recovered now) ss)"
    by (rule represents_map [OF rep]) simp
  ultimately show ?thesis
    using True update j unfolding same
    by (simp add: refined_def recover_incomplete_effects_def durable_recover_def as_i64_def
        encode_state_def transaction_def)
next
  case False
  then show ?thesis
    using rep ok by (simp add: refined_def recover_incomplete_effects_def durable_recover_def as_i64_def)
qed

text \<open>A single record that an \<open>UPDATE\<close> hits, or none.\<close>

lemma update_one:
  assumes rep: "represents C db ss" and ok: "records_ok C X ss"
    and hit: "\<forall>s \<in> set ss. P (stored_row C s) = Q s" "\<forall>s. Q s \<longrightarrow> si_invocation_id s = i"
  shows "find Q ss = None \<Longrightarrow> update_rows P f db = Inr (0, db)"
    and "find Q ss = Some x \<Longrightarrow> f (stored_row C x) = stored_row C x' \<Longrightarrow> row_checks (stored_row C x') \<Longrightarrow>
      si_invocation_id x' = i \<Longrightarrow>
      update_rows P f db = Inr (1, db\<lparr>db_invocations := map (stored_row C) (durable_swap x' ss)\<rparr>)"
proof -
  have hits: "s \<in> set ss \<Longrightarrow> P (stored_row C s) = Q s" "Q s \<Longrightarrow> si_invocation_id s = i" for s
    using hit by blast+
  have ids: "distinct (map si_invocation_id ss)" using ok by (simp add: records_ok_def)
  have rows: "db_invocations db = map (stored_row C) ss" using rep by (simp add: represents_def)
  show "update_rows P f db = Inr (0, db)" if "find Q ss = None"
  proof -
    have none: "\<not> Q s" if "s \<in> set ss" for s using \<open>find Q ss = None\<close> that by (simp add: find_None_iff)
    have "update_rows P f db = Inr (length (filter Q ss),
        db\<lparr>db_invocations := map (stored_row C) (map (\<lambda>s. if Q s then s else s) ss)\<rparr>)"
      by (rule update_rows_represented [OF rep]) (use none hits in blast)+
    then show ?thesis using find_unique(1) [OF ids hits(2) that] rows by simp
  qed
  assume x: "find Q ss = Some x" "f (stored_row C x) = stored_row C x'" "row_checks (stored_row C x')"
    "si_invocation_id x' = i"
  note unique = find_unique(2) [OF ids hits(2) x(1)]
  have only: "s = x" if "s \<in> set ss" "Q s" for s using unique that by blast
  have "update_rows P f db = Inr (length (filter Q ss),
      db\<lparr>db_invocations := map (stored_row C) (map (\<lambda>s. if Q s then x' else s) ss)\<rparr>)"
    by (rule update_rows_represented [OF rep]) (auto simp: hits(1) x(2,3) dest: only)
  moreover have "map (\<lambda>s. if Q s then x' else s) ss = durable_swap x' ss"
    unfolding durable_swap_def using unique x(4) by (intro map_cong refl) auto
  ultimately show "update_rows P f db = Inr (1, db\<lparr>db_invocations := map (stored_row C) (durable_swap x' ss)\<rparr>)"
    using unique by simp
qed

lemma same_id_same_record:
  assumes "records_ok C X ss" "s \<in> set ss" "x \<in> set ss" "si_invocation_id s = si_invocation_id x"
  shows "s = x"
proof -
  have "inj_on si_invocation_id (set ss)" using assms(1) by (simp add: records_ok_def distinct_map)
  from inj_onD [OF this assms(4,2,3)] show ?thesis .
qed

lemma records_ok_swap:
  assumes ok: "records_ok C X ss" and x: "x \<in> set ss" and x': "storable C X x'"
    "si_invocation_id x' = si_invocation_id x" "si_status_id x' = si_status_id x" "si_scope x' = si_scope x"
    "si_idempotency_key x' = si_idempotency_key x" "state_fences (si_state x') \<Longrightarrow> state_fences (si_state x)"
  shows "records_ok C X (durable_swap x' ss)"
  unfolding durable_swap_def
proof (rule records_ok_map [OF ok])
  fix s assume s: "s \<in> set ss"
  have "s = x" if "si_invocation_id s = si_invocation_id x'"
    using same_id_same_record [OF ok s x] that x'(2) by simp
  then show "storable C X (if si_invocation_id s = si_invocation_id x' then x' else s)
      \<and> si_invocation_id (if si_invocation_id s = si_invocation_id x' then x' else s) = si_invocation_id s
      \<and> si_status_id (if si_invocation_id s = si_invocation_id x' then x' else s) = si_status_id s
      \<and> si_scope (if si_invocation_id s = si_invocation_id x' then x' else s) = si_scope s
      \<and> si_idempotency_key (if si_invocation_id s = si_invocation_id x' then x' else s) = si_idempotency_key s
      \<and> (state_fences (si_state (if si_invocation_id s = si_invocation_id x' then x' else s))
          \<longrightarrow> state_fences (si_state s))"
    using x' records_ok_storable [OF ok s] by auto
qed

lemma context_columns:
  assumes "storable C X s"
  shows "abandon_hits i c n (stored_row C s) \<longleftrightarrow>
     si_invocation_id s = i \<and> si_state s = StOutcomeUnknown \<and> uint (si_updated_at s) \<le> n
     \<and> si_status_context s = c"
  using assms unfolding abandon_hits_def
  by (cases c; cases "si_status_context s")
     (auto simp: row_fields [OF assms] wire_name_kinds storable_def)

lemma abandon_refines:
  assumes C: "sqlite_codec_ok C" and rep: "represents C db ss" and ok: "records_ok C X ss"
    and typed: "typed_abandonment a"
  shows "refined C X (sqlite_abandon C False now i c a db) (durable_abandon now i c a ss)"
proof -
  obtain j where j: "sq_encode_state C StAbandoned = Some j"
    using encode_printed [OF C, of StAbandoned] by blast
  define Q where "Q s \<longleftrightarrow> si_invocation_id s = i \<and> si_state s = StOutcomeUnknown \<and> si_updated_at s \<le> now
      \<and> si_status_context s = c" for s :: stored_invocation
  let ?f = "\<lambda>r. r\<lparr>rw_state_kind := ''abandoned'', rw_state_json := j,
      rw_abandonment_authorization_record_id := Some (aa_authorization_record_id a),
      rw_abandoned_by := Some (aa_authorized_by a), rw_updated_at := uint now\<rparr>"
  have hits: "\<forall>s \<in> set ss. abandon_hits i c (uint now) (stored_row C s) = Q s"
    using context_columns [OF records_ok_storable [OF ok]] by (simp add: Q_def word_le_def)
  have Q_id: "\<forall>s. Q s \<longrightarrow> si_invocation_id s = i" by (simp add: Q_def)
  note update = update_one [where P = "abandon_hits i c (uint now)" and Q = Q and f = ?f, OF rep ok hits Q_id]
  consider (late) "\<not> uint now < 2 ^ 63" | (none) "uint now < 2 ^ 63" "find Q ss = None"
    | (some) x where "uint now < 2 ^ 63" "find Q ss = Some x" by (cases "find Q ss") auto
  then show ?thesis
  proof cases
    case late
    then show ?thesis using rep ok j
      by (simp add: refined_def sqlite_abandon_def durable_abandon_def as_i64_def encode_state_def)
  next
    case none
    then show ?thesis using rep ok j update(1) [OF none(2)]
      by (simp add: refined_def sqlite_abandon_def durable_abandon_def as_i64_def encode_state_def
          transaction_def Q_def [abs_def])
  next
    case (some x)
    let ?x' = "x\<lparr>si_abandonment := Some a, si_state := StAbandoned, si_updated_at := now\<rparr>"
    have x: "x \<in> set ss" "Q x" using find_SomeD [OF some(2)] by simp_all
    have sx: "storable C X x" using records_ok_storable [OF ok x(1)] .
    have sx': "storable C X ?x'"
      by (rule storable_update [OF sx j some(1)]) (use x(2) typed in \<open>simp_all add: Q_def\<close>)
    have "update_rows (abandon_hits i c (uint now)) ?f db
        = Inr (1, db\<lparr>db_invocations := map (stored_row C) (durable_swap ?x' ss)\<rparr>)"
      by (rule update(2) [OF some(2)])
        (use x(2) sx' stored_row_update(2) [OF storable_row [OF sx] j some(1), of "Some a"] in
          \<open>simp_all add: Q_def storable_def\<close>)
    moreover have "records_ok C X (durable_swap ?x' ss)"
      by (rule records_ok_swap [OF ok x(1) sx']) simp_all
    moreover have "represents C (db\<lparr>db_invocations := map (stored_row C) (durable_swap ?x' ss)\<rparr>) (durable_swap ?x' ss)"
      unfolding durable_swap_def
      by (rule represents_map [OF rep]) (use same_id_same_record [OF ok _ x(1)] in auto)
    ultimately show ?thesis using some j
      by (simp add: refined_def sqlite_abandon_def durable_abandon_def as_i64_def encode_state_def
          transaction_def Q_def [abs_def])
  qed
qed

text \<open>The transition: one row is updated, and at most one link is added at the end.\<close>

lemma numbered_links_append:
  "numbered_links i n (ls @ [l]) = numbered_links i n ls @ numbered_links i (n + int (length ls)) [l]"
proof (induction ls arbitrary: n)
  case (Cons a ls)
  have "n + 1 + int (length ls) = n + int (length (a # ls))" by simp
  with Cons [of "n + 1"] show ?case by (simp add: add.assoc)
qed simp

lemma numbered_links_less: "x \<in> set (numbered_links i n ls) \<Longrightarrow> ln_sequence x < n + int (length ls)"
proof (induction ls arbitrary: n)
  case (Cons a ls)
  from Cons.prems consider "ln_sequence x = n" | "x \<in> set (numbered_links i (n + 1) ls)" by auto
  then show ?case
  proof cases
    case 2
    from Cons.IH [OF this] show ?thesis by simp
  qed simp
qed simp

lemma numbered_links_id: "x \<in> set (numbered_links i n ls) \<Longrightarrow> ln_invocation_id x = i"
  by (induction i n ls rule: numbered_links.induct) auto

definition link_kind_text :: "audit_link_kind \<Rightarrow> string" where
  "link_kind_text k = (case k of LinkAuthorization \<Rightarrow> ''authorization'' | LinkOutcome \<Rightarrow> ''outcome'')"

lemma link_kind_text_inject [simp]: "link_kind_text a = link_kind_text b \<longleftrightarrow> a = b"
  by (cases a; cases b) (simp_all add: link_kind_text_def)

lemma numbered_links_parts:
  "(\<lambda>x. (ln_kind x, ln_record_id x)) ` set (numbered_links i n ls)
     = (\<lambda>l. (link_kind_text (al_kind l), al_record_id l)) ` set ls"
  by (induction i n ls rule: numbered_links.induct) (auto simp: link_kind_text_def)

lemma max_numbered: "foldl max m (map ln_sequence (numbered_links i n ls)) = (if ls = [] then m else max m (n + int (length ls) - 1))"
proof (induction ls arbitrary: m n)
  case (Cons a ls)
  show ?case using Cons [of "max m n" "n + 1"] by (cases ls) (auto simp: max_def)
qed simp

lemma attach_represented:
  assumes rep: "represents C db ss" and ok: "records_ok C X ss" and x: "x \<in> set ss"
    and link: "audit_link_from_transition a now = Inr link"
  shows "attach_audit_record (si_invocation_id x) a (uint now) db =
     (case attach_link link x of
        Inl _ \<Rightarrow> Inl storage_error
      | Inr x' \<Rightarrow> if sql_audit_ok a
          then Inr (db\<lparr>db_links := db_links db @ (case link of None \<Rightarrow> [] | Some l \<Rightarrow>
             numbered_links (si_invocation_id x) (1 + int (length (si_audit_links x))) [l])\<rparr>)
          else Inl storage_error)"
proof (cases link)
  case None
  then have "a = AuditNone" using link by (auto simp: link_from_transition_Inr)
  with None show ?thesis
    by (simp add: attach_audit_record_def audit_record_parts_def attach_link_def sql_audit_ok_def)
next
  case (Some l)
  let ?i = "si_invocation_id x" and ?ls = "si_audit_links x"
  have parts: "audit_record_parts a = Some (link_kind_text (al_kind l), al_record_id l)" "al_attached_at l = now"
    using link Some by (auto simp: link_from_transition_Inr audit_record_parts_def link_kind_text_def)
  have own: "filter (\<lambda>r. ln_invocation_id r = ?i) (db_links db) = numbered_links ?i 1 ?ls"
    using rep x by (simp add: represents_def)
  then have own_set: "r \<in> set (db_links db) \<and> ln_invocation_id r = ?i \<longleftrightarrow> r \<in> set (numbered_links ?i 1 ?ls)" for r
    unfolding own [symmetric] by auto
  have seq: "next_sequence db ?i = 1 + int (length ?ls)"
    by (cases ?ls) (simp_all add: next_sequence_def own max_numbered)
  let ?r = "\<lparr>ln_invocation_id = ?i, ln_sequence = 1 + int (length ?ls), ln_kind = link_kind_text (al_kind l),
      ln_record_id = al_record_id l, ln_attached_at = uint now\<rparr>"
  have present: "\<exists>r \<in> set (db_invocations db). rw_invocation_id r = ?i"
    using rep x row_fields(1) [OF records_ok_storable [OF ok x]] by (auto simp: represents_def)
  have checks: "link_checks ?r \<longleftrightarrow> sql_audit_ok a"
    by (auto simp: link_checks_def sql_audit_ok_def parts link_kind_text_def split: audit_link_kind.splits)
  have "(\<exists>r \<in> set (db_links db). ln_invocation_id r = ?i
        \<and> (ln_sequence r = ln_sequence ?r \<or> ln_kind r = ln_kind ?r \<and> ln_record_id r = ln_record_id ?r))
      \<longleftrightarrow> (\<exists>r \<in> set (numbered_links ?i 1 ?ls). ln_sequence r = ln_sequence ?r
            \<or> (ln_kind r, ln_record_id r) = (link_kind_text (al_kind l), al_record_id l))"
    using own_set by auto
  also have "\<dots> \<longleftrightarrow> (\<exists>r \<in> set (numbered_links ?i 1 ?ls).
      (ln_kind r, ln_record_id r) = (link_kind_text (al_kind l), al_record_id l))"
    using numbered_links_less [of _ ?i 1 ?ls] by fastforce
  also have "\<dots> \<longleftrightarrow> (link_kind_text (al_kind l), al_record_id l)
      \<in> (\<lambda>x. (ln_kind x, ln_record_id x)) ` set (numbered_links ?i 1 ?ls)"
    unfolding image_iff by metis
  also have "\<dots> \<longleftrightarrow> (\<exists>y \<in> set ?ls. al_kind y = al_kind l \<and> al_record_id y = al_record_id l)"
    unfolding numbered_links_parts image_iff prod.inject link_kind_text_inject by metis
  finally have clash: "(\<exists>r \<in> set (db_links db). ln_invocation_id r = ?i
        \<and> (ln_sequence r = ln_sequence ?r \<or> ln_kind r = ln_kind ?r \<and> ln_record_id r = ln_record_id ?r))
      \<longleftrightarrow> (\<exists>y \<in> set ?ls. al_kind y = al_kind l \<and> al_record_id y = al_record_id l)" .
  have new: "numbered_links ?i (1 + int (length ?ls)) [l] = [?r]"
    by (simp add: parts(2) link_kind_text_def)
  have "attach_audit_record ?i a (uint now) db = insert_link ?r db"
    by (simp add: attach_audit_record_def parts seq)
  then show ?thesis
    unfolding Some attach_link_def insert_link_def
    using present checks clash new by simp
qed

lemma durable_swap_mem: "x \<in> set ss \<Longrightarrow> si_invocation_id x' = si_invocation_id x \<Longrightarrow> x' \<in> set (durable_swap x' ss)"
  by (auto simp: durable_swap_def image_iff)

lemma durable_swap_swap: "si_invocation_id y = si_invocation_id x \<Longrightarrow> durable_swap y (durable_swap x ss) = durable_swap y ss"
  by (auto simp: durable_swap_def)

lemma represents_swap:
  assumes "represents C db ss" "records_ok C X ss" "x \<in> set ss" "si_invocation_id x' = si_invocation_id x"
    "si_audit_links x' = si_audit_links x"
  shows "represents C (db\<lparr>db_invocations := map (stored_row C) (durable_swap x' ss)\<rparr>) (durable_swap x' ss)"
  unfolding durable_swap_def
  by (rule represents_map [OF assms(1)]) (use same_id_same_record [OF assms(2) _ assms(3)] assms(4,5) in auto)

lemma represents_link:
  assumes rep: "represents C db ss" and ok: "records_ok C X ss" and x: "x \<in> set ss"
    and x': "x' = x\<lparr>si_audit_links := si_audit_links x @ [l]\<rparr>"
  shows "represents C (db\<lparr>db_links := db_links db @
      numbered_links (si_invocation_id x) (1 + int (length (si_audit_links x))) [l]\<rparr>) (durable_swap x' ss)"
proof -
  let ?new = "numbered_links (si_invocation_id x) (1 + int (length (si_audit_links x))) [l]"
  have ids: "si_invocation_id x' = si_invocation_id x" using x' by simp
  have same: "s = x" if "s \<in> set ss" "si_invocation_id s = si_invocation_id x'" for s
    using same_id_same_record [OF ok that(1) x] that(2) ids by simp
  have row: "stored_row C x' = stored_row C x"
    using stored_row_update(3,4) [OF storable_row [OF records_ok_storable [OF ok x]]] x'
    by (simp add: stored_row_def row_of_def)
  have "map (stored_row C) (durable_swap x' ss) = map (stored_row C) ss"
    unfolding durable_swap_def using same row by auto
  moreover have "filter (\<lambda>r. ln_invocation_id r = si_invocation_id s) (db_links db @ ?new)
      = numbered_links (si_invocation_id s) 1 (si_audit_links s)" if "s \<in> set (durable_swap x' ss)" for s
  proof (cases "si_invocation_id s = si_invocation_id x")
    case True
    then have "s = x'" using that ids by (auto simp: durable_swap_def)
    moreover have "filter (\<lambda>r. ln_invocation_id r = si_invocation_id x) (db_links db)
        = numbered_links (si_invocation_id x) 1 (si_audit_links x)"
      using rep x by (simp add: represents_def)
    ultimately show ?thesis by (simp add: x' numbered_links_append)
  next
    case False
    then have "s \<in> set ss" using that ids by (auto simp: durable_swap_def split: if_splits)
    with False rep show ?thesis by (simp add: represents_def)
  qed
  moreover have "\<exists>s \<in> set (durable_swap x' ss). si_invocation_id s = ln_invocation_id r"
    if "r \<in> set (db_links db @ ?new)" for r
  proof -
    from that consider "r \<in> set (db_links db)" | "ln_invocation_id r = si_invocation_id x" by auto
    then show ?thesis
    proof cases
      case 1
      then obtain s where "s \<in> set ss" "si_invocation_id s = ln_invocation_id r"
        using rep by (auto simp: represents_def)
      then show ?thesis unfolding durable_swap_def by (intro bexI [of _ "if si_invocation_id s = si_invocation_id x' then x' else s"]) auto
    next
      case 2
      then show ?thesis using durable_swap_mem [OF x ids] ids by auto
    qed
  qed
  ultimately show ?thesis using rep by (simp add: represents_def)
qed

lemma storable_link:
  assumes "storable C X x" "\<not> is_blank (al_record_id l)"
    "\<forall>y \<in> set (si_audit_links x). al_kind y = al_kind l \<longrightarrow> al_record_id y \<noteq> al_record_id l"
  shows "storable C X (x\<lparr>si_audit_links := si_audit_links x @ [l]\<rparr>)"
  using assms stored_row_update(3,4) [OF storable_row [OF assms(1)]]
  by (auto simp: storable_def typed_stored_def stored_row_def row_of_def)

lemma transition_hits_stored:
  assumes C: "sqlite_codec_ok C" and s: "storable C X s" and e: "sq_encode_state C e = Some ej"
  shows "transition_hits i e ej (uint now) (stored_row C s) \<longleftrightarrow>
     si_invocation_id s = i \<and> si_state s = e \<and> si_updated_at s \<le> now"
proof -
  have "si_state s = e" if "rw_state_json (stored_row C s) = ej"
    using C e row_fields(11) [OF s] that unfolding sqlite_codec_ok_def by (metis option.inject)
  then show ?thesis
    using row_fields(11) [OF s] e
    by (auto simp: transition_hits_def row_fields(1,10,31) [OF s] word_le_def)
qed

lemma transition_case:
  assumes C: "sqlite_codec_ok C" and rep: "represents C db ss" and ok: "records_ok C X ss"
    and valid: "valid_transition t" and now: "uint now < 2 ^ 63"
    and e: "sq_encode_state C (it_expected t) = Some ej" and n: "sq_encode_state C (it_next t) = Some nj"
    and x: "x \<in> set ss" "si_invocation_id x = i" "si_state x = it_expected t" "si_updated_at x \<le> now"
  defines "x2 \<equiv> x\<lparr>si_state := it_next t, si_updated_at := now\<rparr>"
  shows "storable C X x2"
    and "refined C X
      (transaction False db (map_ok (Pair ()) (attach_audit_record i (it_audit_record t) (uint now)
         (db\<lparr>db_invocations := map (stored_row C) (durable_swap x2 ss)\<rparr>))))
      (case apply_transition now t x of
         Inl _ \<Rightarrow> (Inl storage_error, ss)
       | Inr s' \<Rightarrow> if sql_audit_ok (it_audit_record t) then (Inr (), durable_swap s' ss) else (Inl storage_error, ss))"
proof -
  have sx: "storable C X x" using records_ok_storable [OF ok x(1)] .
  have allowed: "allowed_transition (it_expected t) (it_next t)"
    and audit: "transition_audit_validate (it_audit_record t) = Inr ()"
    using valid by (simp_all add: valid_transition_iff)
  have live: "it_expected t \<noteq> StAbandoned" "it_next t \<noteq> StAbandoned"
    using allowed allowed_not_reserved [OF allowed] by (cases "it_expected t"; simp)+
  then have "si_abandonment x = None" using sx x(3) by (auto simp: storable_def)
  then have x2: "x2 = x\<lparr>si_abandonment := None, si_state := it_next t, si_updated_at := now\<rparr>"
    by (simp add: x2_def)
  show sx2: "storable C X x2"
    unfolding x2 by (rule storable_update [OF sx n now x(4)]) (use live in simp_all)
  have fences: "state_fences (si_state x2) \<Longrightarrow> state_fences (si_state x)"
    using allowed x(3) by (cases "it_expected t"; cases "it_next t") (simp_all add: x2_def)
  have ids: "si_invocation_id x2 = si_invocation_id x" "si_audit_links x2 = si_audit_links x"
    by (simp_all add: x2_def)
  let ?ss = "durable_swap x2 ss" and ?db = "db\<lparr>db_invocations := map (stored_row C) (durable_swap x2 ss)\<rparr>"
  have ok2: "records_ok C X ?ss"
    by (rule records_ok_swap [OF ok x(1) sx2 ids(1)]) (use fences in \<open>simp_all add: x2_def\<close>)
  have rep2: "represents C ?db ?ss" by (rule represents_swap [OF rep ok x(1) ids])
  have mem2: "x2 \<in> set ?ss" by (rule durable_swap_mem [OF x(1) ids(1)])
  obtain link where link: "audit_link_from_transition (it_audit_record t) now = Inr link"
    using audit by (cases "it_audit_record t") (auto simp: audit_link_try_new_def)
  have applied: "apply_transition now t x = attach_link link x2"
    using x(3,4) link
    by (auto simp: apply_transition_def attach_link_def x2_def not_less split: option.splits)
  note attached = attach_represented [OF rep2 ok2 mem2 link, unfolded ids x(2)]
  show "refined C X
      (transaction False db (map_ok (Pair ()) (attach_audit_record i (it_audit_record t) (uint now) ?db)))
      (case apply_transition now t x of
         Inl _ \<Rightarrow> (Inl storage_error, ss)
       | Inr s' \<Rightarrow> if sql_audit_ok (it_audit_record t) then (Inr (), durable_swap s' ss) else (Inl storage_error, ss))"
  proof (cases "is_ok (attach_link link x2) \<and> sql_audit_ok (it_audit_record t)")
    case False
    then show ?thesis
      unfolding attached applied using rep ok
      by (cases "attach_link link x2") (simp_all add: refined_def transaction_def)
  next
    case True
    then obtain x3 where x3: "attach_link link x2 = Inr x3" by (auto simp: is_ok_iff)
    show ?thesis
    proof (cases link)
      case None
      with x3 have "x3 = x2" by (simp add: attach_link_def)
      with True None x3 rep2 ok2 show ?thesis
        unfolding attached applied by (simp add: refined_def transaction_def)
    next
      case (Some l)
      with x3 have l: "\<forall>y \<in> set (si_audit_links x2). al_kind y = al_kind l \<longrightarrow> al_record_id y \<noteq> al_record_id l"
        and x3_eq: "x3 = x2\<lparr>si_audit_links := si_audit_links x2 @ [l]\<rparr>"
        by (auto simp: attach_link_Inr)
      have "\<not> is_blank (al_record_id l)" using link Some by (auto simp: link_from_transition_Inr)
      from storable_link [OF sx2 this l] have sx3: "storable C X x3" unfolding x3_eq .
      have swap: "durable_swap x3 ?ss = durable_swap x3 ss"
        by (rule durable_swap_swap) (simp add: x3_eq)
      have "records_ok C X (durable_swap x3 ss)"
        unfolding swap [symmetric]
        by (rule records_ok_swap [OF ok2 mem2 sx3]) (simp_all add: x3_eq)
      moreover have "represents C (?db\<lparr>db_links := db_links ?db @
          numbered_links i (1 + int (length (si_audit_links x))) [l]\<rparr>) (durable_swap x3 ss)"
        using represents_link [OF rep2 ok2 mem2 x3_eq] unfolding swap ids x(2) .
      ultimately show ?thesis
        unfolding attached applied using True Some x3 by (simp add: refined_def transaction_def)
    qed
  qed
qed

lemma transition_refines:
  assumes C: "sqlite_codec_ok C" and rep: "represents C db ss" and ok: "records_ok C X ss"
    and valid: "valid_transition t"
  shows "refined C X (sqlite_transition C False now i t db) (durable_transition C now i t ss)"
proof -
  note defs = sqlite_transition_def durable_transition_def encode_state_def
  define Q where "Q s \<longleftrightarrow> si_invocation_id s = i \<and> si_state s = it_expected t \<and> si_updated_at s \<le> now"
    for s :: stored_invocation
  have Q_id: "\<forall>s. Q s \<longrightarrow> si_invocation_id s = i" by (simp add: Q_def)
  consider (unprinted) "sq_encode_state C (it_expected t) = None \<or> sq_encode_state C (it_next t) = None"
    | (printed) ej nj where "sq_encode_state C (it_expected t) = Some ej" "sq_encode_state C (it_next t) = Some nj"
    by (cases "sq_encode_state C (it_expected t)"; cases "sq_encode_state C (it_next t)") auto
  then show ?thesis
  proof cases
    case unprinted
    then show ?thesis using rep ok
      by (cases "sq_encode_state C (it_expected t)") (auto simp: refined_def defs transaction_def)
  next
    case (printed ej nj)
    let ?f = "\<lambda>r. r\<lparr>rw_state_kind := wire_name (it_next t), rw_state_json := nj, rw_updated_at := uint now\<rparr>"
    have hits: "\<forall>s \<in> set ss. transition_hits i (it_expected t) ej (uint now) (stored_row C s) = Q s"
      using transition_hits_stored [OF C records_ok_storable [OF ok] printed(1)] by (simp add: Q_def)
    note update = update_one [where P = "transition_hits i (it_expected t) ej (uint now)" and Q = Q and f = ?f,
        OF rep ok hits Q_id]
    consider (late) "\<not> uint now < 2 ^ 63" | (none) "uint now < 2 ^ 63" "find Q ss = None"
      | (some) x where "uint now < 2 ^ 63" "find Q ss = Some x" by (cases "find Q ss") auto
    then show ?thesis
    proof cases
      case late
      then show ?thesis using rep ok printed
        by (simp add: refined_def defs as_i64_def transaction_def)
    next
      case none
      then show ?thesis using rep ok printed update(1) [OF none(2)]
        by (simp add: refined_def defs as_i64_def transaction_def Q_def [abs_def])
    next
      case (some x)
      have x: "x \<in> set ss" "Q x" using find_SomeD [OF some(2)] by simp_all
      note x' = x(2) [unfolded Q_def]
      let ?x2 = "x\<lparr>si_state := it_next t, si_updated_at := now\<rparr>"
      note moved = transition_case [OF C rep ok valid some(1) printed x(1)]
      have "storable C X ?x2" using moved(1) x' by simp
      then have "update_rows (transition_hits i (it_expected t) ej (uint now)) ?f db
          = Inr (1, db\<lparr>db_invocations := map (stored_row C) (durable_swap ?x2 ss)\<rparr>)"
        using x' stored_row_update(1) [OF storable_row [OF records_ok_storable [OF ok x(1)]] printed(2) some(1)]
        by (intro update(2) [OF some(2)]) (simp_all add: storable_def)
      moreover have "refined C X
          (transaction False db (map_ok (Pair ()) (attach_audit_record i (it_audit_record t) (uint now)
             (db\<lparr>db_invocations := map (stored_row C) (durable_swap ?x2 ss)\<rparr>))))
          (durable_transition C now i t ss)"
        using moved(2) x' some printed by (simp add: durable_transition_def Q_def [abs_def])
      ultimately show ?thesis
        using some(1) printed by (simp add: sqlite_transition_def encode_state_def as_i64_def)
    qed
  qed
qed

text \<open>The reservation: expired rows go, then a row is found or one is added.\<close>

lemma records_ok_filter: "records_ok C X ss \<Longrightarrow> records_ok C X (filter P ss)"
  by (auto simp: records_ok_def scopes_fenced_def distinct_map_filter)

lemma represents_expire:
  assumes rep: "represents C db ss" and ok: "records_ok C X ss"
  shows "represents C (delete_expired (uint now) db) (durable_expire now ss)"
    and "records_ok C X (durable_expire now ss)"
proof -
  let ?gone = "\<lambda>r. rw_retention_until r \<le> uint now \<and> \<not> row_fences r"
  have row: "?gone (stored_row C s) \<longleftrightarrow> \<not> (now < si_retention_until s \<or> state_fences (si_state s))"
    if "s \<in> set ss" for s
    using records_ok_storable [OF ok that] by (simp add: row_fields word_less_def not_less)
  have rows: "db_invocations db = map (stored_row C) ss" using rep by (simp add: represents_def)
  have kept: "filter (\<lambda>r. \<not> ?gone r) (db_invocations db) = map (stored_row C) (durable_expire now ss)"
    unfolding rows durable_expire_def filter_map comp_def using row by (intro arg_cong [of _ _ "map _"] filter_cong) auto
  have "rw_invocation_id ` set (filter ?gone (db_invocations db)) = si_invocation_id ` (set ss - set (durable_expire now ss))"
    unfolding rows durable_expire_def using row row_fields(1) [OF records_ok_storable [OF ok]] by (force simp: image_iff)
  moreover have "si_invocation_id s \<in> si_invocation_id ` (set ss - set (durable_expire now ss))
      \<longleftrightarrow> s \<notin> set (durable_expire now ss)" if "s \<in> set ss" for s
    using same_id_same_record [OF ok that] that by (auto simp: image_iff)
  ultimately have dropped: "si_invocation_id s \<in> rw_invocation_id ` set (filter ?gone (db_invocations db))
      \<longleftrightarrow> s \<notin> set (durable_expire now ss)" if "s \<in> set ss" for s
    using that by simp
  have sub: "set (durable_expire now ss) \<subseteq> set ss" by (auto simp: durable_expire_def)
  have links: "filter (\<lambda>l. ln_invocation_id l = si_invocation_id s) (db_links (delete_expired (uint now) db))
      = numbered_links (si_invocation_id s) 1 (si_audit_links s)" if "s \<in> set (durable_expire now ss)" for s
  proof -
    have "filter (\<lambda>l. ln_invocation_id l = si_invocation_id s) (db_links (delete_expired (uint now) db))
        = filter (\<lambda>l. ln_invocation_id l = si_invocation_id s) (db_links db)"
    proof -
      define G where "G = rw_invocation_id ` set (filter ?gone (db_invocations db))"
      have "si_invocation_id s \<notin> G" unfolding G_def using dropped [of s] that sub by blast
      moreover have "db_links (delete_expired (uint now) db) = filter (\<lambda>l. ln_invocation_id l \<notin> G) (db_links db)"
        by (simp add: delete_expired_def G_def)
      ultimately show ?thesis by (auto intro: filter_cong)
    qed
    also have "\<dots> = numbered_links (si_invocation_id s) 1 (si_audit_links s)"
      using rep that sub by (auto simp: represents_def)
    finally show ?thesis .
  qed
  have "\<exists>s \<in> set (durable_expire now ss). si_invocation_id s = ln_invocation_id l"
    if "l \<in> set (db_links (delete_expired (uint now) db))" for l
  proof -
    have l: "l \<in> set (db_links db)" "ln_invocation_id l \<notin> rw_invocation_id ` set (filter ?gone (db_invocations db))"
      using that by (auto simp: delete_expired_def Let_def)
    obtain s where s: "s \<in> set ss" "si_invocation_id s = ln_invocation_id l"
      using rep l(1) by (auto simp: represents_def)
    then show ?thesis using dropped [OF s(1)] l(2) by auto
  qed
  with links kept show "represents C (delete_expired (uint now) db) (durable_expire now ss)"
    by (simp add: represents_def delete_expired_def Let_def)
  show "records_ok C X (durable_expire now ss)"
    using records_ok_filter [OF ok] by (simp add: durable_expire_def)
qed

lemma insert_represented:
  assumes C: "sqlite_codec_ok C" and rep: "represents C db ss" and ok: "records_ok C X ss"
    and new: "stored_try_reserve q d now ret = Inr s" and typed: "typed_stored X s"
    and key: "\<forall>x \<in> set ss. key_from_invocation x \<noteq> key_from_invocation s"
    and scope: "\<forall>x \<in> set ss. si_scope x = si_scope s \<longrightarrow> \<not> state_fences (si_state x)"
    and id: "\<forall>x \<in> set ss. si_invocation_id x \<noteq> si_invocation_id s"
  shows "case durable_insert C s ss of
      None \<Rightarrow> and_then (row_of C s) (\<lambda>r. insert_row r db) = Inl storage_error
        \<or> (\<exists>e. row_of C s = Inl e)
    | Some ss' \<Rightarrow> \<exists>db'. and_then (row_of C s) (\<lambda>r. insert_row r db) = Inr db'
        \<and> represents C db' ss' \<and> records_ok C X ss'"
proof (cases "is_ok (row_of C s)")
  case False
  then show ?thesis by (cases "row_of C s") (simp_all add: durable_insert_def)
next
  case True
  note s = stored_try_reserve_Inr [OF new]
  obtain r where r: "row_of C s = Inr r" using True by (auto simp: is_ok_iff)
  then have "rw_abandonment_authorization_record_id r = None" "rw_abandoned_by r = None"
    by (auto simp: row_of_def)
  then have r_eq: "r = stored_row C s" by (simp add: stored_row_def r s(12))
  note row = stored_row_fields [OF True, folded r_eq]
  have checks: "row_checks r \<longleftrightarrow> si_created_at s < si_retention_until s"
    using wire_name_kinds(4) [of "si_state s"] s(9,10) by (simp add: row_checks_def row word_less_def)
  have rows: "db_invocations db = map (stored_row C) ss" using rep by (simp add: represents_def)
  have stored: "storable C X x" if "x \<in> set ss" for x using records_ok_storable [OF ok that] .
  have key_r: "row_key r = key_from_invocation s" by (simp add: row_key_def key_from_invocation_def row)
  have unique: "(\<exists>x \<in> set (db_invocations db). rw_invocation_id x = rw_invocation_id r
        \<or> rw_status_id x = rw_status_id r \<or> row_key x = row_key r)
      \<longleftrightarrow> si_status_id s \<in> si_status_id ` set ss"
  proof -
    have "(rw_invocation_id (stored_row C x) = rw_invocation_id r \<or> rw_status_id (stored_row C x) = rw_status_id r
        \<or> row_key (stored_row C x) = row_key r) \<longleftrightarrow> si_status_id x = si_status_id s" if "x \<in> set ss" for x
      using key id that by (simp add: key_r row row_fields(1,2) [OF stored [OF that]] row_key_stored [OF stored [OF that]])
    then show ?thesis unfolding rows set_map bex_simps image_iff by metis
  qed
  show ?thesis
  proof (cases "si_created_at s < si_retention_until s \<and> si_status_id s \<notin> si_status_id ` set ss")
    case False
    then show ?thesis using checks unique True r by (auto simp: durable_insert_def insert_row_def)
  next
    case fits: True
    have "storable C X s"
      using True typed fits checks s wf_stored_def [of s] by (simp add: storable_def r_eq)
    then have "records_ok C X (ss @ [s])"
      using ok key scope id fits unfolding records_ok_def scopes_fenced_def by auto
    moreover have "filter (\<lambda>l. ln_invocation_id l = si_invocation_id s) (db_links db) = []"
      using rep id by (fastforce simp: represents_def filter_empty_conv)
    then have "represents C (db\<lparr>db_invocations := db_invocations db @ [r]\<rparr>) (ss @ [s])"
      using rep s(8) by (auto simp: represents_def r_eq)
    ultimately show ?thesis
      using fits checks unique True r by (simp add: durable_insert_def insert_row_def)
  qed
qed

lemma validate_timestamps_Inr:
  "validate_sqlite_timestamps s = Inr u \<Longrightarrow> uint (si_created_at s) < 2 ^ 63"
  by (auto simp: validate_sqlite_timestamps_def)

lemma reserve_refines:
  assumes C: "sqlite_codec_ok C" and rep: "represents C db ss" and ok: "records_ok C X ss"
    and typed: "\<And>s. stored_try_reserve q d now ret = Inr s \<Longrightarrow> typed_stored X s"
  shows "refined C X (sqlite_reserve_or_get C X False now q d ret db) (durable_reserve C now q d ret ss)"
proof (cases "and_then (stored_try_reserve q d now ret) (\<lambda>s. map_ok (\<lambda>_. s) (validate_sqlite_timestamps s))")
  case (Inl e)
  then show ?thesis using rep ok by (simp add: refined_def sqlite_reserve_or_get_def durable_reserve_def)
next
  case checked: (Inr s)
  then obtain u where new: "stored_try_reserve q d now ret = Inr s" and stamps: "validate_sqlite_timestamps s = Inr u"
    by auto
  let ?db = "delete_expired (uint now) db" and ?kept = "durable_expire now ss"
  note kept = represents_expire [OF rep ok, of now]
  have stored: "storable C X x" if "x \<in> set ?kept" for x using records_ok_storable [OF kept(2) that] .
  have now: "as_i64 now = Inr (uint now)"
    using validate_timestamps_Inr [OF stamps] stored_try_reserve_Inr(9) [OF new] by simp
  have rows: "db_invocations ?db = map (stored_row C) ?kept" using kept(1) by (simp add: represents_def)
  have exact: "find (\<lambda>r. row_key r = key_from_invocation s) (db_invocations ?db) =
      map_option (stored_row C) (find (\<lambda>x. key_from_invocation x = key_from_invocation s) ?kept)"
    by (rule find_row [OF kept]) (simp add: row_key_stored [OF stored])
  have fenced: "(\<exists>r \<in> set (db_invocations ?db). same_scope (row_key r) (key_from_invocation s) \<and> row_fences r)
      \<longleftrightarrow> (\<exists>x \<in> set ?kept. si_scope x = si_scope s \<and> state_fences (si_state x))"
    unfolding rows
    by (simp add: row_key_stored [OF stored] row_fences_stored [OF stored] same_scope_of_scope cong: bex_cong)
  have exists: "(\<exists>r \<in> set (db_invocations ?db). rw_invocation_id r = si_invocation_id s)
      \<longleftrightarrow> (\<exists>x \<in> set ?kept. si_invocation_id x = si_invocation_id s)"
    unfolding rows using row_fields(1) [OF stored] by simp
  have conc: "sqlite_reserve_or_get C X False now q d ret db = transaction False db (sqlite_reserve_body C X now s db)"
    by (simp add: sqlite_reserve_or_get_def checked)
  show ?thesis
  proof (cases "find (\<lambda>x. key_from_invocation x = key_from_invocation s) ?kept")
    case (Some x)
    then have "x \<in> set ?kept" by (auto dest: find_SomeD)
    from load_row_represented [OF C kept this] show ?thesis
      unfolding conc using kept rep ok
      by (simp add: refined_def sqlite_reserve_body_def now Let_def exact Some durable_reserve_def checked transaction_def)
  next
    case None
    have key: "\<forall>x \<in> set ?kept. key_from_invocation x \<noteq> key_from_invocation s"
      using None by (simp add: find_None_iff)
    have body: "sqlite_reserve_body C X now s db =
        (if \<exists>x \<in> set ?kept. si_scope x = si_scope s \<and> state_fences (si_state x) then Inl scope_outcome_unknown
         else if \<exists>x \<in> set ?kept. si_invocation_id x = si_invocation_id s
         then Inl (sqlite_invalid ''invocation ID is already reserved'')
         else map_ok (Pair (reservation_from_stored KindReserved s)) (and_then (row_of C s) (\<lambda>r. insert_row r ?db)))"
      by (simp only: sqlite_reserve_body_def now Let_def exact None fenced exists and_then_simps option.map option.case)
    have abst: "durable_reserve C now q d ret ss =
        (if \<exists>x \<in> set ?kept. si_scope x = si_scope s \<and> state_fences (si_state x) then (Inl scope_outcome_unknown, ss)
         else if \<exists>x \<in> set ?kept. si_invocation_id x = si_invocation_id s
         then (Inl (sqlite_invalid ''invocation ID is already reserved''), ss)
         else (case durable_insert C s ?kept of None \<Rightarrow> (Inl storage_error, ss)
           | Some ss' \<Rightarrow> (Inr (reservation_from_stored KindReserved s), ss')))"
      by (simp only: durable_reserve_def checked Let_def None sum.case option.case)
    show ?thesis
    proof (cases "(\<exists>x \<in> set ?kept. si_scope x = si_scope s \<and> state_fences (si_state x))
        \<or> (\<exists>x \<in> set ?kept. si_invocation_id x = si_invocation_id s)")
      case True
      then show ?thesis
        unfolding conc body abst using rep ok by (auto simp: refined_def transaction_def)
    next
      case False
      then have fresh: "\<forall>x \<in> set ?kept. si_scope x = si_scope s \<longrightarrow> \<not> state_fences (si_state x)"
        "\<forall>x \<in> set ?kept. si_invocation_id x \<noteq> si_invocation_id s" by blast+
      have plain: "\<And>a b c. (if \<exists>x \<in> set ?kept. si_scope x = si_scope s \<and> state_fences (si_state x) then a
          else if \<exists>x \<in> set ?kept. si_invocation_id x = si_invocation_id s then b else c) = c"
        using False by auto
      have errors: "row_of C s = Inl e \<Longrightarrow> e = storage_error" for e
        using stamps by (auto simp: row_of_def as_i64_def encode_state_def validate_sqlite_timestamps_def ok_or_def
            and_then_Inl_iff map_ok_def split: option.splits sum.splits)
      show ?thesis
        using insert_represented [OF C kept new typed [OF new] key fresh] rep ok errors
        unfolding conc body abst
        by (cases "durable_insert C s ?kept") (auto simp: plain refined_def transaction_def)
    qed
  qed
qed

text \<open>
  With a fault of the database every operation answers an error and leaves the tables alone.
\<close>

lemma faulted_operations:
  "sqlite_reserve_or_get C X True now q d ret db = (res, db') \<Longrightarrow> db' = db \<and> \<not> is_ok res"
  "sqlite_transition C True now i t db = (Inl storage_error, db)"
  "sqlite_abandon C True now i c a db = (res', db'') \<Longrightarrow> db'' = db \<and> \<not> is_ok res'"
  "recover_incomplete_effects C True now db = (res', db'') \<Longrightarrow> db'' = db \<and> \<not> is_ok res'"
  by (auto simp: sqlite_reserve_or_get_def sqlite_transition_def sqlite_abandon_def transaction_def
      recover_incomplete_effects_def split: sum.splits prod.splits)

section \<open>The interface of the invocation store\<close>

text \<open>
  What the client of the store sees. The values it hands over have been through the constructors of
  their types; \<open>down\<close> tells at which clock readings the database fails.
\<close>

definition lite_reserve ::
  "sqlite_codec \<Rightarrow> externals \<Rightarrow> (u64 \<Rightarrow> bool) \<Rightarrow> u64 \<Rightarrow> reservation_input \<Rightarrow> capability_descriptor \<Rightarrow> u64 \<Rightarrow>
     database \<Rightarrow> (diagnostic, invocation_reservation) result \<times> database" where
  "lite_reserve C X down now q d ret db =
     (if case stored_try_reserve q d now ret of Inl _ \<Rightarrow> True | Inr s \<Rightarrow> typed_stored X s
      then sqlite_reserve_or_get C X (down now) now q d ret db else (Inl storage_error, db))"

definition lite_transition ::
  "sqlite_codec \<Rightarrow> (u64 \<Rightarrow> bool) \<Rightarrow> u64 \<Rightarrow> string \<Rightarrow> invocation_transition \<Rightarrow> database \<Rightarrow>
     (diagnostic, unit) result \<times> database" where
  "lite_transition C down now i t db =
     (if valid_transition t then sqlite_transition C (down now) now i t db else (Inl storage_error, db))"

definition lite_abandon ::
  "sqlite_codec \<Rightarrow> (u64 \<Rightarrow> bool) \<Rightarrow> u64 \<Rightarrow> string \<Rightarrow> status_context \<Rightarrow> abandonment_authorization \<Rightarrow>
     database \<Rightarrow> (diagnostic, unit) result \<times> database" where
  "lite_abandon C down now i c a db =
     (if typed_abandonment a then sqlite_abandon C (down now) now i c a db else (Inl storage_error, db))"

definition lite_ops :: "sqlite_codec \<Rightarrow> externals \<Rightarrow> (u64 \<Rightarrow> bool) \<Rightarrow> database store_ops" where
  "lite_ops C X down =
     \<lparr>sto_reserve_or_get = lite_reserve C X down,
      sto_transition = lite_transition C down,
      sto_status = sqlite_status C X False, sto_abandon = lite_abandon C down\<rparr>"

definition lite_inv :: "sqlite_codec \<Rightarrow> externals \<Rightarrow> database \<Rightarrow> bool" where
  "lite_inv C X db = (sqlite_codec_ok C \<and> (\<exists>ss. represents C db ss \<and> records_ok C X ss))"

definition lite_records :: "sqlite_codec \<Rightarrow> externals \<Rightarrow> database \<Rightarrow> stored_invocation set" where
  "lite_records C X db = {s. \<exists>r \<in> set (db_invocations db). load_row C X db r = Inr s}"

lemma lite_records_eq:
  assumes "sqlite_codec_ok C" "represents C db ss" "records_ok C X ss"
  shows "lite_records C X db = set ss"
proof -
  have "db_invocations db = map (stored_row C) ss" using assms(2) by (simp add: represents_def)
  then show ?thesis using load_row_represented [OF assms] by (auto simp: lite_records_def)
qed

lemma lite_invE:
  assumes "lite_inv C X db"
  obtains ss where "sqlite_codec_ok C" "represents C db ss" "records_ok C X ss" "lite_records C X db = set ss"
  using assms lite_records_eq by (auto simp: lite_inv_def)

lemma refinedE:
  assumes "refined C X (res, db') abstract" "sqlite_codec_ok C"
  obtains ss' where "abstract = (res, ss')" "lite_inv C X db'" "lite_records C X db' = set ss'"
  using assms lite_records_eq [OF assms(2)] by (cases abstract) (auto simp: refined_def lite_inv_def)

lemma transaction_Inl: "transaction fault db body = (Inl e, db') \<Longrightarrow> db' = db"
  by (auto simp: transaction_def split: if_splits sum.splits)

lemma lite_transition_Inl: "lite_transition C down now i t db = (Inl e, db') \<Longrightarrow> db' = db"
  by (auto simp: lite_transition_def sqlite_transition_def split: if_splits dest: transaction_Inl)

lemma lite_abandon_Inl: "lite_abandon C down now i c a db = (Inl e, db') \<Longrightarrow> db' = db"
  by (auto simp: lite_abandon_def sqlite_abandon_def split: if_splits sum.splits prod.splits dest: transaction_Inl)

text \<open>What the operations on records promise.\<close>

lemma durable_insert_Some: "durable_insert C s ss = Some ss' \<Longrightarrow> ss' = ss @ [s]"
  by (simp add: durable_insert_def split: if_splits)

lemma durable_reserve_cases:
  assumes "durable_reserve C now q d ret ss = (res, ss')"
  obtains (failed) e where "res = Inl e" "ss' = ss"
    | (existing) s x where "stored_try_reserve q d now ret = Inr s" "x \<in> set (durable_expire now ss)"
        "key_from_invocation x = key_from_invocation s" "si_status_context x = si_status_context s"
        "si_request_digest x = si_request_digest s"
        "res = Inr (reservation_from_stored KindExisting x)" "ss' = durable_expire now ss"
    | (created) s where "stored_try_reserve q d now ret = Inr s"
        "\<forall>x \<in> set (durable_expire now ss). si_scope x = si_scope s \<longrightarrow> \<not> state_fences (si_state x)"
        "res = Inr (reservation_from_stored KindReserved s)" "ss' = durable_expire now ss @ [s]"
proof (cases "and_then (stored_try_reserve q d now ret) (\<lambda>s. map_ok (\<lambda>_. s) (validate_sqlite_timestamps s))")
  case (Inl e)
  with assms show thesis by (intro failed [of e]) (simp_all add: durable_reserve_def)
next
  case (Inr s)
  then have new: "stored_try_reserve q d now ret = Inr s" by auto
  let ?kept = "durable_expire now ss"
  show thesis
  proof (cases "find (\<lambda>x. key_from_invocation x = key_from_invocation s) ?kept")
    case (Some x)
    then have "x \<in> set ?kept" "key_from_invocation x = key_from_invocation s" by (auto dest: find_SomeD)
    with assms [symmetric] new Inr Some show thesis
      by (cases "si_status_context x = si_status_context s \<and> si_request_digest x = si_request_digest s")
        (auto simp: durable_reserve_def Let_def intro: existing failed split: if_splits)
  next
    case None
    have run: "(res, ss') = (if \<exists>x \<in> set ?kept. si_scope x = si_scope s \<and> state_fences (si_state x)
         then (Inl scope_outcome_unknown, ss)
         else if \<exists>x \<in> set ?kept. si_invocation_id x = si_invocation_id s
         then (Inl (sqlite_invalid ''invocation ID is already reserved''), ss)
         else (case durable_insert C s ?kept of None \<Rightarrow> (Inl storage_error, ss)
           | Some ss' \<Rightarrow> (Inr (reservation_from_stored KindReserved s), ss')))"
      unfolding assms [symmetric] by (simp only: durable_reserve_def Inr Let_def None sum.case option.case)
    show thesis
    proof (cases "(\<exists>x \<in> set ?kept. si_scope x = si_scope s \<and> state_fences (si_state x))
        \<or> (\<exists>x \<in> set ?kept. si_invocation_id x = si_invocation_id s) \<or> durable_insert C s ?kept = None")
      case True
      then have "\<exists>e. res = Inl e \<and> ss' = ss" using run by (auto split: if_splits)
      then show thesis using failed by blast
    next
      case False
      then obtain ss'' where ins: "durable_insert C s ?kept = Some ss''" by auto
      have fresh: "\<not> (\<exists>x \<in> set ?kept. si_scope x = si_scope s \<and> state_fences (si_state x))"
        "\<not> (\<exists>x \<in> set ?kept. si_invocation_id x = si_invocation_id s)"
        using False by blast+
      have "res = Inr (reservation_from_stored KindReserved s) \<and> ss' = ss''"
        using run unfolding if_not_P [OF fresh(1)] if_not_P [OF fresh(2)] ins by simp
      moreover have "\<forall>x \<in> set ?kept. si_scope x = si_scope s \<longrightarrow> \<not> state_fences (si_state x)"
        using False by blast
      ultimately show thesis using created [OF new] durable_insert_Some [OF ins] by blast
    qed
  qed
qed

lemma durable_expire_mem: "r \<in> set (durable_expire now ss) \<longleftrightarrow> r \<in> set ss \<and> (now < si_retention_until r \<or> state_fences (si_state r))"
  by (auto simp: durable_expire_def)

lemma set_durable_swap:
  assumes "records_ok C X ss" "x \<in> set ss" "si_invocation_id x' = si_invocation_id x"
  shows "set (durable_swap x' ss) = insert x' (set ss - {x})"
  using assms(2,3) same_id_same_record [OF assms(1) _ assms(2)] by (auto simp: durable_swap_def image_iff)

lemma durable_transition_ok:
  assumes "durable_transition C now i t ss = (Inr u, ss')" "records_ok C X ss"
  shows "\<exists>r \<in> set ss. si_invocation_id r = i \<and> (\<exists>r'. apply_transition now t r = Inr r'
    \<and> set ss' = insert r' (set ss - {r}))"
proof -
  from assms(1) obtain r r' where r: "find (\<lambda>s. si_invocation_id s = i \<and> si_state s = it_expected t \<and> si_updated_at s \<le> now) ss = Some r"
    "apply_transition now t r = Inr r'" "ss' = durable_swap r' ss"
    by (auto simp: durable_transition_def split: if_splits option.splits sum.splits)
  then have "r \<in> set ss" "si_invocation_id r = i" by (auto dest: find_SomeD)
  with r set_durable_swap [OF assms(2) this(1), of r'] apply_transition_fields(4) [OF r(2)] show ?thesis by blast
qed

lemma durable_abandon_ok:
  assumes "durable_abandon now i c a ss = (Inr u, ss')" "records_ok C X ss"
  shows "\<exists>r \<in> set ss. si_invocation_id r = i \<and> (\<exists>r'. abandons c a r r' \<and> set ss' = insert r' (set ss - {r}))"
proof -
  from assms(1) obtain r where r: "find (\<lambda>s. si_invocation_id s = i \<and> si_state s = StOutcomeUnknown \<and> si_updated_at s \<le> now
      \<and> si_status_context s = c) ss = Some r"
    "ss' = durable_swap (r\<lparr>si_abandonment := Some a, si_state := StAbandoned, si_updated_at := now\<rparr>) ss"
    by (auto simp: durable_abandon_def split: if_splits option.splits)
  let ?r' = "r\<lparr>si_abandonment := Some a, si_state := StAbandoned, si_updated_at := now\<rparr>"
  have f: "r \<in> set ss" "si_invocation_id r = i" "si_state r = StOutcomeUnknown" "si_updated_at r \<le> now"
    "si_status_context r = c"
    using r(1) by (auto dest: find_SomeD)
  then have "abandons c a r ?r'" by (auto simp: abandons_def)
  with f r(2) set_durable_swap [OF assms(2) f(1), of ?r'] show ?thesis by auto
qed

lemma durable_status_ok:
  assumes "records_ok C X ss"
  shows "durable_status q c ss = Inr st \<longleftrightarrow>
    (\<exists>r \<in> set ss. si_invocation_id r = sq_invocation_id q \<and> si_status_context r = c \<and> st = status_from_stored r)"
proof (cases "find (\<lambda>s. si_invocation_id s = sq_invocation_id q) ss")
  case None
  moreover have "\<forall>x \<in> set ss. si_invocation_id x \<noteq> sq_invocation_id q"
    using None unfolding find_None_iff by blast
  ultimately show ?thesis by (auto simp: durable_status_def)
next
  case (Some x)
  then have x: "x \<in> set ss" "si_invocation_id x = sq_invocation_id q" by (auto dest: find_SomeD)
  then have "(\<exists>r \<in> set ss. si_invocation_id r = sq_invocation_id q \<and> si_status_context r = c \<and> st = status_from_stored r)
      \<longleftrightarrow> si_status_context x = c \<and> st = status_from_stored x"
    using same_id_same_record [OF assms _ x(1)] x by metis
  then show ?thesis unfolding durable_status_def by (auto simp: Some)
qed

lemma lite_reserve_run:
  assumes "lite_inv C X db" "lite_reserve C X down now q d ret db = (res, db')"
  obtains (unchanged) e where "res = Inl e" "db' = db"
    | (ran) ss ss' where "records_ok C X ss" "lite_records C X db = set ss"
        "durable_reserve C now q d ret ss = (res, ss')" "lite_inv C X db'" "lite_records C X db' = set ss'"
proof -
  obtain ss where ss: "sqlite_codec_ok C" "represents C db ss" "records_ok C X ss" "lite_records C X db = set ss"
    by (rule lite_invE [OF assms(1)])
  show thesis
  proof (cases "(case stored_try_reserve q d now ret of Inl _ \<Rightarrow> True | Inr s \<Rightarrow> typed_stored X s) \<and> \<not> down now")
    case True
    then have run: "sqlite_reserve_or_get C X False now q d ret db = (res, db')"
      and typed: "\<And>s. stored_try_reserve q d now ret = Inr s \<Longrightarrow> typed_stored X s"
      using assms(2) by (auto simp: lite_reserve_def)
    have "refined C X (res, db') (durable_reserve C now q d ret ss)"
      using reserve_refines [OF ss(1-3), of q d now ret] typed unfolding run by blast
    then obtain ss' where "durable_reserve C now q d ret ss = (res, ss')" "lite_inv C X db'" "lite_records C X db' = set ss'"
      by (rule refinedE [OF _ ss(1)])
    with ss show thesis by (intro ran)
  next
    case False
    then have "db' = db \<and> \<not> is_ok res"
      using assms(2) faulted_operations(1) [of C X now q d ret db] by (auto simp: lite_reserve_def split: if_splits)
    then show thesis by (cases res) (auto intro: unchanged)
  qed
qed

lemma lite_transition_run:
  assumes "lite_inv C X db" "lite_transition C down now i t db = (Inr u, db')"
  obtains ss ss' where "records_ok C X ss" "lite_records C X db = set ss"
    "durable_transition C now i t ss = (Inr u, ss')" "lite_inv C X db'" "lite_records C X db' = set ss'"
proof -
  obtain ss where ss: "sqlite_codec_ok C" "represents C db ss" "records_ok C X ss" "lite_records C X db = set ss"
    by (rule lite_invE [OF assms(1)])
  have valid: "valid_transition t" using assms(2) by (auto simp: lite_transition_def split: if_splits)
  then have "\<not> down now" using assms(2) faulted_operations(2) by (auto simp: lite_transition_def)
  with assms(2) valid have run: "sqlite_transition C False now i t db = (Inr u, db')"
    by (simp add: lite_transition_def)
  from transition_refines [OF ss(1-3) valid, of now i, unfolded run]
  obtain ss' where "durable_transition C now i t ss = (Inr u, ss')" "lite_inv C X db'" "lite_records C X db' = set ss'"
    by (rule refinedE [OF _ ss(1)])
  with ss show thesis by (intro that)
qed

lemma lite_abandon_run:
  assumes "lite_inv C X db" "lite_abandon C down now i c a db = (Inr u, db')"
  obtains ss ss' where "records_ok C X ss" "lite_records C X db = set ss"
    "durable_abandon now i c a ss = (Inr u, ss')" "lite_inv C X db'" "lite_records C X db' = set ss'"
proof -
  obtain ss where ss: "sqlite_codec_ok C" "represents C db ss" "records_ok C X ss" "lite_records C X db = set ss"
    by (rule lite_invE [OF assms(1)])
  have typed: "typed_abandonment a" using assms(2) by (auto simp: lite_abandon_def split: if_splits)
  then have "\<not> down now"
    using assms(2) faulted_operations(3) [of C now i c a db "Inr u" db'] by (auto simp: lite_abandon_def)
  with assms(2) typed have run: "sqlite_abandon C False now i c a db = (Inr u, db')" by (simp add: lite_abandon_def)
  from abandon_refines [OF ss(1-3) typed, of now i c, unfolded run]
  obtain ss' where "durable_abandon now i c a ss = (Inr u, ss')" "lite_inv C X db'" "lite_records C X db' = set ss'"
    by (rule refinedE [OF _ ss(1)])
  with ss show thesis by (intro that)
qed

interpretation lite: invocation_store "lite_inv C X" "lite_records C X" "lite_reserve C X down"
  "lite_transition C down" "sqlite_status C X False" "lite_abandon C down" for C X down
proof
  fix s r x assume inv: "lite_inv C X s" and r: "r \<in> lite_records C X s" "x \<in> lite_records C X s"
  obtain ss where ss: "records_ok C X ss" "lite_records C X s = set ss" by (rule lite_invE [OF inv])
  show "si_invocation_id r = si_invocation_id x \<Longrightarrow> r = x"
    using same_id_same_record [OF ss(1)] r ss(2) by simp
  show "si_scope r = si_scope x \<Longrightarrow> state_fences (si_state r) \<Longrightarrow> state_fences (si_state x) \<Longrightarrow> r = x"
    using ss r by (auto simp: records_ok_def scopes_fenced_def)
next
  fix s now q d ret res s' r assume inv: "lite_inv C X s" and run: "lite_reserve C X down now q d ret s = (res, s')"
  show "lite_inv C X s'" by (rule lite_reserve_run [OF inv run]) (use inv in simp_all)
  show "r \<in> lite_records C X s'" if "r \<in> lite_records C X s" "state_fences (si_state r) \<or> now < si_retention_until r"
    by (rule lite_reserve_run [OF inv run])
      (use that in \<open>auto elim!: durable_reserve_cases simp: durable_expire_mem\<close>)
  show "r \<in> lite_records C X s \<or> stored_try_reserve q d now ret = Inr r
      \<and> res = Inr (reservation_from_stored KindReserved r)" if "r \<in> lite_records C X s'"
    by (rule lite_reserve_run [OF inv run])
      (use that in \<open>auto elim!: durable_reserve_cases simp: durable_expire_mem\<close>)
next
  fix s now q d ret v s'
  assume inv: "lite_inv C X s" and run: "lite_reserve C X down now q d ret s = (Inr v, s')"
  then obtain ss ss' where ss: "lite_records C X s = set ss" "durable_reserve C now q d ret ss = (Inr v, ss')"
    "lite_records C X s' = set ss'"
    by (auto elim: lite_reserve_run)
  show "\<exists>r. stored_try_reserve q d now ret = Inr r \<and> v = reservation_from_stored KindReserved r
      \<and> r \<in> lite_records C X s' \<and> (\<forall>x \<in> lite_records C X s. si_scope x = si_scope r \<longrightarrow> \<not> state_fences (si_state x))"
    if "ir_kind v = KindReserved"
    using ss(2)
  proof (cases rule: durable_reserve_cases)
    case (created r)
    then show ?thesis using ss(1,3) by (auto simp: durable_expire_mem)
  qed (use that in \<open>auto simp: reservation_from_stored_def\<close>)
  show "\<exists>r \<in> lite_records C X s. v = reservation_from_stored KindExisting r \<and> r \<in> lite_records C X s'
      \<and> si_scope r = ri_scope q \<and> si_idempotency_key r = ri_idempotency_key q
      \<and> si_status_context r = ri_status_context q \<and> si_request_digest r = ri_request_digest q"
    if "ir_kind v = KindExisting"
    using ss(2)
  proof (cases rule: durable_reserve_cases)
    case (existing r x)
    have "si_scope x = si_scope r" using existing(3) same_scope_of_scope [of x r] by simp
    moreover have "si_idempotency_key x = si_idempotency_key r"
      using existing(3) by (simp add: key_from_invocation_def)
    ultimately show ?thesis
      using existing ss(1,3) stored_try_reserve_Inr(4-7) [OF existing(1)] by (auto simp: durable_expire_mem)
  qed (use that in \<open>auto simp: reservation_from_stored_def\<close>)
next
  fix s t now i res s' assume inv: "lite_inv C X s" and run: "lite_transition C down now i t s = (res, s')"
  show "lite_inv C X s'"
  proof (cases res)
    case (Inr u)
    with run show ?thesis by (auto elim: lite_transition_run [OF inv])
  qed (use run inv lite_transition_Inl in blast)
next
  fix s i c a now res s' assume inv: "lite_inv C X s" and run: "lite_abandon C down now i c a s = (res, s')"
  show "lite_inv C X s'"
  proof (cases res)
    case (Inr u)
    with run show ?thesis by (auto elim: lite_abandon_run [OF inv])
  qed (use run inv lite_abandon_Inl in blast)
next
  fix s t now i u s' assume inv: "lite_inv C X s" and run: "lite_transition C down now i t s = (Inr u, s')"
  show "\<exists>r \<in> lite_records C X s. si_invocation_id r = i \<and> (\<exists>r'. apply_transition now t r = Inr r'
      \<and> lite_records C X s' = insert r' (lite_records C X s - {r}))"
    by (rule lite_transition_run [OF inv run]) (use durable_transition_ok in metis)
next
  fix s i c a now u s' assume inv: "lite_inv C X s" and run: "lite_abandon C down now i c a s = (Inr u, s')"
  show "\<exists>r \<in> lite_records C X s. si_invocation_id r = i \<and> (\<exists>r'. abandons c a r r'
      \<and> lite_records C X s' = insert r' (lite_records C X s - {r}))"
    by (rule lite_abandon_run [OF inv run]) (use durable_abandon_ok in metis)
next
  fix s sq c st assume inv: "lite_inv C X s"
  show "sqlite_status C X False sq c s = Inr st \<longleftrightarrow> (\<exists>r \<in> lite_records C X s.
      si_invocation_id r = sq_invocation_id sq \<and> si_status_context r = c \<and> st = status_from_stored r)"
    by (rule lite_invE [OF inv]) (simp add: sqlite_status_refines durable_status_ok)
qed (use lite_transition_Inl lite_abandon_Inl in blast)+

end
