(* ===== verification/KF_Restart.thy ===== *)
theory KF_Restart
  imports KF_Durable
begin

text \<open>
  The enforcement plane on the SQLite store and the file ledger, across deaths of the process. A
  restart forgets every task and opens the database again, which runs
  \<open>recover_incomplete_effects\<close> of \<open>crates/kiteframe-provider-sqlite/src/lib.rs\<close>; between
  restarts the provider of \<open>KF_Effect\<close> runs as it does on the in-memory store.
\<close>

definition lite_plane ::
  "sqlite_codec \<Rightarrow> (u64 \<Rightarrow> bool) \<Rightarrow> ledger_codec \<Rightarrow> externals \<Rightarrow> effect_audit_digests \<Rightarrow>
     (database, ledger_files, append_io) enforcement_plane" where
  "lite_plane S down C X D = \<lparr>ef_store = lite_ops S X down, ef_audit = ledger_ops C X, ef_digests = D\<rparr>"

interpretation dplane: effect_platform "lite_inv S X" "lite_records S X" "lite_plane S down C X D" "ledger_durable C X"
  for S X down C D
proof -
  have "invocation_store (lite_inv S X) (lite_records S X) (lite_reserve S X down) (lite_transition S down)
      (sqlite_status S X False) (lite_abandon S down)"
    by unfold_locales
  then show "effect_platform (lite_inv S X) (lite_records S X) (lite_plane S down C X D) (ledger_durable C X)"
    using ledger.audit_sink_axioms
    by (simp add: effect_platform_def lite_plane_def lite_ops_def ledger_ops_def)
qed

definition empty_database :: database where
  "empty_database = \<lparr>db_invocations = [], db_links = []\<rparr>"

lemma empty_represents [simp]: "represents S empty_database []" "records_ok S X []"
  by (simp_all add: represents_def records_ok_def scopes_fenced_def empty_database_def)

lemma empty_lite [simp]: "sqlite_codec_ok S \<Longrightarrow> lite_inv S X empty_database" "lite_records S X empty_database = {}"
proof -
  show "lite_inv S X empty_database" if "sqlite_codec_ok S"
    unfolding lite_inv_def using that empty_represents by blast
qed (simp add: lite_records_def empty_database_def)

section \<open>A provider that dies and comes back\<close>

definition restarted :: "database \<Rightarrow> (database, 'a) provider \<Rightarrow> (database, 'a) provider" where
  "restarted db s = s\<lparr>pr_world := (pr_world s)\<lparr>ew_store := db\<rparr>, pr_effects := [], pr_suspends := []\<rparr>"

inductive durable_step ::
  "sqlite_codec \<Rightarrow> externals \<Rightarrow> (database, 'a, 'io) enforcement_plane \<Rightarrow>
     (database, 'a) provider \<Rightarrow> (database, 'a) provider \<Rightarrow> bool"
  for S X P where
  run_on: "provider_step X P s s' \<Longrightarrow> durable_step S X P s s'"
| restart: "recover_incomplete_effects S fault now (ew_store (pr_world s)) = (Inr (), db) \<Longrightarrow>
    durable_step S X P s (restarted db s)"

definition durable_reachable ::
  "sqlite_codec \<Rightarrow> externals \<Rightarrow> (database, 'a, 'io) enforcement_plane \<Rightarrow>
     (database, 'a) provider \<Rightarrow> (database, 'a) provider \<Rightarrow> bool" where
  "durable_reachable S X P start s = (durable_step S X P)\<^sup>*\<^sup>* start s"

lemma lite_recover_run:
  assumes "lite_inv S X db" "recover_incomplete_effects S fault now db = (Inr u, db')"
  shows "lite_inv S X db'" "lite_records S X db' = recovered now ` lite_records S X db"
proof -
  obtain ss where ss: "sqlite_codec_ok S" "represents S db ss" "records_ok S X ss" "lite_records S X db = set ss"
    by (rule lite_invE [OF assms(1)])
  have "\<not> fault" using assms(2) faulted_operations(4) [of S now db "Inr u" db'] by auto
  with assms(2) have run: "recover_incomplete_effects S False now db = (Inr u, db')" by simp
  from recover_refines [OF ss(1-3), of now, unfolded run]
  obtain ss' where ss': "durable_recover now ss = (Inr u, ss')" "lite_inv S X db'" "lite_records S X db' = set ss'"
    by (rule refinedE [OF _ ss(1)])
  then show "lite_inv S X db'" "lite_records S X db' = recovered now ` lite_records S X db"
    using ss(4) by (auto simp: durable_recover_def split: if_splits)
qed

lemma recovered_unstarted: "unstarted (recovered now r) \<Longrightarrow> unstarted r \<and> recovered now r = r"
  by (auto simp: recovered_def unstarted_def split: if_splits)

lemma restarted_inv:
  assumes inv: "provider_inv (lite_inv S X) (lite_records S X) durable X P s"
    and run: "recover_incomplete_effects S fault now (ew_store (pr_world s)) = (Inr (), db)"
  shows "provider_inv (lite_inv S X) (lite_records S X) durable X P (restarted db s)"
proof -
  let ?w = "pr_world s"
  have old: "lite_inv S X (ew_store ?w)"
    "starts_counted (lite_records S X (ew_store ?w)) ?w (pr_effects s)"
    "\<forall>e \<in> set (ew_executed ?w). execution_audited durable (ew_audit ?w) e"
    using inv by (simp_all add: provider_inv_def exclusive_starts_def Let_def)
  note recover = lite_recover_run [OF old(1) run]
  have "starts_counted (lite_records S X db) (?w\<lparr>ew_store := db\<rparr>) []"
    by (rule starts_counted_mono [OF old(2)])
      (auto simp: may_start_def recover(2) dest: recovered_unstarted)
  then show ?thesis
    using recover(1) old(3)
    by (simp add: restarted_def provider_inv_def exclusive_starts_def owners_distinct_def owners_pending_def Let_def)
qed

lemma durable_reachable_inv:
  assumes "sqlite_codec_ok S"
    and "durable_reachable S X (lite_plane S down C X D) (provider_start empty_database files) s"
  shows "provider_inv (lite_inv S X) (lite_records S X) (ledger_durable C X) X (lite_plane S down C X D) s"
  using assms(2) [unfolded durable_reachable_def]
proof (induction rule: rtranclp_induct)
  case base
  show ?case
    by (rule dplane.provider_reachable_inv [of _ _ _ _ _ _ empty_database files])
      (use assms(1) in \<open>simp_all add: provider_reachable_def\<close>)
next
  case (step s s')
  from step.hyps(2) show ?case
  proof (cases rule: durable_step.cases)
    case run_on
    then show ?thesis using dplane.provider_step_inv step.IH by blast
  next
    case (restart fault now db)
    then show ?thesis using restarted_inv [OF step.IH] by simp
  qed
qed

lemma recovered_state:
  "si_state (recovered now r) \<noteq> StReserved \<and> si_state (recovered now r) \<noteq> StPending"
  "recovered later (recovered now r) = recovered now r"
  by (auto simp: recovered_def)

section \<open>What decoding accepts\<close>

lemma row_digest_wf: "\<exists>t. row_digest t = Inr d \<Longrightarrow> wf_digest d"
  using digest_hex_round_trip by (auto simp: row_digest_def)

lemma decode_abandonment_typed:
  "decode_abandonment r = Inr b \<Longrightarrow> \<forall>a. b = Some a \<longrightarrow> typed_abandonment a"
  by (auto simp: decode_abandonment_def abandonment_try_new_def typed_abandonment_def split: option.splits if_splits)

lemma decode_state_typed:
  "decode_state C r b = Inr st \<Longrightarrow> wire_name st = rw_state_kind r \<and> (b \<noteq> None \<longleftrightarrow> st = StAbandoned)"
  by (auto simp: decode_state_def split: if_splits)

lemma decode_scope_typed:
  "decode_scope X r = Inr v \<Longrightarrow> typed_scope X v \<and> isv_actor v = rw_actor_ref r"
  by (auto simp: decode_scope_def typed_scope_def scope_try_new_def symbol_new_def release_version_new_def split: if_splits)

lemma decode_context_typed:
  "decode_context r = Inr c \<Longrightarrow>
     typed_context c \<and> sc_actor_ref c = rw_actor_ref r \<and> sc_admission_ref c = rw_admission_id r"
  by (auto simp: decode_context_def typed_context_def status_context_try_new_def split: if_splits)

section \<open>A sample run\<close>

text \<open>
  The effect of \<open>KF_Effect\<close>'s sample on the SQLite store: it is reserved, authorized, begun and
  executed, and the process dies before the outcome is recorded.
\<close>

definition sample_sqlite_codec :: sqlite_codec where
  "sample_sqlite_codec =
     \<lparr>sq_encode_state = (\<lambda>s. if s \<in> {StReserved, StPending, StOutcomeUnknown, StAbandoned}
        then Some (wire_name s) else None),
      sq_decode_state = (\<lambda>t. if t = ''reserved'' then Some StReserved else if t = ''pending'' then Some StPending
        else if t = ''outcome_unknown'' then Some StOutcomeUnknown
        else if t = ''abandoned'' then Some StAbandoned else None),
      sq_encode_refs = (\<lambda>refs. if refs = [] then Some ''[]'' else None),
      sq_decode_refs = (\<lambda>t. if t = ''[]'' then Some [] else None)\<rparr>"

lemma sample_sqlite_codec_ok: "sqlite_codec_ok sample_sqlite_codec"
  by (auto simp: sqlite_codec_ok_def sample_sqlite_codec_def split: if_splits)

abbreviation sample_lite_plane :: "(database, ledger_files, append_io) enforcement_plane" where
  "sample_lite_plane \<equiv> lite_plane sample_sqlite_codec (\<lambda>_. False) sample_codec sample_externals sample_digests"

lemma sample_durable_reserved: "stored_try_reserve sample_input sample_descriptor 100 700 = Inr sample_reserved_record"
  by (simp add: stored_try_reserve_def reservation_validate_def sample_input_def reservation_input_of_def
      sample_status_context_def sample_call_def sample_invocation_def sample_proposal_def sample_data
      status_id_of_def sample_reserved_record_def checked_add_def proposal_of_request_def)

lemma sample_record_typed: "typed_stored sample_externals sample_reserved_record"
proof -
  have "is_symbol ''docs.read''" by code_simp
  moreover have "wf_digest sample_digest" by (simp add: wf_digest_def sample_digest_def digest_byte_length_def)
  ultimately show ?thesis
    by (simp add: typed_stored_def typed_scope_def typed_context_def status_context_try_new_def
        sample_reserved_record_def sample_input_def reservation_input_of_def sample_status_context_def
        sample_identity_def sample_externals_def blank_simps)
qed

lemma sample_durable_run:
  "durable_reserve sample_sqlite_codec 100 sample_input sample_descriptor 700 [] =
     (Inr (reservation_from_stored KindReserved sample_reserved_record), [sample_reserved_record])"
proof -
  have "is_ok (row_of sample_sqlite_codec sample_reserved_record)"
    by (simp add: row_of_Inr_iff sample_reserved_record_def sample_sqlite_codec_def)
  then show ?thesis
    by (simp add: durable_reserve_def sample_durable_reserved validate_sqlite_timestamps_def as_i64_def
        durable_expire_def durable_insert_def sample_reserved_record_def)
qed

lemma sample_lite_reserved:
  "\<exists>db. lite_reserve sample_sqlite_codec sample_externals (\<lambda>_. False) 100 (pn_input sample_plan)
      (ec_descriptor sample_call) (pn_retention_until sample_plan) empty_database
      = (Inr (reservation_from_stored KindReserved sample_reserved_record), db)
    \<and> represents sample_sqlite_codec db [sample_reserved_record]
    \<and> records_ok sample_sqlite_codec sample_externals [sample_reserved_record]"
proof -
  have plan: "pn_input sample_plan = sample_input" "ec_descriptor sample_call = sample_descriptor"
    "pn_retention_until sample_plan = 700"
    by (simp_all add: sample_plan_def sample_call_def sample_locked_def)
  note abst = sample_durable_run
  obtain res db where run: "sqlite_reserve_or_get sample_sqlite_codec sample_externals False 100 sample_input
      sample_descriptor 700 empty_database = (res, db)" by fastforce
  have "refined sample_sqlite_codec sample_externals (res, db)
      (durable_reserve sample_sqlite_codec 100 sample_input sample_descriptor 700 [])"
    unfolding run [symmetric]
    by (rule reserve_refines [OF sample_sqlite_codec_ok empty_represents])
      (simp add: sample_durable_reserved sample_record_typed)
  then show ?thesis
    using run unfolding abst plan
    by (auto simp: refined_def lite_reserve_def sample_durable_reserved sample_record_typed)
qed

lemma sql_trimmed_visible: "c \<noteq> CHR '' '' \<Longrightarrow> c \<noteq> CHR 0x00 \<Longrightarrow> sql_trimmed_length (c # cs) > 0"
  by (simp add: sql_trimmed_length_def dropWhile_append)

definition sample_begun :: stored_invocation where
  "sample_begun = sample_reserved_record\<lparr>si_state := StPending, si_updated_at := 106,
     si_audit_links := [\<lparr>al_kind = LinkAuthorization, al_record_id = sample_receipt_id, al_attached_at = 106\<rparr>]\<rparr>"

lemma sample_lite_begun:
  assumes "represents sample_sqlite_codec db [sample_reserved_record]"
    "records_ok sample_sqlite_codec sample_externals [sample_reserved_record]"
    "transition_try_new StReserved StPending (AuditAuthorization sample_receipt_id) = Inr t"
  shows "\<exists>db'. lite_transition sample_sqlite_codec (\<lambda>_. False) 106 ''inv-1'' t db = (Inr (), db')
    \<and> represents sample_sqlite_codec db' [sample_begun]
    \<and> records_ok sample_sqlite_codec sample_externals [sample_begun]"
proof -
  have t: "t = \<lparr>it_expected = StReserved, it_next = StPending, it_audit_record = AuditAuthorization sample_receipt_id\<rparr>"
    using assms(3) by (auto simp: transition_try_new_Inr)
  have valid: "valid_transition t" by (rule transition_try_new_valid [OF assms(3)])
  have visible: "sql_trimmed_length sample_receipt_id > 0"
    by (simp add: sample_receipt_id_def receipt_record_id_def sql_trimmed_visible)
  have abst: "durable_transition sample_sqlite_codec 106 ''inv-1'' t [sample_reserved_record] = (Inr (), [sample_begun])"
    using visible receipt_id_not_blank [of "''t1''" 1 sample_digest, folded sample_receipt_id_def]
    by (simp add: durable_transition_def t sample_sqlite_codec_def apply_transition_def attach_link_def
        audit_link_try_new_def sql_audit_ok_def audit_record_parts_def durable_swap_def sample_begun_def
        sample_reserved_record_def)
  obtain res db' where run: "sqlite_transition sample_sqlite_codec False 106 ''inv-1'' t db = (res, db')" by fastforce
  have "refined sample_sqlite_codec sample_externals (res, db')
      (durable_transition sample_sqlite_codec 106 ''inv-1'' t [sample_reserved_record])"
    unfolding run [symmetric] by (rule transition_refines [OF sample_sqlite_codec_ok assms(1,2) valid])
  then show ?thesis using run valid unfolding abst by (auto simp: refined_def lite_transition_def)
qed

lemma sample_begun_tables:
  "\<exists>db. represents sample_sqlite_codec db [sample_begun]
    \<and> records_ok sample_sqlite_codec sample_externals [sample_begun]"
proof -
  obtain t where "transition_try_new StReserved StPending (AuditAuthorization sample_receipt_id) = Inr t"
    by (simp add: transition_try_new_def audit_matches_transition_def sample_receipt_id_def receipt_id_not_blank)
  with sample_lite_reserved sample_lite_begun show ?thesis by blast
qed

definition sample_restarted :: stored_invocation where
  "sample_restarted = sample_begun\<lparr>si_state := StOutcomeUnknown, si_updated_at := 200\<rparr>"

lemma sample_lite_recovered:
  assumes "represents sample_sqlite_codec db [sample_begun]"
    "records_ok sample_sqlite_codec sample_externals [sample_begun]"
  shows "\<exists>db'. recover_incomplete_effects sample_sqlite_codec False 200 db = (Inr (), db')
    \<and> represents sample_sqlite_codec db' [sample_restarted]
    \<and> records_ok sample_sqlite_codec sample_externals [sample_restarted]"
proof -
  obtain res db' where run: "recover_incomplete_effects sample_sqlite_codec False 200 db = (res, db')" by fastforce
  have "durable_recover 200 [sample_begun] = (Inr (), [sample_restarted])"
    by (simp add: durable_recover_def recovered_def sample_restarted_def sample_begun_def max_def)
  then show ?thesis
    using recover_refines [OF sample_sqlite_codec_ok assms, of 200] run by (auto simp: refined_def)
qed

text \<open>The run up to the crash, and the provider that the restart leaves.\<close>

lemma sample_crash:
  "\<exists>s. durable_reachable sample_sqlite_codec sample_externals sample_lite_plane
        (provider_start empty_database Map.empty) s
    \<and> ew_executed (pr_world s) = [(''inv-1'', sample_receipt_id)] \<and> pr_effects s = []
    \<and> lite_records sample_sqlite_codec sample_externals (ew_store (pr_world s)) = {sample_restarted}"
proof -
  let ?P = sample_lite_plane and ?start = "provider_start empty_database Map.empty :: (database, ledger_files) provider"
  let ?w0 = "pr_world ?start" and ?X = sample_externals and ?S = sample_sqlite_codec
  obtain db1 where db1: "lite_reserve ?S ?X (\<lambda>_. False) 100 (pn_input sample_plan)
      (ec_descriptor sample_call) (pn_retention_until sample_plan) empty_database
      = (Inr (reservation_from_stored KindReserved sample_reserved_record), db1)"
    "represents ?S db1 [sample_reserved_record]" "records_ok ?S ?X [sample_reserved_record]"
    using sample_lite_reserved by blast
  obtain t where t: "transition_try_new StReserved StPending (AuditAuthorization sample_receipt_id) = Inr t"
    by (simp add: transition_try_new_def audit_matches_transition_def sample_receipt_id_def receipt_id_not_blank)
  obtain db2 where db2: "lite_transition ?S (\<lambda>_. False) 106 ''inv-1'' t db1 = (Inr (), db2)"
    "represents ?S db2 [sample_begun]" "records_ok ?S ?X [sample_begun]"
    using sample_lite_begun [OF db1(2,3) t] by blast
  obtain db3 where db3: "recover_incomplete_effects ?S False 200 db2 = (Inr (), db3)"
    "represents ?S db3 [sample_restarted]" "records_ok ?S ?X [sample_restarted]"
    using sample_lite_recovered [OF db2(2,3)] by blast
  let ?k = sample_readings and ?c = sample_call and ?p = sample_plan
  let ?v = "reservation_from_stored KindReserved sample_reserved_record"
  let ?ks = "[?k 100 100, ?k 105 0, ?k 0 106, ?k 0 0]"
  have plane: "ef_store ?P = lite_ops ?S ?X (\<lambda>_. False)" "ef_audit ?P = ledger_ops sample_codec ?X"
    "ef_digests ?P = sample_digests" by (simp_all add: lite_plane_def)
  have readings: "rd_clock (?k a b) = a" "rd_store_clock (?k a b) = b" "rd_io (?k a b) = sample_io" for a b
    by (simp_all add: sample_readings_def)
  have id: "ec_invocation_id ?c = ''inv-1''" by (simp add: sample_call_def sample_invocation_def)
  let ?w1 = "(record_event ''reserve'' ?w0)\<lparr>ew_store := db1,
      ew_reserved := [ri_invocation_id (pn_input ?p)]\<rparr>"
  have step1: "effect_step ?X ?P (?k 100 100) (TaskReserve ?c) ?w0 = (TaskAuthorize ?c ?p ?v, ?w1)"
    using sample_prologue db1(1)
    by (simp add: effect_reserve_def readings plane lite_ops_def world_reserve_def provider_start_def
        record_event_def reservation_from_stored_def)
  let ?f = "\<lparr>fa_trace_id = ''11111111111111111111111111111111'', fa_span_id = ''2222222222222222'',
      fa_expected = StReserved, fa_record_id = sample_receipt_id\<rparr>"
  let ?w2 = "record_event ''audit_authorization'' (?w1\<lparr>ew_audit := sample_files (''{1}'' @ [newline])\<rparr>)"
  have append: "aus_append (ledger_ops sample_codec ?X) sample_io (RecAuthorization sample_authorization) Map.empty
      = (Inr (sample_receipt 1 zero_digest), sample_files (''{1}'' @ [newline]))"
    using sample_appends(1) by (simp add: ledger_ops_def)
  have step2: "effect_step ?X ?P (?k 105 0) (TaskAuthorize ?c ?p ?v) ?w1 = (TaskBegin ?c ?p ?f, ?w2)"
    using sample_effect_authorized append sample_call_id(4)
    by (simp add: effect_authorize_def Let_def world_append_def record_event_def plane readings
        reservation_from_stored_def status_from_stored_def sample_reserved_record_def provider_start_def)
  let ?w3 = "?w2\<lparr>ew_store := db2\<rparr>"
  have step3: "effect_step ?X ?P (?k 0 106) (TaskBegin ?c ?p ?f) ?w2 = (TaskExecute ?c ?p ?f, ?w3)"
    using t db2(1) by (simp add: effect_begin_def world_transition_def plane lite_ops_def readings record_event_def id)
  obtain task w where step4: "effect_step ?X ?P (?k 0 0) (TaskExecute ?c ?p ?f) ?w3 = (task, w)"
    "ew_executed w = [(''inv-1'', sample_receipt_id)]" "ew_store w = db2"
    by (simp add: effect_execute_def Let_def record_event_def provider_start_def id)
  have run: "effect_run ?X ?P ?ks (TaskReserve ?c) ?w0 = (task, w)"
    using step1 step2 step3 step4(1) by (simp del: effect_step.simps)
  let ?s1 = "?start\<lparr>pr_effects := [TaskReserve ?c]\<rparr>"
  let ?s2 = "?s1\<lparr>pr_world := w, pr_effects := [task]\<rparr>"
  have "provider_step ?X ?P ?start ?s1"
    using provider_step.step_call [of ?X ?P ?start ?c] by (simp add: provider_start_def)
  moreover have "(provider_step ?X ?P)\<^sup>*\<^sup>* ?s1 ?s2"
    using effect_run_reachable [of 0 ?s1 "TaskReserve ?c" ?X ?P ?ks task w] run
    by (simp add: provider_start_def)
  ultimately have "(provider_step ?X ?P)\<^sup>*\<^sup>* ?start ?s2" by (rule converse_rtranclp_into_rtranclp)
  then have "(durable_step ?S ?X ?P)\<^sup>*\<^sup>* ?start ?s2"
    by (rule rtranclp_mono [THEN predicate2D, rotated]) (blast intro: durable_step.run_on)
  moreover have "durable_step ?S ?X ?P ?s2 (restarted db3 ?s2)"
    by (rule durable_step.restart [where fault = False and now = 200]) (simp add: step4(3) db3(1))
  ultimately have reached: "durable_reachable ?S ?X ?P ?start (restarted db3 ?s2)"
    unfolding durable_reachable_def by (rule rtranclp.rtrancl_into_rtrancl)
  have "ew_executed (pr_world (restarted db3 ?s2)) = [(''inv-1'', sample_receipt_id)]"
    "pr_effects (restarted db3 ?s2) = []" "ew_store (pr_world (restarted db3 ?s2)) = db3"
    using step4(2) by (simp_all add: restarted_def)
  moreover have "lite_records ?S ?X db3 = {sample_restarted}"
    using lite_records_eq [OF sample_sqlite_codec_ok db3(2,3)] by simp
  ultimately show ?thesis using reached by (intro exI [of _ "restarted db3 ?s2"]) simp
qed

section \<open>Properties\<close>



text \<open>
  Nothing is lost in the tables: reading back every row of tables that represent a list of records
  gives these records, every field, the state with its payload, the abandonment and the audit links in the
  order they were attached.
\<close>

lemma sqlite_row_round_trip:
  assumes "sqlite_codec_ok S" "represents S db ss" "records_ok S X ss"
  shows "map (load_row S X db) (db_invocations db) = map Inr ss"
  using assms(2) load_row_represented [OF assms] by (simp add: represents_def)

text \<open>
  Claim C18. A row is never taken at its word: whatever the columns of a row hold, when it is decoded at all
  the record is one its types allow: every reference and digest well formed, the complete
  caller context, an actor and an admission that agree with it, the state that the kind column
  names, and an abandonment exactly for an abandoned invocation.
\<close>

theorem decoded_record_is_typed:
  assumes "decode_row C X r = Inr s"
  shows "typed_stored X s \<and> isv_actor (si_scope s) = sc_actor_ref (si_status_context s)
    \<and> si_admission_id s = sc_admission_ref (si_status_context s) \<and> wire_name (si_state s) = rw_state_kind r
    \<and> (si_abandonment s \<noteq> None \<longleftrightarrow> si_state s = StAbandoned)
    \<and> (\<forall>a. si_abandonment s = Some a \<longrightarrow> typed_abandonment a)"
proof -
  have "decode_abandonment r = Inr (si_abandonment s)" "decode_state C r (si_abandonment s) = Inr (si_state s)"
    "decode_scope X r = Inr (si_scope s)" "decode_context r = Inr (si_status_context s)"
    "si_admission_id s = rw_admission_id r"
    and digests: "\<exists>t. row_digest t = Inr (si_request_digest s)" "\<exists>t. row_digest t = Inr (si_grant_digest s)"
      "\<exists>t. row_digest t = Inr (si_catalog_digest s)" "\<exists>t. row_digest t = Inr (si_descriptor_digest s)"
      "\<exists>t. row_digest t = Inr (si_authority_revision_digest s)" "\<exists>t. row_digest t = Inr (si_proposal_digest s)"
    and named: "\<not> is_blank (si_invocation_id s)" "\<not> is_blank (si_idempotency_key s)" "\<not> is_blank (si_admission_id s)"
    and refs: "\<exists>raw. try_map (\<lambda>ref. stored_as
        (string_ref_new ''protected evidence request reference is required'' ref)) raw
        = Inr (si_protected_evidence_refs s)"
    using assms by (auto simp: decode_row_def)
  note parts = decode_abandonment_typed [OF this(1)] decode_state_typed [OF this(2)] decode_scope_typed [OF this(3)]
    decode_context_typed [OF this(4)]
  have "list_all (\<lambda>ref. \<not> is_blank ref) (si_protected_evidence_refs s)"
    using refs try_map_elements(2) by (fastforce simp: list_all_iff)
  with parts digests named \<open>si_admission_id s = rw_admission_id r\<close> show ?thesis
    by (simp add: typed_stored_def row_digest_wf)
qed

theorem decoded_record_is_typed_witness:
  "typed_stored sample_externals (sample_reserved_record\<lparr>si_audit_links := []\<rparr>)"
proof -
  have "storable sample_sqlite_codec sample_externals sample_reserved_record"
    using sample_lite_reserved by (auto simp: records_ok_def)
  from decoded_record_is_typed [OF decode_row_stored [OF sample_sqlite_codec_ok this]] show ?thesis by blast
qed

text \<open>
  Claim C17. Opening the database settles what the last process left behind: afterwards no invocation is
  reserved or pending, those that were are outcome-unknown with their audit links, everything else is
  untouched, the store's invariant holds, and opening it once more changes no record.
\<close>

theorem recovery_settles_incomplete:
  assumes "lite_inv S X db" "recover_incomplete_effects S fault now db = (Inr (), db')"
  shows "lite_inv S X db' \<and> lite_records S X db' = recovered now ` lite_records S X db
    \<and> (\<forall>r \<in> lite_records S X db'. si_state r \<noteq> StReserved \<and> si_state r \<noteq> StPending)
    \<and> (\<forall>later db''. recover_incomplete_effects S fault later db' = (Inr (), db'') \<longrightarrow>
         lite_records S X db'' = lite_records S X db')"
proof -
  note first = lite_recover_run [OF assms]
  have "lite_records S X db'' = lite_records S X db'"
    if "recover_incomplete_effects S fault later db' = (Inr (), db'')" for later db''
    unfolding lite_recover_run(2) [OF first(1) that] first(2) image_image by (simp add: recovered_state(2))
  with first recovered_state(1) show ?thesis by auto
qed

theorem recovery_settles_incomplete_witness:
  "\<exists>db'. lite_records sample_sqlite_codec sample_externals db' = {sample_restarted}
    \<and> (\<forall>r \<in> lite_records sample_sqlite_codec sample_externals db'. si_state r \<noteq> StPending)"
proof -
  obtain db where db: "represents sample_sqlite_codec db [sample_begun]"
    "records_ok sample_sqlite_codec sample_externals [sample_begun]"
    using sample_begun_tables by blast
  then have inv: "lite_inv sample_sqlite_codec sample_externals db"
    using sample_sqlite_codec_ok by (auto simp: lite_inv_def)
  obtain db' where run: "recover_incomplete_effects sample_sqlite_codec False 200 db = (Inr (), db')"
    "represents sample_sqlite_codec db' [sample_restarted]"
    "records_ok sample_sqlite_codec sample_externals [sample_restarted]"
    using sample_lite_recovered [OF db] by blast
  have "lite_records sample_sqlite_codec sample_externals db' = {sample_restarted}"
    using lite_records_eq [OF sample_sqlite_codec_ok run(2,3)] by simp
  with recovery_settles_incomplete [OF inv run(1)] show ?thesis by blast
qed

text \<open>
  Claim C16. Across any number of deaths and restarts of the process, with any interleaving of invocations,
  clock readings and faults of database and ledger in between, an operation is executed at most once
  for each new reservation of its invocation, only under an authorization record that is durable
  in the ledger, by no two tasks at a time; and a task between its two transitions has a Pending record.
\<close>

theorem durable_effects_execute_at_most_once:
  assumes "sqlite_codec_ok S"
    and "durable_reachable S X (lite_plane S down C X D) (provider_start empty_database files) s"
  shows "(\<forall>i. executions (pr_world s) i \<le> count_list (ew_reserved (pr_world s)) i)
    \<and> (\<forall>(i, record_id) \<in> set (ew_executed (pr_world s)).
         \<exists>rec. ledger_durable C X (ew_audit (pr_world s)) record_id (RecAuthorization rec)
           \<and> ax_invocation_id rec = i)
    \<and> owners_distinct (pr_effects s)
    \<and> owners_pending (lite_records S X (ew_store (pr_world s))) (pr_effects s)"
proof -
  have "exclusive_starts (lite_records S X (ew_store (pr_world s))) (pr_world s) (pr_effects s)"
    and audited: "\<forall>e \<in> set (ew_executed (pr_world s)). execution_audited (ledger_durable C X) (ew_audit (pr_world s)) e"
    using durable_reachable_inv [OF assms] by (simp_all add: provider_inv_def Let_def)
  then have "owners_distinct (pr_effects s)"
    "owners_pending (lite_records S X (ew_store (pr_world s))) (pr_effects s)"
    "\<forall>i. executions (pr_world s) i \<le> count_list (ew_reserved (pr_world s)) i"
    by (auto simp: exclusive_starts_def starts_counted_def intro: add_leD1)
  with audited show ?thesis by (fastforce simp: execution_audited_def)
qed

theorem durable_effects_execute_at_most_once_witness:
  "\<exists>s :: (database, ledger_files) provider. pr_effects s = []
    \<and> ew_executed (pr_world s) = [(''inv-1'', sample_receipt_id)]
    \<and> 1 \<le> count_list (ew_reserved (pr_world s)) ''inv-1''
    \<and> (\<exists>rec. ledger_durable sample_codec sample_externals (ew_audit (pr_world s)) sample_receipt_id
          (RecAuthorization rec) \<and> ax_invocation_id rec = ''inv-1'')"
proof -
  obtain s where s: "durable_reachable sample_sqlite_codec sample_externals sample_lite_plane
      (provider_start empty_database Map.empty) s"
    "ew_executed (pr_world s) = [(''inv-1'', sample_receipt_id)]" "pr_effects s = []"
    using sample_crash by blast
  note once = durable_effects_execute_at_most_once [OF sample_sqlite_codec_ok s(1)]
  have "executions (pr_world s) ''inv-1'' = 1" by (simp add: executions_def s(2))
  with once have "1 \<le> count_list (ew_reserved (pr_world s)) ''inv-1''" by metis
  with once s(2,3) show ?thesis by (intro exI [of _ s]) auto
qed

end
