(* ===== verification/KF_Fga.thy ===== *)
theory KF_Fga
  imports KF_Principal
begin

text \<open>
  The OpenFGA authorization backend, \<open>crates/kiteframe-openfga/src\<close>: its configuration (\<open>lib.rs\<close>), the
  requests it sends (\<open>mapping.rs\<close>), the freshness rule (\<open>freshness.rs\<close>) and the bounded reading of a response
  (\<open>client.rs\<close>). The engine answers over HTTP: the record \<open>openfga_environment\<close> holds its
  answers, the URL library, the JSON writer and readers of the serde stack and the clock. The backend is an
  \<open>authorization_backend\<close> of \<open>KF_Principal\<close>, so the checks of the provider apply to it.
\<close>

section \<open>Configuration\<close>

record parsed_url =
  url_scheme :: string
  url_host :: "string option"
  url_username :: string
  url_password :: "string option"
  url_path :: string
  url_query :: "string option"
  url_fragment :: "string option"

record fga_post =
  fp_url :: string
  fp_token :: "string option"
  fp_timeout :: nat
  fp_body :: json

text \<open>
  A reply is a failed request, or a status with the announced length and the chunks of the body, the
  last of which may fail to arrive.
\<close>

datatype http_reply =
    HttpFailed
  | HttpReply (hr_success: bool) (hr_content_length: "nat option") (hr_chunks: "string option list")

record check_response =
  cs_allowed :: bool
  cs_resolution :: "string option"

record openfga_environment =
  oe_externals :: externals
  oe_parse_url :: "string \<Rightarrow> parsed_url option"
  oe_join_url :: "parsed_url \<Rightarrow> string \<Rightarrow> string option"
  oe_transport :: "fga_post \<Rightarrow> http_reply"
  oe_encode :: "json \<Rightarrow> string option"
  oe_decode_objects :: "string \<Rightarrow> string list option"
  oe_decode_check :: "string \<Rightarrow> check_response option"
  oe_clock :: "u64 option"

record openfga_config =
  oc_base_url :: parsed_url
  oc_store_id :: string
  oc_authorization_model_id :: string
  oc_tenant_policy_revision :: string
  oc_deployment_policy_revisions :: "authority_revision list"
  oc_bearer_token :: "string option"
  oc_request_timeout :: nat
  oc_max_response_bytes :: nat

definition parse_base_origin :: "openfga_environment \<Rightarrow> string \<Rightarrow> (string, parsed_url) result" where
  "parse_base_origin E text =
     and_then (ok_or ''OpenFGA base URL must be an absolute URL'' (oe_parse_url E text)) (\<lambda>url.
       if url_scheme url \<notin> {''http'', ''https''} \<or> url_host url = None \<or> url_username url \<noteq> []
          \<or> url_password url \<noteq> None \<or> url_path url \<notin> {[], ''/''} \<or> url_query url \<noteq> None
          \<or> url_fragment url \<noteq> None
       then Inl ''OpenFGA base URL must be a credential-free HTTP(S) origin with no path, query, or fragment''
       else Inr url)"

definition validate_non_empty :: "string \<Rightarrow> string \<Rightarrow> (string, unit) result" where
  "validate_non_empty text label = ensure (\<not> is_blank text) (label @ '' is required'')"

definition validate_path_id :: "string \<Rightarrow> string \<Rightarrow> (string, unit) result" where
  "validate_path_id text label =
     and_then (validate_non_empty text label) (\<lambda>_.
     ensure (list_all (\<lambda>c. is_ascii_alnum c \<or> c \<in> {CHR ''-'', CHR ''_'', CHR ''.''}) text)
       (label @ '' contains characters unsafe for an endpoint path''))"

definition openfga_config_try_new ::
  "openfga_environment \<Rightarrow> string \<Rightarrow> string \<Rightarrow> string \<Rightarrow> string \<Rightarrow> (string, openfga_config) result" where
  "openfga_config_try_new E base_url store_id model_id tenant_revision =
     and_then (parse_base_origin E base_url) (\<lambda>url.
     and_then (validate_path_id store_id ''OpenFGA store ID'') (\<lambda>_.
     and_then (validate_non_empty model_id ''OpenFGA authorization model ID'') (\<lambda>_.
     and_then (validate_non_empty tenant_revision ''tenant policy revision'') (\<lambda>_.
     Inr \<lparr>oc_base_url = url, oc_store_id = store_id, oc_authorization_model_id = model_id,
          oc_tenant_policy_revision = tenant_revision, oc_deployment_policy_revisions = [],
          oc_bearer_token = None, oc_request_timeout = 3000000000, oc_max_response_bytes = 65536\<rparr>))))"

definition revision_set :: "externals \<Rightarrow> openfga_config \<Rightarrow> (string, authority_revision_set) result" where
  "revision_set X c =
     and_then (authority_revision_try_new ''openfga-model'' (oc_authorization_model_id c)) (\<lambda>model.
     and_then (authority_revision_try_new ''openfga-store'' (oc_store_id c)) (\<lambda>store.
     and_then (authority_revision_try_new ''tenant-policy'' (oc_tenant_policy_revision c)) (\<lambda>tenant.
     authority_revision_set_try_new X ([model, store, tenant] @ oc_deployment_policy_revisions c))))"

definition with_deployment_policy_revision ::
  "externals \<Rightarrow> string \<Rightarrow> string \<Rightarrow> openfga_config \<Rightarrow> (string, openfga_config) result" where
  "with_deployment_policy_revision X source revision c =
     and_then (authority_revision_try_new source revision) (\<lambda>entry.
     and_then (ensure (av_source entry \<notin> {''openfga-model'', ''openfga-store'', ''tenant-policy''})
       ''deployment policy source collides with a reserved authority source'') (\<lambda>_.
     let c = c\<lparr>oc_deployment_policy_revisions := oc_deployment_policy_revisions c @ [entry]\<rparr>
     in and_then (revision_set X c) (\<lambda>_. Inr c)))"

definition with_bearer_token :: "string \<Rightarrow> openfga_config \<Rightarrow> (string, openfga_config) result" where
  "with_bearer_token token c =
     and_then (validate_non_empty token ''OpenFGA bearer token'') (\<lambda>_. Inr (c\<lparr>oc_bearer_token := Some token\<rparr>))"

definition with_request_timeout :: "nat \<Rightarrow> openfga_config \<Rightarrow> (string, openfga_config) result" where
  "with_request_timeout timeout c =
     (if timeout = 0 then Inl ''OpenFGA request timeout must be greater than zero''
      else Inr (c\<lparr>oc_request_timeout := timeout\<rparr>))"

definition with_max_response_bytes :: "nat \<Rightarrow> openfga_config \<Rightarrow> (string, openfga_config) result" where
  "with_max_response_bytes maximum c =
     (if maximum = 0 then Inl ''OpenFGA maximum response size must be greater than zero''
      else Inr (c\<lparr>oc_max_response_bytes := maximum\<rparr>))"

section \<open>The client\<close>

record openfga_client =
  cl_list_objects_url :: string
  cl_check_url :: string
  cl_bearer_token :: "string option"
  cl_timeout :: nat
  cl_max_response_bytes :: nat

definition openfga_client_try_new ::
  "openfga_environment \<Rightarrow> openfga_config \<Rightarrow> (string, openfga_client) result" where
  "openfga_client_try_new E c =
     and_then (ok_or ''failed to construct the OpenFGA ListObjects endpoint''
       (oe_join_url E (oc_base_url c) (''stores/'' @ oc_store_id c @ ''/list-objects''))) (\<lambda>list_objects_url.
     and_then (ok_or ''failed to construct the OpenFGA Check endpoint''
       (oe_join_url E (oc_base_url c) (''stores/'' @ oc_store_id c @ ''/check''))) (\<lambda>check_url.
     Inr \<lparr>cl_list_objects_url = list_objects_url, cl_check_url = check_url, cl_bearer_token = oc_bearer_token c,
          cl_timeout = oc_request_timeout c, cl_max_response_bytes = oc_max_response_bytes c\<rparr>))"

definition fga_unavailable :: "diagnostic_stage \<Rightarrow> string \<Rightarrow> diagnostic" where
  "fga_unavailable stage message = diagnostic_error PolicyStale CatAuthorization stage message"

fun read_chunks ::
  "nat \<Rightarrow> diagnostic_stage \<Rightarrow> string \<Rightarrow> string option list \<Rightarrow> (diagnostic, string) result" where
  "read_chunks maximum stage bytes [] = Inr bytes"
| "read_chunks maximum stage bytes (None # chunks) = Inl (fga_unavailable stage ''OpenFGA response body failed'')"
| "read_chunks maximum stage bytes (Some chunk # chunks) =
     (let next_length = length bytes + length chunk
      in if 2 ^ 64 \<le> next_length \<or> maximum < next_length
         then Inl (fga_unavailable stage ''OpenFGA response exceeded the size limit'')
         else read_chunks maximum stage (bytes @ chunk) chunks)"

definition client_post ::
  "openfga_environment \<Rightarrow> openfga_client \<Rightarrow> string \<Rightarrow> json \<Rightarrow> diagnostic_stage \<Rightarrow> (string \<Rightarrow> 'a option) \<Rightarrow>
     (diagnostic, 'a) result" where
  "client_post E client url body stage decode =
     (case oe_transport E \<lparr>fp_url = url, fp_token = cl_bearer_token client, fp_timeout = cl_timeout client,
             fp_body = body\<rparr> of
        HttpFailed \<Rightarrow> Inl (fga_unavailable stage ''OpenFGA request failed'')
      | HttpReply success content_length chunks \<Rightarrow>
          if \<not> success then Inl (fga_unavailable stage ''OpenFGA returned a non-success status'')
          else if (case content_length of None \<Rightarrow> False | Some n \<Rightarrow> cl_max_response_bytes client < n)
          then Inl (fga_unavailable stage ''OpenFGA response exceeded the size limit'')
          else and_then (read_chunks (cl_max_response_bytes client) stage [] chunks) (\<lambda>bytes.
               ok_or (fga_unavailable stage ''OpenFGA returned an invalid response'') (decode bytes)))"

definition client_list_objects ::
  "openfga_environment \<Rightarrow> openfga_client \<Rightarrow> json \<Rightarrow> (diagnostic, string list) result" where
  "client_list_objects E client body =
     client_post E client (cl_list_objects_url client) body StageAdmit (oe_decode_objects E)"

definition client_check ::
  "openfga_environment \<Rightarrow> openfga_client \<Rightarrow> json \<Rightarrow> (diagnostic, check_response) result" where
  "client_check E client body = client_post E client (cl_check_url client) body StageInvoke (oe_decode_check E)"

section \<open>The mapping\<close>

definition hex :: "string \<Rightarrow> string" where
  "hex bytes = concat (map (\<lambda>c. [hex_digit (char_byte c div 16), hex_digit (char_byte c mod 16)]) bytes)"

definition typed_object :: "string \<Rightarrow> string \<Rightarrow> string" where
  "typed_object object_type text = object_type @ '':'' @ hex text"

definition scoped_object :: "string \<Rightarrow> string list \<Rightarrow> string" where
  "scoped_object object_type parts = typed_object object_type (join_with nul parts)"

definition resource_object :: "string \<Rightarrow> string" where
  "resource_object resource = typed_object ''resource'' resource"

definition actor_user :: "auth_context \<Rightarrow> string" where
  "actor_user principals = typed_object ''actor'' (ac_actor_ref principals)"

definition tuple_json :: "string \<Rightarrow> string \<Rightarrow> string \<Rightarrow> json" where
  "tuple_json user relation object =
     JObj [(''user'', JStr user), (''relation'', JStr relation), (''object'', JStr object)]"

definition contextual_tuples :: "auth_context \<Rightarrow> json" where
  "contextual_tuples p =
     (let actor = actor_user p;
          workload = scoped_object ''workload'' [ac_tenant_ref p, ac_workload_ref p];
          task = scoped_object ''task'' [ac_tenant_ref p, ac_task_ref p];
          agent = scoped_object ''agent'' [ac_tenant_ref p, ac_agent_ref p];
          session = scoped_object ''session'' [ac_tenant_ref p, ac_session_ref p]
      in JObj [(''tuple_keys'', JArr
           [tuple_json actor ''actor'' workload, tuple_json task ''assigned_task'' agent,
            tuple_json task ''task'' session])])"

definition condition_context ::
  "auth_context \<Rightarrow> capability_identity \<Rightarrow> string \<Rightarrow> sha256_digest option \<Rightarrow> u64 \<Rightarrow> json" where
  "condition_context p capability resource grant now = JObj
     ([(''tenant_ref'', JStr (ac_tenant_ref p)), (''human_ref'', JStr (ac_human_ref p)),
       (''workload_ref'', JStr (ac_workload_ref p)), (''run_ref'', JStr (ac_run_ref p)),
       (''actor_ref'', JStr (ac_actor_ref p)), (''agent_ref'', JStr (ac_agent_ref p)),
       (''task_ref'', JStr (ac_task_ref p)), (''session_ref'', JStr (ac_session_ref p)),
       (''admission_ref'', JStr (ac_admission_ref p)),
       (''principal_expires_at'', u64_json (ac_expires_at p)), (''current_timestamp'', u64_json now),
       (''capability_name'', JStr (ci_name capability)), (''capability_version'', JStr (ci_version capability)),
       (''selected_resource'', JStr resource)]
      @ (case grant of None \<Rightarrow> [] | Some d \<Rightarrow> [(''grant_digest'', digest_json d)]))"

definition list_objects_request :: "admission_auth_request \<Rightarrow> string \<Rightarrow> u64 \<Rightarrow> json" where
  "list_objects_request q model_id now = JObj
     [(''authorization_model_id'', JStr model_id), (''type'', JStr ''resource''), (''relation'', JStr ''can_invoke''),
      (''user'', JStr (actor_user (aar_principals q))),
      (''context'', condition_context (aar_principals q) (aar_capability q) (aar_selected_resource q) None now),
      (''contextual_tuples'', contextual_tuples (aar_principals q)),
      (''consistency'', JStr ''HIGHER_CONSISTENCY'')]"

definition check_request :: "invocation_auth_request \<Rightarrow> string \<Rightarrow> u64 \<Rightarrow> json" where
  "check_request q model_id now = JObj
     [(''authorization_model_id'', JStr model_id),
      (''tuple_key'', JObj [(''user'', JStr (actor_user (iar_principals q))), (''relation'', JStr ''can_invoke''),
         (''object'', JStr (resource_object (iar_selected_resource q)))]),
      (''context'', condition_context (iar_principals q) (iar_capability q) (iar_selected_resource q)
         (Some (iar_grant_digest q)) now),
      (''contextual_tuples'', contextual_tuples (iar_principals q)),
      (''consistency'', JStr ''HIGHER_CONSISTENCY'')]"

definition check_response_json :: "check_response \<Rightarrow> json" where
  "check_response_json r = JObj
     [(''allowed'', JBool (cs_allowed r)), (''resolution'', opt_json JStr (cs_resolution r))]"

definition mapping_error :: "string \<Rightarrow> diagnostic" where
  "mapping_error message = diagnostic_error PolicyStale CatAuthorization StageInvoke message"

definition decision_ref ::
  "openfga_environment \<Rightarrow> json \<Rightarrow> check_response \<Rightarrow> authority_revision_set \<Rightarrow> (diagnostic, string) result" where
  "decision_ref E request response revisions =
     map_ok (\<lambda>payload. ''openfga:'' @ digest_display (x_sha256 (oe_externals E) payload))
       (ok_or (mapping_error ''failed to construct an OpenFGA decision reference'')
         (oe_encode E (JArr [request, check_response_json response, digest_json (ars_digest revisions)])))"

section \<open>The backend\<close>

record openfga_backend =
  ob_client :: openfga_client
  ob_authorization_model_id :: string
  ob_revisions :: authority_revision_set

definition openfga_backend_try_new ::
  "openfga_environment \<Rightarrow> openfga_config \<Rightarrow> (string, openfga_backend) result" where
  "openfga_backend_try_new E c =
     and_then (revision_set (oe_externals E) c) (\<lambda>revisions.
     and_then (openfga_client_try_new E c) (\<lambda>client.
     Inr \<lparr>ob_client = client, ob_authorization_model_id = oc_authorization_model_id c, ob_revisions = revisions\<rparr>))"

definition fga_stale :: "diagnostic_stage \<Rightarrow> string \<Rightarrow> diagnostic" where
  "fga_stale stage message = diagnostic_error PolicyStale CatAuthorization stage message"

definition current_timestamp :: "openfga_environment \<Rightarrow> diagnostic_stage \<Rightarrow> (diagnostic, u64) result" where
  "current_timestamp E stage = ok_or (fga_stale stage ''deployment clock is invalid'') (oe_clock E)"

definition require_fresh_authority ::
  "auth_context \<Rightarrow> authority_revision_set \<Rightarrow> authority_revision_set \<Rightarrow> u64 \<Rightarrow> diagnostic_stage \<Rightarrow>
     (diagnostic, unit) result" where
  "require_fresh_authority principals loaded current now stage =
     ensure (\<not> (loaded \<noteq> current \<or> ac_expires_at principals \<le> now))
       (fga_stale stage ''OpenFGA policy or authenticated principal context is stale'')"

definition policy_stale :: "string \<Rightarrow> diagnostic" where
  "policy_stale message = diagnostic_error PolicyStale CatAuthorization StageInvoke message"

definition openfga_list_admissible ::
  "openfga_environment \<Rightarrow> openfga_backend \<Rightarrow> admission_auth_request \<Rightarrow> (diagnostic, capability_identity list) result" where
  "openfga_list_admissible E B q =
     and_then (current_timestamp E StageAdmit) (\<lambda>now.
     and_then (require_fresh_authority (aar_principals q) (aar_loaded_revisions q) (ob_revisions B) now StageAdmit) (\<lambda>_.
     let body = list_objects_request q (ob_authorization_model_id B) now;
         expected_object = resource_object (aar_selected_resource q)
     in and_then (client_list_objects E (ob_client B) body) (\<lambda>objects.
        Inr (admission_auth_result_new (if expected_object \<in> set objects then [aar_capability q] else [])))))"

definition openfga_check ::
  "openfga_environment \<Rightarrow> openfga_backend \<Rightarrow> invocation_auth_request \<Rightarrow> (diagnostic, authorization_decision) result" where
  "openfga_check E B q =
     and_then (current_timestamp E StageInvoke) (\<lambda>now.
     and_then (require_fresh_authority (iar_principals q) (iar_loaded_revisions q) (ob_revisions B) now StageInvoke) (\<lambda>_.
     let body = check_request q (ob_authorization_model_id B) now
     in and_then (client_check E (ob_client B) body) (\<lambda>response.
        and_then (decision_ref E body response (ob_revisions B)) (\<lambda>reference.
        if cs_allowed response then
          and_then (map_err (\<lambda>_. policy_stale ''OpenFGA returned invalid narrowed conditions'')
            (narrowed_conditions_new [iar_selected_resource q] (ac_expires_at (iar_principals q)) [])) (\<lambda>conditions.
          map_err (\<lambda>_. policy_stale ''OpenFGA returned an invalid allow decision'')
            (decision_allow reference (ob_revisions B) now conditions))
        else map_err (\<lambda>_. policy_stale ''OpenFGA returned an invalid denial decision'')
          (decision_deny reference CapabilityDenied)))))"

definition openfga_authorization_backend :: "openfga_environment \<Rightarrow> openfga_backend \<Rightarrow> authorization_backend" where
  "openfga_authorization_backend E B =
     \<lparr>ab_list_admissible = openfga_list_admissible E B, ab_check = openfga_check E B, ab_revisions = Inr (ob_revisions B)\<rparr>"

section \<open>Requests name what they ask about\<close>

lemma hex_inject [simp]: "hex a = hex b \<longleftrightarrow> a = b"
proof -
  have "hex s = digest_display (Sha256Digest (map char_byte s))" for s
    by (simp add: hex_def digest_display_def comp_def)
  moreover have "map char_byte a = map char_byte b \<longleftrightarrow> a = b"
    by (metis char_byte_inverse inj_map_eq_map inj_on_inverseI)
  ultimately show ?thesis by (simp add: digest_display_inject)
qed

lemma typed_object_inject [simp]: "typed_object k a = typed_object k b \<longleftrightarrow> a = b"
  by (simp add: typed_object_def)

lemma u64_json_inject [simp]: "u64_json a = u64_json b \<longleftrightarrow> a = b"
  by (simp add: u64_json_def word_uint_eq_iff)

lemma check_request_inject:
  "check_request q m now = check_request q' m' now' \<longleftrightarrow>
     m = m' \<and> now = now' \<and> iar_principals q = iar_principals q' \<and> iar_capability q = iar_capability q'
     \<and> iar_selected_resource q = iar_selected_resource q' \<and> iar_grant_digest q = iar_grant_digest q'"
  by (cases "iar_principals q"; cases "iar_principals q'"; cases "iar_capability q"; cases "iar_capability q'")
     (auto simp: check_request_def condition_context_def)

lemma check_response_json_inject [simp]: "check_response_json r = check_response_json r' \<longleftrightarrow> r = r'"
  by (cases r; cases r') (auto simp: check_response_json_def opt_json_def split: option.splits)

definition decision_payload :: "json \<Rightarrow> check_response \<Rightarrow> authority_revision_set \<Rightarrow> json" where
  "decision_payload request response revisions =
     JArr [request, check_response_json response, digest_json (ars_digest revisions)]"

lemma decision_ref_Inr:
  "decision_ref E request r revs = Inr d \<longleftrightarrow>
     (\<exists>s. oe_encode E (decision_payload request r revs) = Some s
       \<and> d = ''openfga:'' @ digest_display (x_sha256 (oe_externals E) s))"
  by (auto simp: decision_ref_def decision_payload_def)

text \<open>
  The reference of an OpenFGA decision, which the authorization record keeps, identifies what was
  asked and answered. Two checks with the same reference sent, unless the JSON writer or the hash function
  collides on their two payloads, the same authorization model, the same point in time, the same
  authenticated principals with every one of their references, the same capability, resource and
  grant, and got the same answer under the same authority revisions.
\<close>

lemma decision_ref_binds_request:
  assumes "decision_ref E (check_request q m now) r revs = Inr d"
    and "decision_ref E (check_request q' m' now') r' revs' = Inr d"
    and "inj_on (oe_encode E) {decision_payload (check_request q m now) r revs,
      decision_payload (check_request q' m' now') r' revs'}"
    and "inj_on (x_sha256 (oe_externals E)) {the (oe_encode E (decision_payload (check_request q m now) r revs)),
      the (oe_encode E (decision_payload (check_request q' m' now') r' revs'))}"
  shows "m = m' \<and> now = now' \<and> iar_principals q = iar_principals q' \<and> iar_capability q = iar_capability q'
    \<and> iar_selected_resource q = iar_selected_resource q' \<and> iar_grant_digest q = iar_grant_digest q'
    \<and> r = r' \<and> ars_digest revs = ars_digest revs'"
proof -
  let ?p = "decision_payload (check_request q m now) r revs"
  let ?p' = "decision_payload (check_request q' m' now') r' revs'"
  from assms(1) obtain s where s: "oe_encode E ?p = Some s"
      "d = ''openfga:'' @ digest_display (x_sha256 (oe_externals E) s)" unfolding decision_ref_Inr by blast
  from assms(2) obtain s' where s': "oe_encode E ?p' = Some s'"
      "d = ''openfga:'' @ digest_display (x_sha256 (oe_externals E) s')" unfolding decision_ref_Inr by blast
  note texts = s(1) s'(1)
  have "x_sha256 (oe_externals E) s = x_sha256 (oe_externals E) s'"
    using s(2) s'(2) by (simp add: digest_display_inject)
  then have "s = s'" by (intro inj_onD [OF assms(4)]) (simp_all add: texts)
  then have "?p = ?p'" by (intro inj_onD [OF assms(3)]) (simp_all add: texts)
  then show ?thesis by (simp add: decision_payload_def check_request_inject)
qed

lemma openfga_check_allows:
  assumes "openfga_check E B q = Inr (DecisionAllow reference revs at cond)"
  shows "\<exists>response. oe_clock E = Some at \<and> revs = ob_revisions B
    \<and> iar_loaded_revisions q = ob_revisions B \<and> at < ac_expires_at (iar_principals q)
    \<and> client_check E (ob_client B) (check_request q (ob_authorization_model_id B) at) = Inr response
    \<and> cs_allowed response
    \<and> cond = \<lparr>nc_resources = [iar_selected_resource q], nc_expires_at = ac_expires_at (iar_principals q),
         nc_required_preconditions = []\<rparr>"
proof -
  have conditions: "narrowed_conditions_new [r] t [] = Inr \<lparr>nc_resources = [r], nc_expires_at = t,
      nc_required_preconditions = []\<rparr>" for r t
    by (simp add: narrowed_conditions_new_def sort_dedup_def)
  from assms obtain now response ref' where now: "oe_clock E = Some now"
      and fresh: "require_fresh_authority (iar_principals q) (iar_loaded_revisions q) (ob_revisions B) now StageInvoke = Inr ()"
      and response: "client_check E (ob_client B) (check_request q (ob_authorization_model_id B) now) = Inr response"
      and rest: "(if cs_allowed response then
          and_then (map_err (\<lambda>_. policy_stale ''OpenFGA returned invalid narrowed conditions'')
            (narrowed_conditions_new [iar_selected_resource q] (ac_expires_at (iar_principals q)) [])) (\<lambda>conditions.
          map_err (\<lambda>_. policy_stale ''OpenFGA returned an invalid allow decision'')
            (decision_allow ref' (ob_revisions B) now conditions))
        else map_err (\<lambda>_. policy_stale ''OpenFGA returned an invalid denial decision'')
          (decision_deny ref' CapabilityDenied)) = Inr (DecisionAllow reference revs at cond)"
    by (auto simp: openfga_check_def current_timestamp_def Let_def)
  then show ?thesis
    by (auto simp: conditions require_fresh_authority_def decision_allow_def decision_deny_def split: if_splits)
qed


text \<open>
  The body of a reply is read within the configured size: what is decoded is the concatenation of all the
  chunks, and neither it nor an announced length exceeds the maximum.
\<close>

lemma read_chunks_Inr:
  "read_chunks maximum stage bytes chunks = Inr body \<Longrightarrow> length bytes \<le> maximum \<Longrightarrow>
     body = bytes @ concat (map the chunks) \<and> None \<notin> set chunks \<and> length body \<le> maximum"
  by (induction maximum stage bytes chunks rule: read_chunks.induct) (auto simp: Let_def split: if_splits)

lemma client_post_Inr:
  assumes "client_post E client url body stage decode = Inr x"
  obtains n chunks where "oe_transport E \<lparr>fp_url = url, fp_token = cl_bearer_token client,
      fp_timeout = cl_timeout client, fp_body = body\<rparr> = HttpReply True n (map Some chunks)"
    "decode (concat chunks) = Some x" "length (concat chunks) \<le> cl_max_response_bytes client"
proof -
  from assms obtain n chunks bytes where reply: "oe_transport E \<lparr>fp_url = url, fp_token = cl_bearer_token client,
        fp_timeout = cl_timeout client, fp_body = body\<rparr> = HttpReply True n chunks"
      and read: "read_chunks (cl_max_response_bytes client) stage [] chunks = Inr bytes" "decode bytes = Some x"
    by (auto simp: client_post_def split: http_reply.splits if_splits)
  from read_chunks_Inr [OF read(1)] have bytes: "bytes = concat (map the chunks)" "None \<notin> set chunks"
      "length bytes \<le> cl_max_response_bytes client" by auto
  have "chunks = map Some (map the chunks)" using bytes(2) by (induction chunks) auto
  with that [of n "map the chunks"] reply read(2) bytes(1,3) show thesis by simp
qed

section \<open>Scoped objects\<close>

text \<open>
  Claim C37. The objects that scope a workload, task, agent or session to its tenant are unambiguous only as far
  as the references have no NUL character. Two pairs of a tenant and a reference give the same object
  exactly when they are equal or one tenant extends the other by a NUL and a part that the other
  reference begins with: the separator is not escaped and references may contain it.
\<close>

theorem scoped_objects_collide_iff:
  "scoped_object k [t, r] = scoped_object k [t', r'] \<longleftrightarrow>
     t = t' \<and> r = r'
     \<or> (\<exists>m. t = t' @ nul @ m \<and> r' = m @ nul @ r) \<or> (\<exists>m. t' = t @ nul @ m \<and> r = m @ nul @ r')"
proof -
  have "t @ CHR 0x00 # r = t' @ CHR 0x00 # r' \<longleftrightarrow>
      t = t' \<and> r = r' \<or> (\<exists>m. t = t' @ CHR 0x00 # m \<and> r' = m @ CHR 0x00 # r)
      \<or> (\<exists>m. t' = t @ CHR 0x00 # m \<and> r = m @ CHR 0x00 # r')"
    by (auto simp: append_eq_append_conv2 Cons_eq_append_conv append_eq_Cons_conv)
  then show ?thesis by (simp add: scoped_object_def nul_def)
qed

text \<open>
  Both sides of such a collision are references that verified principals may carry. A store identifier that
  consists of dots also passes the check for endpoint paths.
\<close>

lemma scoped_objects_collide:
  "scoped_object ''agent'' [''a'', ''b'' @ nul @ ''c''] = scoped_object ''agent'' [''a'' @ nul @ ''b'', ''c'']"
  "tenant_ref_new (''a'' @ nul @ ''b'') = Inr (''a'' @ nul @ ''b'')"
  by (simp_all add: scoped_object_def nul_def tenant_ref_new_def is_blank_def ascii_white_def white2_def white3_def)

lemma dotted_store_accepted: "validate_path_id ''..'' ''OpenFGA store ID'' = Inr ()"
  by (simp add: validate_path_id_def validate_non_empty_def is_blank_def ascii_white_def white2_def)

section \<open>Configurations that assemble\<close>

inductive openfga_configured :: "openfga_environment \<Rightarrow> openfga_config \<Rightarrow> bool" for E where
  configured_new: "openfga_config_try_new E base_url store_id model_id tenant_revision = Inr c \<Longrightarrow> openfga_configured E c"
| configured_revision: "openfga_configured E c \<Longrightarrow>
    with_deployment_policy_revision (oe_externals E) source revision c = Inr c' \<Longrightarrow> openfga_configured E c'"
| configured_token: "openfga_configured E c \<Longrightarrow> with_bearer_token token c = Inr c' \<Longrightarrow> openfga_configured E c'"
| configured_timeout: "openfga_configured E c \<Longrightarrow> with_request_timeout timeout c = Inr c' \<Longrightarrow> openfga_configured E c'"
| configured_maximum: "openfga_configured E c \<Longrightarrow> with_max_response_bytes maximum c = Inr c' \<Longrightarrow> openfga_configured E c'"

lemma revision_set_cong:
  "oc_authorization_model_id c = oc_authorization_model_id c' \<Longrightarrow> oc_store_id c = oc_store_id c' \<Longrightarrow>
   oc_tenant_policy_revision c = oc_tenant_policy_revision c' \<Longrightarrow>
   oc_deployment_policy_revisions c = oc_deployment_policy_revisions c' \<Longrightarrow> revision_set X c = revision_set X c'"
  by (simp add: revision_set_def)

text \<open>
  A configuration made by the constructor and the builders, in any order, has a revision set whenever
  canonical JSON can be written, and a positive timeout and response size: assembling a backend
  from it fails only at the endpoint URLs.
\<close>

lemma configured_assembles:
  assumes "openfga_configured E c" and "\<forall>j. x_canonical (oe_externals E) j \<noteq> None"
  shows "(\<exists>r. revision_set (oe_externals E) c = Inr r) \<and> 0 < oc_request_timeout c \<and> 0 < oc_max_response_bytes c"
  using assms(1)
proof induction
  case (configured_new base_url store_id model_id tenant_revision c)
  have canonical: "\<exists>d. canonical_digest (oe_externals E) domain j = Inr d" for domain j
    using assms(2) by (auto simp: canonical_digest_def ok_or_def split: option.splits)
  from configured_new obtain "\<not> is_blank store_id" "\<not> is_blank model_id" "\<not> is_blank tenant_revision"
    and c: "oc_store_id c = store_id" "oc_authorization_model_id c = model_id"
      "oc_tenant_policy_revision c = tenant_revision" "oc_deployment_policy_revisions c = []"
      "oc_request_timeout c = 3000000000" "oc_max_response_bytes c = 65536"
    by (auto simp: openfga_config_try_new_def validate_path_id_def validate_non_empty_def)
  moreover have "\<not> is_blank ''openfga-model''" "\<not> is_blank ''openfga-store''" "\<not> is_blank ''tenant-policy''"
    by (simp_all add: is_blank_def ascii_white_def white2_def white3_def)
  moreover obtain d where "canonical_digest (oe_externals E) (''kiteframe:authority-revision-set:v1'' @ nul)
      (JArr (map authority_revision_json [AuthorityRevision ''openfga-model'' model_id,
        AuthorityRevision ''openfga-store'' store_id, AuthorityRevision ''tenant-policy'' tenant_revision])) = Inr d"
    using canonical by blast
  ultimately show ?case
    by (simp add: revision_set_def authority_revision_try_new_def authority_revision_set_try_new_def
        less_eq_authority_revision_def)
next
  case (configured_revision c source revision c')
  then show ?case by (auto simp: with_deployment_policy_revision_def Let_def)
next
  case (configured_token c token c')
  then show ?case using revision_set_cong [of c c'] by (auto simp: with_bearer_token_def)
next
  case (configured_timeout c timeout c')
  then show ?case using revision_set_cong [of c c'] by (auto simp: with_request_timeout_def split: if_splits)
next
  case (configured_maximum c maximum c')
  then show ?case using revision_set_cong [of c c'] by (auto simp: with_max_response_bytes_def split: if_splits)
qed

section \<open>Witnesses\<close>

definition sample_fga :: openfga_environment where
  "sample_fga =
     \<lparr>oe_externals = sample_externals, oe_parse_url = \<lambda>_. None, oe_join_url = \<lambda>_ _. None,
      oe_transport = \<lambda>_. HttpReply True (Some 4) [Some ''ye'', Some ''s!''], oe_encode = \<lambda>_. Some ''payload'',
      oe_decode_objects = \<lambda>_. None,
      oe_decode_check = \<lambda>s. if s = ''yes!'' then Some \<lparr>cs_allowed = True, cs_resolution = None\<rparr> else None,
      oe_clock = Some 100\<rparr>"

definition sample_fga_revisions :: authority_revision_set where
  "sample_fga_revisions = \<lparr>ars_entries = [AuthorityRevision ''openfga-model'' ''m1''], ars_digest = sample_digest\<rparr>"

definition sample_fga_backend :: openfga_backend where
  "sample_fga_backend =
     \<lparr>ob_client = \<lparr>cl_list_objects_url = ''http://fga/list'', cl_check_url = ''http://fga/check'', cl_bearer_token = None,
        cl_timeout = 3, cl_max_response_bytes = 64\<rparr>,
      ob_authorization_model_id = ''m1'', ob_revisions = sample_fga_revisions\<rparr>"

definition sample_fga_request :: invocation_auth_request where
  "sample_fga_request =
     \<lparr>iar_principals = sample_auth_context, iar_capability = CapabilityIdentity ''mail'' ''1.0.0'',
      iar_selected_resource = ''doc/1'', iar_grant_digest = sample_digest, iar_loaded_revisions = sample_fga_revisions\<rparr>"

lemma sample_fga_answers:
  "client_check sample_fga (ob_client sample_fga_backend) body = Inr \<lparr>cs_allowed = True, cs_resolution = None\<rparr>"
  by (simp add: client_check_def client_post_def sample_fga_def sample_fga_backend_def)

lemma sample_fga_permits:
  "\<exists>d. require_current_authorization (openfga_authorization_backend sample_fga sample_fga_backend) sample_fga_request = Inr d"
proof -
  have fresh: "current_timestamp sample_fga StageInvoke = Inr 100"
      "require_fresh_authority (iar_principals sample_fga_request) (iar_loaded_revisions sample_fga_request)
        (ob_revisions sample_fga_backend) 100 StageInvoke = Inr ()"
    by (simp_all add: current_timestamp_def require_fresh_authority_def sample_fga_def sample_fga_request_def
        sample_fga_backend_def sample_auth_context_def)
  have reference: "decision_ref sample_fga body r revs = Inr (''openfga:'' @ digest_display sample_digest)" for body r revs
    by (simp add: decision_ref_def sample_fga_def sample_externals_def)
  have "\<not> is_blank (''openfga:'' @ digest_display sample_digest)"
    by (simp add: is_blank_def ascii_white_def white2_def white3_def)
  then have "\<exists>at cond. openfga_check sample_fga sample_fga_backend sample_fga_request =
      Inr (DecisionAllow (''openfga:'' @ digest_display sample_digest) (ob_revisions sample_fga_backend) at cond)"
    by (simp add: openfga_check_def fresh sample_fga_answers reference Let_def narrowed_conditions_new_def sort_dedup_def
        decision_allow_def decision_ref_new_def string_ref_new_def)
  then show ?thesis
    by (auto simp: require_current_authorization_def openfga_authorization_backend_def)
qed


end
