(* ===== verification/KF_Yaml.thy ===== *)
theory KF_Yaml
  imports KF_Package
begin

text \<open>
  Strict reading of YAML, \<open>kiteframe-core/src/yaml.rs\<close>: before a document is decoded, the events of
  the parser are scanned against fixed limits. The parser and the decoder are libraries: the record
  \<open>yaml_engine\<close> holds them. What \<open>next_token\<close> returns on a text is a \<open>yaml_stream\<close>, the events
  with the character index of their marker up to the end of the stream or a syntax error; a parser
  consumes its text, so the sequence is finite. The scanner is a state machine over these events;
  it is proved to accept a well-nested stream exactly when the documents it spells are
  within the limits and no mapping repeats a scalar key or has an alias as a key.
\<close>

section \<open>Limits\<close>

record package_limits =
  max_yaml_bytes :: nat
  max_text_asset_bytes :: nat
  max_total_referenced_bytes :: nat
  max_nesting_depth :: nat
  max_collection_entries :: nat
  max_aliases :: nat
  max_subagent_depth :: nat

definition package_limits_v1 :: package_limits where
  "package_limits_v1 =
     \<lparr>max_yaml_bytes = 1048576, max_text_asset_bytes = 4194304, max_total_referenced_bytes = 33554432,
      max_nesting_depth = 32, max_collection_entries = 10000, max_aliases = 128, max_subagent_depth = 16\<rparr>"

section \<open>UTF-8\<close>

text \<open>
  \<open>char_width s\<close> is the number of bytes of the first character of \<open>s\<close>, and 0 when \<open>s\<close> does not
  begin with a well-formed one: no overlong form, no surrogate, nothing above U+10FFFF.
\<close>

definition lead_bytes :: "(nat \<times> nat \<times> (nat \<times> nat) list) list" where
  "lead_bytes =
     (let c = (128, 191) in
      [(0, 127, []), (194, 223, [c]), (224, 224, [(160, 191), c]), (225, 236, [c, c]),
       (237, 237, [(128, 159), c]), (238, 239, [c, c]), (240, 240, [(144, 191), c, c]),
       (241, 243, [c, c, c]), (244, 244, [(128, 143), c, c])])"

fun utf8_follows :: "(nat \<times> nat) list \<Rightarrow> string \<Rightarrow> bool" where
  "utf8_follows [] s = True"
| "utf8_follows (_ # _) [] = False"
| "utf8_follows ((lo, hi) # rs) (c # s) = (char_in lo hi c \<and> utf8_follows rs s)"

definition char_width :: "string \<Rightarrow> nat" where
  "char_width s =
     (case s of
        [] \<Rightarrow> 0
      | a # t \<Rightarrow>
          (case find (\<lambda>(lo, hi, rs). char_in lo hi a \<and> utf8_follows rs t) lead_bytes of
             None \<Rightarrow> 0
           | Some (lo, hi, rs) \<Rightarrow> Suc (length rs)))"

lemma char_width_Nil [simp]: "char_width [] = 0"
  by (simp add: char_width_def)

function valid_up_to :: "string \<Rightarrow> nat" where
  "valid_up_to s = (if char_width s = 0 then 0 else char_width s + valid_up_to (drop (char_width s) s))"
  by auto
termination
proof (relation "measure length")
  fix s assume "char_width s \<noteq> 0"
  moreover from this have "s \<noteq> []" by auto
  ultimately show "(drop (char_width s) s, s) \<in> measure length" by simp
qed simp

declare valid_up_to.simps [simp del]

definition is_utf8 :: "string \<Rightarrow> bool" where
  "is_utf8 s = (valid_up_to s = length s)"

fun char_offset :: "nat \<Rightarrow> string \<Rightarrow> nat" where
  "char_offset 0 s = 0"
| "char_offset (Suc n) s =
     (if char_width s = 0 then 0 else char_width s + char_offset n (drop (char_width s) s))"

section \<open>Diagnostics with source ranges\<close>

definition u32_max :: nat where "u32_max = 4294967295"

definition byte_range :: "nat \<Rightarrow> nat \<Rightarrow> source_range" where
  "byte_range start input_len =
     (let start = min (min start input_len) u32_max;
          stop = min (min (start + 1) u32_max) (min input_len u32_max)
      in \<lparr>sr_start = of_nat start, sr_end = of_nat stop\<rparr>)"

definition marker_range :: "nat \<Rightarrow> string \<Rightarrow> source_range" where
  "marker_range mark source = byte_range (char_offset mark source) (length source)"

definition package_diagnostic :: "string \<Rightarrow> source_range option \<Rightarrow> diagnostic" where
  "package_diagnostic message span =
     (diagnostic_error PackageInvalid CatPackage StageParse message)\<lparr>d_source_range := span\<rparr>"

definition str_contains :: "string \<Rightarrow> string \<Rightarrow> bool" where
  "str_contains text pattern = sublist pattern text"

definition typed_yaml_diagnostic :: "string \<Rightarrow> diagnostic" where
  "typed_yaml_diagnostic error_text =
     (if str_contains error_text ''package path must be'' then
        diagnostic_error PackageContainment CatPackage StageParse
          ''package path is not a normalized contained relative path''
      else package_diagnostic
        (if str_contains error_text ''unknown field'' then ''unknown field in YAML document''
         else ''YAML document does not match the required schema'') None)"

section \<open>Events of the parser\<close>

datatype yaml_event =
    YStreamStart | YDocumentStart | YDocumentEnd | YAlias | YScalar string
  | YSequenceStart | YSequenceEnd | YMappingStart | YMappingEnd

datatype yaml_stream = YStreamEnd nat | YSyntaxError nat | YToken yaml_event nat yaml_stream

record yaml_engine =
  y_stream :: "string \<Rightarrow> yaml_stream"
  y_manifest :: "string \<Rightarrow> (string, agent_manifest) result"
  y_binding :: "string \<Rightarrow> (string, runtime_binding) result"

section \<open>The scanner\<close>

datatype collection_frame =
    SequenceFrame
  | MappingFrame (expecting_key: bool) (scalar_keys: "string set")

record strict_scanner =
  sc_frames :: "collection_frame list"
  sc_entries :: nat
  sc_aliases :: nat
  sc_violation :: "diagnostic option"

definition scanner_new :: strict_scanner where
  "scanner_new = \<lparr>sc_frames = [], sc_entries = 0, sc_aliases = 0, sc_violation = None\<rparr>"

definition scanner_reject :: "string \<Rightarrow> source_range \<Rightarrow> strict_scanner \<Rightarrow> strict_scanner" where
  "scanner_reject message span s =
     (if sc_violation s = None then s\<lparr>sc_violation := Some (package_diagnostic message (Some span))\<rparr> else s)"

definition mapping_key_expected :: "strict_scanner \<Rightarrow> bool" where
  "mapping_key_expected s = (case sc_frames s of MappingFrame expecting _ # _ \<Rightarrow> expecting | _ \<Rightarrow> False)"

definition node_started ::
  "package_limits \<Rightarrow> string option \<Rightarrow> nat \<Rightarrow> string \<Rightarrow> strict_scanner \<Rightarrow> strict_scanner" where
  "node_started L scalar_key mark source s =
     (let (added_entry, duplicate_key, frames) =
            (case sc_frames s of
               [] \<Rightarrow> (False, False, [])
             | SequenceFrame # fs \<Rightarrow> (True, False, SequenceFrame # fs)
             | MappingFrame expecting keys # fs \<Rightarrow>
                 (if expecting
                  then (case scalar_key of
                          None \<Rightarrow> (True, False, MappingFrame False keys # fs)
                        | Some key \<Rightarrow> (True, key \<in> keys, MappingFrame False (insert key keys) # fs))
                  else (False, False, MappingFrame True keys # fs)));
          s = s\<lparr>sc_frames := frames\<rparr>
      in if duplicate_key then
           scanner_reject ''duplicate key in YAML mapping'' (marker_range mark source) s
         else if added_entry then
           let s = s\<lparr>sc_entries := sc_entries s + 1\<rparr>
           in if max_collection_entries L < sc_entries s
              then scanner_reject ''YAML collection entries limit exceeded'' (marker_range mark source) s
              else s
         else s)"

definition collection_started ::
  "package_limits \<Rightarrow> collection_frame \<Rightarrow> nat \<Rightarrow> string \<Rightarrow> strict_scanner \<Rightarrow> strict_scanner" where
  "collection_started L frame mark source s =
     (let s = node_started L None mark source s
      in if sc_violation s \<noteq> None then s
         else let s = s\<lparr>sc_frames := frame # sc_frames s\<rparr>
              in if max_nesting_depth L < length (sc_frames s)
                 then scanner_reject ''YAML nesting depth limit exceeded'' (marker_range mark source) s
                 else s)"

definition handle_event ::
  "package_limits \<Rightarrow> string \<Rightarrow> yaml_event \<Rightarrow> nat \<Rightarrow> strict_scanner \<Rightarrow> strict_scanner" where
  "handle_event L source event mark s =
     (if sc_violation s \<noteq> None then s
      else case event of
             YScalar value \<Rightarrow> node_started L (Some value) mark source s
           | YAlias \<Rightarrow>
               if mapping_key_expected s
               then scanner_reject ''YAML alias mapping keys are not allowed'' (marker_range mark source) s
               else let s = node_started L None mark source s;
                        s = s\<lparr>sc_aliases := sc_aliases s + 1\<rparr>
                    in if max_aliases L < sc_aliases s
                       then scanner_reject ''YAML alias limit exceeded'' (marker_range mark source) s
                       else s
           | YSequenceStart \<Rightarrow> collection_started L SequenceFrame mark source s
           | YMappingStart \<Rightarrow> collection_started L (MappingFrame True {}) mark source s
           | YSequenceEnd \<Rightarrow> s\<lparr>sc_frames := tl (sc_frames s)\<rparr>
           | YMappingEnd \<Rightarrow> s\<lparr>sc_frames := tl (sc_frames s)\<rparr>
           | YStreamStart \<Rightarrow> s
           | YDocumentStart \<Rightarrow> s
           | YDocumentEnd \<Rightarrow> s)"

fun scan_stream ::
  "package_limits \<Rightarrow> string \<Rightarrow> yaml_stream \<Rightarrow> strict_scanner \<Rightarrow> (diagnostic list, unit) result" where
  "scan_stream L source (YSyntaxError mark) s =
     Inl [package_diagnostic ''invalid YAML syntax'' (Some (marker_range mark source))]"
| "scan_stream L source (YStreamEnd mark) s =
     (case sc_violation s of Some violation \<Rightarrow> Inl [violation] | None \<Rightarrow> Inr ())"
| "scan_stream L source (YToken event mark rest) s =
     (let s = handle_event L source event mark s
      in case sc_violation s of Some violation \<Rightarrow> Inl [violation] | None \<Rightarrow> scan_stream L source rest s)"

definition strict_scan :: "yaml_engine \<Rightarrow> package_limits \<Rightarrow> string \<Rightarrow> (diagnostic list, unit) result" where
  "strict_scan Y L bytes =
     and_then (ensure (length bytes \<le> max_yaml_bytes L)
       [package_diagnostic ''YAML byte limit exceeded'' (Some (byte_range (max_yaml_bytes L) (length bytes)))])
     (\<lambda>_. and_then (ensure (is_utf8 bytes)
       [package_diagnostic ''invalid UTF-8 YAML'' (Some (byte_range (valid_up_to bytes) (length bytes)))])
     (\<lambda>_. scan_stream L bytes (y_stream Y bytes) scanner_new))"

definition parse_typed ::
  "yaml_engine \<Rightarrow> package_limits \<Rightarrow> (string \<Rightarrow> (string, 'a) result) \<Rightarrow> string \<Rightarrow> (diagnostic list, 'a) result" where
  "parse_typed Y L decode bytes =
     and_then (strict_scan Y L bytes)
       (\<lambda>_. map_err (\<lambda>error. [typed_yaml_diagnostic error]) (decode bytes))"

definition parse_manifest ::
  "yaml_engine \<Rightarrow> package_limits \<Rightarrow> string \<Rightarrow> (diagnostic list, agent_manifest) result" where
  "parse_manifest Y L bytes = parse_typed Y L (y_manifest Y) bytes"

definition parse_binding ::
  "yaml_engine \<Rightarrow> package_limits \<Rightarrow> string \<Rightarrow> (diagnostic list, runtime_binding) result" where
  "parse_binding Y L bytes = parse_typed Y L (y_binding Y) bytes"

section \<open>Documents as trees\<close>

text \<open>
  A reference reading of a document: its tree of nodes, the events a parser spells it with, and
  what the limits say of the tree.
\<close>

datatype yaml_node =
    NScalar string
  | NAlias
  | NSequence "yaml_node list"
  | NMapping "(yaml_node \<times> yaml_node) list"

fun node_events :: "yaml_node \<Rightarrow> yaml_event list" where
  "node_events (NScalar v) = [YScalar v]"
| "node_events NAlias = [YAlias]"
| "node_events (NSequence ns) = YSequenceStart # concat (map node_events ns) @ [YSequenceEnd]"
| "node_events (NMapping kvs) =
     YMappingStart # concat (map (\<lambda>(k, v). node_events k @ node_events v) kvs) @ [YMappingEnd]"

fun node_depth :: "yaml_node \<Rightarrow> nat" where
  "node_depth (NScalar v) = 0"
| "node_depth NAlias = 0"
| "node_depth (NSequence ns) = Suc (fold max (map node_depth ns) 0)"
| "node_depth (NMapping kvs) = Suc (fold max (map (\<lambda>(k, v). max (node_depth k) (node_depth v)) kvs) 0)"

fun node_entries :: "yaml_node \<Rightarrow> nat" where
  "node_entries (NScalar v) = 0"
| "node_entries NAlias = 0"
| "node_entries (NSequence ns) = sum_list (map (\<lambda>n. 1 + node_entries n) ns)"
| "node_entries (NMapping kvs) = sum_list (map (\<lambda>(k, v). 1 + node_entries k + node_entries v) kvs)"

fun node_aliases :: "yaml_node \<Rightarrow> nat" where
  "node_aliases (NScalar v) = 0"
| "node_aliases NAlias = 1"
| "node_aliases (NSequence ns) = sum_list (map node_aliases ns)"
| "node_aliases (NMapping kvs) = sum_list (map (\<lambda>(k, v). node_aliases k + node_aliases v) kvs)"

fun scalar_of :: "yaml_node \<Rightarrow> string option" where
  "scalar_of (NScalar v) = Some v"
| "scalar_of _ = None"

fun keys_ok :: "yaml_node \<Rightarrow> bool" where
  "keys_ok (NSequence ns) = list_all keys_ok ns"
| "keys_ok (NMapping kvs) =
     (list_all (\<lambda>(k, v). k \<noteq> NAlias \<and> keys_ok k \<and> keys_ok v) kvs
      \<and> distinct (List.map_filter (\<lambda>(k, v). scalar_of k) kvs))"
| "keys_ok _ = True"

definition document_events :: "yaml_node \<Rightarrow> yaml_event list" where
  "document_events n = YDocumentStart # node_events n @ [YDocumentEnd]"

fun stream_of :: "(yaml_event \<times> nat) list \<Rightarrow> nat \<Rightarrow> yaml_stream" where
  "stream_of [] mark = YStreamEnd mark"
| "stream_of ((e, m) # es) mark = YToken e m (stream_of es mark)"

definition documents_within :: "package_limits \<Rightarrow> yaml_node list \<Rightarrow> bool" where
  "documents_within L docs =
     (list_all (\<lambda>n. node_depth n \<le> max_nesting_depth L \<and> keys_ok n) docs
      \<and> sum_list (map node_entries docs) \<le> max_collection_entries L
      \<and> sum_list (map node_aliases docs) \<le> max_aliases L)"

section \<open>The scanner on a tree\<close>

definition scan_events ::
  "package_limits \<Rightarrow> string \<Rightarrow> (yaml_event \<times> nat) list \<Rightarrow> strict_scanner \<Rightarrow> strict_scanner" where
  "scan_events L source evs s = fold (\<lambda>(e, m). handle_event L source e m) evs s"

lemma scan_events_simps [simp]:
  "scan_events L src [] s = s"
  "scan_events L src ((e, m) # evs) s = scan_events L src evs (handle_event L src e m s)"
  "scan_events L src (evs @ evs') s = scan_events L src evs' (scan_events L src evs s)"
  by (simp_all add: scan_events_def)

lemma violation_sticks: "sc_violation s = Some v \<Longrightarrow> scan_events L src evs s = s"
proof (induction evs)
  case (Cons ev evs)
  then show ?case by (cases ev) (simp add: handle_event_def)
qed simp

lemma scan_stream_of:
  "scan_stream L src (stream_of evs mark) s =
     (case sc_violation (scan_events L src evs s) of Some v \<Rightarrow> Inl [v] | None \<Rightarrow> Inr ())"
proof (induction evs arbitrary: s)
  case (Cons ev evs)
  obtain e m where ev: "ev = (e, m)" by (cases ev)
  show ?case
  proof (cases "sc_violation (handle_event L src e m s)")
    case None
    then show ?thesis by (simp add: ev Cons.IH)
  next
    case (Some v)
    then show ?thesis by (simp add: ev violation_sticks [OF Some])
  qed
qed simp

fun toggled :: "string option \<Rightarrow> collection_frame list \<Rightarrow> collection_frame list" where
  "toggled key (MappingFrame True keys # fs) = MappingFrame False (set_option key \<union> keys) # fs"
| "toggled key (MappingFrame False keys # fs) = MappingFrame True keys # fs"
| "toggled key fs = fs"

fun added_entries :: "collection_frame list \<Rightarrow> nat" where
  "added_entries (SequenceFrame # fs) = 1"
| "added_entries (MappingFrame True keys # fs) = 1"
| "added_entries fs = 0"

fun free_key :: "string option \<Rightarrow> collection_frame list \<Rightarrow> bool" where
  "free_key (Some v) (MappingFrame True keys # fs) = (v \<notin> keys)"
| "free_key key fs = True"

definition room :: "package_limits \<Rightarrow> nat \<Rightarrow> nat \<Rightarrow> nat \<Rightarrow> strict_scanner \<Rightarrow> bool" where
  "room L depth entries aliases s =
     (length (sc_frames s) + depth \<le> max_nesting_depth L
      \<and> sc_entries s + entries \<le> max_collection_entries L \<and> sc_aliases s + aliases \<le> max_aliases L)"

definition placed :: "yaml_node \<Rightarrow> strict_scanner \<Rightarrow> strict_scanner" where
  "placed n s =
     s\<lparr>sc_frames := toggled (scalar_of n) (sc_frames s),
       sc_entries := sc_entries s + added_entries (sc_frames s) + node_entries n,
       sc_aliases := sc_aliases s + node_aliases n\<rparr>"

definition node_allowed :: "package_limits \<Rightarrow> yaml_node \<Rightarrow> strict_scanner \<Rightarrow> bool" where
  "node_allowed L n s =
     (keys_ok n \<and> free_key (scalar_of n) (sc_frames s) \<and> \<not> (n = NAlias \<and> mapping_key_expected s)
      \<and> room L (node_depth n) (added_entries (sc_frames s) + node_entries n) (node_aliases n) s)"

definition scanned ::
  "package_limits \<Rightarrow> string \<Rightarrow> (yaml_event \<times> nat) list \<Rightarrow> strict_scanner \<Rightarrow> bool \<Rightarrow> strict_scanner \<Rightarrow> bool" where
  "scanned L src evs s ok s' =
     (if ok then scan_events L src evs s = s' else sc_violation (scan_events L src evs s) \<noteq> None)"

definition node_scanned :: "package_limits \<Rightarrow> string \<Rightarrow> yaml_node \<Rightarrow> bool" where
  "node_scanned L src n =
     (\<forall>s evs. sc_violation s = None \<longrightarrow> room L 0 0 0 s \<longrightarrow> map fst evs = node_events n \<longrightarrow>
        scanned L src evs s (node_allowed L n s) (placed n s))"

lemma node_scannedD:
  "node_scanned L src n \<Longrightarrow> sc_violation s = None \<Longrightarrow> room L 0 0 0 s \<Longrightarrow> map fst evs = node_events n \<Longrightarrow>
     scanned L src evs s (node_allowed L n s) (placed n s)"
  by (simp add: node_scanned_def)

lemma length_toggled [simp]: "length (toggled key fs) = length fs"
  by (induction key fs rule: toggled.induct) simp_all

lemma node_started_result:
  assumes "sc_violation s = None"
  shows "if free_key key (sc_frames s) \<and> sc_entries s + added_entries (sc_frames s) \<le> max_collection_entries L
      \<or> added_entries (sc_frames s) = 0
    then node_started L key m src s = s\<lparr>sc_frames := toggled key (sc_frames s),
      sc_entries := sc_entries s + added_entries (sc_frames s)\<rparr>
    else sc_violation (node_started L key m src s) \<noteq> None"
proof (cases "sc_frames s")
  case (Cons f fs)
  show ?thesis
  proof (cases f)
    case (MappingFrame e ks)
    with Cons assms show ?thesis
      by (cases e; cases key) (auto simp: node_started_def scanner_reject_def insert_absorb Let_def)
  qed (use Cons assms in \<open>auto simp: node_started_def scanner_reject_def\<close>)
qed (use assms in \<open>auto simp: node_started_def scanner_reject_def\<close>)

lemma fold_max_le: "(k :: nat) + fold max xs b \<le> m \<longleftrightarrow> k + b \<le> m \<and> (\<forall>x \<in> set xs. k + x \<le> m)"
  by (induction xs arbitrary: b) auto

lemma fold_max_Suc: "Suc (k + fold max xs 0) \<le> m \<longleftrightarrow> Suc k \<le> m \<and> (\<forall>x \<in> set xs. Suc (k + x) \<le> m)"
  using fold_max_le [of "Suc k" xs 0 m] by simp

lemma scanned_append:
  assumes "scanned L src evs s ok s'" and "ok \<Longrightarrow> scanned L src evs' s' ok' s''"
  shows "scanned L src (evs @ evs') s (ok \<and> ok') s''"
proof (cases ok)
  case False
  with assms(1) obtain v where "sc_violation (scan_events L src evs s) = Some v" by (auto simp: scanned_def)
  with False show ?thesis by (simp add: scanned_def violation_sticks)
qed (use assms in \<open>auto simp: scanned_def\<close>)

lemma scanned_cong: "scanned L src evs s ok s' \<Longrightarrow> ok = ok' \<Longrightarrow> (ok' \<Longrightarrow> s' = s'') \<Longrightarrow> scanned L src evs s ok' s''"
  by (auto simp: scanned_def)

lemma map_splitE:
  assumes "map f xs = ys @ zs"
  obtains as bs where "xs = as @ bs" "map f as = ys" "map f bs = zs"
  using assms by (auto simp: map_eq_append_conv)

lemma sequence_scanned:
  assumes "\<forall>n \<in> set ns. node_scanned L src n"
    and "sc_violation s = None" "room L 0 0 0 s" "sc_frames s = SequenceFrame # fs"
    and "map fst evs = concat (map node_events ns)"
  shows "scanned L src evs s
    (list_all keys_ok ns \<and> (\<forall>n \<in> set ns. length (sc_frames s) + node_depth n \<le> max_nesting_depth L)
      \<and> room L 0 (sum_list (map (\<lambda>n. 1 + node_entries n) ns)) (sum_list (map node_aliases ns)) s)
    (s\<lparr>sc_entries := sc_entries s + sum_list (map (\<lambda>n. 1 + node_entries n) ns),
       sc_aliases := sc_aliases s + sum_list (map node_aliases ns)\<rparr>)"
  using assms
proof (induction ns arbitrary: s evs)
  case Nil
  then show ?case by (simp add: scanned_def)
next
  case (Cons n ns)
  from Cons.prems(5) obtain e1 e2 where evs: "evs = e1 @ e2" "map fst e1 = node_events n"
      "map fst e2 = concat (map node_events ns)" by (auto simp: map_eq_append_conv)
  have first: "scanned L src e1 s (node_allowed L n s) (placed n s)"
    using Cons.prems(1-3) evs(2) by (simp add: node_scannedD)
  have rest: "scanned L src e2 (placed n s)
      (list_all keys_ok ns \<and> (\<forall>n \<in> set ns. length (sc_frames s) + node_depth n \<le> max_nesting_depth L)
        \<and> room L 0 (sum_list (map (\<lambda>n. 1 + node_entries n) ns)) (sum_list (map node_aliases ns)) (placed n s))
      ((placed n s)\<lparr>sc_entries := sc_entries (placed n s) + sum_list (map (\<lambda>n. 1 + node_entries n) ns),
        sc_aliases := sc_aliases (placed n s) + sum_list (map node_aliases ns)\<rparr>)"
    if "node_allowed L n s"
    using Cons.IH [of "placed n s" e2] Cons.prems that evs(3) by (simp add: placed_def node_allowed_def room_def)
  show ?case
    unfolding evs(1)
    by (rule scanned_cong [OF scanned_append [OF first rest]])
       (use Cons.prems(3,4) in \<open>auto simp: placed_def node_allowed_def room_def mapping_key_expected_def\<close>)
qed

lemma mapping_scanned:
  assumes "\<forall>n \<in> fst ` set kvs \<union> snd ` set kvs. node_scanned L src n"
    and "sc_violation s = None" "room L 0 0 0 s" "sc_frames s = MappingFrame True keys # fs"
    and "map fst evs = concat (map (\<lambda>(k, v). node_events k @ node_events v) kvs)"
  shows "scanned L src evs s
    (list_all (\<lambda>(k, v). k \<noteq> NAlias \<and> keys_ok k \<and> keys_ok v) kvs
      \<and> distinct (List.map_filter (\<lambda>(k, v). scalar_of k) kvs)
      \<and> set (List.map_filter (\<lambda>(k, v). scalar_of k) kvs) \<inter> keys = {}
      \<and> (\<forall>(k, v) \<in> set kvs. length (sc_frames s) + max (node_depth k) (node_depth v) \<le> max_nesting_depth L)
      \<and> room L 0 (sum_list (map (\<lambda>(k, v). 1 + node_entries k + node_entries v) kvs))
          (sum_list (map (\<lambda>(k, v). node_aliases k + node_aliases v) kvs)) s)
    (s\<lparr>sc_frames := MappingFrame True (set (List.map_filter (\<lambda>(k, v). scalar_of k) kvs) \<union> keys) # fs,
       sc_entries := sc_entries s + sum_list (map (\<lambda>(k, v). 1 + node_entries k + node_entries v) kvs),
       sc_aliases := sc_aliases s + sum_list (map (\<lambda>(k, v). node_aliases k + node_aliases v) kvs)\<rparr>)"
  using assms
proof (induction kvs arbitrary: s evs keys)
  case Nil
  then show ?case by (simp add: scanned_def List.map_filter_simps)
next
  case (Cons kv kvs)
  obtain k v where kv: "kv = (k, v)" by (cases kv)
  from Cons.prems(5) obtain e1 e4 where e1: "evs = e1 @ e4" "map fst e1 = node_events k"
      "map fst e4 = node_events v @ concat (map (\<lambda>(k, v). node_events k @ node_events v) kvs)"
    by (auto simp: kv elim: map_splitE)
  then obtain e2 e3 where "e4 = e2 @ e3" and evs: "map fst e2 = node_events v"
      "map fst e3 = concat (map (\<lambda>(k, v). node_events k @ node_events v) kvs)"
    by (auto elim: map_splitE)
  with e1(1) have split: "evs = e1 @ e2 @ e3" by simp
  let ?s1 = "placed k s" and ?s2 = "placed v (placed k s)"
  have key: "scanned L src e1 s (node_allowed L k s) ?s1"
    using Cons.prems(1-3) e1(2) by (simp add: kv node_scannedD)
  have ok1: "sc_violation ?s1 = None \<and> room L 0 0 0 ?s1" if "node_allowed L k s"
    using that Cons.prems(2) by (simp add: placed_def node_allowed_def room_def)
  have child: "scanned L src e2 ?s1 (node_allowed L v ?s1) ?s2" if "node_allowed L k s"
    using Cons.prems(1) ok1 [OF that] evs(1) by (simp add: kv node_scannedD)
  have frames2: "sc_frames ?s2 = MappingFrame True (set_option (scalar_of k) \<union> keys) # fs"
    by (simp add: placed_def Cons.prems(4))
  have ok2: "sc_violation ?s2 = None \<and> room L 0 0 0 ?s2" if "node_allowed L v ?s1"
    using that Cons.prems(2) by (simp add: placed_def node_allowed_def room_def)
  have sub: "\<forall>n \<in> fst ` set kvs \<union> snd ` set kvs. node_scanned L src n" using Cons.prems(1) by simp
  note rest = Cons.IH [OF sub conjunct1 [OF ok2] conjunct2 [OF ok2] frames2 evs(2)]
  show ?case
    unfolding split
    apply (rule scanned_cong [OF scanned_append [OF key scanned_append [OF child rest]]]; (assumption)?)
    using Cons.prems(3,4) by (cases "scalar_of k"; auto simp: kv placed_def node_allowed_def room_def
        mapping_key_expected_def List.map_filter_simps)+
qed

lemma collection_scanned:
  assumes "sc_violation s = None" "room L 0 0 0 s" and "map fst evs = start # body @ [stop]"
    and "(start, stop) \<in> {(YSequenceStart, YSequenceEnd), (YMappingStart, YMappingEnd)}"
    and "frame = (if start = YSequenceStart then SequenceFrame else MappingFrame True {})"
    and inner: "\<And>s' es. sc_violation s' = None \<Longrightarrow> room L 0 0 0 s' \<Longrightarrow> map fst es = body \<Longrightarrow>
      sc_frames s' = frame # toggled None (sc_frames s) \<Longrightarrow>
      scanned L src es s' (inside \<and> room L 0 entries aliases s')
        (s'\<lparr>sc_frames := frame' # toggled None (sc_frames s), sc_entries := sc_entries s' + entries,
            sc_aliases := sc_aliases s' + aliases\<rparr>)"
  shows "scanned L src evs s
    (length (sc_frames s) + 1 \<le> max_nesting_depth L \<and> inside
      \<and> room L 0 (added_entries (sc_frames s) + entries) aliases s)
    (s\<lparr>sc_frames := toggled None (sc_frames s), sc_entries := sc_entries s + added_entries (sc_frames s) + entries,
       sc_aliases := sc_aliases s + aliases\<rparr>)"
proof -
  from assms(3) obtain m0 es m1 where evs: "evs = [(start, m0)] @ es @ [(stop, m1)]" "map fst es = body"
    by (auto simp: map_eq_append_conv Cons_eq_map_conv)
  let ?started = "s\<lparr>sc_frames := frame # toggled None (sc_frames s),
      sc_entries := sc_entries s + added_entries (sc_frames s)\<rparr>"
  let ?ended = "\<lambda>s. s\<lparr>sc_frames := tl (sc_frames s)\<rparr>"
  have free: "free_key None fs" for fs by (cases "(None :: string option, fs)" rule: free_key.cases) simp_all
  have first: "scanned L src [(start, m0)] s (length (sc_frames s) + 1 \<le> max_nesting_depth L
      \<and> sc_entries s + added_entries (sc_frames s) \<le> max_collection_entries L) ?started"
    using node_started_result [of s None L m0 src] assms(1,2,4,5)
    by (auto simp: scanned_def handle_event_def collection_started_def scanner_reject_def Let_def free room_def
        split: if_splits)
  have last: "scanned L src [(stop, m1)] s' True (?ended s')" if "sc_violation s' = None" for s'
    using assms(4) that by (auto simp: scanned_def handle_event_def)
  let ?filled = "?started\<lparr>sc_frames := frame' # toggled None (sc_frames s),
      sc_entries := sc_entries ?started + entries, sc_aliases := sc_aliases ?started + aliases\<rparr>"
  have middle: "scanned L src es ?started (inside \<and> room L 0 entries aliases ?started) ?filled"
    if "length (sc_frames s) + 1 \<le> max_nesting_depth L
      \<and> sc_entries s + added_entries (sc_frames s) \<le> max_collection_entries L"
    by (rule inner) (use assms(1,2) evs(2) that in \<open>simp_all add: room_def\<close>)
  have "scanned L src [(stop, m1)] ?filled True (?ended ?filled)" by (rule last) (simp add: assms(1))
  from scanned_append [OF first scanned_append [OF middle this]]
  show ?thesis
    unfolding evs(1)
    by (rule scanned_cong) (use assms(2) in \<open>auto simp: room_def\<close>)
qed

lemma node_scannedI:
  assumes "\<And>s evs. sc_violation s = None \<Longrightarrow> room L 0 0 0 s \<Longrightarrow> map fst evs = node_events n \<Longrightarrow>
      scanned L src evs s (node_allowed L n s) (placed n s)"
  shows "node_scanned L src n"
  using assms by (simp add: node_scanned_def)

lemma free_None [simp]: "free_key None fs"
  by (cases "(None :: string option, fs)" rule: free_key.cases) simp_all

lemma free_outside: "added_entries fs = 0 \<Longrightarrow> free_key key fs"
  by (cases "(key, fs)" rule: free_key.cases) simp_all

lemma scalar_scanned:
  "node_scanned L src (NScalar v)"
proof (rule node_scannedI)
  fix s :: strict_scanner and evs :: "(yaml_event \<times> nat) list"
  assume s: "sc_violation s = None" "room L 0 0 0 s" and evs: "map fst evs = node_events (NScalar v)"
  from evs obtain m where "evs = [(YScalar v, m)]" by auto
  with s node_started_result [of s "Some v" L m src]
  show "scanned L src evs s (node_allowed L (NScalar v) s) (placed (NScalar v) s)"
    by (auto simp: scanned_def handle_event_def node_allowed_def placed_def room_def free_outside split: if_splits)
qed

lemma alias_scanned:
  "node_scanned L src NAlias"
proof (rule node_scannedI)
  fix s :: strict_scanner and evs :: "(yaml_event \<times> nat) list"
  assume s: "sc_violation s = None" "room L 0 0 0 s" and evs: "map fst evs = node_events NAlias"
  from evs obtain m where "evs = [(YAlias, m)]" by auto
  with s node_started_result [of s None L m src]
  show "scanned L src evs s (node_allowed L NAlias s) (placed NAlias s)"
    by (auto simp: scanned_def handle_event_def node_allowed_def placed_def room_def Let_def
        scanner_reject_def split: if_splits)
qed

lemma node_sequence_scanned:
  assumes "\<forall>n \<in> set ns. node_scanned L src n"
  shows "node_scanned L src (NSequence ns)"
proof (rule node_scannedI)
  fix s :: strict_scanner and evs :: "(yaml_event \<times> nat) list"
  assume s: "sc_violation s = None" "room L 0 0 0 s" and evs: "map fst evs = node_events (NSequence ns)"
  have inner: "scanned L src es s' ((list_all keys_ok ns
        \<and> (\<forall>n \<in> set ns. Suc (length (sc_frames s)) + node_depth n \<le> max_nesting_depth L))
      \<and> room L 0 (sum_list (map (\<lambda>n. 1 + node_entries n) ns)) (sum_list (map node_aliases ns)) s')
      (s'\<lparr>sc_frames := SequenceFrame # toggled None (sc_frames s),
        sc_entries := sc_entries s' + sum_list (map (\<lambda>n. 1 + node_entries n) ns),
        sc_aliases := sc_aliases s' + sum_list (map node_aliases ns)\<rparr>)"
    if "sc_violation s' = None" "room L 0 0 0 s'" "map fst es = concat (map node_events ns)"
      "sc_frames s' = SequenceFrame # toggled None (sc_frames s)" for s' es
    by (rule scanned_cong [OF sequence_scanned [OF _ that(1,2,4,3)]])
       (use assms that(4) in \<open>auto simp del: sum_list_Suc\<close>)
  have "scanned L src evs s (length (sc_frames s) + 1 \<le> max_nesting_depth L
      \<and> (list_all keys_ok ns \<and> (\<forall>n \<in> set ns. Suc (length (sc_frames s)) + node_depth n \<le> max_nesting_depth L))
      \<and> room L 0 (added_entries (sc_frames s) + sum_list (map (\<lambda>n. 1 + node_entries n) ns))
          (sum_list (map node_aliases ns)) s)
      (s\<lparr>sc_frames := toggled None (sc_frames s),
        sc_entries := sc_entries s + added_entries (sc_frames s) + sum_list (map (\<lambda>n. 1 + node_entries n) ns),
        sc_aliases := sc_aliases s + sum_list (map node_aliases ns)\<rparr>)"
    by (rule collection_scanned [OF s evs [unfolded node_events.simps] _ _ inner]) simp_all
  then show "scanned L src evs s (node_allowed L (NSequence ns) s) (placed (NSequence ns) s)"
    by (rule scanned_cong) (auto simp: node_allowed_def placed_def room_def fold_max_Suc)
qed

lemma node_mapping_scanned:
  assumes sub: "\<forall>n \<in> fst ` set kvs \<union> snd ` set kvs. node_scanned L src n"
  shows "node_scanned L src (NMapping kvs)"
proof -
  let ?keys = "List.map_filter (\<lambda>(k, v). scalar_of k) kvs"
  let ?entries = "sum_list (map (\<lambda>(k, v). 1 + node_entries k + node_entries v) kvs)"
  let ?aliases = "sum_list (map (\<lambda>(k, v). node_aliases k + node_aliases v) kvs)"
  show ?thesis
  proof (rule node_scannedI)
    fix s :: strict_scanner and evs :: "(yaml_event \<times> nat) list"
    assume s: "sc_violation s = None" "room L 0 0 0 s" and evs: "map fst evs = node_events (NMapping kvs)"
    let ?inside = "list_all (\<lambda>(k, v). k \<noteq> NAlias \<and> keys_ok k \<and> keys_ok v) kvs \<and> distinct ?keys
        \<and> (\<forall>(k, v) \<in> set kvs. Suc (length (sc_frames s)) + max (node_depth k) (node_depth v) \<le> max_nesting_depth L)"
    have inner: "scanned L src es s' (?inside \<and> room L 0 ?entries ?aliases s')
        (s'\<lparr>sc_frames := MappingFrame True (set ?keys) # toggled None (sc_frames s),
          sc_entries := sc_entries s' + ?entries, sc_aliases := sc_aliases s' + ?aliases\<rparr>)"
      if "sc_violation s' = None" "room L 0 0 0 s'"
        "map fst es = concat (map (\<lambda>(k, v). node_events k @ node_events v) kvs)"
        "sc_frames s' = MappingFrame True {} # toggled None (sc_frames s)" for s' es
      by (rule scanned_cong [OF mapping_scanned [OF sub that(1,2,4,3)]]) (use that(4) in simp_all)
    have "scanned L src evs s (length (sc_frames s) + 1 \<le> max_nesting_depth L \<and> ?inside
        \<and> room L 0 (added_entries (sc_frames s) + ?entries) ?aliases s)
        (s\<lparr>sc_frames := toggled None (sc_frames s),
          sc_entries := sc_entries s + added_entries (sc_frames s) + ?entries,
          sc_aliases := sc_aliases s + ?aliases\<rparr>)"
      by (rule collection_scanned [OF s evs [unfolded node_events.simps] _ _ inner]) simp_all
    then show "scanned L src evs s (node_allowed L (NMapping kvs) s) (placed (NMapping kvs) s)"
      by (rule scanned_cong) (auto simp: node_allowed_def placed_def room_def fold_max_Suc)
  qed
qed

lemma node_scanned_all: "node_scanned L src n"
proof (induction n)
  case (NScalar v)
  show ?case by (rule scalar_scanned)
next
  case NAlias
  show ?case by (rule alias_scanned)
next
  case (NSequence ns)
  then show ?case by (intro node_sequence_scanned) simp
next
  case (NMapping kvs)
  then show ?case by (intro node_mapping_scanned) (force simp: fsts.simps snds.simps)
qed

section \<open>Documents\<close>

lemma documents_scanned:
  assumes "sc_violation s = None" "room L 0 0 0 s" "sc_frames s = []"
    and "map fst evs = concat (map document_events docs)"
  shows "scanned L src evs s
    (list_all (\<lambda>n. node_depth n \<le> max_nesting_depth L \<and> keys_ok n) docs
      \<and> room L 0 (sum_list (map node_entries docs)) (sum_list (map node_aliases docs)) s)
    (s\<lparr>sc_entries := sc_entries s + sum_list (map node_entries docs),
       sc_aliases := sc_aliases s + sum_list (map node_aliases docs)\<rparr>)"
  using assms
proof (induction docs arbitrary: s evs)
  case Nil
  then show ?case by (simp add: scanned_def)
next
  case (Cons n docs)
  from Cons.prems(4) have "map fst evs = ([YDocumentStart] @ node_events n @ [YDocumentEnd])
      @ concat (map document_events docs)" by (simp add: document_events_def [of n])
  then obtain e1 e2 where evs: "evs = e1 @ e2" "map fst e1 = [YDocumentStart] @ node_events n @ [YDocumentEnd]"
      and rest: "map fst e2 = concat (map document_events docs)" by (rule map_splitE)
  from evs(2) obtain m es m' where e1: "e1 = [(YDocumentStart, m)] @ es @ [(YDocumentEnd, m')]"
      and es: "map fst es = node_events n"
    by (auto simp: map_eq_append_conv Cons_eq_map_conv)
  have frames: "sc_frames (placed n s) = []" "sc_violation (placed n s) = None"
    using Cons.prems(1,3) by (simp_all add: placed_def)
  have mark: "scanned L src [(e, m)] s True s"
    if "sc_violation s = None" "e \<in> {YDocumentStart, YDocumentEnd}" for e m and s :: strict_scanner
    using that by (auto simp: scanned_def handle_event_def)
  have tree: "scanned L src es s (node_allowed L n s) (placed n s)"
    by (rule node_scannedD [OF node_scanned_all Cons.prems(1,2) es])
  have first: "scanned L src e1 s (True \<and> node_allowed L n s \<and> True) (placed n s)"
    unfolding e1 using scanned_append [OF mark scanned_append [OF tree mark]] Cons.prems(1) frames(2) by simp
  have room: "room L 0 0 0 (placed n s)" if "True \<and> node_allowed L n s \<and> True"
    using that Cons.prems(3) by (simp add: placed_def node_allowed_def room_def)
  note last = Cons.IH [OF frames(2) room frames(1) rest]
  show ?case
    unfolding evs(1)
    by (rule scanned_cong [OF scanned_append [OF first last]]; (assumption)?)
       (use Cons.prems(3) in \<open>auto simp: placed_def node_allowed_def room_def mapping_key_expected_def\<close>)
qed

lemma ascii_width: "char_in 0 127 c \<Longrightarrow> char_width (c # s) = 1"
  by (simp add: char_width_def lead_bytes_def Let_def)

lemma ascii_is_utf8: "list_all (char_in 0 127) s \<Longrightarrow> is_utf8 s"
proof (induction s)
  case Nil
  show ?case by (simp add: is_utf8_def valid_up_to.simps [of "[]"])
next
  case (Cons c s)
  then have "valid_up_to (c # s) = 1 + valid_up_to s"
    by (subst valid_up_to.simps) (simp add: ascii_width)
  with Cons show ?case by (simp add: is_utf8_def)
qed

text \<open>
  Claim C32. Strict reading of YAML is exact: on any text for which the parser reports a well-nested
  stream of documents, the event scanner lets the text through precisely when it is UTF-8 within the byte
  limit and the documents, read as trees, are within the limits on nesting, on collection entries
  and on aliases in total, and have no mapping that repeats a scalar key or uses an alias as a key, at any
  depth.
\<close>

theorem strict_scan_accepts_iff:
  assumes "y_stream Y bytes = stream_of evs mark"
    and "map fst evs = YStreamStart # concat (map document_events docs)"
  shows "strict_scan Y L bytes = Inr () \<longleftrightarrow>
    length bytes \<le> max_yaml_bytes L \<and> is_utf8 bytes \<and> documents_within L docs"
proof -
  from assms(2) obtain m es where evs: "evs = (YStreamStart, m) # es"
      and es: "map fst es = concat (map document_events docs)"
    by (auto simp: Cons_eq_map_conv)
  have "handle_event L bytes YStreamStart m scanner_new = scanner_new"
    by (simp add: handle_event_def scanner_new_def)
  then have stream: "scan_stream L bytes (y_stream Y bytes) scanner_new = Inr () \<longleftrightarrow>
      sc_violation (scan_events L bytes es scanner_new) = None"
    by (simp add: assms(1) evs scan_stream_of del: stream_of.simps split: option.splits)
  have "scanned L bytes es scanner_new (documents_within L docs)
      (scanner_new\<lparr>sc_entries := sum_list (map node_entries docs), sc_aliases := sum_list (map node_aliases docs)\<rparr>)"
    by (rule scanned_cong [OF documents_scanned [OF _ _ _ es]])
       (simp_all add: scanner_new_def room_def documents_within_def)
  then have "sc_violation (scan_events L bytes es scanner_new) = None \<longleftrightarrow> documents_within L docs"
    by (auto simp: scanned_def scanner_new_def split: if_splits)
  with stream show ?thesis by (simp add: strict_scan_def)
qed

definition sample_events :: "(yaml_event \<times> nat) list" where
  "sample_events =
     [(YStreamStart, 0), (YDocumentStart, 0), (YMappingStart, 0), (YScalar ''a'', 0), (YSequenceStart, 3),
      (YScalar ''1'', 4), (YAlias, 6), (YSequenceEnd, 9), (YScalar ''b'', 10), (YScalar ''a'', 13),
      (YMappingEnd, 14), (YDocumentEnd, 14)]"

definition yaml_sample :: yaml_engine where
  "yaml_sample =
     \<lparr>y_stream = \<lambda>_. stream_of sample_events 14,
      y_manifest = \<lambda>_. Inl ''missing field'', y_binding = \<lambda>_. Inl ''missing field''\<rparr>"

theorem strict_scan_accepts_iff_witness:
  "strict_scan yaml_sample package_limits_v1 ''a: [1, *x]; b: a'' = Inr ()"
proof -
  let ?doc = "NMapping [(NScalar ''a'', NSequence [NScalar ''1'', NAlias]), (NScalar ''b'', NScalar ''a'')]"
  have stream: "y_stream yaml_sample ''a: [1, *x]; b: a'' = stream_of sample_events 14"
    by (simp add: yaml_sample_def)
  have events: "map fst sample_events = YStreamStart # concat (map document_events [?doc])"
    by (simp add: sample_events_def document_events_def)
  have "is_utf8 ''a: [1, *x]; b: a''" by (rule ascii_is_utf8) (simp add: char_in_def)
  moreover have "documents_within package_limits_v1 [?doc]"
    by (simp add: documents_within_def package_limits_v1_def List.map_filter_simps)
  ultimately show ?thesis
    by (subst strict_scan_accepts_iff [OF stream events]) (simp add: package_limits_v1_def)
qed

end
