(* ===== verification/KF_Load.thy ===== *)
theory KF_Load
  imports KF_Yaml
begin

text \<open>
  The source loader, \<open>path.rs\<close>, \<open>discover.rs\<close>, \<open>load.rs\<close> and \<open>target.rs\<close> of
  \<open>kiteframe-core/src\<close>: files are opened below a package root without following symbolic links and
  against one byte budget, the references of a manifest are registered in a tracker that is shared by
  the whole package tree, nested agents are loaded to a bounded depth, and an identity may be
  loaded once. The operating system is the record \<open>file_system\<close>: the files as they are while one package is
  loaded. The case folding of Unicode strings is a parameter too. An error ends the whole load, so the context is threaded
  through the successful results only.
\<close>

section \<open>Paths and files\<close>

record file_system =
  fs_canonical :: "string \<Rightarrow> string option"
  fs_is_dir :: "string \<Rightarrow> bool"
  fs_is_file :: "string \<Rightarrow> bool"
  fs_is_symlink :: "string \<Rightarrow> bool option"
  fs_open :: "string \<Rightarrow> bool"
  fs_bytes :: "string \<Rightarrow> string option"

text \<open>
  The operations of \<open>std::path\<close> that the loader uses: \<open>join\<close> with a relative path, the components of an
  absolute path, \<open>starts_with\<close> and \<open>parent\<close> of the canonical path of a file.
\<close>

definition os_join :: "string \<Rightarrow> string \<Rightarrow> string" where
  "os_join base path = (if base = [] \<or> last base = CHR ''/'' then base @ path else base @ CHR ''/'' # path)"

definition os_components :: "string \<Rightarrow> string list" where
  "os_components path = filter (\<lambda>c. c \<noteq> []) (split_on CHR ''/'' path)"

definition os_starts_with :: "string \<Rightarrow> string \<Rightarrow> bool" where
  "os_starts_with path base = prefix (os_components base) (os_components path)"

definition os_parent :: "string \<Rightarrow> string" where
  "os_parent path =
     (case rsplit_once CHR ''/'' path of
        None \<Rightarrow> []
      | Some (dir, _) \<Rightarrow> if dir = [] then ''/'' else dir)"

definition containment :: "string \<Rightarrow> string \<Rightarrow> diagnostic" where
  "containment path message =
     (diagnostic_error PackageContainment CatPackage StageValidate message)\<lparr>d_package_path := Some path\<rparr>"

definition package_path_invalid :: "string option \<Rightarrow> string \<Rightarrow> diagnostic" where
  "package_path_invalid path message =
     (diagnostic_error PackageInvalid CatPackage StageValidate message)\<lparr>d_package_path := path\<rparr>"

definition package_root_open :: "file_system \<Rightarrow> string \<Rightarrow> (diagnostic, string) result" where
  "package_root_open F path =
     and_then (ok_or (package_path_invalid None ''package root cannot be opened'') (fs_canonical F path))
     (\<lambda>canonical. and_then (ensure (fs_is_dir F canonical)
        (package_path_invalid None ''package root is not a directory''))
     (\<lambda>_. Inr canonical))"

record byte_budget =
  bb_limit :: nat
  bb_used :: nat

definition byte_budget_new :: "nat \<Rightarrow> byte_budget" where
  "byte_budget_new limit = \<lparr>bb_limit = limit, bb_used = 0\<rparr>"

definition bb_remaining :: "byte_budget \<Rightarrow> nat" where
  "bb_remaining b = bb_limit b - bb_used b"

definition bb_charge :: "nat \<Rightarrow> byte_budget \<Rightarrow> byte_budget" where
  "bb_charge n b = b\<lparr>bb_used := bb_used b + n\<rparr>"

record referenced_bytes =
  rb_bytes :: string
  rb_canonical_path :: string

definition symlink_step :: "file_system \<Rightarrow> string \<Rightarrow> string \<Rightarrow> string \<Rightarrow> (diagnostic, string) result" where
  "symlink_step F path candidate component =
     (let candidate = os_join candidate component
      in and_then (ok_or (package_path_invalid (Some path) ''referenced file cannot be opened'') (fs_is_symlink F candidate))
         (\<lambda>symlink. and_then (ensure (\<not> symlink) (containment path ''referenced path contains a symlink''))
         (\<lambda>_. Inr candidate)))"

definition reject_symlink_components :: "file_system \<Rightarrow> string \<Rightarrow> string \<Rightarrow> (diagnostic, unit) result" where
  "reject_symlink_components F root path =
     map_ok (\<lambda>_. ()) (try_fold (symlink_step F path) (split_on CHR ''/'' path) root)"

definition read_limited ::
  "file_system \<Rightarrow> string \<Rightarrow> string \<Rightarrow> nat \<Rightarrow> (diagnostic, string) result" where
  "read_limited F path canonical n =
     and_then (ensure (fs_open F canonical) (package_path_invalid (Some path) ''referenced file cannot be opened''))
     (\<lambda>_. map_ok (take n)
       (ok_or (package_path_invalid (Some path) ''referenced file cannot be read'') (fs_bytes F canonical)))"

definition open_referenced_bytes ::
  "file_system \<Rightarrow> string \<Rightarrow> string \<Rightarrow> nat \<Rightarrow> bool \<Rightarrow> byte_budget \<Rightarrow>
     (diagnostic, referenced_bytes \<times> byte_budget) result" where
  "open_referenced_bytes F root path per_file_limit is_text budget =
     and_then (reject_symlink_components F root path)
     (\<lambda>_. and_then (ok_or (package_path_invalid (Some path) ''referenced file cannot be opened'')
        (fs_canonical F (os_join root path)))
     (\<lambda>canonical. and_then (ensure (os_starts_with canonical root)
        (containment path ''resolved path escapes package root''))
     (\<lambda>_. and_then (ensure (fs_is_file F canonical)
        (package_path_invalid (Some path) ''referenced path is not a regular file''))
     (\<lambda>_. let remaining = bb_remaining budget;
               read_limit = min per_file_limit remaining
          in and_then (read_limited F path canonical (read_limit + 1))
     (\<lambda>bytes.
        if read_limit < length bytes then
          if per_file_limit \<le> remaining
          then Inl (package_path_invalid (Some path)
            (if is_text then ''text asset byte limit exceeded'' else ''YAML byte limit exceeded''))
          else Inl (package_path_invalid (Some path) ''total referenced byte limit exceeded'')
        else Inr (\<lparr>rb_bytes = bytes, rb_canonical_path = canonical\<rparr>, bb_charge (length bytes) budget))))))"

definition open_referenced_text ::
  "file_system \<Rightarrow> string \<Rightarrow> string \<Rightarrow> nat \<Rightarrow> byte_budget \<Rightarrow> (diagnostic, text_asset \<times> byte_budget) result" where
  "open_referenced_text F root path max_asset_bytes budget =
     and_then (open_referenced_bytes F root path max_asset_bytes True budget)
     (\<lambda>(referenced, budget). and_then (ensure (is_utf8 (rb_bytes referenced))
        (containment path ''text asset is not UTF-8''))
     (\<lambda>_. Inr (\<lparr>ta_path = path, ta_text = rb_bytes referenced\<rparr>, budget)))"

definition open_referenced_yaml ::
  "file_system \<Rightarrow> string \<Rightarrow> string \<Rightarrow> nat \<Rightarrow> byte_budget \<Rightarrow> (diagnostic, referenced_bytes \<times> byte_budget) result" where
  "open_referenced_yaml F root path limit budget = open_referenced_bytes F root path limit False budget"

section \<open>References\<close>

text \<open>
  The tracker maps the case-folded path of a reference, relative to the outermost package, to the
  path and the package that made it.
\<close>

record tracked_path =
  tp_path :: string
  tp_package_prefix :: string

type_synonym collision_tracker = "(string \<times> tracked_path) list"

definition tracker_for_root :: collision_tracker where
  "tracker_for_root = [(''agent.yaml'', \<lparr>tp_path = ''agent.yaml'', tp_package_prefix = []\<rparr>)]"

definition top_package_relative :: "string \<Rightarrow> string \<Rightarrow> string" where
  "top_package_relative package_prefix local_path =
     (if package_prefix = [] then local_path else package_prefix @ CHR ''/'' # local_path)"

definition tracker_register ::
  "(string \<Rightarrow> string) \<Rightarrow> string \<Rightarrow> string \<Rightarrow> collision_tracker \<Rightarrow> (diagnostic, collision_tracker) result" where
  "tracker_register lowercase package_prefix local_path tracker =
     (let full_path = top_package_relative package_prefix local_path;
          collision_key = lowercase full_path;
          collides = (case map_of tracker collision_key of
              None \<Rightarrow> False
            | Some existing \<Rightarrow> tp_path existing \<noteq> full_path \<or> tp_package_prefix existing \<noteq> package_prefix)
      in and_then (ensure (\<not> collides) (containment full_path ''referenced paths collide across the package tree''))
         (\<lambda>_. Inr (btree_insert collision_key \<lparr>tp_path = full_path, tp_package_prefix = package_prefix\<rparr> tracker)))"

record portable_references =
  pr_prompt :: string
  pr_skills :: "string list"
  pr_subagents :: "string list"

definition nested_manifest_name :: "string \<Rightarrow> bool" where
  "nested_manifest_name path = (last (split_on CHR ''/'' path) = ''agent.yaml'')"

definition discover_portable_references ::
  "(string \<Rightarrow> string) \<Rightarrow> agent_manifest \<Rightarrow> string \<Rightarrow> collision_tracker \<Rightarrow>
     (diagnostic, portable_references \<times> collision_tracker) result" where
  "discover_portable_references lowercase manifest package_prefix tracker =
     (let subagents = map dr_agent (am_delegation manifest)
      in and_then (try_each (\<lambda>path. ensure (nested_manifest_name path)
           (package_path_invalid (Some path) ''nested agent manifest must be named agent.yaml'')) subagents)
         (\<lambda>_. map_ok (\<lambda>tracker. (\<lparr>pr_prompt = am_prompt manifest, pr_skills = am_skills manifest,
              pr_subagents = subagents\<rparr>, tracker))
           (try_fold (\<lambda>tracker path. tracker_register lowercase package_prefix path tracker)
              (am_prompt manifest # am_skills manifest @ subagents) tracker)))"

section \<open>Loading\<close>

record loader =
  ld_files :: file_system
  ld_yaml :: yaml_engine
  ld_externals :: externals
  ld_lowercase :: "string \<Rightarrow> string"
  ld_limits :: package_limits

record load_context =
  lc_budget :: byte_budget
  lc_active :: "package_identity set"
  lc_seen :: "package_identity set"
  lc_paths :: collision_tracker

definition load_context_new :: "package_limits \<Rightarrow> load_context" where
  "load_context_new L =
     \<lparr>lc_budget = byte_budget_new (max_total_referenced_bytes L), lc_active = {}, lc_seen = {},
      lc_paths = tracker_for_root\<rparr>"

definition identity_enter ::
  "package_identity \<Rightarrow> load_context \<Rightarrow> (diagnostic list, load_context) result" where
  "identity_enter identity ctx =
     and_then (ensure (identity \<notin> lc_active ctx) [package_path_invalid None ''nested agent identity cycle detected''])
     (\<lambda>_. and_then (ensure (identity \<notin> lc_seen ctx)
        [package_path_invalid None ''duplicate nested agent identity detected''])
     (\<lambda>_. Inr (ctx\<lparr>lc_active := insert identity (lc_active ctx), lc_seen := insert identity (lc_seen ctx)\<rparr>)))"

definition identity_leave :: "package_identity \<Rightarrow> load_context \<Rightarrow> load_context" where
  "identity_leave identity ctx = ctx\<lparr>lc_active := lc_active ctx - {identity}\<rparr>"

definition single :: "(diagnostic, 'a) result \<Rightarrow> (diagnostic list, 'a) result" where
  "single r = map_err (\<lambda>diagnostic. [diagnostic]) r"

definition read_asset ::
  "loader \<Rightarrow> string \<Rightarrow> (string \<times> text_asset) list \<times> load_context \<Rightarrow> string \<Rightarrow>
     (diagnostic list, (string \<times> text_asset) list \<times> load_context) result" where
  "read_asset D root s path =
     (case s of (assets, ctx) \<Rightarrow>
        map_ok (\<lambda>(asset, budget). (btree_insert path asset assets, ctx\<lparr>lc_budget := budget\<rparr>))
          (single (open_referenced_text (ld_files D) root path (max_text_asset_bytes (ld_limits D)) (lc_budget ctx))))"

definition child_package_prefix :: "string \<Rightarrow> string \<Rightarrow> string" where
  "child_package_prefix package_prefix path =
     (case rsplit_once CHR ''/'' (top_package_relative package_prefix path) of
        None \<Rightarrow> []
      | Some (dir, _) \<Rightarrow> dir)"

definition open_child ::
  "loader \<Rightarrow> string \<Rightarrow> nat \<Rightarrow> load_context \<Rightarrow> string \<Rightarrow>
     (diagnostic list, string \<times> agent_manifest \<times> load_context) result" where
  "open_child D root child_depth ctx path =
     and_then (ensure (child_depth \<le> max_subagent_depth (ld_limits D))
       [package_path_invalid (Some path) ''nested agent nesting limit exceeded''])
     (\<lambda>_. and_then (single (open_referenced_yaml (ld_files D) root path (max_yaml_bytes (ld_limits D)) (lc_budget ctx)))
     (\<lambda>(referenced, budget). and_then (parse_manifest (ld_yaml D) (ld_limits D) (rb_bytes referenced))
     (\<lambda>manifest. and_then (single (package_root_open (ld_files D) (os_parent (rb_canonical_path referenced))))
     (\<lambda>child_root. Inr (child_root, manifest, ctx\<lparr>lc_budget := budget\<rparr>)))))"

lemma try_fold_cong [fundef_cong]:
  "xs = ys \<Longrightarrow> a = b \<Longrightarrow> (\<And>a x. x \<in> set ys \<Longrightarrow> f a x = g a x) \<Longrightarrow> try_fold f xs a = try_fold g ys b"
proof (induction ys arbitrary: xs a b)
  case (Cons y ys)
  then have "try_fold f ys c = try_fold g ys c" for c by simp
  with Cons show ?case by (cases "g b y") auto
qed simp

lemma open_child_depth: "open_child D root child_depth ctx path = Inr r \<Longrightarrow> child_depth \<le> max_subagent_depth (ld_limits D)"
  by (auto simp: open_child_def)

function load_parsed_package ::
    "loader \<Rightarrow> string \<Rightarrow> agent_manifest \<Rightarrow> string \<Rightarrow> nat \<Rightarrow> load_context \<Rightarrow>
       (diagnostic list, agent_package \<times> load_context) result"
  and assemble_package ::
    "loader \<Rightarrow> string \<Rightarrow> agent_manifest \<Rightarrow> string \<Rightarrow> nat \<Rightarrow> load_context \<Rightarrow>
       (diagnostic list, agent_package \<times> load_context) result" where
  "load_parsed_package D root manifest package_prefix depth ctx =
     and_then (identity_enter (am_metadata manifest) ctx)
     (\<lambda>ctx. map_ok (\<lambda>(package, ctx). (package, identity_leave (am_metadata manifest) ctx))
       (assemble_package D root manifest package_prefix depth ctx))"
| "assemble_package D root manifest package_prefix depth ctx =
     and_then (single (discover_portable_references (ld_lowercase D) manifest package_prefix (lc_paths ctx)))
     (\<lambda>(references, paths). and_then (read_asset D root ([], ctx\<lparr>lc_paths := paths\<rparr>) (pr_prompt references))
     (\<lambda>(prompt_assets, ctx). and_then (try_fold (read_asset D root) (pr_skills references) ([], ctx))
     (\<lambda>(skill_assets, ctx). and_then
       (try_fold (\<lambda>(subagents, ctx) path.
          and_then (open_child D root (depth + 1) ctx path)
          (\<lambda>(child_root, child_manifest, ctx).
             map_ok (\<lambda>(child, ctx). (btree_insert path child subagents, ctx))
               (load_parsed_package D child_root child_manifest (child_package_prefix package_prefix path)
                  (depth + 1) ctx)))
          (pr_subagents references) ([], ctx))
     (\<lambda>(subagents, ctx). map_ok (\<lambda>package. (package, ctx))
        (single (package_from_validated_parts (ld_externals D) root manifest prompt_assets skill_assets subagents))))))"
  by pat_completeness auto
termination
  by (relation "measure (\<lambda>call. case call of
        Inl (D, root, manifest, package_prefix, depth, ctx) \<Rightarrow> 2 * (max_subagent_depth (ld_limits D) + 1 - depth) + 1
      | Inr (D, root, manifest, package_prefix, depth, ctx) \<Rightarrow> 2 * (max_subagent_depth (ld_limits D) + 1 - depth))")
     (auto dest!: open_child_depth)

declare load_parsed_package.simps [simp del] assemble_package.simps [simp del]

definition load_package :: "loader \<Rightarrow> string \<Rightarrow> (diagnostic list, agent_package) result" where
  "load_package D path =
     (let L = ld_limits D; ctx = load_context_new L
      in and_then (single (package_root_open (ld_files D) path))
         (\<lambda>root. and_then (single (open_referenced_yaml (ld_files D) root ''agent.yaml'' (max_yaml_bytes L) (lc_budget ctx)))
         (\<lambda>(manifest_bytes, budget). and_then (parse_manifest (ld_yaml D) L (rb_bytes manifest_bytes))
         (\<lambda>manifest. map_ok fst
            (load_parsed_package D root manifest [] 0 (ctx\<lparr>lc_budget := budget\<rparr>))))))"

definition load_runtime_binding :: "loader \<Rightarrow> string \<Rightarrow> string \<Rightarrow> (diagnostic list, runtime_binding) result" where
  "load_runtime_binding D path selected =
     (let L = ld_limits D; budget = byte_budget_new (max_total_referenced_bytes L)
      in and_then (single (package_root_open (ld_files D) path))
         (\<lambda>root. and_then (single (open_referenced_yaml (ld_files D) root selected (max_yaml_bytes L) budget))
         (\<lambda>(binding_bytes, _). parse_binding (ld_yaml D) L (rb_bytes binding_bytes))))"

definition load_runtime_target_catalog ::
  "externals \<Rightarrow> (string \<Rightarrow> string option) \<Rightarrow> (string \<Rightarrow> component_catalog option) \<Rightarrow> string \<Rightarrow>
     (diagnostic list, runtime_target \<times> component_catalog) result" where
  "load_runtime_target_catalog X read decode path =
     and_then (ok_or (single_diagnostic ''runtime target metadata cannot be read'') (read path))
     (\<lambda>bytes. and_then (ok_or (single_diagnostic ''runtime target metadata is invalid'') (decode bytes))
     (\<lambda>components. map_ok (\<lambda>target. (target, components)) (runtime_target_of X components)))"

section \<open>Loading as a relation\<close>

text \<open>
  What a successful load went through, as a big-step relation: one rule for a package and the two rules of
  the loop over its nested agents. Each property of a loaded package is a rule induction on it.
\<close>

inductive loads ::
    "loader \<Rightarrow> string \<Rightarrow> agent_manifest \<Rightarrow> string \<Rightarrow> nat \<Rightarrow> load_context \<Rightarrow> agent_package \<Rightarrow> load_context \<Rightarrow> bool"
  and loads_children ::
    "loader \<Rightarrow> string \<Rightarrow> string \<Rightarrow> nat \<Rightarrow> string list \<Rightarrow> (string \<times> agent_package) list \<Rightarrow> load_context \<Rightarrow>
       (string \<times> agent_package) list \<Rightarrow> load_context \<Rightarrow> bool" for D where
  loads_package:
    "identity_enter (am_metadata m) ctx = Inr ctx1 \<Longrightarrow>
     discover_portable_references (ld_lowercase D) m pre (lc_paths ctx1) = Inr (refs, paths) \<Longrightarrow>
     read_asset D root ([], ctx1\<lparr>lc_paths := paths\<rparr>) (pr_prompt refs) = Inr (ps, ctx2) \<Longrightarrow>
     try_fold (read_asset D root) (pr_skills refs) ([], ctx2) = Inr (ss, ctx3) \<Longrightarrow>
     loads_children D root pre depth (pr_subagents refs) [] ctx3 subs ctx4 \<Longrightarrow>
     package_from_validated_parts (ld_externals D) root m ps ss subs = Inr p \<Longrightarrow>
     loads D root m pre depth ctx p (identity_leave (am_metadata m) ctx4)"
| children_done: "loads_children D root pre depth [] subs ctx subs ctx"
| children_next:
    "open_child D root (depth + 1) ctx path = Inr (child_root, cm, ctx1) \<Longrightarrow>
     loads D child_root cm (child_package_prefix pre path) (depth + 1) ctx1 child ctx2 \<Longrightarrow>
     loads_children D root pre depth paths (btree_insert path child subs) ctx2 subs' ctx' \<Longrightarrow>
     loads_children D root pre depth (path # paths) subs ctx subs' ctx'"

lemma children_loaded:
  assumes "try_fold (\<lambda>(subagents, ctx) path.
        and_then (open_child D root (depth + 1) ctx path)
        (\<lambda>(child_root, child_manifest, ctx).
           map_ok (\<lambda>(child, ctx). (btree_insert path child subagents, ctx))
             (load_parsed_package D child_root child_manifest (child_package_prefix pre path) (depth + 1) ctx)))
        paths (subs, ctx) = Inr (subs', ctx')"
    and "\<And>path child_root m ctx1 p ctx2. depth + 1 \<le> max_subagent_depth (ld_limits D) \<Longrightarrow>
      load_parsed_package D child_root m (child_package_prefix pre path) (depth + 1) ctx1 = Inr (p, ctx2) \<Longrightarrow>
      loads D child_root m (child_package_prefix pre path) (depth + 1) ctx1 p ctx2"
  shows "loads_children D root pre depth paths subs ctx subs' ctx'"
  using assms(1)
proof (induction paths arbitrary: subs ctx)
  case Nil
  then show ?case by (simp add: children_done)
next
  case (Cons path paths)
  then obtain child_root m ctx1 child ctx2
    where step: "open_child D root (depth + 1) ctx path = Inr (child_root, m, ctx1)"
        "load_parsed_package D child_root m (child_package_prefix pre path) (depth + 1) ctx1 = Inr (child, ctx2)"
      and "loads_children D root pre depth paths (btree_insert path child subs) ctx2 subs' ctx'"
    by auto
  with assms(2) [OF open_child_depth [OF step(1)]] show ?case by (blast intro: children_next)
qed

lemma load_parsed_package_loads:
  "load_parsed_package D root m pre depth ctx = Inr (p, ctx') \<Longrightarrow> loads D root m pre depth ctx p ctx'"
proof (induction "max_subagent_depth (ld_limits D) + 1 - depth" arbitrary: root m pre depth ctx p ctx'
    rule: less_induct)
  case less
  from less.prems obtain ctx1 refs paths ps ctx2 ss ctx3 subs ctx4
    where parts: "identity_enter (am_metadata m) ctx = Inr ctx1"
        "discover_portable_references (ld_lowercase D) m pre (lc_paths ctx1) = Inr (refs, paths)"
        "read_asset D root ([], ctx1\<lparr>lc_paths := paths\<rparr>) (pr_prompt refs) = Inr (ps, ctx2)"
        "try_fold (read_asset D root) (pr_skills refs) ([], ctx2) = Inr (ss, ctx3)"
      and loop: "try_fold (\<lambda>(subagents, ctx) path.
        and_then (open_child D root (depth + 1) ctx path)
        (\<lambda>(child_root, child_manifest, ctx).
           map_ok (\<lambda>(child, ctx). (btree_insert path child subagents, ctx))
             (load_parsed_package D child_root child_manifest (child_package_prefix pre path) (depth + 1) ctx)))
        (pr_subagents refs) ([], ctx3) = Inr (subs, ctx4)"
      and last: "package_from_validated_parts (ld_externals D) root m ps ss subs = Inr p"
        "ctx' = identity_leave (am_metadata m) ctx4"
    by (auto simp: load_parsed_package.simps [of D root m pre depth ctx]
        assemble_package.simps [of D root m pre depth] single_def)
  have "loads_children D root pre depth (pr_subagents refs) [] ctx3 subs ctx4"
    by (rule children_loaded [OF loop]) (rule less.hyps, simp_all)
  from loads_package [OF parts this last(1)] last(2) show ?case by simp
qed

section \<open>What a read establishes\<close>

fun no_symlinks :: "file_system \<Rightarrow> string \<Rightarrow> string list \<Rightarrow> bool" where
  "no_symlinks F base [] = True"
| "no_symlinks F base (c # cs) =
     (fs_is_symlink F (os_join base c) = Some False \<and> no_symlinks F (os_join base c) cs)"

definition file_read :: "file_system \<Rightarrow> string \<Rightarrow> string \<Rightarrow> string \<Rightarrow> bool" where
  "file_read F root path bytes =
     (no_symlinks F root (split_on CHR ''/'' path)
      \<and> (case fs_canonical F (os_join root path) of
           None \<Rightarrow> False
         | Some c \<Rightarrow> os_starts_with c root \<and> fs_is_file F c \<and> fs_bytes F c = Some bytes))"

definition asset_ok :: "loader \<Rightarrow> string \<Rightarrow> string \<times> text_asset \<Rightarrow> bool" where
  "asset_ok D root = (\<lambda>(path, a). ta_path a = path \<and> file_read (ld_files D) root path (ta_text a)
     \<and> is_utf8 (ta_text a) \<and> length (ta_text a) \<le> max_text_asset_bytes (ld_limits D))"

definition asset_bytes :: "(string \<times> text_asset) list \<Rightarrow> nat" where
  "asset_bytes assets = sum_list (map (\<lambda>(path, a). length (ta_text a)) assets)"

definition charged :: "load_context \<Rightarrow> nat \<Rightarrow> load_context \<Rightarrow> bool" where
  "charged ctx n ctx' =
     (bb_limit (lc_budget ctx') = bb_limit (lc_budget ctx)
      \<and> (bb_used (lc_budget ctx) \<le> bb_limit (lc_budget ctx) \<longrightarrow>
           bb_used (lc_budget ctx) + n \<le> bb_used (lc_budget ctx')
           \<and> bb_used (lc_budget ctx') \<le> bb_limit (lc_budget ctx')))"

lemma charged_trans: "charged ctx n ctx1 \<Longrightarrow> charged ctx1 k ctx2 \<Longrightarrow> m \<le> n + k \<Longrightarrow> charged ctx m ctx2"
  by (auto simp: charged_def)

lemma charged_refl [simp]: "charged ctx 0 ctx"
  by (simp add: charged_def)

lemma symlink_steps: "try_fold (symlink_step F path) cs base = Inr r \<Longrightarrow> no_symlinks F base cs"
  by (induction cs arbitrary: base) (auto simp: symlink_step_def Let_def)

lemma symlink_free:
  "reject_symlink_components F root path = Inr u \<Longrightarrow> no_symlinks F root (split_on CHR ''/'' path)"
  by (auto simp: reject_symlink_components_def dest: symlink_steps)

lemma take_all: "length (take (Suc n) s) \<le> n \<Longrightarrow> take (Suc n) s = s"
  by (cases "length s \<le> Suc n") auto

lemma open_referenced_bytes_Inr:
  assumes "open_referenced_bytes F root path limit text budget = Inr (r, budget')"
  shows "file_read F root path (rb_bytes r)" "fs_canonical F (os_join root path) = Some (rb_canonical_path r)"
    "length (rb_bytes r) \<le> limit" "length (rb_bytes r) \<le> bb_remaining budget"
    "budget' = bb_charge (length (rb_bytes r)) budget"
  using assms take_all
  by (auto simp: open_referenced_bytes_def read_limited_def file_read_def Let_def symlink_free split: if_splits)

lemma charge_within:
  "n \<le> bb_remaining budget \<Longrightarrow> lc_budget ctx = budget \<Longrightarrow> charged ctx n (ctx\<lparr>lc_budget := bb_charge n budget\<rparr>)"
  by (auto simp: charged_def bb_remaining_def bb_charge_def)

lemma read_asset_Inr:
  assumes "read_asset D root (assets, ctx) path = Inr (assets', ctx')"
  obtains a where "assets' = btree_insert path a assets" "asset_ok D root (path, a)"
    "charged ctx (length (ta_text a)) ctx'" "lc_seen ctx' = lc_seen ctx" "lc_paths ctx' = lc_paths ctx"
proof -
  from assms obtain r budget where read: "open_referenced_bytes (ld_files D) root path
        (max_text_asset_bytes (ld_limits D)) True (lc_budget ctx) = Inr (r, budget)"
      and utf8: "is_utf8 (rb_bytes r)"
      and assets': "assets' = btree_insert path \<lparr>ta_path = path, ta_text = rb_bytes r\<rparr> assets"
      and ctx': "ctx' = ctx\<lparr>lc_budget := budget\<rparr>"
    by (auto simp: read_asset_def single_def open_referenced_text_def)
  note facts = open_referenced_bytes_Inr [OF read]
  show thesis
    by (rule that [OF assets']) (use facts utf8 ctx' in \<open>simp_all add: asset_ok_def charge_within\<close>)
qed

lemma set_btree_insert_le: "set (btree_insert k v m) \<subseteq> insert (k, v) (set m)"
  by (induction k v m rule: btree_insert.induct) auto

lemma sum_btree_insert_le: "sum_list (map f (btree_insert k v m)) \<le> f (k, v) + (sum_list (map f m) :: nat)"
  by (induction k v m rule: btree_insert.induct) auto

lemma distinct_concat_insert:
  "distinct (f (k, v) @ concat (map f m)) \<Longrightarrow> distinct (concat (map f (btree_insert k v m)))"
proof (induction k v m rule: btree_insert.induct)
  case (2 k v k' v' m)
  have "set (concat (map f (btree_insert k v m))) \<subseteq> set (f (k, v)) \<union> set (concat (map f m))"
    using set_btree_insert_le [of k v m] by auto
  with 2 show ?case by (auto simp del: set_concat)
qed simp

lemma read_assets_Inr:
  "try_fold (read_asset D root) paths (assets, ctx) = Inr (assets', ctx') \<Longrightarrow>
   \<exists>n. charged ctx n ctx' \<and> asset_bytes assets' \<le> asset_bytes assets + n
     \<and> (list_all (asset_ok D root) assets \<longrightarrow> list_all (asset_ok D root) assets')
     \<and> lc_seen ctx' = lc_seen ctx \<and> lc_paths ctx' = lc_paths ctx"
proof (induction paths arbitrary: assets ctx)
  case Nil
  then show ?case by (intro exI [of _ 0]) auto
next
  case (Cons path paths)
  from Cons.prems obtain assets1 ctx1 where first: "read_asset D root (assets, ctx) path = Inr (assets1, ctx1)"
      and "try_fold (read_asset D root) paths (assets1, ctx1) = Inr (assets', ctx')" by auto
  from Cons.IH [OF this(2)] obtain n where n: "charged ctx1 n ctx'" "asset_bytes assets' \<le> asset_bytes assets1 + n"
      "list_all (asset_ok D root) assets1 \<longrightarrow> list_all (asset_ok D root) assets'"
      "lc_seen ctx' = lc_seen ctx1 \<and> lc_paths ctx' = lc_paths ctx1" by blast
  from first obtain a where a: "assets1 = btree_insert path a assets" "asset_ok D root (path, a)"
      "charged ctx (length (ta_text a)) ctx1" "lc_seen ctx1 = lc_seen ctx" "lc_paths ctx1 = lc_paths ctx"
    by (rule read_asset_Inr)
  have "asset_bytes assets1 \<le> asset_bytes assets + length (ta_text a)"
    using sum_btree_insert_le [of "\<lambda>(path, a). length (ta_text a)" path a assets]
    by (simp add: asset_bytes_def a(1))
  moreover have "list_all (asset_ok D root) assets \<longrightarrow> list_all (asset_ok D root) assets1"
    using set_btree_insert_le [of path a assets] a(2) by (auto simp: a(1) list_all_iff)
  moreover note charged_trans [OF a(3) n(1) order.refl]
  ultimately show ?case
    using n a(4,5) by (intro exI [of _ "length (ta_text a) + n"]) auto
qed

section \<open>The package tree\<close>

text \<open>What a loaded package consists of, over the whole tree of nested agents.\<close>

fun package_identities :: "agent_package \<Rightarrow> package_identity list" where
  "package_identities (AgentPackage root m ps ss subs d) =
     am_metadata m # concat (map (\<lambda>(path, child). package_identities child) subs)"

fun package_depth :: "agent_package \<Rightarrow> nat" where
  "package_depth (AgentPackage root m ps ss subs d) =
     fold max (map (\<lambda>(path, child). Suc (package_depth child)) subs) 0"

fun package_bytes :: "agent_package \<Rightarrow> nat" where
  "package_bytes (AgentPackage root m ps ss subs d) =
     asset_bytes (ps @ ss) + sum_list (map (\<lambda>(path, child). package_bytes child) subs)"

fun package_assets :: "agent_package \<Rightarrow> (string \<times> string \<times> text_asset) list" where
  "package_assets (AgentPackage root m ps ss subs d) =
     map (\<lambda>(path, a). (root, path, a)) (ps @ ss)
       @ concat (map (\<lambda>(path, child). package_assets child) subs)"

fun package_references :: "string \<Rightarrow> agent_package \<Rightarrow> tracked_path list" where
  "package_references pre (AgentPackage root m ps ss subs d) =
     map (\<lambda>path. \<lparr>tp_path = top_package_relative pre path, tp_package_prefix = pre\<rparr>)
         (am_prompt m # am_skills m @ map dr_agent (am_delegation m))
       @ concat (map (\<lambda>(path, child). package_references (child_package_prefix pre path) child) subs)"

definition manifest_reference :: tracked_path where
  "manifest_reference = \<lparr>tp_path = ''agent.yaml'', tp_package_prefix = []\<rparr>"

definition asset_paths_ok :: "loader \<Rightarrow> agent_package \<Rightarrow> bool" where
  "asset_paths_ok D p = list_all (\<lambda>(root, path, a). asset_ok D root (path, a)) (package_assets p)"

lemma asset_bytes_simps [simp]:
  "asset_bytes [] = 0"
  "asset_bytes (as1 @ as2) = asset_bytes as1 + asset_bytes as2"
  by (simp_all add: asset_bytes_def)

lemma package_from_validated_parts_Inr:
  "package_from_validated_parts X root m ps ss subs = Inr p \<longleftrightarrow>
     (\<exists>d. portable_digest X m ps ss subs = Inr d \<and> p = AgentPackage root m ps ss subs d)"
  by (simp add: package_from_validated_parts_def)

lemma identity_enter_Inr:
  "identity_enter identity ctx = Inr ctx' \<longleftrightarrow>
     identity \<notin> lc_active ctx \<and> identity \<notin> lc_seen ctx
     \<and> ctx' = ctx\<lparr>lc_active := insert identity (lc_active ctx), lc_seen := insert identity (lc_seen ctx)\<rparr>"
  by (auto simp: identity_enter_def)

lemma open_child_Inr:
  assumes "open_child D root child_depth ctx path = Inr (child_root, m, ctx')"
  obtains r :: referenced_bytes where "file_read (ld_files D) root path (rb_bytes r)"
    "fs_canonical (ld_files D) (os_join root path) = Some (rb_canonical_path r)"
    "package_root_open (ld_files D) (os_parent (rb_canonical_path r)) = Inr child_root"
    "charged ctx (length (rb_bytes r)) ctx'" "lc_seen ctx' = lc_seen ctx" "lc_paths ctx' = lc_paths ctx"
    "child_depth \<le> max_subagent_depth (ld_limits D)"
proof -
  from assms obtain r budget where read: "open_referenced_bytes (ld_files D) root path
        (max_yaml_bytes (ld_limits D)) False (lc_budget ctx) = Inr (r, budget)"
      and root: "package_root_open (ld_files D) (os_parent (rb_canonical_path r)) = Inr child_root"
      and ctx': "ctx' = ctx\<lparr>lc_budget := budget\<rparr>"
    by (auto simp: open_child_def single_def open_referenced_yaml_def)
  note facts = open_referenced_bytes_Inr [OF read]
  show thesis
    by (rule that [of r]) (use facts root ctx' open_child_depth [OF assms] in \<open>simp_all add: charge_within\<close>)
qed

section \<open>Limits of a loaded package\<close>

lemma loads_charged:
  "loads D root m pre depth ctx p ctx' \<Longrightarrow> charged ctx (package_bytes p) ctx'"
  "loads_children D root pre depth paths subs ctx subs' ctx' \<Longrightarrow>
     \<exists>n. charged ctx n ctx' \<and> sum_list (map (\<lambda>(path, child). package_bytes child) subs')
       \<le> sum_list (map (\<lambda>(path, child). package_bytes child) subs) + n"
proof (induction rule: loads_loads_children.inducts)
  case (loads_package m ctx ctx1 pre refs paths root ps ctx2 ss ctx3 depth subs ctx4 p)
  have "try_fold (read_asset D root) [pr_prompt refs] ([], ctx1\<lparr>lc_paths := paths\<rparr>) = Inr (ps, ctx2)"
    using loads_package(3) by simp
  from read_assets_Inr [OF this] obtain n where n: "charged (ctx1\<lparr>lc_paths := paths\<rparr>) n ctx2" "asset_bytes ps \<le> n"
    by auto
  from read_assets_Inr [OF loads_package(4)] obtain k where k: "charged ctx2 k ctx3" "asset_bytes ss \<le> k"
    by auto
  from loads_package(6) obtain l where l: "charged ctx3 l ctx4"
      "sum_list (map (\<lambda>(path, child). package_bytes child) subs) \<le> l" by auto
  have "package_bytes p \<le> n + k + l"
    using n(2) k(2) l(2) loads_package(7) by (auto simp: package_from_validated_parts_Inr)
  with charged_trans [OF charged_trans [OF n(1) k(1) order.refl] l(1) this] show ?case
    using loads_package(1) by (auto simp: charged_def identity_leave_def identity_enter_Inr)
next
  case (children_done root pre depth subs ctx)
  show ?case by (intro exI [of _ 0]) simp
next
  case (children_next root depth ctx path child_root cm ctx1 pre child ctx2 paths subs subs' ctx')
  from children_next(1) obtain r :: referenced_bytes where r: "charged ctx (length (rb_bytes r)) ctx1" by (rule open_child_Inr)
  from children_next(5) obtain n where n: "charged ctx2 n ctx'"
      "sum_list (map (\<lambda>(path, child). package_bytes child) subs')
        \<le> sum_list (map (\<lambda>(path, child). package_bytes child) (btree_insert path child subs)) + n" by blast
  have "charged ctx (package_bytes child + n) ctx'"
    by (rule charged_trans [OF charged_trans [OF r children_next(3) order.refl] n(1)]) simp
  moreover have "sum_list (map (\<lambda>(path, child). package_bytes child) subs')
      \<le> sum_list (map (\<lambda>(path, child). package_bytes child) subs) + (package_bytes child + n)"
    using n(2) sum_btree_insert_le [of "\<lambda>(path, child). package_bytes child" path child subs] by simp
  ultimately show ?case by blast
qed

lemma discover_Inr:
  "discover_portable_references low m pre t = Inr (refs, t') \<Longrightarrow>
     refs = \<lparr>pr_prompt = am_prompt m, pr_skills = am_skills m, pr_subagents = map dr_agent (am_delegation m)\<rparr>
     \<and> try_fold (\<lambda>tracker path. tracker_register low pre path tracker)
         (am_prompt m # am_skills m @ map dr_agent (am_delegation m)) t = Inr t'"
  by (auto simp: discover_portable_references_def Let_def)

definition child_identities :: "(string \<times> agent_package) list \<Rightarrow> package_identity list" where
  "child_identities subs = concat (map (\<lambda>(path, child). package_identities child) subs)"

definition settled :: "package_identity set \<Rightarrow> package_identity list \<Rightarrow> load_context \<Rightarrow> bool" where
  "settled before ids ctx = (distinct ids \<and> set ids \<inter> before = {} \<and> set ids \<subseteq> lc_seen ctx)"

lemma settled_child:
  assumes "settled before (child_identities subs) ctx" "before \<subseteq> lc_seen ctx"
    and "settled (lc_seen ctx) (package_identities child) ctx'" "lc_seen ctx \<subseteq> lc_seen ctx'"
  shows "settled before (child_identities (btree_insert path child subs)) ctx'"
proof -
  have "distinct (package_identities child @ child_identities subs)"
    using assms by (auto simp: settled_def)
  then have "distinct (child_identities (btree_insert path child subs))"
    unfolding child_identities_def
    using distinct_concat_insert [of "\<lambda>(path, child). package_identities child" path child subs] by simp
  moreover have "set (child_identities (btree_insert path child subs)) \<subseteq>
      set (package_identities child) \<union> set (child_identities subs)"
    using set_btree_insert_le [of path child subs] by (auto simp: child_identities_def)
  ultimately show ?thesis using assms unfolding settled_def by blast
qed

lemma loads_enters:
  "loads D root m pre depth ctx p ctx' \<Longrightarrow>
     settled (lc_seen ctx) (package_identities p) ctx' \<and> lc_seen ctx \<subseteq> lc_seen ctx'"
  "loads_children D root pre depth paths subs ctx subs' ctx' \<Longrightarrow>
     lc_seen ctx \<subseteq> lc_seen ctx'
     \<and> (\<forall>before \<subseteq> lc_seen ctx. settled before (child_identities subs) ctx \<longrightarrow>
          settled before (child_identities subs') ctx')"
proof (induction rule: loads_loads_children.inducts)
  case (loads_package m ctx ctx1 pre refs paths root ps ctx2 ss ctx3 depth subs ctx4 p)
  have seen1: "am_metadata m \<notin> lc_seen ctx" "lc_seen ctx1 = insert (am_metadata m) (lc_seen ctx)"
    using loads_package(1) by (auto simp: identity_enter_Inr)
  have "try_fold (read_asset D root) [pr_prompt refs] ([], ctx1\<lparr>lc_paths := paths\<rparr>) = Inr (ps, ctx2)"
    using loads_package(3) by simp
  from read_assets_Inr [OF this] read_assets_Inr [OF loads_package(4)]
  have seen3: "lc_seen ctx3 = lc_seen ctx1" by auto
  have "settled (lc_seen ctx3) (child_identities []) ctx3" by (simp add: settled_def child_identities_def)
  with loads_package(6) have "settled (lc_seen ctx3) (child_identities subs) ctx4" "lc_seen ctx3 \<subseteq> lc_seen ctx4"
    by blast+
  moreover have "package_identities p = am_metadata m # child_identities subs"
    using loads_package(7) by (auto simp: package_from_validated_parts_Inr child_identities_def)
  ultimately show ?case
    using seen1 seen3 by (auto simp: settled_def identity_leave_def)
next
  case (children_next root depth ctx path child_root cm ctx1 pre child ctx2 paths subs subs' ctx')
  from children_next(1) have seen1: "lc_seen ctx1 = lc_seen ctx" by (rule open_child_Inr)
  have "settled before (child_identities subs') ctx'"
    if before: "before \<subseteq> lc_seen ctx" "settled before (child_identities subs) ctx" for before
  proof -
    have "settled before (child_identities (btree_insert path child subs)) ctx2"
      by (rule settled_child [OF before(2,1)]) (use children_next(3) seen1 in simp_all)
    moreover have "before \<subseteq> lc_seen ctx2" using before(1) children_next(3) seen1 by blast
    ultimately show ?thesis using children_next(5) by blast
  qed
  with children_next(3,5) seen1 show ?case by blast
qed simp

lemma loads_depth:
  "loads D root m pre depth ctx p ctx' \<Longrightarrow> depth \<le> max_subagent_depth (ld_limits D) \<Longrightarrow>
     depth + package_depth p \<le> max_subagent_depth (ld_limits D)"
  "loads_children D root pre depth paths subs ctx subs' ctx' \<Longrightarrow>
     (\<forall>(path, child) \<in> set subs. Suc depth + package_depth child \<le> max_subagent_depth (ld_limits D)) \<Longrightarrow>
     (\<forall>(path, child) \<in> set subs'. Suc depth + package_depth child \<le> max_subagent_depth (ld_limits D))"
proof (induction rule: loads_loads_children.inducts)
  case (loads_package m ctx ctx1 pre refs paths root ps ctx2 ss ctx3 depth subs ctx4 p)
  then have "\<forall>(path, child) \<in> set subs. Suc depth + package_depth child \<le> max_subagent_depth (ld_limits D)" by simp
  with loads_package(7,8) show ?case by (fastforce simp: package_from_validated_parts_Inr fold_max_le)
next
  case (children_next root depth ctx path child_root cm ctx1 pre child ctx2 paths subs subs' ctx')
  have "Suc depth \<le> max_subagent_depth (ld_limits D)" using open_child_depth [OF children_next(1)] by simp
  with children_next set_btree_insert_le [of path child subs] show ?case by fastforce
qed simp

lemma loads_assets:
  "loads D root m pre depth ctx p ctx' \<Longrightarrow> asset_paths_ok D p"
  "loads_children D root pre depth paths subs ctx subs' ctx' \<Longrightarrow>
     (\<forall>(path, child) \<in> set subs. asset_paths_ok D child) \<Longrightarrow> (\<forall>(path, child) \<in> set subs'. asset_paths_ok D child)"
proof (induction rule: loads_loads_children.inducts)
  case (loads_package m ctx ctx1 pre refs paths root ps ctx2 ss ctx3 depth subs ctx4 p)
  have "try_fold (read_asset D root) [pr_prompt refs] ([], ctx1\<lparr>lc_paths := paths\<rparr>) = Inr (ps, ctx2)"
    using loads_package(3) by simp
  from read_assets_Inr [OF this] read_assets_Inr [OF loads_package(4)]
  have "\<forall>a \<in> set (ps @ ss). asset_ok D root a" by (auto simp: list_all_iff)
  moreover have "\<forall>(path, child) \<in> set subs. asset_paths_ok D child" using loads_package(6) by simp
  ultimately show ?case
    using loads_package(7) by (fastforce simp: package_from_validated_parts_Inr asset_paths_ok_def list_all_iff)
next
  case (children_next root depth ctx path child_root cm ctx1 pre child ctx2 paths subs subs' ctx')
  with set_btree_insert_le [of path child subs] show ?case by fastforce
qed simp

definition tracked :: "(string \<Rightarrow> string) \<Rightarrow> collision_tracker \<Rightarrow> tracked_path \<Rightarrow> bool" where
  "tracked low t r = (map_of t (low (tp_path r)) = Some r)"

definition tracker_grows :: "collision_tracker \<Rightarrow> collision_tracker \<Rightarrow> bool" where
  "tracker_grows t t' = (btree_ok t \<longrightarrow> btree_ok t' \<and> map_of t \<subseteq>\<^sub>m map_of t')"

lemma tracker_grows_trans: "tracker_grows t t1 \<Longrightarrow> tracker_grows t1 t2 \<Longrightarrow> tracker_grows t t2"
  by (auto simp: tracker_grows_def intro: map_le_trans)

lemma tracked_grows: "tracker_grows t t' \<Longrightarrow> btree_ok t \<Longrightarrow> tracked low t r \<Longrightarrow> tracked low t' r"
  by (auto simp: tracker_grows_def tracked_def map_le_def dom_def)

lemma tracker_register_Inr:
  assumes "tracker_register low pre path t = Inr t'"
  shows "tracker_grows t t'"
    "btree_ok t \<Longrightarrow> tracked low t' \<lparr>tp_path = top_package_relative pre path, tp_package_prefix = pre\<rparr>"
  using assms
  by (auto simp: tracker_register_def Let_def tracker_grows_def tracked_def map_of_btree_insert btree_ok_insert
      map_le_def split: option.splits)

lemma tracker_fold_Inr:
  "try_fold (\<lambda>tracker path. tracker_register low pre path tracker) paths t = Inr t' \<Longrightarrow>
     tracker_grows t t' \<and> (btree_ok t \<longrightarrow>
       (\<forall>path \<in> set paths. tracked low t' \<lparr>tp_path = top_package_relative pre path, tp_package_prefix = pre\<rparr>))"
proof (induction paths arbitrary: t)
  case Nil
  then show ?case by (simp add: tracker_grows_def)
next
  case (Cons path paths)
  then obtain t1 where t1: "tracker_register low pre path t = Inr t1"
      "try_fold (\<lambda>tracker path. tracker_register low pre path tracker) paths t1 = Inr t'" by auto
  note first = tracker_register_Inr [OF t1(1)]
  have ok: "btree_ok t \<Longrightarrow> btree_ok t1" using first(1) by (simp add: tracker_grows_def)
  from Cons.IH [OF t1(2)] have rest: "tracker_grows t1 t'"
      "btree_ok t1 \<Longrightarrow> path' \<in> set paths \<Longrightarrow>
        tracked low t' \<lparr>tp_path = top_package_relative pre path', tp_package_prefix = pre\<rparr>" for path'
    by blast+
  show ?case
    using tracker_grows_trans [OF first(1) rest(1)] tracked_grows [OF rest(1) ok first(2)] rest(2) [OF ok]
    by auto
qed

definition child_references :: "string \<Rightarrow> (string \<times> agent_package) list \<Rightarrow> tracked_path list" where
  "child_references pre subs =
     concat (map (\<lambda>(path, child). package_references (child_package_prefix pre path) child) subs)"

definition all_tracked :: "(string \<Rightarrow> string) \<Rightarrow> load_context \<Rightarrow> tracked_path list \<Rightarrow> bool" where
  "all_tracked low ctx refs = (\<forall>r \<in> set refs. tracked low (lc_paths ctx) r)"

lemma loads_tracked:
  "loads D root m pre depth ctx p ctx' \<Longrightarrow>
     tracker_grows (lc_paths ctx) (lc_paths ctx')
     \<and> (btree_ok (lc_paths ctx) \<longrightarrow> all_tracked (ld_lowercase D) ctx' (package_references pre p))"
  "loads_children D root pre depth paths subs ctx subs' ctx' \<Longrightarrow>
     tracker_grows (lc_paths ctx) (lc_paths ctx')
     \<and> (btree_ok (lc_paths ctx) \<longrightarrow> all_tracked (ld_lowercase D) ctx (child_references pre subs) \<longrightarrow>
          all_tracked (ld_lowercase D) ctx' (child_references pre subs'))"
proof (induction rule: loads_loads_children.inducts)
  case (loads_package m ctx ctx1 pre refs paths root ps ctx2 ss ctx3 depth subs ctx4 p)
  let ?own = "am_prompt m # am_skills m @ map dr_agent (am_delegation m)"
  let ?low = "ld_lowercase D"
  have paths1: "lc_paths ctx1 = lc_paths ctx" using loads_package(1) by (auto simp: identity_enter_Inr)
  from tracker_fold_Inr [OF conjunct2 [OF discover_Inr [OF loads_package(2)]]]
  have own: "tracker_grows (lc_paths ctx) paths"
      "btree_ok (lc_paths ctx) \<Longrightarrow> path \<in> set ?own \<Longrightarrow>
        tracked ?low paths \<lparr>tp_path = top_package_relative pre path, tp_package_prefix = pre\<rparr>" for path
    unfolding paths1 by blast+
  have "try_fold (read_asset D root) [pr_prompt refs] ([], ctx1\<lparr>lc_paths := paths\<rparr>) = Inr (ps, ctx2)"
    using loads_package(3) by simp
  from read_assets_Inr [OF this] read_assets_Inr [OF loads_package(4)]
  have paths3: "lc_paths ctx3 = paths" by auto
  have children: "tracker_grows paths (lc_paths ctx4)"
      "btree_ok paths \<Longrightarrow> all_tracked ?low ctx4 (child_references pre subs)"
    using loads_package(6) by (simp_all add: paths3 all_tracked_def child_references_def)
  have ok: "btree_ok (lc_paths ctx) \<Longrightarrow> btree_ok paths" using own(1) by (simp add: tracker_grows_def)
  have refs: "package_references pre p =
      map (\<lambda>path. \<lparr>tp_path = top_package_relative pre path, tp_package_prefix = pre\<rparr>) ?own @ child_references pre subs"
    using loads_package(7) by (auto simp: package_from_validated_parts_Inr child_references_def)
  have "all_tracked ?low (identity_leave (am_metadata m) ctx4) (package_references pre p)"
    if "btree_ok (lc_paths ctx)"
    using tracked_grows [OF children(1) ok [OF that] own(2) [OF that]] children(2) [OF ok [OF that]]
    unfolding refs all_tracked_def set_append by (auto simp: identity_leave_def)
  then show ?case using tracker_grows_trans [OF own(1) children(1)] by (simp add: identity_leave_def)
next
  case (children_done root pre depth subs ctx)
  show ?case by (simp add: tracker_grows_def)
next
  case (children_next root depth ctx path child_root cm ctx1 pre child ctx2 paths subs subs' ctx')
  let ?low = "ld_lowercase D"
  from children_next(1) have paths1: "lc_paths ctx1 = lc_paths ctx" by (rule open_child_Inr)
  have grows: "tracker_grows (lc_paths ctx) (lc_paths ctx2)" using children_next(3) paths1 by simp
  have ok: "btree_ok (lc_paths ctx) \<Longrightarrow> btree_ok (lc_paths ctx2)" using grows by (simp add: tracker_grows_def)
  have "set (child_references pre (btree_insert path child subs)) \<subseteq>
      set (package_references (child_package_prefix pre path) child) \<union> set (child_references pre subs)"
    using set_btree_insert_le [of path child subs] by (auto simp: child_references_def)
  then have "all_tracked ?low ctx2 (child_references pre (btree_insert path child subs))"
    if "btree_ok (lc_paths ctx)" "all_tracked ?low ctx (child_references pre subs)"
    using that children_next(3) paths1 tracked_grows [OF grows that(1)] unfolding all_tracked_def by fastforce
  with children_next(5) ok tracker_grows_trans [OF grows] show ?case by blast
qed

lemma loads_built:
  "loads D root m pre depth ctx p ctx' \<Longrightarrow> built (ld_externals D) p"
  "loads_children D root pre depth paths subs ctx subs' ctx' \<Longrightarrow>
     (\<forall>(path, child) \<in> set subs. built (ld_externals D) child) \<Longrightarrow>
     (\<forall>(path, child) \<in> set subs'. built (ld_externals D) child)"
proof (induction rule: loads_loads_children.inducts)
  case (loads_package m ctx ctx1 pre refs paths root ps ctx2 ss ctx3 depth subs ctx4 p)
  then show ?case by (auto simp: package_from_validated_parts_Inr list_all_iff)
next
  case (children_next root depth ctx path child_root cm ctx1 pre child ctx2 paths subs subs' ctx')
  with set_btree_insert_le [of path child subs] show ?case by fastforce
qed simp

section \<open>Containment\<close>

text \<open>
  What the loader relies on of the operating system: a canonical path is absolute and has no empty
  component, the directory of a canonical path is canonical, and a regular file is no directory.
\<close>

definition canonical_form :: "string \<Rightarrow> bool" where
  "canonical_form path =
     (case path of
        [] \<Rightarrow> False
      | c # rest \<Rightarrow> c = CHR ''/'' \<and> (rest = [] \<or> [] \<notin> set (split_on CHR ''/'' rest)))"

definition file_system_laws :: "file_system \<Rightarrow> bool" where
  "file_system_laws F =
     ((\<forall>path c. fs_canonical F path = Some c \<longrightarrow>
         canonical_form c \<and> fs_canonical F (os_parent c) = Some (os_parent c))
      \<and> (\<forall>c. \<not> (fs_is_file F c \<and> fs_is_dir F c)))"

lemma split_on_nonempty [simp]: "split_on sep s \<noteq> []" "[] \<noteq> split_on sep s"
proof -
  show "split_on sep s \<noteq> []" by (induction s) (auto split: list.splits)
  then show "[] \<noteq> split_on sep s" by simp
qed

lemma split_on_inject: "split_on sep a = split_on sep b \<Longrightarrow> a = b"
proof (induction a arbitrary: b)
  case Nil
  then show ?case by (cases b) (auto split: if_splits list.splits)
next
  case (Cons x a)
  then show ?case by (cases b) (auto split: if_splits list.splits)
qed

lemma filter_nonempty: "[] \<notin> set xs \<Longrightarrow> filter (\<lambda>c. c \<noteq> []) xs = xs"
  by (induction xs) auto

lemma canonical_components:
  "canonical_form c \<Longrightarrow> os_components c = (if c = ''/'' then [] else split_on CHR ''/'' (tl c))"
  by (cases c) (auto simp: canonical_form_def os_components_def filter_nonempty)

lemma canonical_inject:
  assumes "canonical_form a" "canonical_form b" "os_components a = os_components b"
  shows "a = b"
  using assms(3) canonical_components [OF assms(1)] canonical_components [OF assms(2)] assms(1,2)
  by (cases a; cases b) (auto simp: canonical_form_def dest: split_on_inject split: if_splits)

lemma rsplit_once_parts:
  assumes "rsplit_once sep s = Some (dir, name)"
  shows "s = dir @ sep # name" "sep \<notin> set name"
proof -
  let ?r = "rev s"
  have in_s: "sep \<in> set ?r" and dir: "dir = rev (tl (dropWhile (\<lambda>c. c \<noteq> sep) ?r))"
    and name: "name = rev (takeWhile (\<lambda>c. c \<noteq> sep) ?r)"
    using assms by (auto simp: rsplit_once_def split: if_splits)
  then obtain rest where "dropWhile (\<lambda>c. c \<noteq> sep) ?r = sep # rest"
    by (cases "dropWhile (\<lambda>c. c \<noteq> sep) ?r") (auto simp: dropWhile_eq_Cons_conv)
  with dir name have "rev s = rev name @ sep # rev dir"
    using takeWhile_dropWhile_id [of "\<lambda>c. c \<noteq> sep" ?r] by simp
  then have "s = rev (rev name @ sep # rev dir)" by (metis rev_rev_ident)
  then show "s = dir @ sep # name" by simp
  show "sep \<notin> set name" using name by (auto dest: set_takeWhileD)
qed

lemma parent_components:
  assumes "canonical_form c" "c \<noteq> ''/''"
  shows "os_components (os_parent c) = butlast (os_components c)"
proof -
  from assms obtain rest where rest: "c = CHR ''/'' # rest" "rest \<noteq> []" "[] \<notin> set (split_on CHR ''/'' rest)"
    by (cases c) (auto simp: canonical_form_def)
  then obtain dir name where split: "rsplit_once CHR ''/'' c = Some (dir, name)"
    by (auto simp: rsplit_once_def)
  note parts = rsplit_once_parts [OF this]
  have whole: "split_on CHR ''/'' c = split_on CHR ''/'' dir @ [name]"
    unfolding parts(1) by (simp add: split_on_append split_on_absent parts(2))
  moreover have "split_on CHR ''/'' c = [] # split_on CHR ''/'' rest" by (simp add: rest(1))
  ultimately have "last (split_on CHR ''/'' rest) = name"
    by (metis last.simps last_snoc split_on_nonempty(1))
  then have "name \<noteq> []" using rest(3) last_in_set [OF split_on_nonempty(1), of "CHR ''/''" rest] by auto
  then show ?thesis
    by (simp add: os_components_def os_parent_def split whole)
qed

definition root_opened :: "file_system \<Rightarrow> string \<Rightarrow> bool" where
  "root_opened F root = (fs_is_dir F root \<and> (\<exists>path. fs_canonical F path = Some root))"

lemma package_root_open_Inr:
  "package_root_open F path = Inr root \<Longrightarrow> fs_canonical F path = Some root \<and> root_opened F root"
  by (auto simp: package_root_open_def root_opened_def)

lemma child_root_contained:
  assumes laws: "file_system_laws F" and root: "root_opened F root"
    and found: "fs_canonical F path = Some c" "fs_is_file F c" "os_starts_with c root"
    and child: "package_root_open F (os_parent c) = Inr child_root"
  shows "os_starts_with child_root root" "root_opened F child_root"
proof -
  have form: "canonical_form c" "canonical_form root" "fs_canonical F (os_parent c) = Some (os_parent c)"
    using laws root found(1) by (auto simp: file_system_laws_def root_opened_def)
  have "c \<noteq> root" using laws root found(2) by (auto simp: file_system_laws_def root_opened_def)
  then have "os_components c \<noteq> os_components root" using form canonical_inject by blast
  with found(3) have strict: "prefix (os_components root) (butlast (os_components c))" "os_components c \<noteq> []"
    by (auto simp: os_starts_with_def prefix_def butlast_append)
  then have "c \<noteq> ''/''" by (auto simp: os_components_def)
  then have "os_components (os_parent c) = butlast (os_components c)" by (rule parent_components [OF form(1)])
  moreover have "child_root = os_parent c" "root_opened F child_root"
    using package_root_open_Inr [OF child] form(3) by auto
  ultimately show "os_starts_with child_root root" "root_opened F child_root"
    using strict(1) by (simp_all add: os_starts_with_def)
qed

definition assets_below :: "string \<Rightarrow> agent_package \<Rightarrow> bool" where
  "assets_below base p = (\<forall>(root, path, a) \<in> set (package_assets p). os_starts_with root base)"

lemma assets_below_trans: "os_starts_with root base \<Longrightarrow> assets_below root p \<Longrightarrow> assets_below base p"
  by (fastforce simp: assets_below_def os_starts_with_def intro: prefix_order.trans)

lemma loads_below:
  assumes laws: "file_system_laws (ld_files D)"
  shows "loads D root m pre depth ctx p ctx' \<Longrightarrow> root_opened (ld_files D) root \<Longrightarrow> assets_below root p"
    "loads_children D root pre depth paths subs ctx subs' ctx' \<Longrightarrow> root_opened (ld_files D) root \<Longrightarrow>
       (\<forall>(path, child) \<in> set subs. assets_below root child) \<Longrightarrow>
       (\<forall>(path, child) \<in> set subs'. assets_below root child)"
proof (induction rule: loads_loads_children.inducts)
  case (loads_package m ctx ctx1 pre refs paths root ps ctx2 ss ctx3 depth subs ctx4 p)
  then have "\<forall>(path, child) \<in> set subs. assets_below root child" by simp
  with loads_package(7) show ?case
    by (fastforce simp: package_from_validated_parts_Inr assets_below_def os_starts_with_def)
next
  case (children_next root depth ctx path child_root cm ctx1 pre child ctx2 paths subs subs' ctx')
  from children_next(1) obtain r :: referenced_bytes where r: "file_read (ld_files D) root path (rb_bytes r)"
      "fs_canonical (ld_files D) (os_join root path) = Some (rb_canonical_path r)"
      "package_root_open (ld_files D) (os_parent (rb_canonical_path r)) = Inr child_root"
    by (rule open_child_Inr)
  have "fs_is_file (ld_files D) (rb_canonical_path r)" "os_starts_with (rb_canonical_path r) root"
    using r(1,2) by (simp_all add: file_read_def)
  from child_root_contained [OF laws children_next(6) r(2) this r(3)]
  have "assets_below root child" using children_next(3) assets_below_trans by blast
  with children_next(5-7) set_btree_insert_le [of path child subs] show ?case by fastforce
qed simp

lemma load_package_loads:
  assumes "load_package D path = Inr p"
  obtains root m and ctx ctx' :: load_context where "package_root_open (ld_files D) path = Inr root"
    "loads D root m [] 0 ctx p ctx'" "lc_seen ctx = {}" "lc_paths ctx = tracker_for_root"
    "charged (load_context_new (ld_limits D)) 0 ctx"
proof -
  let ?new = "load_context_new (ld_limits D)"
  from assms obtain root r budget m ctx' where root: "package_root_open (ld_files D) path = Inr root"
      and read: "open_referenced_bytes (ld_files D) root ''agent.yaml'' (max_yaml_bytes (ld_limits D)) False
        (lc_budget ?new) = Inr (r, budget)"
      and load: "load_parsed_package D root m [] 0 (?new\<lparr>lc_budget := budget\<rparr>) = Inr (p, ctx')"
    by (auto simp: load_package_def Let_def single_def open_referenced_yaml_def)
  from open_referenced_bytes_Inr [OF read] have "charged ?new (length (rb_bytes r)) (?new\<lparr>lc_budget := budget\<rparr>)"
    by (simp add: charge_within)
  then have "charged ?new 0 (?new\<lparr>lc_budget := budget\<rparr>)" by (auto simp: charged_def)
  with that [OF root load_parsed_package_loads [OF load]] show thesis
    by (simp add: load_context_new_def)
qed

section \<open>Properties of the loader\<close>

text \<open>
  Claim C30. A package that loads is within the limits it was loaded under: the nesting of
  its agents is at most the depth limit, the texts of all its assets together are within the limit on
  referenced bytes, and no two agents of the tree, at any depth and including the package itself, have the
  same name and version. A cyclic or repeated nested agent is therefore never part of a loaded package.
\<close>

theorem loaded_package_within_limits:
  assumes "load_package D path = Inr p"
  shows "package_depth p \<le> max_subagent_depth (ld_limits D)
    \<and> package_bytes p \<le> max_total_referenced_bytes (ld_limits D)
    \<and> distinct (package_identities p)"
proof -
  from assms obtain root m and ctx ctx' :: load_context where loads: "loads D root m [] 0 ctx p ctx'"
      and start: "charged (load_context_new (ld_limits D)) 0 ctx" by (rule load_package_loads)
  from charged_trans [OF start loads_charged(1) [OF loads] order.refl]
  have "package_bytes p \<le> max_total_referenced_bytes (ld_limits D)"
    by (simp add: charged_def load_context_new_def byte_budget_new_def)
  with loads_depth(1) [OF loads] loads_enters(1) [OF loads] show ?thesis
    by (simp add: settled_def)
qed

text \<open>
  Claim C31. No two references of a loaded package tree can be confused by a file system that ignores case:
  references whose paths from the outermost package agree after case folding are the same path,
  written by the same package, and the manifest of the outermost package counts as a reference. A nested
  agent can thus not share, shadow or alias a file of the package around it, or of a sibling.
\<close>

theorem loaded_references_do_not_collide:
  assumes "load_package D path = Inr p" and "ld_lowercase D ''agent.yaml'' = ''agent.yaml''"
    and "a \<in> set (manifest_reference # package_references [] p)"
    and "b \<in> set (manifest_reference # package_references [] p)"
    and "ld_lowercase D (tp_path a) = ld_lowercase D (tp_path b)"
  shows "a = b"
proof -
  from assms(1) obtain root m and ctx ctx' :: load_context where loads: "loads D root m [] 0 ctx p ctx'"
      and start: "lc_paths ctx = tracker_for_root" by (rule load_package_loads)
  have ok: "btree_ok (lc_paths ctx)" by (simp add: start tracker_for_root_def)
  have "tracked (ld_lowercase D) (lc_paths ctx) manifest_reference"
    by (simp add: start tracker_for_root_def tracked_def manifest_reference_def assms(2))
  with loads_tracked(1) [OF loads] ok assms(3,4)
  have "tracked (ld_lowercase D) (lc_paths ctx') a" "tracked (ld_lowercase D) (lc_paths ctx') b"
    by (auto simp: all_tracked_def intro: tracked_grows)
  with assms(5) show ?thesis by (simp add: tracked_def)
qed

text \<open>
  Claim C29. Every asset of a loaded package tree was read from a regular file inside the directory
  that was given to the loader: the file the path leads to lies below the canonical root of the outermost
  package, no component of the path is a symbolic link, and the text of the asset is the whole content of that
  file, valid UTF-8 and within the limit on text assets. This holds for assets of nested agents, whose
  own roots are found through the paths of their manifests.
\<close>

theorem loaded_files_are_contained:
  assumes "load_package D path = Inr p" and "fs_canonical (ld_files D) path = Some top_root"
    and "file_system_laws (ld_files D)" and "(root, name, a) \<in> set (package_assets p)"
  shows "\<exists>c. fs_canonical (ld_files D) (os_join root name) = Some c \<and> os_starts_with c top_root
    \<and> fs_is_file (ld_files D) c \<and> fs_bytes (ld_files D) c = Some (ta_text a)
    \<and> no_symlinks (ld_files D) root (split_on CHR ''/'' name)
    \<and> is_utf8 (ta_text a) \<and> length (ta_text a) \<le> max_text_asset_bytes (ld_limits D)"
proof -
  from assms(1) obtain base m and ctx ctx' :: load_context where open_root: "package_root_open (ld_files D) path = Inr base"
      and loads: "loads D base m [] 0 ctx p ctx'" by (rule load_package_loads)
  from package_root_open_Inr [OF open_root] assms(2) have base: "base = top_root" "root_opened (ld_files D) base" by auto
  from loads_below(1) [OF assms(3) loads base(2)] assms(4) base(1) have below: "os_starts_with root top_root"
    by (auto simp: assets_below_def)
  have "asset_ok D root (name, a)"
    using loads_assets(1) [OF loads] assms(4) by (auto simp: asset_paths_ok_def list_all_iff)
  with below show ?thesis
    by (auto simp: asset_ok_def file_read_def os_starts_with_def split: option.splits intro: prefix_order.trans)
qed


section \<open>A sample load\<close>

text \<open>
  A directory with a package, a nested agent, a prompt for each and a runtime binding, loaded under the limits of the
  first format version.
\<close>

definition loader_manifest :: "string \<Rightarrow> string list \<Rightarrow> agent_manifest" where
  "loader_manifest name agents =
     \<lparr>am_metadata = PackageIdentity name ''1.0.0'', am_prompt = ''prompt.md'', am_skills = [], am_models = [],
      am_capabilities = [], am_delegation = map (\<lambda>a. \<lparr>dr_agent = a, dr_capabilities = []\<rparr>) agents,
      am_required_features = [], am_optional_features = [], am_capture_allowed = False,
      am_capture_classifications = {}\<rparr>"

definition sample_dirs :: "string list" where "sample_dirs = [''/'', ''/pkg'', ''/pkg/helper'']"

definition sample_contents :: "(string \<times> string) list" where
  "sample_contents =
     [(''/pkg/agent.yaml'', ''P''), (''/pkg/prompt.md'', ''Lead''),
      (''/pkg/helper/agent.yaml'', ''C''), (''/pkg/helper/prompt.md'', ''Help''), (''/pkg/runtime.yaml'', ''B'')]"

definition loader_files :: file_system where
  "loader_files =
     (let known = sample_dirs @ map fst sample_contents
      in \<lparr>fs_canonical = \<lambda>p. if p \<in> set known then Some p else None, fs_is_dir = \<lambda>p. p \<in> set sample_dirs,
          fs_is_file = \<lambda>p. p \<in> fst ` set sample_contents,
          fs_is_symlink = \<lambda>p. if p \<in> set known then Some False else None,
          fs_open = \<lambda>p. p \<in> fst ` set sample_contents, fs_bytes = map_of sample_contents\<rparr>)"

definition sample_runtime_binding :: runtime_binding where
  "sample_runtime_binding =
     \<lparr>rb_runtime = ''python'', rb_models = [], rb_middleware = [], rb_backend = None, rb_checkpointer = None,
       rb_authority_provider = None, rb_admitted_tool_registry = None, rb_harness_profile = None,
       rb_capability_provider = ''provider'', rb_audit_sink = ''audit'', rb_content_capture = None\<rparr>"

definition sample_yaml :: yaml_engine where
  "sample_yaml =
     \<lparr>y_stream = \<lambda>s. stream_of [(YStreamStart, 0), (YDocumentStart, 0), (YScalar s, 0), (YDocumentEnd, 1)] 1,
      y_manifest = \<lambda>s. Inr (if s = ''P'' then loader_manifest ''lead'' [''helper/agent.yaml''] else loader_manifest ''helper'' []),
      y_binding = \<lambda>s. Inr sample_runtime_binding\<rparr>"

definition sample_loader :: loader where
  "sample_loader = \<lparr>ld_files = loader_files, ld_yaml = sample_yaml, ld_externals = plain_externals,
     ld_lowercase = \<lambda>s. s, ld_limits = package_limits_v1\<rparr>"

definition sample_tree_digest ::
  "(string \<times> text_asset) list \<Rightarrow> (string \<times> agent_package) list \<Rightarrow> sha256_digest" where
  "sample_tree_digest assets subs =
     hash_domain plain_externals ''portable-package'' (''manifest'' # map (asset_chunk plain_externals) (merged_assets assets [])
       @ map (\<lambda>(path, child). child_chunk plain_externals (path, ag_portable_digest child)) subs)"

definition loader_package :: "string \<Rightarrow> agent_manifest \<Rightarrow> string \<Rightarrow> (string \<times> agent_package) list \<Rightarrow> agent_package" where
  "loader_package root m text subs =
     (let assets = [(''prompt.md'', \<lparr>ta_path = ''prompt.md'', ta_text = text\<rparr>)]
      in AgentPackage root m assets [] subs (sample_tree_digest assets subs))"

definition sample_helper :: agent_package where
  "sample_helper = loader_package ''/pkg/helper'' (loader_manifest ''helper'' []) ''Help'' []"

definition sample_lead :: agent_package where
  "sample_lead = loader_package ''/pkg'' (loader_manifest ''lead'' [''helper/agent.yaml'']) ''Lead''
     [(''helper/agent.yaml'', sample_helper)]"

lemma sample_built:
  "package_from_validated_parts plain_externals root m [(''prompt.md'', \<lparr>ta_path = ''prompt.md'', ta_text = text\<rparr>)] [] subs
     = Inr (loader_package root m text subs)"
proof -
  have "x_canonical plain_externals j = Some ''manifest''" for j by (simp add: plain_externals_def)
  then show ?thesis
    by (simp add: package_from_validated_parts_def portable_digest_def core_canonical_json_def loader_package_def
        sample_tree_digest_def Let_def)
qed

lemmas sample_file_simps = loader_files_def sample_dirs_def sample_contents_def os_join_def os_starts_with_def
  os_components_def Let_def

lemma sample_reads:
  "path \<in> {''agent.yaml'', ''prompt.md''} \<Longrightarrow> root \<in> {''/pkg'', ''/pkg/helper''} \<Longrightarrow>
     reject_symlink_components loader_files root path = Inr ()"
  "reject_symlink_components loader_files ''/pkg'' ''helper/agent.yaml'' = Inr ()"
  by (auto simp: reject_symlink_components_def symlink_step_def sample_file_simps)

lemma loader_utf8: "s \<in> {''P'', ''C'', ''B'', ''Lead'', ''Help''} \<Longrightarrow> is_utf8 s"
  by (rule ascii_is_utf8) (auto simp: char_in_def)

lemma sample_read:
  assumes "reject_symlink_components loader_files root path = Inr ()"
    and "map_of sample_contents (os_join root path) = Some s" "os_starts_with (os_join root path) root"
    and "length s \<le> limit" "length s \<le> bb_remaining b"
  shows "open_referenced_bytes loader_files root path limit t b =
    Inr (\<lparr>rb_bytes = s, rb_canonical_path = os_join root path\<rparr>, bb_charge (length s) b)"
proof -
  have "os_join root path \<in> fst ` set sample_contents" using assms(2) by (metis domI dom_map_of_conv_image_fst)
  then have facts: "fs_canonical loader_files (os_join root path) = Some (os_join root path)"
      "fs_is_file loader_files (os_join root path)" "fs_open loader_files (os_join root path)"
      "fs_bytes loader_files (os_join root path) = Some s"
    using assms(2) by (auto simp: loader_files_def Let_def)
  show ?thesis
    using assms(4,5) by (auto simp: open_referenced_bytes_def read_limited_def assms(1-3) facts Let_def)
qed

lemma loader_manifests:
  "parse_manifest sample_yaml package_limits_v1 ''P'' = Inr (loader_manifest ''lead'' [''helper/agent.yaml''])"
  "parse_manifest sample_yaml package_limits_v1 ''C'' = Inr (loader_manifest ''helper'' [])"
  by (simp_all add: parse_manifest_def parse_typed_def sample_yaml_def strict_scan_def package_limits_v1_def
      loader_utf8 handle_event_def node_started_def scanner_new_def)

lemma sample_loader_simps [simp]:
  "ld_files sample_loader = loader_files" "ld_yaml sample_loader = sample_yaml"
  "ld_externals sample_loader = plain_externals" "ld_lowercase sample_loader = (\<lambda>s. s)"
  "ld_limits sample_loader = package_limits_v1"
  by (simp_all add: sample_loader_def)

lemma sample_roots:
  "root \<in> {''/pkg'', ''/pkg/helper''} \<Longrightarrow> package_root_open loader_files root = Inr root"
  by (auto simp: package_root_open_def sample_file_simps)

lemma sample_prompt:
  assumes "(root, s) \<in> {(''/pkg'', ''Lead''), (''/pkg/helper'', ''Help'')}"
    and "bb_used (lc_budget ctx) \<le> 100" "bb_limit (lc_budget ctx) = 33554432"
  shows "read_asset sample_loader root ([], ctx) ''prompt.md'' =
    Inr ([(''prompt.md'', \<lparr>ta_path = ''prompt.md'', ta_text = s\<rparr>)], ctx\<lparr>lc_budget := bb_charge 4 (lc_budget ctx)\<rparr>)"
proof -
  have utf8: "is_utf8 s" using assms(1) by (auto intro: loader_utf8)
  have four: "length s = 4" using assms(1) by auto
  have "open_referenced_bytes loader_files root ''prompt.md'' 4194304 True (lc_budget ctx) =
      Inr (\<lparr>rb_bytes = s, rb_canonical_path = os_join root ''prompt.md''\<rparr>, bb_charge (length s) (lc_budget ctx))"
    by (rule sample_read)
       (use assms in \<open>auto simp: sample_reads os_join_def sample_contents_def os_starts_with_def os_components_def bb_remaining_def\<close>)
  then show ?thesis
    by (simp add: read_asset_def single_def open_referenced_text_def package_limits_v1_def utf8 four)
qed

definition sample_helper_context :: load_context where
  "sample_helper_context =
     \<lparr>lc_budget = \<lparr>bb_limit = 33554432, bb_used = 6\<rparr>, lc_active = {PackageIdentity ''lead'' ''1.0.0''},
      lc_seen = {PackageIdentity ''lead'' ''1.0.0''},
      lc_paths = [(''agent.yaml'', manifest_reference),
        (''helper/agent.yaml'', \<lparr>tp_path = ''helper/agent.yaml'', tp_package_prefix = []\<rparr>),
        (''prompt.md'', \<lparr>tp_path = ''prompt.md'', tp_package_prefix = []\<rparr>)]\<rparr>"

lemma sample_helper_loads:
  "\<exists>ctx. load_parsed_package sample_loader ''/pkg/helper'' (loader_manifest ''helper'' []) ''helper'' (Suc 0) sample_helper_context
     = Inr (sample_helper, ctx)"
proof -
  let ?m = "loader_manifest ''helper'' []"
  obtain ctx1 where enter: "identity_enter (am_metadata ?m) sample_helper_context = Inr ctx1"
      and ctx1: "lc_budget ctx1 = \<lparr>bb_limit = 33554432, bb_used = 6\<rparr>" "lc_paths ctx1 = lc_paths sample_helper_context"
    by (simp add: identity_enter_def loader_manifest_def sample_helper_context_def)
  obtain t where refs: "discover_portable_references (\<lambda>s. s) ?m ''helper'' (lc_paths ctx1) =
      Inr (\<lparr>pr_prompt = ''prompt.md'', pr_skills = [], pr_subagents = []\<rparr>, t)"
    by (simp add: discover_portable_references_def tracker_register_def ctx1(2) sample_helper_context_def
        loader_manifest_def top_package_relative_def Let_def)
  have prompt: "read_asset sample_loader ''/pkg/helper'' ([], ctx1\<lparr>lc_paths := t\<rparr>) ''prompt.md'' =
      Inr ([(''prompt.md'', \<lparr>ta_path = ''prompt.md'', ta_text = ''Help''\<rparr>)],
        ctx1\<lparr>lc_paths := t, lc_budget := bb_charge 4 (lc_budget ctx1)\<rparr>)"
    by (subst sample_prompt) (simp_all add: ctx1(1))
  show ?thesis
    by (simp add: load_parsed_package.simps [of sample_loader "''/pkg/helper''"] enter
        assemble_package.simps [of sample_loader "''/pkg/helper''"] refs prompt sample_built single_def sample_helper_def)
qed

lemma sample_loads: "load_package sample_loader ''/pkg'' = Inr sample_lead"
proof -
  let ?m = "loader_manifest ''lead'' [''helper/agent.yaml'']"
  let ?new = "load_context_new package_limits_v1"
  have manifest: "open_referenced_yaml loader_files ''/pkg'' ''agent.yaml'' 1048576 (lc_budget ?new) =
      Inr (\<lparr>rb_bytes = ''P'', rb_canonical_path = ''/pkg/agent.yaml''\<rparr>, bb_charge (Suc 0) (lc_budget ?new))"
    unfolding open_referenced_yaml_def
    by (subst sample_read [of _ _ "''P''"])
       (simp_all add: sample_reads os_join_def sample_contents_def os_starts_with_def os_components_def
          load_context_new_def byte_budget_new_def bb_remaining_def package_limits_v1_def)
  obtain ctx1 where enter: "identity_enter (am_metadata ?m) (?new\<lparr>lc_budget := bb_charge (Suc 0) (lc_budget ?new)\<rparr>) = Inr ctx1"
      and ctx1: "ctx1 = \<lparr>lc_budget = \<lparr>bb_limit = 33554432, bb_used = 1\<rparr>, lc_active = {PackageIdentity ''lead'' ''1.0.0''},
        lc_seen = {PackageIdentity ''lead'' ''1.0.0''}, lc_paths = tracker_for_root\<rparr>"
    by (simp add: identity_enter_def loader_manifest_def load_context_new_def byte_budget_new_def bb_charge_def
        package_limits_v1_def)
  have refs: "discover_portable_references (\<lambda>s. s) ?m [] tracker_for_root =
      Inr (\<lparr>pr_prompt = ''prompt.md'', pr_skills = [], pr_subagents = [''helper/agent.yaml'']\<rparr>,
        lc_paths sample_helper_context)"
    by (simp add: discover_portable_references_def tracker_register_def sample_helper_context_def tracker_for_root_def
        loader_manifest_def top_package_relative_def nested_manifest_name_def manifest_reference_def Let_def)
  have prompt: "read_asset sample_loader ''/pkg'' ([], ctx1\<lparr>lc_paths := lc_paths sample_helper_context\<rparr>) ''prompt.md'' =
      Inr ([(''prompt.md'', \<lparr>ta_path = ''prompt.md'', ta_text = ''Lead''\<rparr>)],
        sample_helper_context\<lparr>lc_budget := \<lparr>bb_limit = 33554432, bb_used = 5\<rparr>\<rparr>)"
    by (subst sample_prompt) (simp_all add: ctx1 bb_charge_def sample_helper_context_def)
  have child: "open_child sample_loader ''/pkg'' (Suc 0) (sample_helper_context\<lparr>lc_budget := \<lparr>bb_limit = 33554432, bb_used = 5\<rparr>\<rparr>)
      ''helper/agent.yaml'' = Inr (''/pkg/helper'', loader_manifest ''helper'' [], sample_helper_context)"
  proof -
    have "open_referenced_bytes loader_files ''/pkg'' ''helper/agent.yaml'' 1048576 False
        \<lparr>bb_limit = 33554432, bb_used = 5\<rparr> =
        Inr (\<lparr>rb_bytes = ''C'', rb_canonical_path = ''/pkg/helper/agent.yaml''\<rparr>, \<lparr>bb_limit = 33554432, bb_used = 6\<rparr>)"
      by (subst sample_read [of _ _ "''C''"])
         (simp_all add: sample_reads os_join_def sample_contents_def os_starts_with_def os_components_def
            bb_remaining_def bb_charge_def)
    moreover have "os_parent ''/pkg/helper/agent.yaml'' = ''/pkg/helper''"
      by (simp add: os_parent_def rsplit_once_def)
    moreover have "max_yaml_bytes package_limits_v1 = 1048576" "max_subagent_depth package_limits_v1 = 16"
      by (simp_all add: package_limits_v1_def)
    ultimately show ?thesis
      by (simp add: open_child_def open_referenced_yaml_def single_def loader_manifests sample_roots sample_helper_context_def)
  qed
  have paths1: "lc_paths ctx1 = tracker_for_root" by (simp add: ctx1)
  have child_prefix: "child_package_prefix [] ''helper/agent.yaml'' = ''helper''"
    by (simp add: child_package_prefix_def top_package_relative_def rsplit_once_def)
  obtain ctx2 where helper: "load_parsed_package sample_loader ''/pkg/helper'' (loader_manifest ''helper'' []) ''helper'' (Suc 0)
      sample_helper_context = Inr (sample_helper, ctx2)" using sample_helper_loads by blast
  have "\<exists>ctx. load_parsed_package sample_loader ''/pkg'' ?m [] 0 (?new\<lparr>lc_budget := bb_charge (Suc 0) (lc_budget ?new)\<rparr>) =
      Inr (sample_lead, ctx)"
    by (simp add: load_parsed_package.simps [of sample_loader "''/pkg''"] enter paths1 refs prompt child child_prefix
        helper assemble_package.simps [of sample_loader "''/pkg''"] single_def sample_built sample_lead_def)
  moreover have "max_yaml_bytes package_limits_v1 = 1048576" by (simp add: package_limits_v1_def)
  ultimately show ?thesis
    using manifest by (auto simp: load_package_def Let_def sample_roots single_def loader_manifests)
qed

lemma sample_lead_simps:
  "package_identities sample_lead = [PackageIdentity ''lead'' ''1.0.0'', PackageIdentity ''helper'' ''1.0.0'']"
  "package_depth sample_lead = 1" "package_bytes sample_lead = 8"
  "package_references [] sample_lead =
     [\<lparr>tp_path = ''prompt.md'', tp_package_prefix = []\<rparr>, \<lparr>tp_path = ''helper/agent.yaml'', tp_package_prefix = []\<rparr>,
      \<lparr>tp_path = ''helper/prompt.md'', tp_package_prefix = ''helper''\<rparr>]"
  "(''/pkg/helper'', ''prompt.md'', \<lparr>ta_path = ''prompt.md'', ta_text = ''Help''\<rparr>) \<in> set (package_assets sample_lead)"
  by (simp_all add: sample_lead_def sample_helper_def loader_package_def loader_manifest_def Let_def asset_bytes_def
      top_package_relative_def child_package_prefix_def rsplit_once_def)

lemma sample_laws: "file_system_laws loader_files"
  by (auto simp: file_system_laws_def loader_files_def sample_dirs_def sample_contents_def Let_def canonical_form_def
      os_parent_def rsplit_once_def)

lemma length_digest_text: "length (digest_text (x_sha256 plain_externals s)) = length s"
  by (simp add: digest_text_def plain_externals_def)

lemma length_hash_frame:
  "length (hash_frame domain chunks) = 21 + length domain + sum_list (map (\<lambda>c. 8 + length c) chunks)"
  by (induction chunks) (simp_all add: hash_frame_def nul_def be_bytes_def)

lemma sample_hashed_short: "\<forall>s \<in> hashed plain_externals sample_lead. length s < 2 ^ 64"
proof -
  have "the (x_canonical plain_externals j) = ''manifest''" for j by (simp add: plain_externals_def)
  then show ?thesis
    by (auto simp: sample_lead_def sample_helper_def loader_package_def Let_def own_hashed_def portable_chunks_def
        merged_assets_def asset_chunk_def child_chunk_def sample_tree_digest_def hash_domain_def length_digest_text
        length_hash_frame)
qed

section \<open>Witnesses\<close>

theorem loaded_package_within_limits_witness:
  "package_depth sample_lead \<le> 16 \<and> package_bytes sample_lead \<le> 33554432 \<and> distinct (package_identities sample_lead)"
  using loaded_package_within_limits [OF sample_loads] by (simp add: package_limits_v1_def)

theorem loaded_references_do_not_collide_witness:
  "package_references [] sample_lead ! 2 = \<lparr>tp_path = ''helper/prompt.md'', tp_package_prefix = ''helper''\<rparr>"
  by (rule loaded_references_do_not_collide [OF sample_loads]) (simp_all add: sample_lead_simps)

theorem loaded_files_are_contained_witness:
  "\<exists>c. fs_canonical loader_files ''/pkg/helper/prompt.md'' = Some c \<and> os_starts_with c ''/pkg''
    \<and> fs_bytes loader_files c = Some ''Help''"
proof -
  have "fs_canonical loader_files ''/pkg'' = Some ''/pkg''" by (simp add: sample_file_simps)
  moreover note loaded_files_are_contained [OF sample_loads _ _ sample_lead_simps(5), of "''/pkg''"]
  ultimately show ?thesis using sample_laws by (auto simp: os_join_def)
qed


end
