(* ===== verification/KF_Select.thy ===== *)
theory KF_Select
  imports KF_Package
begin

text \<open>
  Selection in \<open>crates/kiteframe-resolver/src\<close>: the descriptors of a catalog with their part digests
  (\<open>descriptor.rs\<close>), the choice of a descriptor for each capability requirement (\<open>catalog.rs\<close>), the
  negotiation of features (\<open>feature.rs\<close>) and the binding of model roles (\<open>model.rs\<close>).
\<close>

section \<open>Validated descriptors\<close>

record validated_descriptor =
  va_descriptor :: capability_descriptor
  va_input_schema_digest :: sha256_digest
  va_output_schema_digest :: sha256_digest
  va_stable_error_set_digest :: sha256_digest
  va_safety_metadata_digest :: sha256_digest

abbreviation va_identity :: "validated_descriptor \<Rightarrow> capability_identity" where
  "va_identity d \<equiv> cd_identity (va_descriptor d)"

definition catalog_invalid :: "string \<Rightarrow> diagnostic" where
  "catalog_invalid message = diagnostic_error CatalogIncompatible CatCatalog StageValidate message"

definition schema_compiles :: "externals \<Rightarrow> json \<Rightarrow> string \<Rightarrow> (diagnostic, unit) result" where
  "schema_compiles X schema role =
     ensure (x_schema_builds X schema)
       (catalog_invalid (''capability '' @ role @ '' schema cannot be compiled''))"

definition digest_part :: "externals \<Rightarrow> string \<Rightarrow> json \<Rightarrow> (diagnostic, sha256_digest) result" where
  "digest_part X domain v =
     map_ok (\<lambda>canonical. x_sha256 X (''kiteframe.dev/capability-descriptor/'' @ domain @ nul @ canonical))
       (ok_or (catalog_invalid ''capability descriptor material cannot be canonicalized'') (x_canonical X v))"

definition wire_field :: "json \<Rightarrow> string \<Rightarrow> (diagnostic, json) result" where
  "wire_field wire name =
     ok_or (catalog_invalid (''capability descriptor omits '' @ name)) (json_get name wire)"

definition safety_metadata_fields :: "string list" where
  "safety_metadata_fields =
     [''executionModes'', ''resourceSelectorSchema'', ''effect'', ''idempotency'', ''freshness'',
      ''preconditions'', ''confirmation'', ''approval'', ''consent'']"

definition safety_metadata :: "json \<Rightarrow> (diagnostic, json) result" where
  "safety_metadata wire =
     map_ok JObj (try_map (\<lambda>name. map_ok (Pair name) (wire_field wire name)) safety_metadata_fields)"

definition validate_descriptor ::
  "externals \<Rightarrow> capability_descriptor \<Rightarrow> (diagnostic, validated_descriptor) result" where
  "validate_descriptor X d =
     and_then (schema_compiles X (cd_input_schema d) ''input'') (\<lambda>_.
     and_then (schema_compiles X (cd_output_schema d) ''output'') (\<lambda>_.
     let wire = descriptor_json d in
     and_then (ensure (case wire of JObj _ \<Rightarrow> True | _ \<Rightarrow> False)
       (catalog_invalid ''capability descriptor must serialize as an object'')) (\<lambda>_.
     and_then (and_then (wire_field wire ''inputSchema'') (digest_part X ''input-schema'')) (\<lambda>input.
     and_then (and_then (wire_field wire ''outputSchema'') (digest_part X ''output-schema'')) (\<lambda>output.
     and_then (and_then (wire_field wire ''stableErrors'') (digest_part X ''stable-errors'')) (\<lambda>errors.
     and_then (and_then (safety_metadata wire) (digest_part X ''safety-metadata'')) (\<lambda>safety.
     Inr \<lparr>va_descriptor = d, va_input_schema_digest = input, va_output_schema_digest = output,
          va_stable_error_set_digest = errors, va_safety_metadata_digest = safety\<rparr>)))))))"

section \<open>Catalogs and selection\<close>

record validated_catalog =
  vc_catalog :: capability_catalog
  vc_descriptors :: "validated_descriptor list"

text \<open>
  \<open>validate_catalog\<close> reads JSON bytes; the argument is what they parse to, if they do, before the
  catalog's own reader checks it.
\<close>

definition validate_catalog ::
  "externals \<Rightarrow> capability_catalog option \<Rightarrow> (diagnostic list, validated_catalog) result" where
  "validate_catalog X parsed =
     and_then (map_err (\<lambda>_. [catalog_invalid ''catalog bytes are not a valid canonical capability catalog''])
       (and_then (ok_or ''catalog is not JSON of the expected shape'' parsed) (catalog_deserialize X))) (\<lambda>catalog.
     map_ok (\<lambda>descriptors. \<lparr>vc_catalog = catalog, vc_descriptors = descriptors\<rparr>)
       (map_err (\<lambda>error. [error]) (try_map (validate_descriptor X) (cc_descriptors catalog))))"

datatype candidate_policy = PolicyAllowAll | PolicyExact "string set"

definition policy_allows :: "candidate_policy \<Rightarrow> validated_descriptor \<Rightarrow> bool" where
  "policy_allows policy d =
     (case policy of
        PolicyAllowAll \<Rightarrow> True
      | PolicyExact identities \<Rightarrow> ci_name (va_identity d) @ ''@'' @ ci_version (va_identity d) \<in> identities)"

record selected_capability =
  se_requirement :: capability_requirement
  se_descriptor :: validated_descriptor

datatype compilation_warning = CompilationWarning (cw_code: string) (cw_message: string)

instantiation compilation_warning :: linorder
begin
definition less_eq_compilation_warning :: "compilation_warning \<Rightarrow> compilation_warning \<Rightarrow> bool" where
  "less_eq_compilation_warning a b = ((cw_code a, cw_message a) \<le> (cw_code b, cw_message b))"
definition less_compilation_warning :: "compilation_warning \<Rightarrow> compilation_warning \<Rightarrow> bool" where
  "less_compilation_warning a b = ((cw_code a, cw_message a) < (cw_code b, cw_message b))"
instance
  by standard
     (auto simp: less_eq_compilation_warning_def less_compilation_warning_def
       intro: compilation_warning.expand)
end

record selection_outcome =
  so_selected :: "selected_capability list"
  so_warnings :: "compilation_warning list"

definition requirement_key :: "capability_requirement \<Rightarrow> string \<times> string \<times> bool \<times> string list" where
  "requirement_key r = (cr_name r, cr_version r, cr_required r, cr_resources r)"

definition requirement_text :: "capability_requirement \<Rightarrow> string" where
  "requirement_text r = cr_name r @ '' '' @ cr_version r"

definition incompatible_requirement :: "capability_requirement \<Rightarrow> diagnostic" where
  "incompatible_requirement r =
     diagnostic_error CatalogIncompatible CatCatalog StageResolve
       (''no compatible catalog capability for '' @ requirement_text r)"

definition optional_miss_warning :: "capability_requirement \<Rightarrow> compilation_warning" where
  "optional_miss_warning r =
     CompilationWarning (code_str CatalogIncompatible)
       (''optional capability '' @ requirement_text r @ '' is unavailable'')"

text \<open>\<open>Iterator::max_by\<close>: of several greatest elements the last.\<close>

fun max_by_version :: "('v :: linorder \<times> 'a) list \<Rightarrow> ('v \<times> 'a) option" where
  "max_by_version [] = None"
| "max_by_version (x # xs) =
     (case max_by_version xs of
        None \<Rightarrow> Some x
      | Some y \<Rightarrow> if fst x \<le> fst y then Some y else Some x)"

definition candidates ::
  "'v :: linorder semver \<Rightarrow> validated_catalog \<Rightarrow> candidate_policy \<Rightarrow> capability_requirement \<Rightarrow>
     ('v \<times> validated_descriptor) list" where
  "candidates V catalog policy r =
     List.map_filter (\<lambda>d.
         case sv_version V (ci_version (va_identity d)) of
           None \<Rightarrow> None
         | Some version \<Rightarrow> if sv_matches V (cr_version r) version then Some (version, d) else None)
       (filter (policy_allows policy) (filter (\<lambda>d. ci_name (va_identity d) = cr_name r) (vc_descriptors catalog)))"

definition selected_descriptor ::
  "'v :: linorder semver \<Rightarrow> validated_catalog \<Rightarrow> candidate_policy \<Rightarrow> capability_requirement \<Rightarrow>
     validated_descriptor option" where
  "selected_descriptor V catalog policy r = map_option snd (max_by_version (candidates V catalog policy r))"

record selection_lists =
  sl_selected :: "selected_capability list"
  sl_warnings :: "compilation_warning list"
  sl_errors :: "diagnostic list"

definition selection_step ::
  "'v :: linorder semver \<Rightarrow> validated_catalog \<Rightarrow> candidate_policy \<Rightarrow> selection_lists \<Rightarrow>
     capability_requirement \<Rightarrow> (diagnostic list, selection_lists) result" where
  "selection_step V catalog policy s r =
     (if \<not> sv_req_ok V (cr_version r)
      then Inl [catalog_invalid ''capability requirement has an invalid SemVer range'']
      else Inr (case selected_descriptor V catalog policy r of
          Some d \<Rightarrow> s\<lparr>sl_selected := sl_selected s @ [\<lparr>se_requirement = r, se_descriptor = d\<rparr>]\<rparr>
        | None \<Rightarrow> if cr_required r then s\<lparr>sl_errors := sl_errors s @ [incompatible_requirement r]\<rparr>
            else s\<lparr>sl_warnings := sl_warnings s @ [optional_miss_warning r]\<rparr>))"

definition select_capabilities_with_warnings ::
  "'v :: linorder semver \<Rightarrow> capability_requirement list \<Rightarrow> validated_catalog \<Rightarrow> candidate_policy \<Rightarrow>
     (diagnostic list, selection_outcome) result" where
  "select_capabilities_with_warnings V requirements catalog policy =
     and_then (try_fold (selection_step V catalog policy) (remdups_adj (sort_key requirement_key requirements))
         \<lparr>sl_selected = [], sl_warnings = [], sl_errors = []\<rparr>) (\<lambda>s.
       if sl_errors s = []
       then Inr \<lparr>so_selected = sl_selected s, so_warnings = sort_dedup (sl_warnings s)\<rparr>
       else Inl (sort_key diagnostic_key (sl_errors s)))"

section \<open>Feature negotiation\<close>

definition feature_compatible :: "string \<Rightarrow> string list \<Rightarrow> bool" where
  "feature_compatible f supported =
     (\<exists>candidate \<in> set supported. feature_name candidate = feature_name f \<and> feature_major candidate = feature_major f)"

record feature_negotiation =
  fn_enabled_optional :: "string list"
  fn_omitted_optional :: "string list"

definition required_feature_diagnostic :: "string \<Rightarrow> diagnostic" where
  "required_feature_diagnostic f =
     diagnostic_error FeatureUnsupported CatFeature StageResolve
       (''runtime target does not support required feature '' @ f)"

definition negotiate_features ::
  "string list \<Rightarrow> string list \<Rightarrow> string list \<Rightarrow> (diagnostic list, feature_negotiation) result" where
  "negotiate_features required optional supported =
     (let missing = filter (\<lambda>f. \<not> feature_compatible f supported) required in
      if missing \<noteq> [] then Inl (map required_feature_diagnostic missing)
      else Inr \<lparr>fn_enabled_optional = filter (\<lambda>f. feature_compatible f supported) optional,
                fn_omitted_optional = filter (\<lambda>f. \<not> feature_compatible f supported) optional\<rparr>)"

section \<open>Model roles\<close>

definition component_unresolved :: "string \<Rightarrow> diagnostic" where
  "component_unresolved message = diagnostic_error ComponentUnresolved CatRuntime StageResolve message"

fun offers_capability :: "model_metadata \<Rightarrow> model_capability \<Rightarrow> bool" where
  "offers_capability m CapText = (ModalityText \<in> mm_modalities m)"
| "offers_capability m CapToolCalling = mm_tool_calling m"
| "offers_capability m CapStructuredOutput = mm_structured_output m"

definition model_satisfies :: "string \<Rightarrow> model_requirement \<Rightarrow> component_catalog \<Rightarrow> bool" where
  "model_satisfies symbol r components =
     (case map_of (co_components components) symbol of
        None \<Rightarrow> False
      | Some c \<Rightarrow>
          cm_kind c = KindModel
          \<and> (case cm_model c of
               None \<Rightarrow> False
             | Some m \<Rightarrow>
                 (\<forall>k \<in> mr_capabilities r. offers_capability m k)
                 \<and> (case mr_min_context_tokens r of None \<Rightarrow> True | Some n \<Rightarrow> n \<le> mm_max_context_tokens m)
                 \<and> (case mr_max_latency_class r of None \<Rightarrow> True
                    | Some LatencyInteractive \<Rightarrow> mm_latency_class m = ModelInteractive)
                 \<and> (case mr_residency r of None \<Rightarrow> True | Some residency \<Rightarrow> mm_residency m = residency)))"

record resolved_model =
  rm_requirement :: model_requirement
  rm_symbol :: string

record model_resolution =
  mo_models :: "(string \<times> resolved_model) list"
  mo_warnings :: "compilation_warning list"
  mo_diagnostics :: "diagnostic list"

definition model_fallback ::
  "(string \<times> model_requirement) list \<Rightarrow> runtime_binding \<Rightarrow> component_catalog \<Rightarrow> model_requirement \<Rightarrow>
     string option" where
  "model_fallback requirements binding components r =
     (if mr_required r then None
      else case find (\<lambda>(role, _). role = ''primary'') requirements of
        None \<Rightarrow> None
      | Some (primary, _) \<Rightarrow>
          (case map_of (rb_models binding) primary of
             None \<Rightarrow> None
           | Some symbol \<Rightarrow> if model_satisfies symbol r components then Some symbol else None))"

definition model_step ::
  "(string \<times> model_requirement) list \<Rightarrow> runtime_binding \<Rightarrow> component_catalog \<Rightarrow>
     (string \<times> model_requirement) \<Rightarrow> model_resolution \<Rightarrow> model_resolution" where
  "model_step requirements binding components entry s =
     (let (role, r) = entry;
          bind = (\<lambda>symbol s. s\<lparr>mo_models := btree_insert role \<lparr>rm_requirement = r, rm_symbol = symbol\<rparr> (mo_models s)\<rparr>);
          unmet = ''model role '' @ role @ '' has no binding that satisfies every constraint'' in
      case (case map_of (rb_models binding) role of
              Some symbol \<Rightarrow> if model_satisfies symbol r components then Some symbol else None
            | None \<Rightarrow> None) of
        Some symbol \<Rightarrow> bind symbol s
      | None \<Rightarrow>
          (case model_fallback requirements binding components r of
             Some symbol \<Rightarrow> bind symbol (s\<lparr>mo_warnings := mo_warnings s @
               [CompilationWarning ''KF-MODEL-OPTIONAL-FALLBACK''
                 (''optional model role '' @ role @ '' fell back to primary model '' @ symbol)]\<rparr>)
           | None \<Rightarrow>
               if mr_required r
               then s\<lparr>mo_diagnostics := mo_diagnostics s @ [component_unresolved (''required '' @ unmet)]\<rparr>
               else s\<lparr>mo_warnings := mo_warnings s @
                 [CompilationWarning ''KF-MODEL-OPTIONAL-OMITTED'' (''optional '' @ unmet)]\<rparr>))"

definition resolve_models ::
  "(string \<times> model_requirement) list \<Rightarrow> runtime_binding \<Rightarrow> component_catalog \<Rightarrow>
     (diagnostic list, (string \<times> resolved_model) list \<times> compilation_warning list) result" where
  "resolve_models requirements binding components =
     (let s = fold (model_step requirements binding components) requirements
                \<lparr>mo_models = [], mo_warnings = [], mo_diagnostics = []\<rparr> in
      if mo_diagnostics s = [] then Inr (mo_models s, mo_warnings s)
      else Inl (sort_key diagnostic_key (mo_diagnostics s)))"

fun kind_debug :: "component_kind \<Rightarrow> string" where
  "kind_debug KindModel = ''Model''"
| "kind_debug KindMiddleware = ''Middleware''"
| "kind_debug KindBackend = ''Backend''"
| "kind_debug KindCheckpointer = ''Checkpointer''"
| "kind_debug KindAuthorityProvider = ''AuthorityProvider''"
| "kind_debug KindAdmittedToolRegistry = ''AdmittedToolRegistry''"
| "kind_debug KindCapabilityProvider = ''CapabilityProvider''"
| "kind_debug KindAuditSink = ''AuditSink''"
| "kind_debug KindRedactionPolicy = ''RedactionPolicy''"
| "kind_debug KindRetentionPolicy = ''RetentionPolicy''"
| "kind_debug KindAccessPolicy = ''AccessPolicy''"
| "kind_debug KindEncryptedContentStore = ''EncryptedContentStore''"
| "kind_debug KindHarnessProfile = ''HarnessProfile''"

definition require_component_kind ::
  "component_catalog \<Rightarrow> string \<Rightarrow> component_kind \<Rightarrow> (diagnostic, component_metadata) result" where
  "require_component_kind components symbol expected =
     (case map_of (co_components components) symbol of
        Some c \<Rightarrow> if cm_kind c = expected then Inr c
          else Inl (component_unresolved (''component '' @ symbol @ '' is absent or is not of expected kind ''
            @ kind_debug expected))
      | None \<Rightarrow> Inl (component_unresolved (''component '' @ symbol @ '' is absent or is not of expected kind ''
            @ kind_debug expected)))"

section \<open>What selection chooses\<close>

text \<open>
  The specification of a choice: a descriptor of the catalog with the required name, allowed by the
  policy, whose version the range matches, and none of those is newer.
\<close>

definition candidate_for ::
  "'v :: linorder semver \<Rightarrow> validated_catalog \<Rightarrow> candidate_policy \<Rightarrow> capability_requirement \<Rightarrow>
     'v \<Rightarrow> validated_descriptor \<Rightarrow> bool" where
  "candidate_for V catalog policy r version d =
     (d \<in> set (vc_descriptors catalog) \<and> ci_name (va_identity d) = cr_name r \<and> policy_allows policy d
      \<and> sv_version V (ci_version (va_identity d)) = Some version \<and> sv_matches V (cr_version r) version)"

definition newest_match ::
  "'v :: linorder semver \<Rightarrow> validated_catalog \<Rightarrow> candidate_policy \<Rightarrow> capability_requirement \<Rightarrow>
     validated_descriptor \<Rightarrow> bool" where
  "newest_match V catalog policy r d =
     (\<exists>version. candidate_for V catalog policy r version d
        \<and> (\<forall>d' version'. candidate_for V catalog policy r version' d' \<longrightarrow> version' \<le> version))"

lemma max_by_version_Some:
  "max_by_version xs = Some (v, d) \<Longrightarrow> (v, d) \<in> set xs \<and> (\<forall>(w, _) \<in> set xs. w \<le> v)"
proof (induction xs arbitrary: v d)
  case (Cons x xs)
  show ?case
  proof (cases "max_by_version xs")
    case None
    then have "xs = []" by (cases xs) (auto split: option.splits if_splits)
    with Cons.prems None show ?thesis by auto
  next
    case (Some y)
    obtain w e where y: "y = (w, e)" by (cases y)
    from Cons.IH [of w e] Some y Cons.prems show ?thesis
      by (cases x) (auto split: if_splits dest: order_trans)
  qed
qed simp

lemma max_by_version_None [simp]: "max_by_version xs = None \<longleftrightarrow> xs = []"
  by (cases xs) (auto split: option.splits)

lemma in_set_map_filter: "y \<in> set (List.map_filter f xs) \<longleftrightarrow> (\<exists>x \<in> set xs. f x = Some y)"
  by (induction xs) (auto simp: List.map_filter_def split: option.splits)

lemma set_candidates:
  "(v, d) \<in> set (candidates V catalog policy r) \<longleftrightarrow> candidate_for V catalog policy r v d"
proof -
  have "(case sv_version V n of None \<Rightarrow> None | Some w \<Rightarrow> if sv_matches V q w then Some (w, e) else None) = Some (v, d)
     \<longleftrightarrow> sv_version V n = Some v \<and> sv_matches V q v \<and> e = d" for n q and e :: validated_descriptor
    by (cases "sv_version V n") auto
  then show ?thesis by (auto simp: candidates_def candidate_for_def in_set_map_filter)
qed

lemma selected_descriptor_newest:
  "selected_descriptor V catalog policy r = Some d \<Longrightarrow> newest_match V catalog policy r d"
  by (force simp: selected_descriptor_def newest_match_def set_candidates [symmetric]
      dest: max_by_version_Some)

lemma selected_descriptor_None:
  "selected_descriptor V catalog policy r = None \<longleftrightarrow> (\<nexists>version d. candidate_for V catalog policy r version d)"
proof -
  have "selected_descriptor V catalog policy r = None \<longleftrightarrow> set (candidates V catalog policy r) = {}"
    by (simp add: selected_descriptor_def)
  also have "\<dots> \<longleftrightarrow> (\<forall>x. x \<notin> set (candidates V catalog policy r))" by auto
  finally show ?thesis unfolding split_paired_All set_candidates by simp
qed

definition chosen ::
  "'v :: linorder semver \<Rightarrow> validated_catalog \<Rightarrow> candidate_policy \<Rightarrow> capability_requirement list \<Rightarrow>
     selected_capability list" where
  "chosen V catalog policy requirements =
     List.map_filter (\<lambda>r. map_option (\<lambda>d. \<lparr>se_requirement = r, se_descriptor = d\<rparr>)
       (selected_descriptor V catalog policy r)) requirements"

definition missed ::
  "'v :: linorder semver \<Rightarrow> validated_catalog \<Rightarrow> candidate_policy \<Rightarrow> bool \<Rightarrow> capability_requirement list \<Rightarrow>
     capability_requirement list" where
  "missed V catalog policy required =
     filter (\<lambda>r. cr_required r = required \<and> selected_descriptor V catalog policy r = None)"

lemma selection_fold:
  "try_fold (selection_step V catalog policy) rs s =
     (if \<forall>r \<in> set rs. sv_req_ok V (cr_version r)
      then Inr (s\<lparr>sl_selected := sl_selected s @ chosen V catalog policy rs,
                  sl_warnings := sl_warnings s @ map optional_miss_warning (missed V catalog policy False rs),
                  sl_errors := sl_errors s @ map incompatible_requirement (missed V catalog policy True rs)\<rparr>)
      else Inl [catalog_invalid ''capability requirement has an invalid SemVer range''])"
  by (induction rs arbitrary: s)
     (auto simp: selection_step_def chosen_def missed_def List.map_filter_def split: option.splits)

lemma requirement_key_inject [simp]: "requirement_key a = requirement_key b \<longleftrightarrow> a = b"
  by (auto simp: requirement_key_def)

lemma selection_result:
  "select_capabilities_with_warnings V requirements catalog policy = Inr out \<longleftrightarrow>
     (let rs = remdups_adj (sort_key requirement_key requirements) in
        (\<forall>r \<in> set requirements. sv_req_ok V (cr_version r)) \<and> missed V catalog policy True rs = []
        \<and> out = \<lparr>so_selected = chosen V catalog policy rs,
                 so_warnings = sort_dedup (map optional_miss_warning (missed V catalog policy False rs))\<rparr>)"
  by (auto simp: select_capabilities_with_warnings_def selection_fold Let_def)

lemma set_chosen:
  "s \<in> set (chosen V catalog policy rs) \<longleftrightarrow>
     se_requirement s \<in> set rs \<and> selected_descriptor V catalog policy (se_requirement s) = Some (se_descriptor s)"
  by (cases s) (force simp: chosen_def List.map_filter_def)

lemma distinct_requirements: "distinct (remdups_adj (sort_key requirement_key rs))"
proof -
  have "distinct (remdups_adj (map requirement_key (sort_key requirement_key rs)))"
    by (rule distinct_remdups_adj_sorted) simp
  moreover have "remdups_adj (map requirement_key xs) = map requirement_key (remdups_adj xs)" for xs
    by (rule remdups_adj_map_injective) (simp add: inj_on_def)
  ultimately show ?thesis by (simp add: distinct_map)
qed

lemma distinct_chosen: "distinct rs \<Longrightarrow> distinct (map se_requirement (chosen V catalog policy rs))"
proof (induction rs)
  case (Cons r rs)
  then show ?case
    by (cases "selected_descriptor V catalog policy r")
       (auto simp: chosen_def List.map_filter_def)
qed (simp add: chosen_def List.map_filter_def)

lemma selection_outcome_exact:
  assumes "select_capabilities_with_warnings V requirements catalog policy = Inr out"
  shows
    "(\<forall>s \<in> set (so_selected out). se_requirement s \<in> set requirements
        \<and> newest_match V catalog policy (se_requirement s) (se_descriptor s))
     \<and> distinct (map se_requirement (so_selected out))
     \<and> (\<forall>r \<in> set requirements. (\<exists>version d. candidate_for V catalog policy r version d)
          \<longrightarrow> r \<in> se_requirement ` set (so_selected out))
     \<and> strictly_sorted_by (\<lambda>w. w) (so_warnings out)
     \<and> set (so_warnings out) = optional_miss_warning ` {r \<in> set requirements. \<not> cr_required r
          \<and> (\<nexists>version d. candidate_for V catalog policy r version d)}"
proof -
  from assms have out: "out = \<lparr>so_selected = chosen V catalog policy (remdups_adj (sort_key requirement_key requirements)),
      so_warnings = sort_dedup (map optional_miss_warning
        (missed V catalog policy False (remdups_adj (sort_key requirement_key requirements))))\<rparr>"
    by (simp add: selection_result Let_def)
  have "r \<in> se_requirement ` set (so_selected out)"
    if "r \<in> set requirements" "candidate_for V catalog policy r version d" for r version d
  proof -
    from that obtain e where "selected_descriptor V catalog policy r = Some e"
      using selected_descriptor_None by (metis option.exhaust)
    with that have "\<lparr>se_requirement = r, se_descriptor = e\<rparr> \<in> set (so_selected out)"
      by (simp add: out set_chosen)
    then show ?thesis by force
  qed
  then show ?thesis
    by (auto simp: out set_chosen selected_descriptor_newest distinct_chosen distinct_requirements
        strictly_sorted_by_sorted_wrt strict_sorted_iff missed_def selected_descriptor_None)
qed

text \<open>
  Selection succeeds exactly when every version range is valid and every required
  requirement has a candidate (a descriptor of the catalog with its name that the policy
  allows and whose version its range matches). Then each requirement that has a candidate is
  selected exactly once, with a descriptor that no candidate is newer than, nothing else is
  selected, and the warnings are those of the optional requirements without a candidate, in order
  and each once.
\<close>

lemma selection_is_newest_match:
  "(is_ok (select_capabilities_with_warnings V requirements catalog policy) \<longleftrightarrow>
     (\<forall>r \<in> set requirements. sv_req_ok V (cr_version r)
        \<and> (cr_required r \<longrightarrow> (\<exists>version d. candidate_for V catalog policy r version d))))
   \<and> (\<forall>out. select_capabilities_with_warnings V requirements catalog policy = Inr out \<longrightarrow>
     (\<forall>s \<in> set (so_selected out). se_requirement s \<in> set requirements
        \<and> newest_match V catalog policy (se_requirement s) (se_descriptor s))
     \<and> distinct (map se_requirement (so_selected out))
     \<and> (\<forall>r \<in> set requirements. (\<exists>version d. candidate_for V catalog policy r version d)
          \<longrightarrow> r \<in> se_requirement ` set (so_selected out))
     \<and> strictly_sorted_by (\<lambda>w. w) (so_warnings out)
     \<and> set (so_warnings out) = optional_miss_warning ` {r \<in> set requirements. \<not> cr_required r
          \<and> (\<nexists>version d. candidate_for V catalog policy r version d)})"
proof -
  have "is_ok (select_capabilities_with_warnings V requirements catalog policy) \<longleftrightarrow>
     (\<forall>r \<in> set requirements. sv_req_ok V (cr_version r)
        \<and> (cr_required r \<longrightarrow> (\<exists>version d. candidate_for V catalog policy r version d)))"
    unfolding is_ok_iff selection_result Let_def
    by (simp add: missed_def filter_empty_conv selected_descriptor_None) blast
  then show ?thesis by (rule conjI) (intro allI impI, erule selection_outcome_exact)
qed

definition sample_semver :: "nat semver" where
  "sample_semver = \<lparr>sv_version = \<lambda>v. Some (length v), sv_req_ok = \<lambda>_. True, sv_matches = \<lambda>_ _. True\<rparr>"

definition sample_need :: "string \<Rightarrow> capability_requirement" where
  "sample_need resource = \<lparr>cr_name = ''docs.read'', cr_version = ''^1.0'', cr_required = True,
     cr_resources = [resource]\<rparr>"

definition sample_validated_descriptor :: validated_descriptor where
  "sample_validated_descriptor = \<lparr>va_descriptor = sample_descriptor, va_input_schema_digest = sample_digest,
     va_output_schema_digest = sample_digest, va_stable_error_set_digest = sample_digest,
     va_safety_metadata_digest = sample_digest\<rparr>"

definition sample_validated :: validated_catalog where
  "sample_validated = \<lparr>vc_catalog = sample_capability_catalog, vc_descriptors = [sample_validated_descriptor]\<rparr>"

lemma sample_candidate:
  "candidate_for sample_semver sample_validated PolicyAllowAll (sample_need resource) 5 sample_validated_descriptor"
  by (simp add: candidate_for_def sample_validated_def sample_validated_descriptor_def sample_descriptor_def
      sample_need_def sample_identity_def sample_semver_def policy_allows_def)

lemma sample_selection_ok:
  "is_ok (select_capabilities_with_warnings sample_semver [sample_need a, sample_need b] sample_validated PolicyAllowAll)"
  using sample_candidate [of a] sample_candidate [of b]
  by (auto simp: is_ok_iff selection_result Let_def missed_def filter_empty_conv selected_descriptor_None
      sample_semver_def)

end
