(* ===== verification/KF_Lock.thy ===== *)
theory KF_Lock
  imports KF_Select
begin

text \<open>
  The capability lock of \<open>kiteframe-contract/src/lock.rs\<close> and its life in
  \<open>kiteframe-resolver/src/lock.rs\<close>: locking the selected descriptors, verifying a lock against the
  package and, where one is at hand, a catalog, and the atomic replacement of the lock file.
\<close>

section \<open>Locks\<close>

datatype lock_schema_version = LockV1Alpha1 | LockUnsupported

record capability_lock =
  lk_schema_version :: lock_schema_version
  lk_package_portable_digest :: sha256_digest
  lk_catalog_identity :: string
  lk_catalog_digest :: sha256_digest
  lk_catalog_revision :: string
  lk_resolver_version :: string
  lk_resolved_features :: "string list"
  lk_capabilities :: "locked_capability list"
  lk_lock_digest :: sha256_digest

definition resolver_version :: string where
  "resolver_version = ''0.1.0''"

fun lock_schema_wire :: "lock_schema_version \<Rightarrow> string" where
  "lock_schema_wire LockV1Alpha1 = ''kiteframe.dev/lock/v1alpha1''"
| "lock_schema_wire LockUnsupported = ''kiteframe.dev/lock/unsupported''"

definition lock_entries :: "capability_lock \<Rightarrow> (string \<times> json) list" where
  "lock_entries l =
     [(''schemaVersion'', JStr (lock_schema_wire (lk_schema_version l))),
      (''packagePortableDigest'', digest_json (lk_package_portable_digest l)),
      (''catalogIdentity'', JStr (lk_catalog_identity l)), (''catalogDigest'', digest_json (lk_catalog_digest l)),
      (''catalogRevision'', JStr (lk_catalog_revision l)), (''resolverVersion'', JStr (lk_resolver_version l)),
      (''resolvedFeatures'', JArr (map JStr (lk_resolved_features l))),
      (''capabilities'', JArr (map locked_capability_json (lk_capabilities l)))]"

definition lock_material :: "capability_lock \<Rightarrow> json" where
  "lock_material l = JObj (lock_entries l)"

definition lock_json :: "capability_lock \<Rightarrow> json" where
  "lock_json l = JObj (lock_entries l @ [(''lockDigest'', digest_json (lk_lock_digest l))])"

definition stale :: "string \<Rightarrow> diagnostic" where
  "stale message = diagnostic_error LockStale CatLock StageLock message"

definition tampered :: "string \<Rightarrow> diagnostic" where
  "tampered message = diagnostic_error LockTampered CatLock StageLock message"

definition lock_digest :: "externals \<Rightarrow> capability_lock \<Rightarrow> (diagnostic, sha256_digest) result" where
  "lock_digest X l =
     map_ok (x_sha256 X)
       (ok_or (tampered ''capability lock contents cannot be canonicalized'') (x_canonical X (lock_material l)))"

section \<open>Locking a package\<close>

definition package_requested_features :: "agent_package \<Rightarrow> (diagnostic list, string list) result" where
  "package_requested_features package =
     map_ok btree_set
       (try_map (\<lambda>f. map_err (\<lambda>_. [diagnostic_error PackageInvalid CatPackage StageLock
            ''validated package contains an invalid feature identifier'']) (feature_id_new f))
         (am_required_features (ag_manifest package) @ am_optional_features (ag_manifest package)))"

text \<open>
  \<open>LockedCapability::try_new\<close> is called on parts of one descriptor, which it always accepts.
\<close>

definition locked_of :: "validated_descriptor \<Rightarrow> locked_capability" where
  "locked_of d = \<lparr>lc_identity = va_identity d, lc_descriptor = va_descriptor d,
     lc_descriptor_digest = cd_descriptor_digest (va_descriptor d),
     lc_input_schema_digest = va_input_schema_digest d, lc_output_schema_digest = va_output_schema_digest d,
     lc_stable_error_set_digest = va_stable_error_set_digest d,
     lc_safety_metadata_digest = va_safety_metadata_digest d\<rparr>"

lemma locked_of_accepted: "locked_capability_try_new (locked_of d) = Inr (locked_of d)"
  by (simp add: locked_capability_try_new_def locked_of_def)

definition unsigned_lock ::
  "agent_package \<Rightarrow> validated_catalog \<Rightarrow> string list \<Rightarrow> selected_capability list \<Rightarrow> capability_lock" where
  "unsigned_lock package catalog features selected =
     \<lparr>lk_schema_version = LockV1Alpha1, lk_package_portable_digest = ag_portable_digest package,
      lk_catalog_identity = cat_name (cc_identity (vc_catalog catalog)),
      lk_catalog_digest = cc_catalog_digest (vc_catalog catalog),
      lk_catalog_revision = cat_revision (cc_identity (vc_catalog catalog)),
      lk_resolver_version = resolver_version, lk_resolved_features = features,
      lk_capabilities = sort_key lc_identity (map (locked_of \<circ> se_descriptor) selected),
      lk_lock_digest = Sha256Digest (replicate digest_byte_length 0)\<rparr>"

definition lock_package ::
  "externals \<Rightarrow> 'v :: linorder semver \<Rightarrow> agent_package \<Rightarrow> validated_catalog \<Rightarrow> candidate_policy \<Rightarrow>
     (diagnostic list, capability_lock) result" where
  "lock_package X V package catalog policy =
     and_then (package_requested_features package) (\<lambda>features.
     and_then (select_capabilities_with_warnings V (am_capabilities (ag_manifest package)) catalog policy)
       (\<lambda>selection.
     let lock = unsigned_lock package catalog features (so_selected selection) in
     map_ok (\<lambda>d. lock\<lparr>lk_lock_digest := d\<rparr>) (map_err (\<lambda>e. [e]) (lock_digest X lock))))"

section \<open>Verifying a lock\<close>

definition verify_locked_capability :: "externals \<Rightarrow> locked_capability \<Rightarrow> diagnostic list" where
  "verify_locked_capability X c =
     (if lc_identity c \<noteq> cd_identity (lc_descriptor c)
         \<or> lc_descriptor_digest c \<noteq> cd_descriptor_digest (lc_descriptor c)
      then [tampered ''locked capability descriptor identity or digest does not match'']
      else case validate_descriptor X (lc_descriptor c) of
          Inr d \<Rightarrow>
            if va_input_schema_digest d = lc_input_schema_digest c
               \<and> va_output_schema_digest d = lc_output_schema_digest c
               \<and> va_stable_error_set_digest d = lc_stable_error_set_digest c
               \<and> va_safety_metadata_digest d = lc_safety_metadata_digest c
            then [] else [tampered ''locked capability descriptor part digest does not match'']
        | Inl _ \<Rightarrow> [tampered ''locked capability descriptor bundle is invalid''])"

fun verify_capability_order :: "locked_capability list \<Rightarrow> diagnostic list" where
  "verify_capability_order (a # b # rest) =
     (if lc_identity a < lc_identity b then []
      else if lc_identity a = lc_identity b then [tampered ''locked capabilities contain duplicate identity'']
      else [tampered ''locked capabilities are not sorted by identity''])
     @ verify_capability_order (b # rest)"
| "verify_capability_order _ = []"

definition verify_locked_current :: "validated_catalog \<Rightarrow> locked_capability \<Rightarrow> diagnostic list" where
  "verify_locked_current catalog locked =
     (case find (\<lambda>d. va_identity d = lc_identity locked) (vc_descriptors catalog) of
        None \<Rightarrow> [stale ''locked capability version is absent from capability catalog'']
      | Some current \<Rightarrow>
          if va_descriptor current \<noteq> lc_descriptor locked
             \<or> cd_descriptor_digest (va_descriptor current) \<noteq> lc_descriptor_digest locked
             \<or> va_input_schema_digest current \<noteq> lc_input_schema_digest locked
             \<or> va_output_schema_digest current \<noteq> lc_output_schema_digest locked
             \<or> va_stable_error_set_digest current \<noteq> lc_stable_error_set_digest locked
             \<or> va_safety_metadata_digest current \<noteq> lc_safety_metadata_digest locked
          then [tampered ''capability catalog descriptor does not match locked descriptor''] else [])"

definition diagnose :: "bool \<Rightarrow> diagnostic \<Rightarrow> diagnostic list" where
  "diagnose bad d = (if bad then [d] else [])"

definition verify_catalog :: "capability_lock \<Rightarrow> validated_catalog \<Rightarrow> diagnostic list" where
  "verify_catalog l catalog =
     (let identity = cc_identity (vc_catalog catalog) in
      diagnose (cat_name identity \<noteq> lk_catalog_identity l)
        (stale ''capability catalog identity does not match capability lock'')
      @ diagnose (cat_revision identity \<noteq> lk_catalog_revision l)
          (stale ''capability catalog revision does not match capability lock'')
      @ concat (map (verify_locked_current catalog) (lk_capabilities l))
      @ diagnose (cc_catalog_digest (vc_catalog catalog) \<noteq> lk_catalog_digest l)
          (stale ''capability catalog digest does not match capability lock''))"

definition lock_sort_key ::
  "diagnostic \<Rightarrow> diagnostic_stage \<times> string option \<times> (32 word \<times> 32 word) option \<times> string \<times> string" where
  "lock_sort_key d =
     (d_stage d, d_package_path d, map_option (\<lambda>r. (sr_start r, sr_end r)) (d_source_range d),
      code_str (d_code d), d_message d)"

definition sort_diagnostics :: "diagnostic list \<Rightarrow> diagnostic list" where
  "sort_diagnostics = sort_key lock_sort_key"

definition verify_features :: "agent_package \<Rightarrow> capability_lock \<Rightarrow> diagnostic list" where
  "verify_features package l =
     (case package_requested_features package of
        Inr features \<Rightarrow> diagnose (lk_resolved_features l \<noteq> features)
          (stale ''package requested features do not match capability lock'')
      | Inl errors \<Rightarrow> errors)"

definition verify_digest :: "externals \<Rightarrow> capability_lock \<Rightarrow> diagnostic list" where
  "verify_digest X l =
     (case lock_digest X l of
        Inr d \<Rightarrow> diagnose (d \<noteq> lk_lock_digest l)
          (tampered ''capability lock digest does not match lock contents'')
      | Inl e \<Rightarrow> [e])"

definition verify_capabilities :: "externals \<Rightarrow> capability_lock \<Rightarrow> diagnostic list" where
  "verify_capabilities X l =
     concat (map (verify_locked_capability X) (lk_capabilities l)) @ verify_capability_order (lk_capabilities l)"

definition verify_lock ::
  "externals \<Rightarrow> agent_package \<Rightarrow> capability_lock \<Rightarrow> validated_catalog option \<Rightarrow>
     (diagnostic list, unit) result" where
  "verify_lock X package l catalog =
     (let diagnostics =
        diagnose (lk_package_portable_digest l \<noteq> ag_portable_digest package)
          (stale ''package portable digest does not match capability lock'')
        @ diagnose (lk_schema_version l \<noteq> LockV1Alpha1)
            (stale ''capability lock schema version is unsupported'')
        @ diagnose (lk_resolver_version l \<noteq> resolver_version)
            (stale ''capability lock resolver version is unsupported'')
        @ verify_features package l
        @ verify_digest X l
        @ verify_capabilities X l
        @ (case catalog of None \<Rightarrow> [] | Some c \<Rightarrow> verify_catalog l c) in
      if diagnostics = [] then Inr () else Inl (sort_diagnostics diagnostics))"

definition verify_lock_contents :: "externals \<Rightarrow> capability_lock \<Rightarrow> (diagnostic, unit) result" where
  "verify_lock_contents X l =
     and_then (ensure (lk_schema_version l = LockV1Alpha1)
       (stale ''capability lock schema version is unsupported'')) (\<lambda>_.
     and_then (ensure (lk_resolver_version l = resolver_version)
       (stale ''capability lock resolver version is unsupported'')) (\<lambda>_.
     and_then (lock_digest X l) (\<lambda>d.
     and_then (ensure (d = lk_lock_digest l)
       (tampered ''capability lock digest does not match lock contents'')) (\<lambda>_.
     case sort_diagnostics (verify_capabilities X l) of
       [] \<Rightarrow> Inr ()
     | first # _ \<Rightarrow> Inl first))))"

section \<open>Writing a lock\<close>

text \<open>
  A directory is a map from file names to bytes. The write goes through a temporary file with a
  name of its own; \<open>lock_faults\<close> says which call of the file system fails, a write after how many
  bytes. The result comes with every state the directory passes through, any of which a
  crash may leave behind. A temporary file that is not renamed is removed when it is dropped.
\<close>

type_synonym directory = "string \<rightharpoonup> string"

record lock_faults =
  lf_create :: bool
  lf_write :: "nat option"
  lf_sync :: bool
  lf_persist :: bool
  lf_sync_parent :: bool

definition lock_io_diagnostic :: diagnostic where
  "lock_io_diagnostic =
     diagnostic_error LockStale CatLock StageLock ''capability lock could not be written atomically''"

definition lock_canonical_json :: "externals \<Rightarrow> capability_lock \<Rightarrow> (diagnostic, string) result" where
  "lock_canonical_json X l =
     ok_or (tampered ''capability lock cannot be serialized canonically'') (x_canonical X (lock_json l))"

definition partial_writes :: "directory \<Rightarrow> string \<Rightarrow> string \<Rightarrow> nat \<Rightarrow> directory list" where
  "partial_writes dir temporary bytes n = map (\<lambda>k. dir(temporary \<mapsto> take k bytes)) [0..<Suc n]"

definition persist_lock ::
  "lock_faults \<Rightarrow> directory \<Rightarrow> string \<Rightarrow> string \<Rightarrow> string \<Rightarrow> directory list \<times> (diagnostic, unit) result" where
  "persist_lock faults dir temporary path bytes =
     (if lf_create faults then ([dir], Inl lock_io_diagnostic)
      else case lf_write faults of
          Some n \<Rightarrow> (dir # partial_writes dir temporary bytes n @ [dir], Inl lock_io_diagnostic)
        | None \<Rightarrow>
            let written = dir # partial_writes dir temporary bytes (length bytes) in
            if lf_sync faults \<or> lf_persist faults then (written @ [dir], Inl lock_io_diagnostic)
            else (written @ [dir(path \<mapsto> bytes)],
                  if lf_sync_parent faults then Inl lock_io_diagnostic else Inr ()))"

definition write_lock_atomic ::
  "externals \<Rightarrow> lock_faults \<Rightarrow> bool \<Rightarrow> directory \<Rightarrow> string \<Rightarrow> string \<Rightarrow> capability_lock \<Rightarrow>
     directory list \<times> (diagnostic, unit) result" where
  "write_lock_atomic X faults has_parent dir temporary path l =
     (case and_then (ensure has_parent lock_io_diagnostic) (\<lambda>_.
           and_then (verify_lock_contents X l) (\<lambda>_. lock_canonical_json X l)) of
        Inl e \<Rightarrow> ([dir], Inl e)
      | Inr bytes \<Rightarrow> persist_lock faults dir temporary path bytes)"

section \<open>What a lock holds\<close>

lemma validated_descriptor_of: "validate_descriptor X raw = Inr d \<Longrightarrow> va_descriptor d = raw"
  by (auto simp: validate_descriptor_def Let_def)

lemma validated_catalog_descriptors:
  assumes "validate_catalog X parsed = Inr catalog"
  shows "map va_descriptor (vc_descriptors catalog) = cc_descriptors (vc_catalog catalog)"
    and "\<forall>d \<in> set (vc_descriptors catalog). validate_descriptor X (va_descriptor d) = Inr d"
    and "distinct (map va_identity (vc_descriptors catalog))"
proof -
  obtain raw where read: "catalog_deserialize X raw = Inr (vc_catalog catalog)"
    and all: "list_all2 (\<lambda>x y. validate_descriptor X x = Inr y) (cc_descriptors (vc_catalog catalog))
        (vc_descriptors catalog)"
    using assms by (auto simp: validate_catalog_def try_map_Inr_iff)
  from all show same: "map va_descriptor (vc_descriptors catalog) = cc_descriptors (vc_catalog catalog)"
    by (induction rule: list_all2_induct) (auto dest: validated_descriptor_of)
  from all show "\<forall>d \<in> set (vc_descriptors catalog). validate_descriptor X (va_descriptor d) = Inr d"
    by (induction rule: list_all2_induct) (auto dest: validated_descriptor_of)
  from read have "distinct (map cd_identity (cc_descriptors (vc_catalog catalog)))"
    by (auto simp: catalog_deserialize_def catalog_try_new_def Let_def adjacent_equal_sort_key
        split: if_splits)
  then show "distinct (map va_identity (vc_descriptors catalog))"
    unfolding same [symmetric] by (simp add: comp_def)
qed

lemma lock_digest_own [simp]: "lock_digest X (l\<lparr>lk_lock_digest := d\<rparr>) = lock_digest X l"
  by (simp add: lock_digest_def lock_material_def lock_entries_def)

lemma diagnose_Nil [simp]: "diagnose bad d = [] \<longleftrightarrow> \<not> bad"
  by (simp add: diagnose_def)

lemma locked_of_verifies:
  "validate_descriptor X (va_descriptor d) = Inr d \<Longrightarrow> verify_locked_capability X (locked_of d) = []"
  by (simp add: verify_locked_capability_def locked_of_def)

lemma find_distinct:
  "distinct (map f xs) \<Longrightarrow> x \<in> set xs \<Longrightarrow> find (\<lambda>y. f y = f x) xs = Some x"
  by (induction xs) auto

lemma locked_of_current:
  assumes "distinct (map va_identity (vc_descriptors catalog))" "d \<in> set (vc_descriptors catalog)"
  shows "verify_locked_current catalog (locked_of d) = []"
  using find_distinct [OF assms] by (simp add: verify_locked_current_def locked_of_def)

lemma sort_diagnostics_Nil: "sort_diagnostics ds = [] \<longleftrightarrow> ds = []"
  by (metis sort_diagnostics_def length_0_conv length_sort)

lemma verify_order_Nil:
  "verify_capability_order xs = [] \<longleftrightarrow> strictly_sorted_by lc_identity xs"
  by (induction xs rule: verify_capability_order.induct) auto

lemma verify_order_sorted:
  "sorted (map lc_identity xs) \<Longrightarrow>
   set (verify_capability_order xs) \<subseteq> {tampered ''locked capabilities contain duplicate identity''}"
  by (induction xs rule: verify_capability_order.induct) auto

lemma selected_descriptors_known:
  assumes "select_capabilities_with_warnings V requirements catalog policy = Inr selection"
    and "s \<in> set (so_selected selection)"
  shows "se_descriptor s \<in> set (vc_descriptors catalog)"
  using selection_outcome_exact [OF assms(1)] assms(2) by (auto simp: newest_match_def candidate_for_def)

lemma lock_packageD:
  assumes "lock_package X V package catalog policy = Inr lock"
  obtains features selection d where
    "package_requested_features package = Inr features"
    "select_capabilities_with_warnings V (am_capabilities (ag_manifest package)) catalog policy = Inr selection"
    "lock = (unsigned_lock package catalog features (so_selected selection))\<lparr>lk_lock_digest := d\<rparr>"
    "lock_digest X lock = Inr d"
  using assms by (auto simp: lock_package_def Let_def)

lemma locked_from_catalog:
  assumes "lock_package X V package catalog policy = Inr lock" "c \<in> set (lk_capabilities lock)"
  shows "\<exists>d \<in> set (vc_descriptors catalog). c = locked_of d"
  using assms(1)
  by (rule lock_packageD) (use assms(2) in \<open>auto simp: unsigned_lock_def dest: selected_descriptors_known\<close>)

lemma produced_capabilities:
  assumes catalog: "validate_catalog X parsed = Inr catalog"
    and lock: "lock_package X V package catalog policy = Inr lock"
  shows "verify_capabilities X lock = verify_capability_order (lk_capabilities lock)"
proof -
  have "verify_locked_capability X c = []" if "c \<in> set (lk_capabilities lock)" for c
    using locked_from_catalog [OF lock that] validated_catalog_descriptors(2) [OF catalog] locked_of_verifies
    by auto
  then have "concat (map (verify_locked_capability X) (lk_capabilities lock)) = []" by simp
  then show ?thesis by (simp only: verify_capabilities_def append_Nil)
qed

lemma produced_current:
  assumes catalog: "validate_catalog X parsed = Inr catalog"
    and lock: "lock_package X V package catalog policy = Inr lock"
  shows "verify_catalog lock catalog = []"
proof -
  have "verify_locked_current catalog c = []" if "c \<in> set (lk_capabilities lock)" for c
    using locked_from_catalog [OF lock that] locked_of_current [OF validated_catalog_descriptors(3) [OF catalog]]
    by auto
  moreover have "lk_catalog_identity lock = cat_name (cc_identity (vc_catalog catalog))"
      "lk_catalog_revision lock = cat_revision (cc_identity (vc_catalog catalog))"
      "lk_catalog_digest lock = cc_catalog_digest (vc_catalog catalog)"
    using lock by (auto elim!: lock_packageD simp: unsigned_lock_def)
  ultimately show ?thesis by (simp add: verify_catalog_def Let_def)
qed

text \<open>
  Everything \<open>verify_lock\<close> checks of a lock that \<open>lock_package\<close> produced holds, except that the
  identities may repeat.
\<close>

lemma verify_lock_produced:
  assumes catalog: "validate_catalog X parsed = Inr catalog"
    and lock: "lock_package X V package catalog policy = Inr lock"
    and at_hand: "at_hand = None \<or> at_hand = Some catalog"
  shows "verify_lock X package lock at_hand =
     (let ds = verify_capability_order (lk_capabilities lock) in
      if ds = [] then Inr () else Inl (sort_diagnostics ds))"
    and "verify_lock_contents X lock =
     (case sort_diagnostics (verify_capability_order (lk_capabilities lock)) of
        [] \<Rightarrow> Inr () | first # _ \<Rightarrow> Inl first)"
proof -
  obtain features selection d where parts: "package_requested_features package = Inr features"
      "select_capabilities_with_warnings V (am_capabilities (ag_manifest package)) catalog policy = Inr selection"
      "lock = (unsigned_lock package catalog features (so_selected selection))\<lparr>lk_lock_digest := d\<rparr>"
      "lock_digest X lock = Inr d"
    using lock by (rule lock_packageD)
  have fields: "lk_package_portable_digest lock = ag_portable_digest package"
      "lk_schema_version lock = LockV1Alpha1" "lk_resolver_version lock = resolver_version"
      "lk_resolved_features lock = features" "lk_lock_digest lock = d"
    by (simp_all add: parts(3) unsigned_lock_def)
  note facts = fields parts(1,4) produced_capabilities [OF catalog lock] produced_current [OF catalog lock]
  show "verify_lock X package lock at_hand =
     (let ds = verify_capability_order (lk_capabilities lock) in
      if ds = [] then Inr () else Inl (sort_diagnostics ds))"
    using at_hand by (auto simp: verify_lock_def verify_features_def verify_digest_def facts diagnose_def)
  show "verify_lock_contents X lock =
     (case sort_diagnostics (verify_capability_order (lk_capabilities lock)) of
        [] \<Rightarrow> Inr () | first # _ \<Rightarrow> Inl first)"
    by (simp add: verify_lock_contents_def facts)
qed

lemma lock_produced_sorted:
  "lock_package X V package catalog policy = Inr lock \<Longrightarrow> sorted (map lc_identity (lk_capabilities lock))"
  by (erule lock_packageD) (simp add: unsigned_lock_def)

lemma lock_identities_distinct:
  assumes "lock_package X V package catalog policy = Inr lock"
    and "distinct (map cr_name (remdups (am_capabilities (ag_manifest package))))"
  shows "distinct (map lc_identity (lk_capabilities lock))"
  using assms(1)
proof (rule lock_packageD)
  fix features selection d
  assume sel: "select_capabilities_with_warnings V (am_capabilities (ag_manifest package)) catalog policy = Inr selection"
    and lock: "lock = (unsigned_lock package catalog features (so_selected selection))\<lparr>lk_lock_digest := d\<rparr>"
  note exact = selection_outcome_exact [OF sel]
  have inj: "inj_on cr_name (set (am_capabilities (ag_manifest package)))"
    using assms(2) by (simp add: distinct_map)
  have "inj_on (lc_identity \<circ> (locked_of \<circ> se_descriptor)) (set (so_selected selection))"
  proof (rule inj_onI)
    fix s t assume *: "s \<in> set (so_selected selection)" "t \<in> set (so_selected selection)"
      "(lc_identity \<circ> (locked_of \<circ> se_descriptor)) s = (lc_identity \<circ> (locked_of \<circ> se_descriptor)) t"
    then have "ci_name (va_identity (se_descriptor s)) = cr_name (se_requirement s)"
        "ci_name (va_identity (se_descriptor t)) = cr_name (se_requirement t)"
      using exact by (auto simp: newest_match_def candidate_for_def)
    with * have "cr_name (se_requirement s) = cr_name (se_requirement t)" by (simp add: locked_of_def)
    moreover have "se_requirement s \<in> set (am_capabilities (ag_manifest package))"
        "se_requirement t \<in> set (am_capabilities (ag_manifest package))" using exact * by auto
    ultimately have "se_requirement s = se_requirement t" using inj by (simp add: inj_on_def)
    then show "s = t" using exact * by (auto simp: distinct_map inj_on_def)
  qed
  moreover have "distinct (so_selected selection)" using exact by (simp add: distinct_map)
  ultimately have "distinct (map (lc_identity \<circ> (locked_of \<circ> se_descriptor)) (so_selected selection))"
    unfolding distinct_map by simp
  then show ?thesis by (simp add: lock unsigned_lock_def comp_assoc)
qed



section \<open>Samples\<close>

definition sample_manifest :: "capability_requirement list \<Rightarrow> agent_manifest" where
  "sample_manifest needs = \<lparr>am_metadata = PackageIdentity ''helper'' ''1.0.0'', am_prompt = ''prompt.md'',
     am_skills = [], am_models = [], am_capabilities = needs, am_delegation = [], am_required_features = [],
     am_optional_features = [], am_capture_allowed = False, am_capture_classifications = {}\<rparr>"

definition sample_package :: "capability_requirement list \<Rightarrow> agent_package" where
  "sample_package needs = AgentPackage ''agent'' (sample_manifest needs) [] [] [] sample_digest"

lemma sample_catalog_validated:
  "validate_catalog sample_externals (Some sample_capability_catalog) = Inr sample_validated"
proof -
  have "validate_descriptor sample_externals sample_descriptor = Inr sample_validated_descriptor"
    by (simp add: validate_descriptor_def Let_def schema_compiles_def digest_part_def wire_field_def
        safety_metadata_def safety_metadata_fields_def descriptor_json_def descriptor_wire_def add_entry_def
        json_get_def sample_externals_def sample_validated_descriptor_def)
  moreover have "catalog_deserialize sample_externals sample_capability_catalog = Inr sample_capability_catalog"
    using sample_catalog_built sample_descriptor_built
    by (simp add: catalog_deserialize_def sample_capability_catalog_def descriptor_deserialize_def
        sample_descriptor_def [symmetric])
  ultimately show ?thesis
    by (simp add: validate_catalog_def sample_validated_def sample_capability_catalog_def)
qed

lemma sample_lock_made:
  "\<exists>lock. lock_package sample_externals sample_semver (sample_package [sample_need a, sample_need b])
     sample_validated PolicyAllowAll = Inr lock"
  using sample_selection_ok [of a b]
  by (auto simp: is_ok_iff lock_package_def sample_package_def sample_manifest_def
      package_requested_features_def lock_digest_def sample_externals_def Let_def)

lemma sample_lock_repeats:
  assumes lock: "lock_package sample_externals sample_semver (sample_package [sample_need a, sample_need b])
      sample_validated PolicyAllowAll = Inr lock"
    and "a \<noteq> b"
  shows "\<not> distinct (map lc_identity (lk_capabilities lock))"
  using lock
proof (rule lock_packageD)
  fix features selection d
  assume sel: "select_capabilities_with_warnings sample_semver
      (am_capabilities (ag_manifest (sample_package [sample_need a, sample_need b]))) sample_validated
      PolicyAllowAll = Inr selection"
    and l: "lock = (unsigned_lock (sample_package [sample_need a, sample_need b]) sample_validated features
      (so_selected selection))\<lparr>lk_lock_digest := d\<rparr>"
  note exact = selection_outcome_exact [OF sel]
  have "sample_need x \<in> se_requirement ` set (so_selected selection)" if "x \<in> {a, b}" for x
  proof (rule exact [THEN conjunct2, THEN conjunct2, THEN conjunct1, THEN bspec, THEN mp])
    show "sample_need x \<in> set (am_capabilities (ag_manifest (sample_package [sample_need a, sample_need b])))"
      using that by (auto simp: sample_package_def sample_manifest_def)
  qed (intro exI, rule sample_candidate)
  note chosen = this
  obtain s where s: "s \<in> set (so_selected selection)" "se_requirement s = sample_need a"
    using chosen [of a] by fastforce
  obtain t where t: "t \<in> set (so_selected selection)" "se_requirement t = sample_need b"
    using chosen [of b] by fastforce
  from s(2) t(2) have "s \<noteq> t" using \<open>a \<noteq> b\<close> by (auto simp: sample_need_def)
  moreover have "se_descriptor s = se_descriptor t"
    using selected_descriptors_known [OF sel s(1)] selected_descriptors_known [OF sel t(1)]
    by (simp add: sample_validated_def)
  ultimately show ?thesis
    using s(1) t(1) by (auto simp: l unsigned_lock_def distinct_map inj_on_def)
qed



end
