(* ===== verification/KF_Resolve.thy ===== *)
theory KF_Resolve
  imports KF_Lock KF_Audit
begin

text \<open>
  The resolved agent of \<open>kiteframe-contract/src/ir.rs\<close>, its normal form and its digest, and
  \<open>kiteframe-resolver/src/resolve.rs\<close>, which builds it: a package and its nested agents against
  their locks, a runtime binding, a target and a component catalog.
\<close>

section \<open>Reports\<close>

datatype compilation_decision = CompilationDecision (de_subject: string) (de_outcome: string)

instantiation compilation_decision :: linorder
begin
definition less_eq_compilation_decision :: "compilation_decision \<Rightarrow> compilation_decision \<Rightarrow> bool" where
  "less_eq_compilation_decision a b = ((de_subject a, de_outcome a) \<le> (de_subject b, de_outcome b))"
definition less_compilation_decision :: "compilation_decision \<Rightarrow> compilation_decision \<Rightarrow> bool" where
  "less_compilation_decision a b = ((de_subject a, de_outcome a) < (de_subject b, de_outcome b))"
instance
  by standard
     (auto simp: less_eq_compilation_decision_def less_compilation_decision_def
       intro: compilation_decision.expand)
end

lemma one_classification: "(a :: data_classification) = b"
  by (cases a; cases b) simp

lemma classification_in: "(c :: data_classification) \<in> cs \<Longrightarrow> Confidential \<in> cs"
  using one_classification [of c Confidential] by simp

instantiation data_classification :: linorder
begin
definition less_eq_data_classification :: "data_classification \<Rightarrow> data_classification \<Rightarrow> bool" where
  "less_eq_data_classification a b = True"
definition less_data_classification :: "data_classification \<Rightarrow> data_classification \<Rightarrow> bool" where
  "less_data_classification a b = False"
instance
  by standard
     (simp_all add: less_eq_data_classification_def less_data_classification_def one_classification)
end

record compilation_report =
  rp_warnings :: "compilation_warning list"
  rp_decisions :: "compilation_decision list"

definition normalized :: "compilation_report \<Rightarrow> compilation_report" where
  "normalized r = \<lparr>rp_warnings = sort_dedup (rp_warnings r), rp_decisions = sort_dedup (rp_decisions r)\<rparr>"

definition report_json :: "compilation_report \<Rightarrow> json" where
  "report_json r = JObj
     [(''warnings'', JArr (map (\<lambda>w. JObj [(''code'', JStr (cw_code w)), (''message'', JStr (cw_message w))])
         (rp_warnings r))),
      (''decisions'', JArr (map (\<lambda>d. JObj [(''subject'', JStr (de_subject d)), (''outcome'', JStr (de_outcome d))])
         (rp_decisions r)))]"

section \<open>Resolved agents\<close>

record resolved_subagent =
  rs_package_identity :: package_identity
  rs_delegation :: delegation_requirement
  rs_resolved_digest :: sha256_digest

record resolved_capture =
  rc_allowed :: bool
  rc_classifications :: "data_classification list"

record resolved_parts =
  ra_package_identity :: package_identity
  ra_portable_digest :: sha256_digest
  ra_lock_digest :: sha256_digest
  ra_catalog_identity :: catalog_identity
  ra_catalog_digest :: sha256_digest
  ra_binding_digest :: sha256_digest
  ra_prompts :: "(string \<times> text_asset) list"
  ra_skills :: "(string \<times> text_asset) list"
  ra_models :: "(string \<times> resolved_model) list"
  ra_capability_requirements :: "resolved_requirement list"
  ra_subagents :: "resolved_subagent list"
  ra_required_features :: "string list"
  ra_optional_features :: "string list"
  ra_content_capture :: resolved_capture
  ra_compilation_report :: compilation_report

record resolved_agent = resolved_parts +
  ra_resolved_digest :: sha256_digest

definition assets_json :: "(string \<times> text_asset) list \<Rightarrow> json" where
  "assets_json assets = JObj (map (\<lambda>(path, a).
     (path, JObj [(''path'', JStr (ta_path a)), (''text'', JStr (ta_text a))])) assets)"

definition resolved_model_json :: "resolved_model \<Rightarrow> json" where
  "resolved_model_json m = JObj
     [(''requirement'', model_requirement_json (rm_requirement m)), (''symbol'', JStr (rm_symbol m))]"

definition subagent_json :: "resolved_subagent \<Rightarrow> json" where
  "subagent_json s = JObj
     [(''packageIdentity'', identity_wire (rs_package_identity s)),
      (''delegation'', delegation_requirement_json (rs_delegation s)),
      (''resolvedDigest'', digest_json (rs_resolved_digest s))]"

definition resolved_capture_json :: "resolved_capture \<Rightarrow> json" where
  "resolved_capture_json c = JObj
     [(''allowed'', JBool (rc_allowed c)),
      (''classifications'', JArr (map (\<lambda>_. JStr ''confidential'') (rc_classifications c)))]"

definition canonical_component :: "externals \<Rightarrow> string \<Rightarrow> json \<Rightarrow> (string, sha256_digest) result" where
  "canonical_component X domain v =
     map_ok (\<lambda>bytes. hash_domain X domain [bytes])
       (ok_or ''resolved component cannot be canonicalized'' (x_canonical X v))"

definition resolved_components ::
  "externals \<Rightarrow> resolved_parts \<Rightarrow> (string, sha256_digest) result list" where
  "resolved_components X p =
     [canonical_component X ''resolved/identity''
        (JArr [JStr ''kiteframe.dev/ir/v1alpha1'', identity_wire (ra_package_identity p)]),
      Inr (hash_domain X ''resolved/portable'' [digest_text (ra_portable_digest p)]),
      Inr (hash_domain X ''resolved/lock'' [digest_text (ra_lock_digest p)]),
      canonical_component X ''resolved/catalog''
        (JArr [catalog_identity_json (ra_catalog_identity p), digest_json (ra_catalog_digest p)]),
      Inr (hash_domain X ''resolved/binding'' [digest_text (ra_binding_digest p)]),
      canonical_component X ''resolved/prompts'' (assets_json (ra_prompts p)),
      canonical_component X ''resolved/skills'' (assets_json (ra_skills p)),
      canonical_component X ''resolved/features''
        (JArr [JArr (map JStr (ra_required_features p)), JArr (map JStr (ra_optional_features p))]),
      canonical_component X ''resolved/models''
        (JObj (map (\<lambda>(role, m). (role, resolved_model_json m)) (ra_models p))),
      canonical_component X ''resolved/capabilities''
        (JArr (map resolved_requirement_json (ra_capability_requirements p))),
      canonical_component X ''resolved/children'' (JArr (map subagent_json (ra_subagents p))),
      canonical_component X ''resolved/content-capture'' (resolved_capture_json (ra_content_capture p)),
      canonical_component X ''resolved/report'' (report_json (ra_compilation_report p))]"

definition resolved_digest :: "externals \<Rightarrow> resolved_parts \<Rightarrow> (string, sha256_digest) result" where
  "resolved_digest X p =
     map_ok (\<lambda>components. hash_domain X ''resolved-agent'' (map digest_text components))
       (try_map (\<lambda>c. c) (resolved_components X p))"

definition resolved_requirement_key ::
  "resolved_requirement \<Rightarrow> capability_identity \<times> string list \<times> bool" where
  "resolved_requirement_key r = (rr_identity r, rr_resources r, rr_required r)"

definition normal_parts :: "resolved_parts \<Rightarrow> resolved_parts" where
  "normal_parts p = p\<lparr>
     ra_capability_requirements :=
       remdups_adj (sort_key resolved_requirement_key (ra_capability_requirements p)),
     ra_subagents := sort_key rs_package_identity (ra_subagents p),
     ra_content_capture := (ra_content_capture p)
       \<lparr>rc_classifications := sort_dedup (rc_classifications (ra_content_capture p))\<rparr>,
     ra_compilation_report := normalized (ra_compilation_report p)\<rparr>"

definition resolved_agent_try_new :: "externals \<Rightarrow> resolved_parts \<Rightarrow> (string, resolved_agent) result" where
  "resolved_agent_try_new X p =
     (let n = normal_parts p in
      if adjacent_equal rs_package_identity (ra_subagents n)
      then Inl ''resolved subagent identities must be unique''
      else map_ok (\<lambda>d. resolved_parts.extend n \<lparr>ra_resolved_digest = d\<rparr>) (resolved_digest X n))"

definition resolved_agent_deserialize :: "externals \<Rightarrow> resolved_agent \<Rightarrow> (string, resolved_agent) result" where
  "resolved_agent_deserialize X raw =
     and_then (try_map (resolved_requirement_read X) (ra_capability_requirements raw)) (\<lambda>requirements.
     and_then (resolved_agent_try_new X
        (resolved_parts.truncate raw\<lparr>ra_capability_requirements := requirements\<rparr>)) (\<lambda>a.
     if ra_resolved_digest a \<noteq> ra_resolved_digest raw
     then Inl ''resolved digest does not match canonical IR'' else Inr a))"

section \<open>Inputs\<close>

record resolution_input =
  ri_package :: agent_package
  ri_lock :: capability_lock
  ri_child_locks :: "(package_identity \<times> capability_lock) list"
  ri_binding :: runtime_binding
  ri_target :: runtime_target
  ri_components :: component_catalog

definition resolve_package_invalid :: "string \<Rightarrow> diagnostic" where
  "resolve_package_invalid message = diagnostic_error PackageInvalid CatPackage StageResolve message"

definition lock_stale :: "string \<Rightarrow> diagnostic" where
  "lock_stale message = diagnostic_error LockStale CatLock StageResolve message"

abbreviation ag_identity :: "agent_package \<Rightarrow> package_identity" where
  "ag_identity p \<equiv> am_metadata (ag_manifest p)"

definition kind_diagnostics ::
  "component_catalog \<Rightarrow> (string \<times> component_kind) list \<Rightarrow> diagnostic list" where
  "kind_diagnostics components expected =
     concat (map (\<lambda>(symbol, kind). case require_component_kind components symbol kind of
       Inl e \<Rightarrow> [e] | Inr _ \<Rightarrow> []) expected)"

definition named_component :: "string option \<Rightarrow> component_kind \<Rightarrow> (string \<times> component_kind) list" where
  "named_component symbol kind = (case symbol of None \<Rightarrow> [] | Some s \<Rightarrow> [(s, kind)])"

definition bound_components :: "runtime_binding \<Rightarrow> (string \<times> component_kind) list" where
  "bound_components b =
     map (\<lambda>symbol. (symbol, KindMiddleware)) (rb_middleware b)
     @ named_component (rb_backend b) KindBackend
     @ named_component (rb_checkpointer b) KindCheckpointer
     @ named_component (rb_authority_provider b) KindAuthorityProvider
     @ named_component (rb_admitted_tool_registry b) KindAdmittedToolRegistry
     @ named_component (rb_harness_profile b) KindHarnessProfile
     @ [(rb_capability_provider b, KindCapabilityProvider), (rb_audit_sink b, KindAuditSink)]"

definition validate_runtime_inputs ::
  "runtime_binding \<Rightarrow> runtime_target \<Rightarrow> component_catalog \<Rightarrow> (diagnostic list, unit) result" where
  "validate_runtime_inputs binding target components =
     (if rb_runtime binding \<noteq> rt_target target \<or> co_target components \<noteq> rt_target target
      then Inl [component_unresolved
        ''binding, runtime target, and component catalog target must match exactly'']
      else
        let diagnostics = sort_key diagnostic_key (kind_diagnostics components (bound_components binding)) in
        if diagnostics = [] then Inr () else Inl diagnostics)"

section \<open>Resolving one package\<close>

definition capture_components :: "capture_policy \<Rightarrow> (string \<times> component_kind) list" where
  "capture_components p =
     [(bp_redaction_policy p, KindRedactionPolicy), (bp_retention_policy p, KindRetentionPolicy),
      (bp_access_policy p, KindAccessPolicy), (bp_encrypted_content_store p, KindEncryptedContentStore)]"

definition resolve_content_capture ::
  "agent_package \<Rightarrow> runtime_binding \<Rightarrow> component_catalog \<Rightarrow> (diagnostic list, resolved_capture) result" where
  "resolve_content_capture package binding components =
     (case (case rb_content_capture binding of Some p \<Rightarrow> if bp_enabled p then Some p else None | None \<Rightarrow> None) of
        None \<Rightarrow> Inr \<lparr>rc_allowed = False, rc_classifications = []\<rparr>
      | Some deployment \<Rightarrow>
          if \<not> am_capture_allowed (ag_manifest package)
          then Inl [resolve_package_invalid
            ''runtime binding cannot enable content capture disallowed by the package'']
          else if \<not> bp_classifications deployment \<subseteq> am_capture_classifications (ag_manifest package)
          then Inl [resolve_package_invalid
            ''runtime binding cannot broaden package content-capture classifications'']
          else
            let diagnostics = kind_diagnostics components (capture_components deployment) in
            if diagnostics \<noteq> [] then Inl (sort_key diagnostic_key diagnostics)
            else Inr \<lparr>rc_allowed = True,
              rc_classifications = (if Confidential \<in> bp_classifications deployment then [Confidential] else [])\<rparr>)"

definition locked_matches :: "'v semver \<Rightarrow> capability_requirement \<Rightarrow> locked_capability \<Rightarrow> bool" where
  "locked_matches V r c =
     (ci_name (lc_identity c) = cr_name r
      \<and> (case sv_version V (ci_version (lc_identity c)) of
           None \<Rightarrow> False
         | Some version \<Rightarrow> sv_matches V (cr_version r) version))"

record capability_resolution =
  ca_resolved :: "resolved_requirement list"
  ca_warnings :: "compilation_warning list"
  ca_matched :: "capability_identity list"

definition capability_step ::
  "'v semver \<Rightarrow> capability_lock \<Rightarrow> capability_resolution \<Rightarrow> capability_requirement \<Rightarrow>
     (diagnostic list, capability_resolution) result" where
  "capability_step V lock s r =
     (if \<not> sv_req_ok V (cr_version r)
      then Inl [resolve_package_invalid ''capability requirement version is invalid'']
      else case find (locked_matches V r) (lk_capabilities lock) of
          Some c \<Rightarrow>
            map_ok (\<lambda>resolved. s\<lparr>ca_resolved := ca_resolved s @ [resolved],
                ca_matched := lc_identity c # ca_matched s\<rparr>)
              (map_err (\<lambda>m. [resolve_package_invalid m])
                (resolved_requirement_try_new c (cr_required r) (cr_resources r)))
        | None \<Rightarrow>
            if cr_required r
            then Inl [lock_stale (''required capability '' @ cr_name r @ '' is absent from exact lock'')]
            else Inr (s\<lparr>ca_warnings := ca_warnings s @ [optional_miss_warning r]\<rparr>))"

definition resolve_capabilities ::
  "'v semver \<Rightarrow> agent_package \<Rightarrow> capability_lock \<Rightarrow>
     (diagnostic list, resolved_requirement list \<times> compilation_warning list) result" where
  "resolve_capabilities V package lock =
     and_then (try_fold (capability_step V lock) (am_capabilities (ag_manifest package))
        \<lparr>ca_resolved = [], ca_warnings = [], ca_matched = []\<rparr>) (\<lambda>s.
     if \<exists>c \<in> set (lk_capabilities lock). lc_identity c \<notin> set (ca_matched s)
     then Inl [lock_stale ''capability lock contains a selection not declared by the package'']
     else Inr (ca_resolved s, ca_warnings s))"

definition convert_features :: "string list \<Rightarrow> (diagnostic list, string list) result" where
  "convert_features features =
     map_ok btree_set (try_map (\<lambda>f. map_err (\<lambda>_. [resolve_package_invalid
         ''validated package contains an invalid feature identifier'']) (feature_id_new f)) features)"

definition omitted_warning :: "string \<Rightarrow> compilation_warning" where
  "omitted_warning f =
     CompilationWarning ''KF-FEAT-OPTIONAL-OMITTED'' (''optional feature '' @ f @ '' is unsupported'')"

record package_stage =
  pk_required_features :: "string list"
  pk_negotiation :: feature_negotiation
  pk_models :: "(string \<times> resolved_model) list"
  pk_warnings :: "compilation_warning list"
  pk_requirements :: "resolved_requirement list"
  pk_capture :: resolved_capture

definition package_stages ::
  "externals \<Rightarrow> 'v semver \<Rightarrow> runtime_binding \<Rightarrow> runtime_target \<Rightarrow> component_catalog \<Rightarrow> agent_package \<Rightarrow>
     capability_lock \<Rightarrow> (diagnostic list, package_stage) result" where
  "package_stages X V binding target components package lock =
     and_then (verify_lock X package lock None) (\<lambda>_.
     and_then (convert_features (am_required_features (ag_manifest package))) (\<lambda>required.
     and_then (convert_features (am_optional_features (ag_manifest package))) (\<lambda>optional.
     and_then (negotiate_features required optional (rt_supported_features target)) (\<lambda>negotiation.
     and_then (resolve_models (am_models (ag_manifest package)) binding components) (\<lambda>(models, warnings).
     and_then (resolve_capabilities V package lock) (\<lambda>(requirements, capability_warnings).
     map_ok (\<lambda>capture. \<lparr>pk_required_features = required, pk_negotiation = negotiation, pk_models = models,
         pk_warnings = warnings @ map omitted_warning (fn_omitted_optional negotiation) @ capability_warnings,
         pk_requirements = requirements, pk_capture = capture\<rparr>)
       (resolve_content_capture package binding components)))))))"

definition stage_report :: "package_stage \<Rightarrow> compilation_report" where
  "stage_report g = \<lparr>rp_warnings = pk_warnings g,
     rp_decisions =
       [CompilationDecision ''features''
          (decimal (length (pk_required_features g)) @ '' required and ''
            @ decimal (length (fn_enabled_optional (pk_negotiation g))) @ '' optional enabled''),
        CompilationDecision ''models'' (decimal (length (pk_models g)) @ '' roles resolved'')]\<rparr>"

definition stage_parts ::
  "agent_package \<Rightarrow> capability_lock \<Rightarrow> sha256_digest \<Rightarrow> package_stage \<Rightarrow> resolved_subagent list \<Rightarrow>
     resolved_parts" where
  "stage_parts package lock binding_digest g subagents =
     \<lparr>ra_package_identity = ag_identity package, ra_portable_digest = ag_portable_digest package,
      ra_lock_digest = lk_lock_digest lock,
      ra_catalog_identity = \<lparr>cat_name = lk_catalog_identity lock, cat_revision = lk_catalog_revision lock\<rparr>,
      ra_catalog_digest = lk_catalog_digest lock, ra_binding_digest = binding_digest,
      ra_prompts = ag_prompt_assets package, ra_skills = ag_skill_assets package, ra_models = pk_models g,
      ra_capability_requirements = pk_requirements g, ra_subagents = subagents,
      ra_required_features = pk_required_features g,
      ra_optional_features = fn_enabled_optional (pk_negotiation g),
      ra_content_capture = pk_capture g, ra_compilation_report = stage_report g\<rparr>"

definition declared_child ::
  "agent_package \<Rightarrow> delegation_requirement \<Rightarrow> (diagnostic list, agent_package) result" where
  "declared_child package d =
     ok_or [resolve_package_invalid ''declared child package is absent after package validation'']
       (map_of (ag_subagents package) (dr_agent d))"

definition child_lock ::
  "(package_identity \<times> capability_lock) list \<Rightarrow> agent_package \<Rightarrow> (diagnostic list, capability_lock) result" where
  "child_lock child_locks child =
     and_then (ok_or [lock_stale (''exact child lock is missing for '' @ pi_name (ag_identity child) @ '' ''
         @ pi_version (ag_identity child))] (map_of child_locks (ag_identity child))) (\<lambda>lock.
     if lk_package_portable_digest lock \<noteq> ag_portable_digest child
     then Inl [lock_stale ''child lock identity does not correspond to the declared child package'']
     else Inr lock)"

section \<open>The package tree\<close>

fun try_map_state ::
  "('b \<Rightarrow> 's \<Rightarrow> ('e, 'c \<times> 's) result) \<Rightarrow> 'b list \<Rightarrow> 's \<Rightarrow> ('e, 'c list \<times> 's) result" where
  "try_map_state f [] s = Inr ([], s)"
| "try_map_state f (x # xs) s =
     and_then (f x s) (\<lambda>(y, t). map_ok (\<lambda>(ys, u). (y # ys, u)) (try_map_state f xs t))"

lemma try_map_state_cong [fundef_cong]:
  "xs = ys \<Longrightarrow> s = t \<Longrightarrow> (\<And>x u. x \<in> set ys \<Longrightarrow> f x u = g x u) \<Longrightarrow>
   try_map_state f xs s = try_map_state g ys t"
proof (induction ys arbitrary: xs s t)
  case (Cons y ys)
  have "try_map_state f ys u = try_map_state g ys u" for u by (rule Cons.IH) (simp_all add: Cons.prems(3))
  then show ?case unfolding Cons.prems(1,2) by (simp add: Cons.prems(3))
qed simp

lemma try_map_state_elements:
  "try_map_state f xs s = Inr (ys, t) \<Longrightarrow> list_all2 (\<lambda>x y. \<exists>s s'. f x s = Inr (y, s')) xs ys"
  by (induction xs arbitrary: s ys) (auto split: prod.splits)

lemma declared_child_smaller:
  assumes "declared_child package d = Inr child" shows "size child < size package"
proof -
  obtain root m ps ss subs dg where p: "package = AgentPackage root m ps ss subs dg" by (cases package)
  with assms have "(dr_agent d, child) \<in> set subs"
    by (auto simp: declared_child_def dest: map_of_SomeD)
  then have "size_prod (\<lambda>_. 0) size (dr_agent d, child) \<le> size_list (size_prod (\<lambda>_. 0) size) subs"
    by (rule size_list_estimation') simp
  then show ?thesis by (simp add: p)
qed

text \<open>
  \<open>seen\<close> holds the identities resolved so far. A package is looked up in the nested agents of its
  parent, so the recursion goes down the tree.
\<close>

function resolve_package ::
  "externals \<Rightarrow> 'v semver \<Rightarrow> (package_identity \<times> capability_lock) list \<Rightarrow> runtime_binding \<Rightarrow>
     runtime_target \<Rightarrow> component_catalog \<Rightarrow> sha256_digest \<Rightarrow> agent_package \<Rightarrow> capability_lock \<Rightarrow>
     package_identity set \<Rightarrow> (diagnostic list, resolved_agent \<times> package_identity set) result" where
  "resolve_package X V child_locks binding target components binding_digest package lock seen =
     (if ag_identity package \<in> seen
      then Inl [resolve_package_invalid ''resolved package identities must be unique'']
      else
        and_then (package_stages X V binding target components package lock) (\<lambda>stage.
        and_then (try_map_state (\<lambda>d seen.
            and_then (declared_child package d) (\<lambda>child.
            and_then (child_lock child_locks child) (\<lambda>l.
            map_ok (\<lambda>(resolved, seen).
                (\<lparr>rs_package_identity = ag_identity child, rs_delegation = d,
                   rs_resolved_digest = ra_resolved_digest resolved\<rparr>, seen))
              (resolve_package X V child_locks binding target components binding_digest child l seen))))
          (am_delegation (ag_manifest package)) (insert (ag_identity package) seen)) (\<lambda>(subagents, seen).
        map_ok (\<lambda>resolved. (resolved, seen)) (map_err (\<lambda>m. [resolve_package_invalid m])
          (resolved_agent_try_new X (stage_parts package lock binding_digest stage subagents))))))"
  by pat_completeness auto
termination
  by (relation "measure (\<lambda>(_, _, _, _, _, _, _, package, _, _). size package)")
     (auto dest: declared_child_smaller)

declare resolve_package.simps [simp del]

fun collect_child_identities :: "agent_package \<Rightarrow> package_identity list" where
  "collect_child_identities (AgentPackage root manifest prompts skills subagents portable) =
     concat (map (\<lambda>(_, child). ag_identity child # collect_child_identities child) subagents)"

definition binding_digest_of :: "externals \<Rightarrow> runtime_binding \<Rightarrow> (diagnostic list, sha256_digest) result" where
  "binding_digest_of X binding =
     map_ok (\<lambda>bytes. hash_domain X ''runtime-binding'' [bytes])
       (map_err (\<lambda>e. [e]) (core_canonical_json X (binding_json binding)))"

definition resolve_agent ::
  "externals \<Rightarrow> 'v semver \<Rightarrow> resolution_input \<Rightarrow> (diagnostic list, resolved_agent) result" where
  "resolve_agent X V inp =
     and_then (validate_runtime_inputs (ri_binding inp) (ri_target inp) (ri_components inp)) (\<lambda>_.
     and_then (ensure (set (map fst (ri_child_locks inp)) \<subseteq> set (collect_child_identities (ri_package inp)))
       [lock_stale ''child lock map contains an undeclared package identity'']) (\<lambda>_.
     and_then (binding_digest_of X (ri_binding inp)) (\<lambda>binding_digest.
     map_ok fst (resolve_package X V (ri_child_locks inp) (ri_binding inp) (ri_target inp)
       (ri_components inp) binding_digest (ri_package inp) (ri_lock inp) {}))))"

section \<open>What resolution establishes\<close>

lemma feature_id_new_same: "feature_id_new f = Inr v \<Longrightarrow> v = f"
  by (auto simp: feature_id_new_def split: option.splits prod.splits if_splits)

lemma convert_features_set:
  assumes "convert_features features = Inr fs" shows "set fs = set features"
proof -
  from assms obtain ys where "fs = btree_set ys"
    "list_all2 (\<lambda>f y. feature_id_new f = Inr y) features ys"
    by (auto simp: convert_features_def try_map_Inr_iff)
  moreover from this(2) have "ys = features"
    by (induction rule: list_all2_induct) (auto dest: feature_id_new_same)
  ultimately show ?thesis by simp
qed

definition model_bound ::
  "runtime_binding \<Rightarrow> component_catalog \<Rightarrow> (string \<times> model_requirement) list \<Rightarrow> string \<Rightarrow> resolved_model \<Rightarrow> bool" where
  "model_bound binding components requirements role m =
     ((role, rm_requirement m) \<in> set requirements
      \<and> model_satisfies (rm_symbol m) (rm_requirement m) components
      \<and> (map_of (rb_models binding) role = Some (rm_symbol m)
         \<or> \<not> mr_required (rm_requirement m) \<and> map_of (rb_models binding) ''primary'' = Some (rm_symbol m)))"

definition model_choice ::
  "(string \<times> model_requirement) list \<Rightarrow> runtime_binding \<Rightarrow> component_catalog \<Rightarrow> string \<Rightarrow> model_requirement \<Rightarrow>
     string option" where
  "model_choice requirements binding components role r =
     (case (case map_of (rb_models binding) role of
              Some symbol \<Rightarrow> if model_satisfies symbol r components then Some symbol else None
            | None \<Rightarrow> None) of
        Some symbol \<Rightarrow> Some symbol
      | None \<Rightarrow> model_fallback requirements binding components r)"

lemma model_choice_bound:
  assumes "model_choice requirements binding components role r = Some symbol" "(role, r) \<in> set requirements"
  shows "model_bound binding components requirements role \<lparr>rm_requirement = r, rm_symbol = symbol\<rparr>"
  using assms unfolding model_choice_def model_bound_def model_fallback_def
  by (auto split: option.splits if_splits prod.splits dest: find_SomeD)

lemma model_step_shape:
  "mo_models (model_step requirements binding components (role, r) s) =
     (case model_choice requirements binding components role r of
        Some symbol \<Rightarrow> btree_insert role \<lparr>rm_requirement = r, rm_symbol = symbol\<rparr> (mo_models s)
      | None \<Rightarrow> mo_models s)"
  "mo_diagnostics (model_step requirements binding components (role, r) s) = [] \<longleftrightarrow>
     mo_diagnostics s = []
     \<and> (mr_required r \<longrightarrow> model_choice requirements binding components role r \<noteq> None)"
  by (auto simp: model_step_def model_choice_def Let_def split: option.splits if_splits)

lemma model_fold_bound:
  assumes "\<forall>e \<in> set rs. e \<in> set requirements"
  shows "btree_ok (mo_models s) \<and> (\<forall>(role, m) \<in> set (mo_models s). model_bound binding components requirements role m)
    \<Longrightarrow> btree_ok (mo_models (fold (model_step requirements binding components) rs s))
      \<and> (\<forall>(role, m) \<in> set (mo_models (fold (model_step requirements binding components) rs s)).
           model_bound binding components requirements role m)"
  using assms
proof (induction rs arbitrary: s)
  case (Cons e rs)
  obtain role r where e: "e = (role, r)" by (cases e)
  have "btree_ok (mo_models (model_step requirements binding components e s))
      \<and> (\<forall>(role, m) \<in> set (mo_models (model_step requirements binding components e s)).
           model_bound binding components requirements role m)"
    using Cons.prems by (auto simp: e model_step_shape btree_ok_insert set_btree_insert
        intro: model_choice_bound split: option.splits)
  with Cons show ?case by simp
qed simp

lemma model_fold_required:
  assumes "btree_ok (mo_models s)"
  shows "mo_diagnostics (fold (model_step requirements binding components) rs s) = [] \<Longrightarrow>
    btree_ok (mo_models (fold (model_step requirements binding components) rs s)) \<and> mo_diagnostics s = []
    \<and> (\<forall>(role, r) \<in> set rs. mr_required r \<longrightarrow>
         role \<in> fst ` set (mo_models (fold (model_step requirements binding components) rs s)))"
proof (induction rs rule: rev_induct)
  case (snoc e rs)
  obtain role r where e: "e = (role, r)" by (cases e)
  let ?s = "fold (model_step requirements binding components) rs s"
  from snoc have IH: "btree_ok (mo_models ?s)" "mo_diagnostics s = []"
      "\<forall>(role, r) \<in> set rs. mr_required r \<longrightarrow> role \<in> fst ` set (mo_models ?s)"
    and "mr_required r \<longrightarrow> model_choice requirements binding components role r \<noteq> None"
    by (auto simp: e model_step_shape)
  moreover have "fst ` set (mo_models ?s) \<subseteq> fst ` set (mo_models (model_step requirements binding components e ?s))"
    using IH(1) by (force simp: e model_step_shape set_btree_insert split: option.splits)
  ultimately show ?case
    by (force simp: e model_step_shape set_btree_insert btree_ok_insert split: option.splits)
qed (simp add: assms)

lemma resolve_models_bound:
  assumes "resolve_models requirements binding components = Inr (models, warnings)"
  shows "\<forall>(role, m) \<in> set models. model_bound binding components requirements role m"
    and "\<forall>(role, r) \<in> set requirements. mr_required r \<longrightarrow> role \<in> fst ` set models"
proof -
  let ?s = "\<lparr>mo_models = [], mo_warnings = [], mo_diagnostics = []\<rparr>"
  let ?t = "fold (model_step requirements binding components) requirements ?s"
  from assms have t: "mo_diagnostics ?t = []" "models = mo_models ?t"
    by (auto simp: resolve_models_def Let_def split: if_splits)
  show "\<forall>(role, m) \<in> set models. model_bound binding components requirements role m"
    using model_fold_bound [of requirements requirements ?s] by (simp add: t(2))
  show "\<forall>(role, r) \<in> set requirements. mr_required r \<longrightarrow> role \<in> fst ` set models"
    using model_fold_required [OF _ t(1)] by (simp add: t(2))
qed

definition resolved_for ::
  "'v semver \<Rightarrow> capability_lock \<Rightarrow> capability_requirement \<Rightarrow> resolved_requirement option" where
  "resolved_for V lock r = map_option (\<lambda>c. \<lparr>rr_locked_capability = c, rr_required = cr_required r,
     rr_resources = sort_dedup (cr_resources r)\<rparr>) (find (locked_matches V r) (lk_capabilities lock))"

lemma resolved_for_Some:
  "resolved_for V lock r = Some q \<Longrightarrow>
     rr_locked_capability q \<in> set (lk_capabilities lock) \<and> locked_matches V r (rr_locked_capability q)
     \<and> rr_required q = cr_required r \<and> set (rr_resources q) = set (cr_resources r)"
  by (auto simp: resolved_for_def dest: find_SomeD)

lemma capability_fold:
  "try_fold (capability_step V lock) rs s = Inr t \<Longrightarrow>
     (\<forall>r \<in> set rs. sv_req_ok V (cr_version r) \<and> (cr_required r \<longrightarrow> resolved_for V lock r \<noteq> None))
     \<and> set (ca_resolved t) = set (ca_resolved s) \<union> {q. \<exists>r \<in> set rs. resolved_for V lock r = Some q}
     \<and> set (ca_matched t) = set (ca_matched s) \<union> {rr_identity q |q. \<exists>r \<in> set rs. resolved_for V lock r = Some q}"
proof (induction rs arbitrary: s)
  case (Cons r rs)
  then obtain u where step: "capability_step V lock s r = Inr u" and rest: "try_fold (capability_step V lock) rs u = Inr t"
    by auto
  have "sv_req_ok V (cr_version r) \<and> (cr_required r \<longrightarrow> resolved_for V lock r \<noteq> None)
     \<and> set (ca_resolved u) = set (ca_resolved s) \<union> {q. resolved_for V lock r = Some q}
     \<and> set (ca_matched u) = set (ca_matched s) \<union> {rr_identity q |q. resolved_for V lock r = Some q}"
    using step by (auto simp: capability_step_def resolved_for_def resolved_requirement_try_new_def Let_def
        split: if_splits option.splits)
  with Cons.IH [OF rest] show ?case by auto
qed simp

lemma resolve_capabilities_exact:
  assumes "resolve_capabilities V package lock = Inr (requirements, warnings)"
  shows "set requirements = {q. \<exists>r \<in> set (am_capabilities (ag_manifest package)). resolved_for V lock r = Some q}"
    and "\<forall>r \<in> set (am_capabilities (ag_manifest package)). cr_required r \<longrightarrow> resolved_for V lock r \<noteq> None"
    and "\<forall>c \<in> set (lk_capabilities lock). \<exists>q \<in> set requirements. rr_identity q = lc_identity c"
proof -
  obtain s where s: "try_fold (capability_step V lock) (am_capabilities (ag_manifest package))
      \<lparr>ca_resolved = [], ca_warnings = [], ca_matched = []\<rparr> = Inr s"
    and "requirements = ca_resolved s"
    and "\<forall>c \<in> set (lk_capabilities lock). lc_identity c \<in> set (ca_matched s)"
    using assms by (auto simp: resolve_capabilities_def split: if_splits)
  with capability_fold [OF s]
  show "set requirements = {q. \<exists>r \<in> set (am_capabilities (ag_manifest package)). resolved_for V lock r = Some q}"
    "\<forall>r \<in> set (am_capabilities (ag_manifest package)). cr_required r \<longrightarrow> resolved_for V lock r \<noteq> None"
    "\<forall>c \<in> set (lk_capabilities lock). \<exists>q \<in> set requirements. rr_identity q = lc_identity c"
    by auto fastforce
qed

lemma kind_diagnostics_Nil:
  "kind_diagnostics components expected = [] \<longleftrightarrow>
     (\<forall>(symbol, kind) \<in> set expected. is_ok (require_component_kind components symbol kind))"
  by (auto simp: kind_diagnostics_def is_ok_def split: sum.splits)

text \<open>
  The specification of a resolved package: \<open>own_honoured\<close> relates what a resolved agent holds to its
  manifest, lock and target, \<open>honoured\<close> adds the verified lock and, for every delegation, a
  nested agent that is itself honoured and whose digest the parent records.
\<close>

definition capture_honoured :: "agent_package \<Rightarrow> resolution_input \<Rightarrow> resolved_capture \<Rightarrow> bool" where
  "capture_honoured package inp c =
     (if rc_allowed c
      then am_capture_allowed (ag_manifest package)
        \<and> set (rc_classifications c) \<subseteq> am_capture_classifications (ag_manifest package)
        \<and> (\<exists>p. rb_content_capture (ri_binding inp) = Some p \<and> bp_enabled p
             \<and> set (rc_classifications c) = bp_classifications p
             \<and> (\<forall>(symbol, kind) \<in> set (capture_components p). is_ok (require_component_kind (ri_components inp) symbol kind)))
      else rc_classifications c = [])"

definition own_honoured ::
  "'v semver \<Rightarrow> resolution_input \<Rightarrow> sha256_digest \<Rightarrow> agent_package \<Rightarrow> capability_lock \<Rightarrow> resolved_agent \<Rightarrow> bool" where
  "own_honoured V inp binding_digest package lock a =
     (ra_package_identity a = ag_identity package \<and> ra_portable_digest a = ag_portable_digest package
      \<and> ra_lock_digest a = lk_lock_digest lock \<and> ra_catalog_digest a = lk_catalog_digest lock
      \<and> ra_binding_digest a = binding_digest
      \<and> ra_prompts a = ag_prompt_assets package \<and> ra_skills a = ag_skill_assets package
      \<and> set (ra_required_features a) = set (am_required_features (ag_manifest package))
      \<and> (\<forall>f \<in> set (ra_required_features a). feature_compatible f (rt_supported_features (ri_target inp)))
      \<and> set (ra_optional_features a) = {f \<in> set (am_optional_features (ag_manifest package)).
           feature_compatible f (rt_supported_features (ri_target inp))}
      \<and> (\<forall>(role, m) \<in> set (ra_models a).
           model_bound (ri_binding inp) (ri_components inp) (am_models (ag_manifest package)) role m)
      \<and> (\<forall>(role, r) \<in> set (am_models (ag_manifest package)). mr_required r \<longrightarrow> role \<in> fst ` set (ra_models a))
      \<and> set (ra_capability_requirements a) =
           {q. \<exists>r \<in> set (am_capabilities (ag_manifest package)). resolved_for V lock r = Some q}
      \<and> (\<forall>r \<in> set (am_capabilities (ag_manifest package)). cr_required r \<longrightarrow> resolved_for V lock r \<noteq> None)
      \<and> (\<forall>c \<in> set (lk_capabilities lock). \<exists>q \<in> set (ra_capability_requirements a). rr_identity q = lc_identity c)
      \<and> capture_honoured package inp (ra_content_capture a))"

inductive honoured ::
  "externals \<Rightarrow> 'v semver \<Rightarrow> resolution_input \<Rightarrow> sha256_digest \<Rightarrow> agent_package \<Rightarrow> capability_lock \<Rightarrow>
     resolved_agent \<Rightarrow> bool"
  for X :: externals and V :: "'v semver" and inp :: resolution_input and binding_digest :: sha256_digest where
  honouredI: "is_ok (verify_lock X package lock None) \<Longrightarrow> own_honoured V inp binding_digest package lock a \<Longrightarrow>
    length (ra_subagents a) = length (am_delegation (ag_manifest package)) \<Longrightarrow>
    (\<forall>d \<in> set (am_delegation (ag_manifest package)). \<exists>child l c.
       declared_child package d = Inr child \<and> child_lock (ri_child_locks inp) child = Inr l
       \<and> honoured X V inp binding_digest child l c
       \<and> \<lparr>rs_package_identity = ag_identity child, rs_delegation = d, rs_resolved_digest = ra_resolved_digest c\<rparr>
           \<in> set (ra_subagents a)) \<Longrightarrow>
    honoured X V inp binding_digest package lock a"

inductive_cases honoured_child_elim: "honoured X V inp binding_digest package lock a"

lemma resolve_content_capture_honoured:
  assumes "resolve_content_capture package (ri_binding inp) (ri_components inp) = Inr c"
  shows "capture_honoured package inp c"
  using assms
  by (auto simp: resolve_content_capture_def capture_honoured_def Let_def kind_diagnostics_Nil
      intro: one_classification dest: classification_in split: option.splits if_splits)

lemma resolved_agent_try_newD:
  assumes "resolved_agent_try_new X p = Inr a"
  shows "\<exists>d. resolved_digest X (normal_parts p) = Inr d
      \<and> a = resolved_parts.extend (normal_parts p) \<lparr>ra_resolved_digest = d\<rparr>
      \<and> \<not> adjacent_equal rs_package_identity (ra_subagents (normal_parts p))"
  using assms by (auto simp: resolved_agent_try_new_def Let_def split: if_splits)

lemma package_stages_own:
  assumes "package_stages X V (ri_binding inp) (ri_target inp) (ri_components inp) package lock = Inr stage"
    and "resolved_agent_try_new X (stage_parts package lock binding_digest stage subagents) = Inr a"
  shows "is_ok (verify_lock X package lock None) \<and> own_honoured V inp binding_digest package lock a
    \<and> set (ra_subagents a) = set subagents \<and> length (ra_subagents a) = length subagents"
proof -
  obtain required optional negotiation models warnings requirements cwarnings capture where stage:
      "verify_lock X package lock None = Inr ()"
      "convert_features (am_required_features (ag_manifest package)) = Inr required"
      "convert_features (am_optional_features (ag_manifest package)) = Inr optional"
      "negotiate_features required optional (rt_supported_features (ri_target inp)) = Inr negotiation"
      "resolve_models (am_models (ag_manifest package)) (ri_binding inp) (ri_components inp) = Inr (models, warnings)"
      "resolve_capabilities V package lock = Inr (requirements, cwarnings)"
      "resolve_content_capture package (ri_binding inp) (ri_components inp) = Inr capture"
      "stage = \<lparr>pk_required_features = required, pk_negotiation = negotiation, pk_models = models,
         pk_warnings = warnings @ map omitted_warning (fn_omitted_optional negotiation) @ cwarnings,
         pk_requirements = requirements, pk_capture = capture\<rparr>"
    using assms(1) by (auto simp: package_stages_def)
  note features = convert_features_set [OF stage(2)] convert_features_set [OF stage(3)]
  from resolved_agent_try_newD [OF assms(2)] obtain d where
    a: "a = resolved_parts.extend (normal_parts (stage_parts package lock binding_digest stage subagents))
          \<lparr>ra_resolved_digest = d\<rparr>" by blast
  have "capture_honoured package inp (ra_content_capture a)"
    using resolve_content_capture_honoured [OF stage(7)]
    by (auto simp: a resolved_parts.defs normal_parts_def stage_parts_def stage(8) capture_honoured_def
        sort_dedup_def)
  then show ?thesis
    using features stage(1,4) resolve_models_bound [OF stage(5)] resolve_capabilities_exact [OF stage(6)]
    by (simp add: own_honoured_def a resolved_parts.defs normal_parts_def stage_parts_def stage(8)
        negotiate_features_def Let_def filter_empty_conv split: if_splits) auto
qed

lemma resolve_package_honoured:
  "resolve_package X V (ri_child_locks inp) (ri_binding inp) (ri_target inp) (ri_components inp)
     binding_digest package lock seen = Inr (a, seen') \<Longrightarrow> honoured X V inp binding_digest package lock a"
proof (induction package arbitrary: lock seen a seen' rule: measure_induct_rule [of size])
  case (less package)
  let ?R = "resolve_package X V (ri_child_locks inp) (ri_binding inp) (ri_target inp) (ri_components inp) binding_digest"
  let ?f = "\<lambda>d seen. and_then (declared_child package d) (\<lambda>child.
      and_then (child_lock (ri_child_locks inp) child) (\<lambda>l.
      map_ok (\<lambda>(resolved, seen). (\<lparr>rs_package_identity = ag_identity child, rs_delegation = d,
          rs_resolved_digest = ra_resolved_digest resolved\<rparr>, seen)) (?R child l seen)))"
  from less.prems obtain stage subagents t where stages:
      "package_stages X V (ri_binding inp) (ri_target inp) (ri_components inp) package lock = Inr stage"
      "try_map_state ?f (am_delegation (ag_manifest package)) (insert (ag_identity package) seen) = Inr (subagents, t)"
      "resolved_agent_try_new X (stage_parts package lock binding_digest stage subagents) = Inr a"
    unfolding resolve_package.simps [of _ _ _ _ _ _ _ package] by (auto split: if_splits)
  have all: "list_all2 (\<lambda>d s. \<exists>u u'. ?f d u = Inr (s, u')) (am_delegation (ag_manifest package)) subagents"
    by (rule try_map_state_elements [OF stages(2)])
  have "\<exists>child l c. declared_child package d = Inr child \<and> child_lock (ri_child_locks inp) child = Inr l
       \<and> honoured X V inp binding_digest child l c
       \<and> \<lparr>rs_package_identity = ag_identity child, rs_delegation = d, rs_resolved_digest = ra_resolved_digest c\<rparr>
           \<in> set subagents" if d: "d \<in> set (am_delegation (ag_manifest package))" for d
  proof -
    from all d obtain s u u' where s: "s \<in> set subagents" "?f d u = Inr (s, u')"
      by (auto simp: in_set_conv_nth list_all2_conv_all_nth) (metis nth_mem)
    then obtain child l c where c: "declared_child package d = Inr child"
        "child_lock (ri_child_locks inp) child = Inr l" "?R child l u = Inr (c, u')"
        "s = \<lparr>rs_package_identity = ag_identity child, rs_delegation = d, rs_resolved_digest = ra_resolved_digest c\<rparr>"
      by auto
    with less.IH [OF declared_child_smaller [OF c(1)] c(3)] s(1) show ?thesis by blast
  qed
  then show ?case
    using package_stages_own [OF stages(1,3)] list_all2_lengthD [OF all]
    by (intro honouredI) auto
qed

text \<open>
  Claim C26. A resolved agent honours its manifest, its lock and its deployment, through the whole tree of
  nested agents. The runtime, target and component catalog agree and every bound component has
  its kind; the lock verifies for the package; every required feature is supported and the enabled
  optional ones are exactly the supported ones; every required model role is bound to a
  component that satisfies it, and so is every bound role; the capabilities are exactly
  those the manifest asks for, each from the lock with a version in its range and the manifest's
  resources, every required one is there and no entry of the lock is left over; content is
  captured only where manifest and binding allow it; and every delegation names a nested agent
  that is honoured in the same way under its own lock and whose digest the parent records.
\<close>

theorem resolved_agent_honours_manifest:
  assumes "resolve_agent X V inp = Inr a"
  shows "rb_runtime (ri_binding inp) = rt_target (ri_target inp)
    \<and> co_target (ri_components inp) = rt_target (ri_target inp)
    \<and> (\<forall>(symbol, kind) \<in> set (bound_components (ri_binding inp)).
         is_ok (require_component_kind (ri_components inp) symbol kind))
    \<and> set (map fst (ri_child_locks inp)) \<subseteq> set (collect_child_identities (ri_package inp))
    \<and> (\<exists>binding_digest. binding_digest_of X (ri_binding inp) = Inr binding_digest
         \<and> honoured X V inp binding_digest (ri_package inp) (ri_lock inp) a)"
proof -
  obtain binding_digest seen where
    "validate_runtime_inputs (ri_binding inp) (ri_target inp) (ri_components inp) = Inr ()"
    "set (map fst (ri_child_locks inp)) \<subseteq> set (collect_child_identities (ri_package inp))"
    "binding_digest_of X (ri_binding inp) = Inr binding_digest"
    "resolve_package X V (ri_child_locks inp) (ri_binding inp) (ri_target inp) (ri_components inp)
       binding_digest (ri_package inp) (ri_lock inp) {} = Inr (a, seen)"
    using assms by (auto simp: resolve_agent_def)
  moreover from this(1) have "rb_runtime (ri_binding inp) = rt_target (ri_target inp)"
      "co_target (ri_components inp) = rt_target (ri_target inp)"
      "sort_key diagnostic_key (kind_diagnostics (ri_components inp) (bound_components (ri_binding inp))) = []"
    by (auto simp: validate_runtime_inputs_def Let_def split: if_splits)
  moreover from this(3) have "kind_diagnostics (ri_components inp) (bound_components (ri_binding inp)) = []"
    by (metis length_0_conv length_sort)
  ultimately show ?thesis
    by (auto simp: kind_diagnostics_Nil [symmetric] intro!: exI intro: resolve_package_honoured)
qed

section \<open>From lock to resolution\<close>

lemma capability_fold_ok:
  "\<forall>r \<in> set rs. sv_req_ok V (cr_version r) \<and> (cr_required r \<longrightarrow> resolved_for V lock r \<noteq> None) \<and> cr_resources r \<noteq> []
   \<Longrightarrow> is_ok (try_fold (capability_step V lock) rs s)"
proof (induction rs arbitrary: s)
  case (Cons r rs)
  then have "is_ok (capability_step V lock s r)"
    by (auto simp: capability_step_def resolved_for_def resolved_requirement_try_new_def Let_def
        set_empty [symmetric] simp del: set_empty split: option.splits)
  then obtain t where "capability_step V lock s r = Inr t" by (auto simp: is_ok_iff)
  with Cons show ?case by simp
qed simp

lemma selected_unique:
  assumes sel: "select_capabilities_with_warnings V requirements catalog policy = Inr selection"
    and distinct: "distinct (map cr_name (remdups requirements))"
    and s: "s \<in> set (so_selected selection)" and r: "r \<in> set requirements"
    and name: "ci_name (va_identity (se_descriptor s)) = cr_name r"
  shows "se_requirement s = r"
proof -
  have "se_requirement s \<in> set requirements" "ci_name (va_identity (se_descriptor s)) = cr_name (se_requirement s)"
    using selection_outcome_exact [OF sel] s by (auto simp: newest_match_def candidate_for_def)
  then show ?thesis using distinct r name by (auto simp: distinct_map inj_on_def)
qed

lemma locked_of_matches:
  "candidate_for V catalog policy r version d \<Longrightarrow> locked_matches V r (locked_of d)"
  by (simp add: candidate_for_def locked_matches_def locked_of_def)

lemma resolved_for_selection:
  assumes lock: "lock_package X V package catalog policy = Inr lock"
    and distinct: "distinct (map cr_name (remdups (am_capabilities (ag_manifest package))))"
    and r: "r \<in> set (am_capabilities (ag_manifest package))"
  shows "(resolved_for V lock r = None \<longleftrightarrow> (\<nexists>version d. candidate_for V catalog policy r version d))
    \<and> (\<forall>q. resolved_for V lock r = Some q \<longrightarrow>
         (\<exists>d. newest_match V catalog policy r d \<and> rr_locked_capability q = locked_of d))"
proof -
  obtain features selection d where
    sel: "select_capabilities_with_warnings V (am_capabilities (ag_manifest package)) catalog policy = Inr selection"
    and l: "lock = (unsigned_lock package catalog features (so_selected selection))\<lparr>lk_lock_digest := d\<rparr>"
    using lock by (rule lock_packageD)
  note exact = selection_outcome_exact [OF sel]
  have caps: "set (lk_capabilities lock) = (locked_of \<circ> se_descriptor) ` set (so_selected selection)"
    by (auto simp: l unsigned_lock_def)
  have own: "newest_match V catalog policy r (se_descriptor s)"
    if "s \<in> set (so_selected selection)" "locked_matches V r (locked_of (se_descriptor s))" for s
  proof -
    have "se_requirement s = r"
      using that by (intro selected_unique [OF sel distinct _ r]) (simp_all add: locked_matches_def locked_of_def)
    then show ?thesis using exact that(1) by auto
  qed
  have "\<exists>d. newest_match V catalog policy r d \<and> c = locked_of d"
    if "find (locked_matches V r) (lk_capabilities lock) = Some c" for c
    using find_SomeD [OF that] own by (auto simp: caps)
  moreover have "\<exists>c. find (locked_matches V r) (lk_capabilities lock) = Some c"
    if candidate: "candidate_for V catalog policy r version e" for version e
  proof -
    from exact r candidate obtain s where s: "s \<in> set (so_selected selection)" "r = se_requirement s"
      by fastforce
    then have "newest_match V catalog policy r (se_descriptor s)" using exact by auto
    then have "locked_matches V r (locked_of (se_descriptor s))"
      by (auto simp: newest_match_def intro: locked_of_matches)
    with s(1) show ?thesis by (intro find_in_set) (auto simp: caps)
  qed
  ultimately show ?thesis
    by (cases "find (locked_matches V r) (lk_capabilities lock)") (auto simp: resolved_for_def newest_match_def)
qed

lemma produced_lock_accepted:
  assumes "validate_catalog X parsed = Inr catalog"
    and "lock_package X V package catalog policy = Inr lock"
    and "distinct (map cr_name (remdups (am_capabilities (ag_manifest package))))"
    and "\<forall>r \<in> set (am_capabilities (ag_manifest package)). cr_resources r \<noteq> []"
  shows "is_ok (verify_lock X package lock None) \<and> is_ok (resolve_capabilities V package lock)"
proof (rule conjI)
  let ?needs = "am_capabilities (ag_manifest package)"
  have "distinct (map lc_identity (lk_capabilities lock))" by (rule lock_identities_distinct [OF assms(2,3)])
  then show "is_ok (verify_lock X package lock None)"
    using verify_lock_produced(1) [OF assms(1,2), of None] lock_produced_sorted [OF assms(2)]
    by (simp add: verify_order_Nil strictly_sorted_by_sorted_wrt strict_sorted_iff)
  obtain features selection d where
    sel: "select_capabilities_with_warnings V ?needs catalog policy = Inr selection"
    and l: "lock = (unsigned_lock package catalog features (so_selected selection))\<lparr>lk_lock_digest := d\<rparr>"
    using assms(2) by (rule lock_packageD)
  note exact = selection_outcome_exact [OF sel] and for_each = resolved_for_selection [OF assms(2,3)]
  have "\<forall>r \<in> set ?needs. sv_req_ok V (cr_version r)
      \<and> (cr_required r \<longrightarrow> (\<exists>version d. candidate_for V catalog policy r version d))"
    using sel by (auto simp: selection_result Let_def missed_def filter_empty_conv selected_descriptor_None)
  then obtain s where s: "try_fold (capability_step V lock) ?needs
      \<lparr>ca_resolved = [], ca_warnings = [], ca_matched = []\<rparr> = Inr s"
    using capability_fold_ok [of ?needs V lock] for_each assms(4) by (auto simp: is_ok_iff) metis
  have "lc_identity c \<in> set (ca_matched s)" if c: "c \<in> set (lk_capabilities lock)" for c
  proof -
    from c obtain t where t: "t \<in> set (so_selected selection)" "c = locked_of (se_descriptor t)"
      by (auto simp: l unsigned_lock_def)
    then have r: "se_requirement t \<in> set ?needs" "newest_match V catalog policy (se_requirement t) (se_descriptor t)"
      using exact by auto
    then obtain q where q: "resolved_for V lock (se_requirement t) = Some q"
      using for_each [OF r(1)] by (cases "resolved_for V lock (se_requirement t)") (auto simp: newest_match_def)
    then obtain u where "u \<in> set (so_selected selection)" "rr_locked_capability q = locked_of (se_descriptor u)"
        "ci_name (va_identity (se_descriptor u)) = cr_name (se_requirement t)"
      using resolved_for_Some [OF q] by (auto simp: l unsigned_lock_def locked_matches_def locked_of_def)
    with selected_unique [OF sel assms(3) _ r(1)] have "u = t \<or> se_requirement u = se_requirement t" by blast
    then have "u = t" using exact \<open>u \<in> set (so_selected selection)\<close> t(1)
      by (auto simp: distinct_map inj_on_def)
    with q r(1) t(2) \<open>rr_locked_capability q = _\<close> capability_fold [OF s] show ?thesis by force
  qed
  then show "is_ok (resolve_capabilities V package lock)" by (auto simp: resolve_capabilities_def s)
qed

text \<open>
  Locking and resolving fit together: when the manifest names each capability once (and every
  requirement names a resource), the lock made from a validated catalog verifies, resolution accepts
  its capabilities, and what each requirement resolves to is the newest descriptor of
  the catalog that it and the policy allow, nothing exactly when there is none.
\<close>

lemma produced_lock_resolves:
  assumes "validate_catalog X parsed = Inr catalog"
    and "lock_package X V package catalog policy = Inr lock"
    and "distinct (map cr_name (remdups (am_capabilities (ag_manifest package))))"
    and "\<forall>r \<in> set (am_capabilities (ag_manifest package)). cr_resources r \<noteq> []"
  shows "is_ok (verify_lock X package lock None) \<and> is_ok (resolve_capabilities V package lock)
    \<and> (\<forall>r \<in> set (am_capabilities (ag_manifest package)).
         (resolved_for V lock r = None \<longleftrightarrow> (\<nexists>version d. candidate_for V catalog policy r version d))
         \<and> (\<forall>q. resolved_for V lock r = Some q \<longrightarrow>
              (\<exists>d. newest_match V catalog policy r d \<and> rr_locked_capability q = locked_of d)))"
  using produced_lock_accepted [OF assms] resolved_for_selection [OF assms(2,3)] by blast

lemma sample_need_unique: "distinct (map cr_name (remdups (am_capabilities (ag_manifest (sample_package [sample_need a, sample_need a])))))"
  by (simp add: sample_package_def sample_manifest_def)

section \<open>Reading a resolved agent back\<close>

lemma remdups_adj_again: "remdups_adj (remdups_adj xs) = remdups_adj xs"
  by (simp add: distinct_adj_altdef [symmetric])

lemma sorted_map_remdups_adj: "sorted (map k xs) \<Longrightarrow> sorted (map k (remdups_adj xs))"
  by (induction xs rule: remdups_adj.induct) auto

lemma normal_parts_again: "normal_parts (normal_parts p) = normal_parts p"
  by (simp add: normal_parts_def normalized_def sorted_sort_key sorted_map_remdups_adj remdups_adj_again)

lemma sort_dedup_set: "set xs = set ys \<Longrightarrow> sort_dedup xs = sort_dedup ys"
  by (rule sorted_distinct_set_unique) simp_all

lemma normal_parts_permuted:
  assumes "mset subs = mset (ra_subagents p)" "distinct (map rs_package_identity (ra_subagents p))"
    and "set (rp_warnings report) = set (rp_warnings (ra_compilation_report p))"
    and "set (rp_decisions report) = set (rp_decisions (ra_compilation_report p))"
  shows "normal_parts (p\<lparr>ra_subagents := subs, ra_compilation_report := report\<rparr>) = normal_parts p"
proof -
  have "sort_key rs_package_identity subs = sort_key rs_package_identity (ra_subagents p)"
    by (rule sort_key_permuted [symmetric]) (simp_all add: assms)
  then show ?thesis
    using sort_dedup_set [OF assms(3)] sort_dedup_set [OF assms(4)] by (simp add: normal_parts_def normalized_def)
qed


definition sample_parent :: agent_package where
  "sample_parent = AgentPackage ''parent''
     ((sample_manifest [])\<lparr>am_metadata := PackageIdentity ''parent'' ''1.0.0'',
        am_delegation := [\<lparr>dr_agent = ''agents/helper'', dr_capabilities = []\<rparr>]\<rparr>)
     [] [] [(''agents/helper'', sample_package [])] sample_digest"

definition sample_empty_lock :: capability_lock where
  "sample_empty_lock = \<lparr>lk_schema_version = LockV1Alpha1, lk_package_portable_digest = sample_digest,
     lk_catalog_identity = ''main'', lk_catalog_digest = sample_digest, lk_catalog_revision = ''1'',
     lk_resolver_version = ''0.1.0'', lk_resolved_features = [], lk_capabilities = [],
     lk_lock_digest = sample_digest\<rparr>"

definition sample_component :: "component_kind \<Rightarrow> component_metadata" where
  "sample_component kind = \<lparr>cm_kind = kind, cm_model = None, cm_features = [], cm_durable = True\<rparr>"

definition sample_input :: resolution_input where
  "sample_input = \<lparr>ri_package = sample_parent, ri_lock = sample_empty_lock,
     ri_child_locks = [(PackageIdentity ''helper'' ''1.0.0'', sample_empty_lock)],
     ri_binding = \<lparr>rb_runtime = ''python'', rb_models = [], rb_middleware = [], rb_backend = None,
       rb_checkpointer = None, rb_authority_provider = None, rb_admitted_tool_registry = None,
       rb_harness_profile = None, rb_capability_provider = ''provider'', rb_audit_sink = ''audit'',
       rb_content_capture = None\<rparr>,
     ri_target = \<lparr>rt_target = ''python'', rt_supported_features = [], rt_target_digest = sample_digest\<rparr>,
     ri_components = \<lparr>co_target = ''python'', co_components =
       [(''audit'', sample_component KindAuditSink), (''provider'', sample_component KindCapabilityProvider)]\<rparr>\<rparr>"

lemma sample_package_stages:
  "package_stages sample_externals sample_semver (ri_binding sample_input) (ri_target sample_input)
     (ri_components sample_input) package sample_empty_lock =
   Inr \<lparr>pk_required_features = [], pk_negotiation = \<lparr>fn_enabled_optional = [], fn_omitted_optional = []\<rparr>,
     pk_models = [], pk_warnings = [], pk_requirements = [],
     pk_capture = \<lparr>rc_allowed = False, rc_classifications = []\<rparr>\<rparr>"
  if "package \<in> {sample_parent, sample_package []}"
  using that by (auto simp: package_stages_def sample_parent_def sample_package_def sample_manifest_def
      verify_lock_def verify_features_def verify_digest_def verify_capabilities_def lock_digest_def Let_def
      diagnose_def sample_empty_lock_def package_requested_features_def convert_features_def btree_set_def
      negotiate_features_def resolve_models_def resolve_capabilities_def resolve_content_capture_def
      sample_input_def sample_externals_def resolver_version_def)

lemma sample_try_new:
  "is_ok (resolved_agent_try_new sample_externals (stage_parts package lock b stage subs))"
  if "length subs \<le> 1"
  using that by (cases subs) (auto simp: resolved_agent_try_new_def Let_def resolved_digest_def
      resolved_components_def canonical_component_def sample_externals_def normal_parts_def stage_parts_def
      adjacent_equal_sort_key)

lemma sample_child_resolves:
  assumes "PackageIdentity ''helper'' ''1.0.0'' \<notin> seen"
  shows "\<exists>r. resolve_package sample_externals sample_semver child_locks (ri_binding sample_input)
     (ri_target sample_input) (ri_components sample_input) b (sample_package []) sample_empty_lock seen = Inr r"
proof -
  have child: "am_delegation (ag_manifest (sample_package [])) = []"
    "ag_identity (sample_package []) = PackageIdentity ''helper'' ''1.0.0''"
    by (simp_all add: sample_package_def sample_manifest_def)
  show ?thesis
    using assms sample_try_new [of "[]" "sample_package []" sample_empty_lock b]
    by (subst resolve_package.simps) (auto simp: child sample_package_stages is_ok_iff)
qed

lemma sample_resolves: "is_ok (resolve_agent sample_externals sample_semver sample_input)"
proof -
  let ?b = "sample_digest"
  have inputs: "validate_runtime_inputs (ri_binding sample_input) (ri_target sample_input)
      (ri_components sample_input) = Inr ()"
    by (simp add: validate_runtime_inputs_def sample_input_def bound_components_def named_component_def
        kind_diagnostics_def require_component_kind_def sample_component_def)
  have children: "set (map fst (ri_child_locks sample_input)) \<subseteq> set (collect_child_identities (ri_package sample_input))"
    by (simp add: sample_input_def sample_parent_def sample_package_def sample_manifest_def)
  have digest: "binding_digest_of sample_externals (ri_binding sample_input) = Inr ?b"
    by (simp add: binding_digest_of_def core_canonical_json_def sample_externals_def hash_domain_def)
  have parent: "ri_package sample_input = sample_parent" "ri_lock sample_input = sample_empty_lock"
    "am_delegation (ag_manifest sample_parent) = [\<lparr>dr_agent = ''agents/helper'', dr_capabilities = []\<rparr>]"
    "ag_identity sample_parent = PackageIdentity ''parent'' ''1.0.0''"
    "declared_child sample_parent \<lparr>dr_agent = ''agents/helper'', dr_capabilities = []\<rparr> = Inr (sample_package [])"
    "child_lock (ri_child_locks sample_input) (sample_package []) = Inr sample_empty_lock"
    by (simp_all add: sample_input_def sample_parent_def declared_child_def child_lock_def sample_package_def
        sample_manifest_def sample_empty_lock_def)
  obtain r where "resolve_package sample_externals sample_semver (ri_child_locks sample_input)
      (ri_binding sample_input) (ri_target sample_input) (ri_components sample_input) ?b (sample_package [])
      sample_empty_lock {PackageIdentity ''parent'' ''1.0.0''} = Inr r"
    using sample_child_resolves [of "{PackageIdentity ''parent'' ''1.0.0''}" "ri_child_locks sample_input" ?b]
    by (simp del: split_paired_Ex) blast
  then have "\<exists>r. resolve_package sample_externals sample_semver (ri_child_locks sample_input)
      (ri_binding sample_input) (ri_target sample_input) (ri_components sample_input) ?b sample_parent
      sample_empty_lock {} = Inr r"
    using sample_try_new [of "[s]" sample_parent sample_empty_lock ?b for s]
    by (subst resolve_package.simps) (auto simp: parent sample_package_stages is_ok_iff split_beta)
  then show ?thesis by (auto simp: resolve_agent_def inputs digest parent children [unfolded parent(1) set_map])
qed

theorem resolved_agent_honours_manifest_witness:
  "\<exists>a b. resolve_agent sample_externals sample_semver sample_input = Inr a
     \<and> honoured sample_externals sample_semver sample_input b sample_parent sample_empty_lock a"
proof -
  obtain a where a: "resolve_agent sample_externals sample_semver sample_input = Inr a"
    using sample_resolves by (auto simp: is_ok_iff)
  have "ri_package sample_input = sample_parent" "ri_lock sample_input = sample_empty_lock"
    by (simp_all add: sample_input_def)
  with resolved_agent_honours_manifest [OF a] a show ?thesis by auto
qed


end
