(* ===== verification/KF_Cli.thy ===== *)
theory KF_Cli
  imports KF_Load KF_Resolve
begin

text \<open>
  The command line, \<open>kiteframe-cli/src/command.rs\<close> with the result types of \<open>render.rs\<close>: the four
  commands as compositions of the loader, the locks and the resolver, the checks of output
  paths, and the exit categories. What a command does to the outside is the list of its effects in
  order: what it printed, the file it wrote, the states a directory passed through while a lock was
  written. The operating system and the decoders of the serde stack are the record \<open>cli_environment\<close>;
  the text that the human renderers compose from a result is not modelled.
\<close>

section \<open>Environment and results\<close>

datatype os_failure = OsNotFound | OsOther

record explain_result =
  er_package_identity :: package_identity
  er_portable_digest :: sha256_digest
  er_lock_digest :: sha256_digest
  er_capabilities :: "(capability_identity \<times> bool) list"
  er_models :: "(string \<times> string) list"
  er_required_features :: "string list"
  er_enabled_optional :: "string list"
  er_omitted_optional :: "string list"
  er_precedence_decisions :: "compilation_decision list"
  er_child_delegation_boundaries :: "(package_identity \<times> string list \<times> sha256_digest) list"
  er_diagnostics :: "compilation_warning list"

datatype cli_output =
    ShowCheck package_identity sha256_digest
  | ShowLock sha256_digest nat
  | ShowExplain explain_result
  | ShowResolved resolved_agent
  | ShowFailure "diagnostic list"

datatype cli_effect =
    Print bool cli_output
  | WriteFile string string
  | WriteLock string "directory list"

record 'v cli_environment =
  ce_loader :: loader
  ce_semver :: "'v semver"
  ce_canonicalize :: "string \<Rightarrow> (os_failure, string) result"
  ce_read :: "string \<Rightarrow> string option"
  ce_decode_lock :: "string \<Rightarrow> capability_lock option"
  ce_decode_catalog :: "string \<Rightarrow> capability_catalog option"
  ce_decode_components :: "string \<Rightarrow> component_catalog option"
  ce_prints :: "bool \<Rightarrow> cli_output \<Rightarrow> bool"
  ce_writes :: "string \<Rightarrow> bool"
  ce_directory :: directory
  ce_temporary :: string
  ce_lock_faults :: lock_faults

datatype exit_category = ExitSuccess | ExitPackage | ExitLockOrCatalog | ExitResolution | ExitRuntimeTarget

fun exit_code :: "exit_category \<Rightarrow> nat" where
  "exit_code ExitSuccess = 0"
| "exit_code ExitPackage = 2"
| "exit_code ExitLockOrCatalog = 3"
| "exit_code ExitResolution = 4"
| "exit_code ExitRuntimeTarget = 5"

definition cli_externals :: "'v cli_environment \<Rightarrow> externals" where
  "cli_externals E = ld_externals (ce_loader E)"

definition cli_loader :: "'v cli_environment \<Rightarrow> loader" where
  "cli_loader E = (ce_loader E)\<lparr>ld_limits := package_limits_v1\<rparr>"

section \<open>Failures and exit categories\<close>

definition diagnostic_exit :: "diagnostic \<Rightarrow> exit_category" where
  "diagnostic_exit d =
     (if d_category d = CatRuntime then ExitRuntimeTarget
      else if d_category d \<in> {CatLock, CatCatalog} then ExitLockOrCatalog
      else if d_stage d = StageResolve \<or> d_category d = CatFeature then ExitResolution
      else ExitPackage)"

fun max_category :: "exit_category \<Rightarrow> exit_category list \<Rightarrow> exit_category" where
  "max_category best [] = best"
| "max_category best (c # cs) = max_category (if exit_code best \<le> exit_code c then c else best) cs"

definition exit_category_of :: "diagnostic list \<Rightarrow> exit_category" where
  "exit_category_of diagnostics =
     (case map diagnostic_exit diagnostics of [] \<Rightarrow> ExitPackage | c # cs \<Rightarrow> max_category c cs)"

definition render_failure ::
  "'v cli_environment \<Rightarrow> diagnostic list \<Rightarrow> bool \<Rightarrow> exit_category \<times> cli_effect list" where
  "render_failure E diagnostics json =
     (let diagnostics = sort_key lock_sort_key diagnostics;
          exit = exit_category_of diagnostics;
          shown = ShowFailure diagnostics
      in (if ce_prints E json shown then exit else ExitRuntimeTarget, [Print json shown]))"

definition render_success :: "'v cli_environment \<Rightarrow> bool \<Rightarrow> cli_output \<Rightarrow> exit_category \<times> cli_effect list" where
  "render_success E json shown =
     (if ce_prints E json shown then ExitSuccess else ExitRuntimeTarget, [Print json shown])"

definition render_argument_failure :: "'v cli_environment \<Rightarrow> exit_category \<times> cli_effect list" where
  "render_argument_failure E =
     render_failure E [diagnostic_error PackageInvalid CatPackage StageParse ''command arguments are invalid''] True"

section \<open>Paths\<close>

text \<open>
  A path argument may be relative. \<open>file_name\<close> and \<open>parent\<close> work on its components, and an empty
  parent stands for the working directory.
\<close>

definition path_segments :: "string \<Rightarrow> string list" where
  "path_segments path = filter (\<lambda>c. c \<noteq> [] \<and> c \<noteq> ''.'') (split_on CHR ''/'' path)"

definition path_file_name :: "string \<Rightarrow> string option" where
  "path_file_name path =
     (case rev (path_segments path) of
        [] \<Rightarrow> None
      | name # _ \<Rightarrow> if name = ''..'' then None else Some name)"

definition path_parent_or_here :: "string \<Rightarrow> string" where
  "path_parent_or_here path =
     (let segments = butlast (path_segments path);
          parent = (if path \<noteq> [] \<and> hd path = CHR ''/'' then ''/'' else []) @ join_with ''/'' segments
      in if parent = [] then ''.'' else parent)"

definition canonicalize_output_path :: "'v cli_environment \<Rightarrow> string \<Rightarrow> (os_failure, string) result" where
  "canonicalize_output_path E path =
     (case ce_canonicalize E path of
        Inr canonical \<Rightarrow> Inr canonical
      | Inl OsNotFound \<Rightarrow>
          (case path_file_name path of
             None \<Rightarrow> Inl OsNotFound
           | Some file_name \<Rightarrow>
               map_ok (\<lambda>parent. os_join parent file_name) (ce_canonicalize E (path_parent_or_here path)))
      | Inl OsOther \<Rightarrow> Inl OsOther)"

definition compile_output_diagnostic :: "bool \<Rightarrow> diagnostic" where
  "compile_output_diagnostic overlap =
     diagnostic_error CompileOutput CatRuntime StageRuntime
       (if overlap then ''compiled IR output path overlaps protected input''
        else ''compiled IR output cannot be written'')"

definition lock_output_diagnostic :: "bool \<Rightarrow> diagnostic" where
  "lock_output_diagnostic overlap =
     diagnostic_error LockOutput CatRuntime StageLock
       (if overlap then ''capability lock output path overlaps protected input''
        else ''capability lock output cannot be written'')"

definition validated_lock_output_path ::
  "'v cli_environment \<Rightarrow> agent_package \<Rightarrow> string \<Rightarrow> string \<Rightarrow> (diagnostic, string) result" where
  "validated_lock_output_path E package catalog output =
     (let unwritable = (\<lambda>_. lock_output_diagnostic False)
      in and_then (map_err unwritable (canonicalize_output_path E output)) (\<lambda>output.
         and_then (map_err unwritable (ce_canonicalize E (ag_root package))) (\<lambda>package_root.
         and_then (map_err unwritable (ce_canonicalize E catalog)) (\<lambda>catalog.
         if os_starts_with output package_root \<or> output = catalog
         then Inl (lock_output_diagnostic True) else Inr output))))"

record resolution_args =
  rg_package :: string
  rg_binding :: string
  rg_target :: string

definition validated_compile_output_path ::
  "'v cli_environment \<Rightarrow> resolution_args \<Rightarrow> string \<Rightarrow> (diagnostic, string) result" where
  "validated_compile_output_path E args output =
     (let unwritable = (\<lambda>_. compile_output_diagnostic False)
      in and_then (map_err unwritable (canonicalize_output_path E output)) (\<lambda>output.
         and_then (map_err unwritable (ce_canonicalize E (rg_package args))) (\<lambda>package_root.
         and_then (map_err unwritable (ce_canonicalize E (rg_binding args))) (\<lambda>binding.
         and_then (map_err unwritable (ce_canonicalize E (rg_target args))) (\<lambda>target.
         let protected_inputs = [os_join package_root ''agent.yaml'', os_join package_root ''capability.lock'', binding, target]
         in if os_starts_with output package_root \<or> output \<in> set protected_inputs
            then Inl (compile_output_diagnostic True) else Inr output)))))"

definition package_relative_path ::
  "'v cli_environment \<Rightarrow> agent_package \<Rightarrow> string \<Rightarrow> (diagnostic list, string) result" where
  "package_relative_path E package selected =
     and_then (map_err (\<lambda>_. [diagnostic_error PackageInvalid CatPackage StageValidate ''runtime binding cannot be opened''])
       (ce_canonicalize E selected)) (\<lambda>canonical.
     if \<not> os_starts_with canonical (ag_root package)
     then Inl [diagnostic_error PackageContainment CatPackage StageValidate ''runtime binding escapes package root'']
     else
       let relative = join_with ''/'' (drop (length (os_components (ag_root package))) (os_components canonical))
       in map_err (\<lambda>_. [diagnostic_error PackageContainment CatPackage StageValidate ''runtime binding path is invalid''])
            (package_path_new (map (\<lambda>c. if c = CHR 0x5C then CHR ''/'' else c) relative)))"

section \<open>Reading inputs\<close>

definition default_lock_path :: "agent_package \<Rightarrow> string" where
  "default_lock_path package = os_join (ag_root package) ''capability.lock''"

definition read_file ::
  "'v cli_environment \<Rightarrow> string \<Rightarrow> diagnostic_code \<Rightarrow> diagnostic_category \<Rightarrow> diagnostic_stage \<Rightarrow> string \<Rightarrow>
     (diagnostic list, string) result" where
  "read_file E path code category stage message = ok_or [diagnostic_error code category stage message] (ce_read E path)"

definition read_lock :: "'v cli_environment \<Rightarrow> string \<Rightarrow> (diagnostic list, capability_lock) result" where
  "read_lock E path =
     and_then (read_file E path LockStale CatLock StageLock ''capability lock cannot be read'') (\<lambda>bytes.
     ok_or [diagnostic_error LockTampered CatLock StageLock ''capability lock is invalid''] (ce_decode_lock E bytes))"

fun collect_child_locks ::
    "'v cli_environment \<Rightarrow> agent_package \<Rightarrow> (package_identity \<times> capability_lock) list \<Rightarrow>
       (diagnostic list, (package_identity \<times> capability_lock) list) result" where
  "collect_child_locks E (AgentPackage root manifest prompts skills subagents portable) locks =
     try_fold (\<lambda>locks (path, child).
        and_then (read_lock E (default_lock_path child)) (\<lambda>lock.
        and_then (ensure (map_of locks (ag_identity child) = None)
          [diagnostic_error LockStale CatLock StageResolve ''duplicate child lock identity'']) (\<lambda>_.
        collect_child_locks E child (btree_insert (ag_identity child) lock locks))))
       subagents locks"

definition read_child_locks ::
  "'v cli_environment \<Rightarrow> agent_package \<Rightarrow> (diagnostic list, (package_identity \<times> capability_lock) list) result" where
  "read_child_locks E package = collect_child_locks E package []"

section \<open>Commands\<close>

record pipeline_output =
  po_resolved :: resolved_agent
  po_portable_digest :: sha256_digest
  po_requested_optional_features :: "string list"

definition resolve_pipeline ::
  "('v :: linorder) cli_environment \<Rightarrow> resolution_args \<Rightarrow> (diagnostic list, pipeline_output) result" where
  "resolve_pipeline E args =
     (let X = cli_externals E
      in and_then (load_package (cli_loader E) (rg_package args)) (\<lambda>package.
         and_then (read_lock E (default_lock_path package)) (\<lambda>lock.
         and_then (verify_lock X package lock None) (\<lambda>_.
         and_then (package_relative_path E package (rg_binding args)) (\<lambda>binding_path.
         and_then (load_runtime_binding (cli_loader E) (ag_root package) binding_path) (\<lambda>binding.
         and_then (load_runtime_target_catalog X (ce_read E) (ce_decode_components E) (rg_target args)) (\<lambda>(target, components).
         and_then (read_child_locks E package) (\<lambda>child_locks.
         map_ok (\<lambda>resolved. \<lparr>po_resolved = resolved, po_portable_digest = ag_portable_digest package,
             po_requested_optional_features = am_optional_features (ag_manifest package)\<rparr>)
           (resolve_agent X (ce_semver E)
              \<lparr>ri_package = package, ri_lock = lock, ri_child_locks = child_locks, ri_binding = binding,
               ri_target = target, ri_components = components\<rparr>)))))))))"

definition explain :: "pipeline_output \<Rightarrow> explain_result" where
  "explain output =
     (let a = po_resolved output; report = ra_compilation_report a
      in \<lparr>er_package_identity = ra_package_identity a, er_portable_digest = po_portable_digest output,
          er_lock_digest = ra_lock_digest a,
          er_capabilities = map (\<lambda>r. (rr_identity r, rr_required r)) (ra_capability_requirements a),
          er_models = map (\<lambda>(role, m). (role, rm_symbol m)) (ra_models a),
          er_required_features = ra_required_features a, er_enabled_optional = ra_optional_features a,
          er_omitted_optional = filter (\<lambda>f. f \<notin> set (ra_optional_features a)) (po_requested_optional_features output),
          er_precedence_decisions = sort_key (\<lambda>d. (de_subject d, de_outcome d)) (rp_decisions report),
          er_child_delegation_boundaries = map (\<lambda>c. (rs_package_identity c, dr_capabilities (rs_delegation c),
            rs_resolved_digest c)) (ra_subagents a),
          er_diagnostics = sort_key (\<lambda>w. (cw_code w, cw_message w)) (rp_warnings report)\<rparr>)"

definition run_check ::
  "'v cli_environment \<Rightarrow> string \<Rightarrow> bool \<Rightarrow> bool \<Rightarrow> exit_category \<times> cli_effect list" where
  "run_check E path locked json =
     (case and_then (load_package (cli_loader E) path) (\<lambda>package.
           if locked then
             and_then (read_lock E (default_lock_path package)) (\<lambda>lock.
             and_then (verify_lock (cli_externals E) package lock None) (\<lambda>_. Inr package))
           else Inr package) of
        Inr package \<Rightarrow> render_success E json (ShowCheck (ag_identity package) (ag_portable_digest package))
      | Inl diagnostics \<Rightarrow> render_failure E diagnostics json)"

definition write_lock_to ::
  "'v cli_environment \<Rightarrow> string \<Rightarrow> capability_lock \<Rightarrow> cli_effect \<times> (diagnostic, unit) result" where
  "write_lock_to E path lock =
     (let (states, r) = write_lock_atomic (cli_externals E) (ce_lock_faults E) (CHR ''/'' \<in> set path) (ce_directory E)
            (ce_temporary E) path lock
      in (WriteLock path states, r))"

definition lock_of ::
  "('v :: linorder) cli_environment \<Rightarrow> string \<Rightarrow> string \<Rightarrow> (diagnostic list, agent_package \<times> capability_lock) result" where
  "lock_of E path catalog_path =
     and_then (load_package (cli_loader E) path) (\<lambda>package.
     and_then (read_file E catalog_path CatalogIncompatible CatCatalog StageLock ''capability catalog cannot be read'') (\<lambda>bytes.
     and_then (validate_catalog (cli_externals E) (ce_decode_catalog E bytes)) (\<lambda>catalog.
     map_ok (\<lambda>lock. (package, lock)) (lock_package (cli_externals E) (ce_semver E) package catalog PolicyAllowAll))))"

definition lock_target ::
  "'v cli_environment \<Rightarrow> agent_package \<Rightarrow> string \<Rightarrow> string option \<Rightarrow> (diagnostic list, string) result" where
  "lock_target E package catalog_path output =
     (case output of
        None \<Rightarrow> Inr (default_lock_path package)
      | Some path \<Rightarrow> map_err (\<lambda>d. [d]) (validated_lock_output_path E package catalog_path path))"

definition run_lock ::
  "('v :: linorder) cli_environment \<Rightarrow> string \<Rightarrow> string \<Rightarrow> string option \<Rightarrow> bool \<Rightarrow> exit_category \<times> cli_effect list" where
  "run_lock E path catalog_path output json =
     (case and_then (lock_of E path catalog_path) (\<lambda>(package, lock).
           map_ok (\<lambda>to. (lock, to)) (lock_target E package catalog_path output)) of
        Inl diagnostics \<Rightarrow> render_failure E diagnostics json
      | Inr (lock, to) \<Rightarrow>
          (let (effect, written) = write_lock_to E to lock;
               (exit, shown) =
                 (case map_err (\<lambda>d. if output = None then d else lock_output_diagnostic False) written of
                    Inl d \<Rightarrow> render_failure E [d] json
                  | Inr _ \<Rightarrow> render_success E json (ShowLock (lk_lock_digest lock) (length (lk_capabilities lock))))
           in (exit, effect # shown)))"

definition run_explain ::
  "('v :: linorder) cli_environment \<Rightarrow> resolution_args \<Rightarrow> bool \<Rightarrow> exit_category \<times> cli_effect list" where
  "run_explain E args json =
     (case resolve_pipeline E args of
        Inr output \<Rightarrow> render_success E json (ShowExplain (explain output))
      | Inl diagnostics \<Rightarrow> render_failure E diagnostics json)"

definition resolved_agent_json :: "resolved_agent \<Rightarrow> json" where
  "resolved_agent_json a = JObj
     [(''schemaVersion'', JStr ''kiteframe.dev/ir/v1alpha1''),
      (''packageIdentity'', identity_wire (ra_package_identity a)),
      (''portableDigest'', digest_json (ra_portable_digest a)), (''lockDigest'', digest_json (ra_lock_digest a)),
      (''catalogIdentity'', catalog_identity_json (ra_catalog_identity a)),
      (''catalogDigest'', digest_json (ra_catalog_digest a)), (''bindingDigest'', digest_json (ra_binding_digest a)),
      (''resolvedDigest'', digest_json (ra_resolved_digest a)),
      (''prompts'', assets_json (ra_prompts a)), (''skills'', assets_json (ra_skills a)),
      (''models'', JObj (map (\<lambda>(role, m). (role, resolved_model_json m)) (ra_models a))),
      (''capabilityRequirements'', JArr (map resolved_requirement_json (ra_capability_requirements a))),
      (''subagents'', JArr (map subagent_json (ra_subagents a))),
      (''requiredFeatures'', JArr (map JStr (ra_required_features a))),
      (''optionalFeatures'', JArr (map JStr (ra_optional_features a))),
      (''contentCapture'', resolved_capture_json (ra_content_capture a)),
      (''compilationReport'', report_json (ra_compilation_report a))]"

definition write_json_to_path :: "'v cli_environment \<Rightarrow> string \<Rightarrow> resolved_agent \<Rightarrow> bool \<times> cli_effect list" where
  "write_json_to_path E path a =
     (case x_canonical (cli_externals E) (resolved_agent_json a) of
        None \<Rightarrow> (False, [])
      | Some bytes \<Rightarrow> (ce_writes E path, [WriteFile path bytes]))"

definition run_compile ::
  "('v :: linorder) cli_environment \<Rightarrow> resolution_args \<Rightarrow> string option \<Rightarrow> bool \<Rightarrow> exit_category \<times> cli_effect list" where
  "run_compile E args output json =
     (case resolve_pipeline E args of
        Inl diagnostics \<Rightarrow> render_failure E diagnostics json
      | Inr result \<Rightarrow>
          (case output of
             None \<Rightarrow> render_success E True (ShowResolved (po_resolved result))
           | Some path \<Rightarrow>
               (case validated_compile_output_path E args path of
                  Inl d \<Rightarrow> render_failure E [d] json
                | Inr path \<Rightarrow>
                    (let (ok, effects) = write_json_to_path E path (po_resolved result)
                     in if ok then (ExitSuccess, effects)
                        else let (exit, shown) = render_failure E [compile_output_diagnostic False] json
                             in (exit, effects @ shown)))))"

section \<open>Dispatch\<close>

datatype cli_command =
    Check string bool bool
  | LockPackage string string "string option" bool
  | Explain resolution_args bool
  | Compile resolution_args "string option" bool

fun run_cli :: "('v :: linorder) cli_environment \<Rightarrow> cli_command \<Rightarrow> exit_category \<times> cli_effect list" where
  "run_cli E (Check path locked json) = run_check E path locked json"
| "run_cli E (LockPackage path catalog output json) = run_lock E path catalog output json"
| "run_cli E (Explain args json) = run_explain E args json"
| "run_cli E (Compile args output json) = run_compile E args output json"

section \<open>The locks of nested agents\<close>

fun nested_agents :: "agent_package \<Rightarrow> agent_package list" where
  "nested_agents (AgentPackage root manifest prompts skills subagents portable) =
     concat (map (\<lambda>(path, child). child # nested_agents child) subagents)"

text \<open>
  The walk over the tree is one loop over the nested agents in the order in which it meets them.
\<close>

definition child_lock_step ::
  "'v cli_environment \<Rightarrow> (package_identity \<times> capability_lock) list \<Rightarrow> agent_package \<Rightarrow>
     (diagnostic list, (package_identity \<times> capability_lock) list) result" where
  "child_lock_step E locks child =
     and_then (read_lock E (default_lock_path child)) (\<lambda>lock.
     and_then (ensure (map_of locks (ag_identity child) = None)
       [diagnostic_error LockStale CatLock StageResolve ''duplicate child lock identity'']) (\<lambda>_.
     Inr (btree_insert (ag_identity child) lock locks)))"

lemma collect_child_locks_flat: "collect_child_locks E p locks = try_fold (child_lock_step E) (nested_agents p) locks"
proof (induction p arbitrary: locks)
  case (AgentPackage root manifest prompts skills subagents portable)
  then have "collect_child_locks E child locks = try_fold (child_lock_step E) (nested_agents child) locks"
    if "(path, child) \<in> set subagents" for path child locks
    using that by (metis insertI1 snds.simps snd_conv prod_set_simps(2))
  then have "try_fold (\<lambda>locks (path, child).
        and_then (read_lock E (default_lock_path child)) (\<lambda>lock.
        and_then (ensure (map_of locks (ag_identity child) = None)
          [diagnostic_error LockStale CatLock StageResolve ''duplicate child lock identity'']) (\<lambda>_.
        collect_child_locks E child (btree_insert (ag_identity child) lock locks)))) subagents locks
      = try_fold (child_lock_step E) (concat (map (\<lambda>(path, child). child # nested_agents child) subagents)) locks"
    for locks
  proof (induction subagents arbitrary: locks)
    case (Cons s subagents)
    obtain path child where s: "s = (path, child)" by (cases s)
    have "collect_child_locks E child locks = try_fold (child_lock_step E) (nested_agents child) locks" for locks
      by (rule Cons.prems [of path]) (simp add: s)
    then have head: "and_then (read_lock E (default_lock_path child)) (\<lambda>lock.
          and_then (ensure (map_of locks (ag_identity child) = None)
            [diagnostic_error LockStale CatLock StageResolve ''duplicate child lock identity'']) (\<lambda>_.
          collect_child_locks E child (btree_insert (ag_identity child) lock locks)))
        = try_fold (child_lock_step E) (child # nested_agents child) locks" for locks
      by (simp add: child_lock_step_def ensure_def and_then_def split: sum.splits)
    have tail: "try_fold (\<lambda>locks (path, child).
          and_then (read_lock E (default_lock_path child)) (\<lambda>lock.
          and_then (ensure (map_of locks (ag_identity child) = None)
            [diagnostic_error LockStale CatLock StageResolve ''duplicate child lock identity'']) (\<lambda>_.
          collect_child_locks E child (btree_insert (ag_identity child) lock locks)))) subagents
        = try_fold (child_lock_step E) (concat (map (\<lambda>(path, child). child # nested_agents child) subagents))"
      by (rule ext, rule Cons.IH) (use Cons.prems in auto)
    show ?case
      by (simp only: s list.map concat.simps case_prod_conv try_fold_append try_fold.simps(2) head tail)
  qed simp
  then show ?case by simp
qed

lemma nested_identities: "map ag_identity (nested_agents p) = collect_child_identities p"
  by (induction p rule: collect_child_identities.induct) (auto simp: map_concat o_def split_beta intro!: arg_cong [where f = concat])

lemma package_identities_nested: "package_identities p = ag_identity p # collect_child_identities p"
  by (induction p rule: package_identities.induct) (auto simp: split_beta intro!: arg_cong [where f = concat])

lemma child_lock_steps:
  assumes "btree_ok locks" "distinct (map ag_identity agents)"
    and "set (map ag_identity agents) \<inter> set (map fst locks) = {}"
  shows "case try_fold (child_lock_step E) agents locks of
      Inl e \<Rightarrow> \<exists>c \<in> set agents. read_lock E (default_lock_path c) = Inl e
    | Inr locks' \<Rightarrow> btree_ok locks' \<and> set (map fst locks') = set (map fst locks) \<union> set (map ag_identity agents)
        \<and> (\<forall>e \<in> set locks. e \<in> set locks')
        \<and> (\<forall>c \<in> set agents. \<exists>l. (ag_identity c, l) \<in> set locks' \<and> read_lock E (default_lock_path c) = Inr l)"
  using assms
proof (induction agents arbitrary: locks)
  case (Cons c agents)
  show ?case
  proof (cases "read_lock E (default_lock_path c)")
    case (Inr l)
    let ?locks = "btree_insert (ag_identity c) l locks"
    have fresh: "ag_identity c \<notin> fst ` set locks" using Cons.prems(3) by auto
    then have "fst e \<noteq> ag_identity c" if "e \<in> set locks" for e using that by (metis image_eqI)
    then have "{e \<in> set locks. fst e \<noteq> ag_identity c} = set locks" by blast
    then have new: "set ?locks = insert (ag_identity c, l) (set locks)"
      by (simp add: set_btree_insert [OF Cons.prems(1)])
    have "map_of locks (ag_identity c) = None" using fresh by (simp add: map_of_eq_None_iff)
    then have step: "child_lock_step E locks c = Inr ?locks" by (simp add: child_lock_step_def Inr ensure_def)
    have ok: "btree_ok ?locks" by (rule btree_ok_insert) (rule Cons.prems(1))
    have "set (map ag_identity agents) \<inter> set (map fst ?locks) = {}"
      using Cons.prems(2,3) by (auto simp: new)
    note rest = Cons.IH [OF ok _ this]
    show ?thesis
    proof (cases "try_fold (child_lock_step E) agents ?locks")
      case (Inl e)
      with rest Cons.prems(2) show ?thesis by (auto simp: step)
    next
      case (Inr locks')
      with rest Cons.prems(2) have after: "btree_ok locks'"
          "set (map fst locks') = set (map fst ?locks) \<union> set (map ag_identity agents)" "set ?locks \<subseteq> set locks'"
          "\<forall>c \<in> set agents. \<exists>l. (ag_identity c, l) \<in> set locks' \<and> read_lock E (default_lock_path c) = Inr l"
        by auto
      have "(ag_identity c, l) \<in> set locks'" "set locks \<subseteq> set locks'" using after(3) new by auto
      with after(1,2,4) \<open>read_lock E (default_lock_path c) = Inr l\<close> show ?thesis
        by (simp add: step Inr new) blast
    qed
  qed (simp add: child_lock_step_def)
qed simp

section \<open>Exit categories\<close>

fun is_failure :: "cli_effect \<Rightarrow> bool" where
  "is_failure (Print json (ShowFailure diagnostics)) = True"
| "is_failure _ = False"

fun is_printed :: "'v cli_environment \<Rightarrow> cli_effect \<Rightarrow> bool" where
  "is_printed E (Print json shown) = ce_prints E json shown"
| "is_printed E _ = True"

definition succeeded :: "'v cli_environment \<Rightarrow> cli_effect list \<Rightarrow> bool" where
  "succeeded E effects = list_all (\<lambda>e. is_printed E e \<and> \<not> is_failure e) effects"

lemma max_category_code: "exit_code (max_category best cs) = Max (exit_code ` insert best (set cs))"
proof (induction cs arbitrary: best)
  case (Cons c cs)
  have "Max (exit_code ` insert (if exit_code best \<le> exit_code c then c else best) (set cs)) =
      max (exit_code (if exit_code best \<le> exit_code c then c else best)) (Max (insert 0 (exit_code ` set cs)))"
    by (cases "set cs = {}") (simp_all add: max.assoc)
  moreover have "Max (exit_code ` insert best (set (c # cs))) =
      max (max (exit_code best) (exit_code c)) (Max (insert 0 (exit_code ` set cs)))"
    by (cases "set cs = {}") (simp_all add: max.assoc)
  ultimately show ?case by (simp add: Cons.IH max_def)
qed simp

lemma exit_category_of_code:
  "diagnostics \<noteq> [] \<Longrightarrow>
     exit_code (exit_category_of diagnostics) = Max (exit_code ` diagnostic_exit ` set diagnostics)"
  by (cases diagnostics) (simp_all add: exit_category_of_def max_category_code)

lemma exit_category_of_sorted:
  assumes "diagnostics \<noteq> []"
  shows "exit_code (exit_category_of (sort_key key diagnostics)) = Max (exit_code ` diagnostic_exit ` set diagnostics)"
proof -
  have "sort_key key diagnostics \<noteq> []" using assms by (metis length_0_conv length_sort)
  then show ?thesis by (simp add: exit_category_of_code)
qed

lemma exit_code_zero [simp]: "exit_code c = 0 \<longleftrightarrow> c = ExitSuccess"
  by (cases c) simp_all

lemma diagnostic_exit_fails: "diagnostic_exit d \<noteq> ExitSuccess"
  by (simp add: diagnostic_exit_def)

lemma exit_category_fails: "exit_category_of diagnostics \<noteq> ExitSuccess"
proof (cases diagnostics)
  case (Cons d ds)
  have "exit_code (diagnostic_exit d) \<le> exit_code (exit_category_of diagnostics)"
    using exit_category_of_code [of diagnostics] by (simp add: Cons)
  with diagnostic_exit_fails [of d] show ?thesis
    by (cases "exit_category_of diagnostics") (auto simp flip: exit_code_zero)
qed (simp add: exit_category_of_def)

lemma render_failure_exit:
  "fst (render_failure E diagnostics json) =
     (if ce_prints E json (ShowFailure (sort_key lock_sort_key diagnostics))
      then exit_category_of (sort_key lock_sort_key diagnostics) else ExitRuntimeTarget)"
  by (simp add: render_failure_def Let_def)

lemma render_failure_fails [simp]:
  "fst (render_failure E diagnostics json) \<noteq> ExitSuccess"
  "\<not> succeeded E (snd (render_failure E diagnostics json))"
  by (simp_all add: render_failure_def Let_def exit_category_fails succeeded_def)

lemma render_failure_parts: "render_failure E diagnostics json = (exit, shown) \<Longrightarrow> exit \<noteq> ExitSuccess \<and> \<not> succeeded E shown"
  using render_failure_fails by (metis fst_conv snd_conv)

lemma render_success_succeeds [simp]:
  "\<not> is_failure (Print json shown) \<Longrightarrow>
     fst (render_success E json shown) = ExitSuccess \<longleftrightarrow> succeeded E (snd (render_success E json shown))"
  by (simp add: render_success_def succeeded_def)

lemma render_success_parts:
  "render_success E json shown = (exit, effects) \<Longrightarrow> \<not> is_failure (Print json shown) \<Longrightarrow>
     exit = ExitSuccess \<longleftrightarrow> succeeded E effects"
  using render_success_succeeds by (metis fst_conv snd_conv)

lemma succeeded_simps [simp]:
  "succeeded E []" "succeeded E (e # es) \<longleftrightarrow> is_printed E e \<and> \<not> is_failure e \<and> succeeded E es"
  "succeeded E (as @ bs) \<longleftrightarrow> succeeded E as \<and> succeeded E bs"
  by (simp_all add: succeeded_def)

section \<open>What a compilation went through\<close>

record 'v compilation =
  cp_package :: agent_package
  cp_input :: resolution_input
  cp_binding_digest :: sha256_digest
  cp_agent :: resolved_agent
  cp_root :: string

text \<open>
  The stages of \<open>resolve_pipeline\<close>, each with its own input, and what they establish together: the
  package and the binding come from the directory on the command line, its lock verifies, the locks
  of nested agents are those beside them, and the agent honours the manifest.
\<close>

definition pipeline_stages ::
  "('v :: linorder) cli_environment \<Rightarrow> resolution_args \<Rightarrow> resolution_input \<Rightarrow> resolved_agent \<Rightarrow> bool" where
  "pipeline_stages E args inp a =
     (load_package (cli_loader E) (rg_package args) = Inr (ri_package inp)
      \<and> read_lock E (default_lock_path (ri_package inp)) = Inr (ri_lock inp)
      \<and> verify_lock (cli_externals E) (ri_package inp) (ri_lock inp) None = Inr ()
      \<and> (\<exists>relative. package_relative_path E (ri_package inp) (rg_binding args) = Inr relative
           \<and> load_runtime_binding (cli_loader E) (ag_root (ri_package inp)) relative = Inr (ri_binding inp))
      \<and> load_runtime_target_catalog (cli_externals E) (ce_read E) (ce_decode_components E) (rg_target args)
          = Inr (ri_target inp, ri_components inp)
      \<and> read_child_locks E (ri_package inp) = Inr (ri_child_locks inp)
      \<and> resolve_agent (cli_externals E) (ce_semver E) inp = Inr a)"

lemma resolve_pipeline_stages:
  "resolve_pipeline E args = Inr output \<Longrightarrow>
     \<exists>inp. pipeline_stages E args inp (po_resolved output)
       \<and> po_portable_digest output = ag_portable_digest (ri_package inp)"
proof -
  assume "resolve_pipeline E args = Inr output"
  then obtain package lock binding target components child_locks a
    where "pipeline_stages E args \<lparr>ri_package = package, ri_lock = lock, ri_child_locks = child_locks,
        ri_binding = binding, ri_target = target, ri_components = components\<rparr> a"
      "output = \<lparr>po_resolved = a, po_portable_digest = ag_portable_digest package,
         po_requested_optional_features = am_optional_features (ag_manifest package)\<rparr>"
    by (auto simp: resolve_pipeline_def pipeline_stages_def Let_def)
  then show ?thesis by (metis pipeline_output.select_convs(1,2) resolution_input.select_convs(1))
qed

lemma validated_compile_output_Inr:
  assumes "validated_compile_output_path E args output = Inr p"
  shows "\<exists>root. ce_canonicalize E (rg_package args) = Inr root \<and> \<not> os_starts_with p root
    \<and> Inr p \<noteq> ce_canonicalize E (rg_binding args) \<and> Inr p \<noteq> ce_canonicalize E (rg_target args)
    \<and> canonicalize_output_path E output = Inr p"
  using assms by (auto simp: validated_compile_output_path_def Let_def split: if_splits)

lemma no_write_in_render [simp]:
  "WriteFile p bytes \<notin> set (snd (render_failure E diagnostics json))"
  "WriteFile p bytes \<notin> set (snd (render_success E json shown))"
  by (simp_all add: render_failure_def render_success_def Let_def)

lemma run_compile_writes:
  assumes "WriteFile p bytes \<in> set (snd (run_compile E args output json))"
  shows "\<exists>result path. resolve_pipeline E args = Inr result \<and> output = Some path
    \<and> validated_compile_output_path E args path = Inr p
    \<and> x_canonical (cli_externals E) (resolved_agent_json (po_resolved result)) = Some bytes"
  using assms
  by (auto simp: run_compile_def write_json_to_path_def Let_def split: sum.splits option.splits if_splits prod.splits)
     (metis no_write_in_render(1) snd_conv)+

section \<open>Properties of the command line\<close>


text \<open>
  Claim C34. The locks of nested agents match the package they are read for. For a package that loaded, either
  the lock of some nested agent cannot be read, and that failure is the answer, or the locks
  collected have exactly the identities of the nested agents as their keys, at every depth, and each key has the
  lock that stands beside its agent. So the answer that an identity is repeated never occurs for a
  loaded package, and the resolver's check of the lock map always passes.
\<close>

theorem child_locks_match_package:
  assumes "load_package D path = Inr p"
  shows "case read_child_locks E p of
      Inl e \<Rightarrow> \<exists>c \<in> set (nested_agents p). read_lock E (default_lock_path c) = Inl e
    | Inr locks \<Rightarrow> map fst locks = btree_set (collect_child_identities p)
        \<and> (\<forall>c \<in> set (nested_agents p). \<exists>l. map_of locks (ag_identity c) = Some l
             \<and> read_lock E (default_lock_path c) = Inr l)"
proof -
  have "distinct (map ag_identity (nested_agents p))"
    using load_package_loads [OF assms] loads_enters(1)
    by (metis distinct.simps(2) nested_identities package_identities_nested settled_def)
  with child_lock_steps [of "[]" "nested_agents p" E] show ?thesis
    by (auto simp: read_child_locks_def collect_child_locks_flat map_of_btree nested_identities [symmetric]
        btree_set_def btree_ok_def strict_sorted_iff sorted_remdups
        split: sum.splits intro!: sorted_distinct_set_unique)
qed


section \<open>A sample compilation\<close>

text \<open>
  The sample package of the loader, compiled to a file in another directory.
\<close>

definition cli_lock :: "agent_package \<Rightarrow> capability_lock" where
  "cli_lock package = sample_empty_lock\<lparr>lk_package_portable_digest := ag_portable_digest package,
     lk_lock_digest := x_sha256 plain_externals ''manifest''\<rparr>"

definition cli_components :: component_catalog where
  "cli_components = \<lparr>co_target = ''python'', co_components =
     [(''audit'', sample_component KindAuditSink), (''provider'', sample_component KindCapabilityProvider)]\<rparr>"

definition sample_cli :: "nat cli_environment" where
  "sample_cli =
     \<lparr>ce_loader = sample_loader, ce_semver = sample_semver,
      ce_canonicalize = \<lambda>p. if p \<in> {''/pkg'', ''/pkg/runtime.yaml'', ''/target.json'', ''/out''} then Inr p else Inl OsNotFound,
      ce_read = [''/pkg/capability.lock'' \<mapsto> ''L'', ''/pkg/helper/capability.lock'' \<mapsto> ''H'', ''/target.json'' \<mapsto> ''T''],
      ce_decode_lock = [''L'' \<mapsto> cli_lock sample_lead, ''H'' \<mapsto> cli_lock sample_helper],
      ce_decode_catalog = \<lambda>_. None, ce_decode_components = [''T'' \<mapsto> cli_components],
      ce_prints = \<lambda>_ _. True, ce_writes = \<lambda>_. True, ce_directory = \<lambda>_. None, ce_temporary = ''tmp'',
      ce_lock_faults = \<lparr>lf_create = False, lf_write = None, lf_sync = False, lf_persist = False, lf_sync_parent = False\<rparr>\<rparr>"

definition sample_args :: resolution_args where
  "sample_args = \<lparr>rg_package = ''/pkg'', rg_binding = ''/pkg/runtime.yaml'', rg_target = ''/target.json''\<rparr>"

definition cli_target :: runtime_target where
  "cli_target = \<lparr>rt_target = ''python'', rt_supported_features = [],
     rt_target_digest = hash_domain plain_externals ''runtime-target-catalog'' [''manifest'']\<rparr>"

definition cli_input :: resolution_input where
  "cli_input = \<lparr>ri_package = sample_lead, ri_lock = cli_lock sample_lead,
     ri_child_locks = [(PackageIdentity ''helper'' ''1.0.0'', cli_lock sample_helper)],
     ri_binding = sample_runtime_binding, ri_target = cli_target, ri_components = cli_components\<rparr>"

lemma plain_canonical [simp]: "x_canonical plain_externals j = Some ''manifest''"
  by (simp add: plain_externals_def)

lemma sample_agents:
  "ag_root sample_lead = ''/pkg''" "ag_root sample_helper = ''/pkg/helper''"
  "ag_manifest sample_lead = loader_manifest ''lead'' [''helper/agent.yaml'']"
  "ag_manifest sample_helper = loader_manifest ''helper'' []"
  "ag_subagents sample_lead = [(''helper/agent.yaml'', sample_helper)]"
  "nested_agents sample_lead = [sample_helper]"
  by (simp_all add: sample_lead_def sample_helper_def loader_package_def Let_def)

lemma cli_lock_verifies:
  "p \<in> {sample_lead, sample_helper} \<Longrightarrow> verify_lock plain_externals p (cli_lock p) None = Inr ()"
  by (auto simp: verify_lock_def verify_features_def verify_digest_def verify_capabilities_def lock_digest_def Let_def
      diagnose_def cli_lock_def sample_empty_lock_def package_requested_features_def btree_set_def sample_agents
      loader_manifest_def resolver_version_def)

lemma sample_cli_simps [simp]:
  "cli_loader sample_cli = sample_loader" "cli_externals sample_cli = plain_externals"
  "ce_semver sample_cli = sample_semver"
  by (simp_all add: cli_loader_def cli_externals_def sample_cli_def sample_loader_def)

lemma cli_locks_read:
  "p \<in> {sample_lead, sample_helper} \<Longrightarrow> read_lock sample_cli (default_lock_path p) = Inr (cli_lock p)"
  by (auto simp: read_lock_def read_file_def default_lock_path_def sample_agents os_join_def sample_cli_def)

lemma cli_binding_loads: "load_runtime_binding sample_loader ''/pkg'' ''runtime.yaml'' = Inr sample_runtime_binding"
proof -
  have "open_referenced_bytes loader_files ''/pkg'' ''runtime.yaml'' 1048576 False (byte_budget_new 33554432) =
      Inr (\<lparr>rb_bytes = ''B'', rb_canonical_path = ''/pkg/runtime.yaml''\<rparr>, bb_charge (Suc 0) (byte_budget_new 33554432))"
    by (subst sample_read [of _ _ "''B''"])
       (simp_all add: sample_reads os_join_def sample_contents_def os_starts_with_def os_components_def
          byte_budget_new_def bb_remaining_def reject_symlink_components_def symlink_step_def loader_files_def
          sample_dirs_def Let_def)
  moreover have "parse_binding sample_yaml package_limits_v1 ''B'' = Inr sample_runtime_binding"
    by (simp add: parse_binding_def parse_typed_def sample_yaml_def strict_scan_def package_limits_v1_def
        loader_utf8 handle_event_def node_started_def scanner_new_def)
  moreover have "max_yaml_bytes package_limits_v1 = 1048576" "max_total_referenced_bytes package_limits_v1 = 33554432"
    by (simp_all add: package_limits_v1_def)
  ultimately show ?thesis
    by (simp add: load_runtime_binding_def sample_roots single_def open_referenced_yaml_def)
qed

lemma cli_package_stages:
  "p \<in> {sample_lead, sample_helper} \<Longrightarrow>
   package_stages plain_externals sample_semver sample_runtime_binding cli_target cli_components p (cli_lock p) =
   Inr \<lparr>pk_required_features = [], pk_negotiation = \<lparr>fn_enabled_optional = [], fn_omitted_optional = []\<rparr>,
     pk_models = [], pk_warnings = [], pk_requirements = [],
     pk_capture = \<lparr>rc_allowed = False, rc_classifications = []\<rparr>\<rparr>"
  using cli_lock_verifies [of p]
  by (auto simp: package_stages_def sample_agents loader_manifest_def convert_features_def btree_set_def
      negotiate_features_def resolve_models_def resolve_capabilities_def resolve_content_capture_def
      sample_runtime_binding_def cli_lock_def sample_empty_lock_def)

lemma cli_try_new:
  "length subs \<le> 1 \<Longrightarrow> \<exists>a. resolved_agent_try_new plain_externals (stage_parts p lock b stage subs) = Inr a"
  by (cases subs) (auto simp: resolved_agent_try_new_def Let_def resolved_digest_def resolved_components_def
      canonical_component_def normal_parts_def stage_parts_def adjacent_equal_sort_key)

lemma cli_resolves: "\<exists>a. resolve_agent plain_externals sample_semver cli_input = Inr a"
proof -
  let ?R = "resolve_package plain_externals sample_semver (ri_child_locks cli_input) sample_runtime_binding cli_target
    cli_components"
  let ?b = "hash_domain plain_externals ''runtime-binding'' [''manifest'']"
  have input: "ri_package cli_input = sample_lead" "ri_lock cli_input = cli_lock sample_lead"
      "ri_binding cli_input = sample_runtime_binding" "ri_target cli_input = cli_target"
      "ri_components cli_input = cli_components"
      "map fst (ri_child_locks cli_input) = [PackageIdentity ''helper'' ''1.0.0'']"
    by (simp_all add: cli_input_def)
  have checks: "validate_runtime_inputs sample_runtime_binding cli_target cli_components = Inr ()"
    by (simp add: validate_runtime_inputs_def bound_components_def named_component_def kind_diagnostics_def
        require_component_kind_def sample_component_def sample_runtime_binding_def cli_target_def cli_components_def)
  have ids: "ag_identity sample_lead = PackageIdentity ''lead'' ''1.0.0''"
      "ag_identity sample_helper = PackageIdentity ''helper'' ''1.0.0''"
      "collect_child_identities sample_lead = [PackageIdentity ''helper'' ''1.0.0'']"
    by (simp_all add: sample_lead_def sample_helper_def loader_package_def loader_manifest_def Let_def)
  have child: "declared_child sample_lead \<lparr>dr_agent = ''helper/agent.yaml'', dr_capabilities = []\<rparr> = Inr sample_helper"
      "child_lock (ri_child_locks cli_input) sample_helper = Inr (cli_lock sample_helper)"
      "am_delegation (ag_manifest sample_lead) = [\<lparr>dr_agent = ''helper/agent.yaml'', dr_capabilities = []\<rparr>]"
      "am_delegation (ag_manifest sample_helper) = []"
    by (simp_all add: declared_child_def child_lock_def cli_input_def sample_agents ids loader_manifest_def cli_lock_def)
  have "\<exists>r seen. ?R b sample_helper (cli_lock sample_helper) {PackageIdentity ''lead'' ''1.0.0''} = Inr (r, seen)" for b
    using cli_try_new [of "[]" sample_helper "cli_lock sample_helper" b]
    by (subst resolve_package.simps) (auto simp: cli_package_stages ids child)
  then have "\<exists>r seen. ?R b sample_lead (cli_lock sample_lead) {} = Inr (r, seen)" for b
    using cli_try_new [of "[s]" sample_lead "cli_lock sample_lead" b for s]
    by (subst resolve_package.simps) (fastforce simp: cli_package_stages ids child split_beta)
  then show ?thesis
    by (fastforce simp: resolve_agent_def binding_digest_of_def core_canonical_json_def input checks ids simp flip: set_map)
qed

lemma cli_stages: "\<exists>output. resolve_pipeline sample_cli sample_args = Inr output"
proof -
  have "load_runtime_target_catalog plain_externals (ce_read sample_cli) (ce_decode_components sample_cli) ''/target.json'' =
      Inr (cli_target, cli_components)"
    by (simp add: load_runtime_target_catalog_def sample_cli_def runtime_target_of_def core_canonical_json_def
        cli_target_def cli_components_def sample_component_def btree_set_def)
  moreover have "read_child_locks sample_cli sample_lead = Inr (ri_child_locks cli_input)"
    using cli_locks_read [of sample_helper]
    by (simp add: read_child_locks_def collect_child_locks_flat sample_agents child_lock_step_def ensure_def cli_input_def
        sample_lead_simps loader_manifest_def)
  moreover have "package_relative_path sample_cli sample_lead ''/pkg/runtime.yaml'' = Inr ''runtime.yaml''"
    by (simp add: package_relative_path_def sample_agents sample_cli_def os_starts_with_def os_components_def
        package_path_new_def char_in_def Let_def)
  ultimately show ?thesis
    using cli_resolves cli_locks_read [of sample_lead] cli_lock_verifies [of sample_lead] cli_binding_loads
    by (auto simp: resolve_pipeline_def sample_args_def sample_loads sample_agents cli_input_def Let_def)
qed

lemma cli_compiles:
  "WriteFile ''/out'' ''manifest'' \<in> set (snd (run_compile sample_cli sample_args (Some ''/out'') True))"
proof -
  obtain result where "resolve_pipeline sample_cli sample_args = Inr result" using cli_stages by blast
  moreover have "validated_compile_output_path sample_cli sample_args ''/out'' = Inr ''/out''"
    by (simp add: validated_compile_output_path_def canonicalize_output_path_def sample_cli_def sample_args_def
        os_starts_with_def os_components_def os_join_def Let_def)
  ultimately show ?thesis
    by (simp add: run_compile_def write_json_to_path_def sample_cli_def split_beta Let_def)
       (simp add: cli_externals_def)
qed

section \<open>Witnesses\<close>


theorem child_locks_match_package_witness:
  "\<exists>locks. read_child_locks sample_cli sample_lead = Inr locks
    \<and> map fst locks = [PackageIdentity ''helper'' ''1.0.0'']"
  using child_locks_match_package [OF sample_loads, of sample_cli] cli_locks_read [of sample_helper]
  by (auto simp: sample_agents split: sum.splits)
     (simp add: sample_lead_def sample_helper_def loader_package_def loader_manifest_def Let_def btree_set_def)

end
