(* ===== verification/Spec2Isabelle.thy ===== *)
theory Spec2Isabelle
  imports KF_Agreement KF_Admission KF_Invocation KF_Restart KF_Fga KF_Cli
begin

text \<open>
  A verification development for Kiteframe, a framework that admits software agents to
  capabilities and executes their side effects under least privilege with durable evidence.
  The Rust workspace is under \<open>src/crates\<close>. An agent package is resolved to a lock; an
  admission request asks a provider for the locked capabilities; the provider intersects what
  every source of authority allows into a grant set; an invocation under a grant names an
  operation, and the provider executes it at most once, behind a durable authorization record,
  keeping its state in an invocation store that answers status queries.

  The theories, in the order of the dependencies of the code:

  \<^item> \<open>KF_Prelude\<close>: \<open>Result\<close> as a sum, the question-mark operator, loops that stop at the first
    error, strings as bytes, 64-bit integers, sorted collections, and the locale
    \<open>partial_meet\<close> of an order with a greatest-lower-bound operation that may fail.
  \<^item> \<open>KF_Diagnostic\<close>, \<open>KF_Digest\<close>, \<open>KF_Capability\<close>: \<open>kiteframe-contract/src/diagnostic.rs\<close>,
    \<open>digest.rs\<close> and \<open>capability.rs\<close>: diagnostics, digests and capability descriptors with their
    validation. The record \<open>externals\<close> of \<open>KF_Digest\<close> holds what the code takes from its
    dependencies: the digest of canonical JSON, and JSON-schema meta-validation. They are
    parameters of the model, so every theorem holds for all of them.
  \<^item> \<open>KF_Grants\<close> and \<open>KF_Exchange\<close>: the service contract \<open>kiteframe-contract/src/service.rs\<close>:
    admission requests, grants, grant sets and their checks; invocation requests, proposals,
    outcomes and the portable status.
  \<^item> \<open>KF_Resource\<close>: the selectors of \<open>kiteframe-provider/src/resource.rs\<close>. The locale
    \<open>selector_order\<close> says what the authority computation relies on; it is interpreted on the
    code's parser, subset test and intersection.
  \<^item> \<open>KF_Authority\<close>: the intersection of authority terms, \<open>kiteframe-provider/src/authority.rs\<close>.
    Each dimension of a grant interprets \<open>partial_meet\<close>, and the intersection is proved to be
    the greatest grant below all the terms and the locked requirement.
  \<^item> \<open>KF_Agreement\<close>: where the provider's and the contract's tests on selectors agree, and that
    the provider's grants then pass the contract's checks.
  \<^item> \<open>KF_Status\<close> and \<open>KF_Store\<close>: \<open>kiteframe-provider/src/status.rs\<close>: the lifecycle of an
    invocation with the audit evidence each transition needs, safe projections of results and
    errors, and the in-memory store. The locale \<open>invocation_store\<close> states the contract of the
    store's interface; the in-memory store interprets it. Sequences of store calls are the
    relation \<open>mem_step\<close>, whose reachable states \<open>mem_reachable\<close> satisfy the invariant \<open>mem_inv\<close>.
  \<^item> \<open>KF_Principal\<close> and \<open>KF_Operation\<close>: \<open>principal.rs\<close>, \<open>authorization.rs\<close> and \<open>operation.rs\<close> of
    \<open>kiteframe-provider/src\<close>: correlation of the human and the workload, the fresh policy
    check, the registry of trusted operations and the read-only execution path. The policy
    engine and the operations are deployment code, records of the answers they give.
  \<^item> \<open>KF_Audit\<close> and \<open>KF_Ledger\<close>: \<open>kiteframe-provider/src/audit.rs\<close> and
    \<open>kiteframe-audit/src/chain.rs\<close>: authorization and outcome records, durable receipts, and the
    hash-chained partition files. The file system is a map from file names to bytes; an append
    takes the I/O faults it meets (a write cut after \<open>n\<close> bytes among them) as an argument. The
    line codec is a parameter, whose round trip and freedom from newlines is \<open>codec_ok\<close>;
    \<open>chained\<close> is the abstract chain, which verification is proved to establish and an append to
    extend.

  \<^item> \<open>KF_Catalog\<close> and \<open>KF_Admission\<close>: \<open>kiteframe-contract/src/catalog.rs\<close> and
    \<open>kiteframe-provider/src/admission.rs\<close>: the catalog document, and the admission service that
    checks a request against its lock, asks every source of authority, intersects the answers and
    persists the grant set it returns. The abstract map of answered grant sets is refined by the
    persisted one.
  \<^item> \<open>KF_Checks\<close>, \<open>KF_Effect\<close> and \<open>KF_Invocation\<close>: \<open>kiteframe-provider/src/invocation.rs\<close>. The
    checks an invocation passes; the execution of an effect as a task that stops at every await
    (\<open>effect_step\<close>), and many of them interleaved with suspensions, abandonments and retention
    (\<open>provider_step\<close>); and the service: the logged validation pipeline, \<open>invoke\<close>, \<open>resume\<close>, the
    pending suspensions and their leases (\<open>lease_step\<close>). The locales \<open>audit_sink\<close> and
    \<open>effect_platform\<close> are the contracts of the ledger and of store and ledger together; they are
    interpreted on the file ledger and the in-memory store. \<open>invocation_permitted\<close> is the
    specification of what must hold when an operation runs.

  \<^item> \<open>KF_Sqlite\<close>, \<open>KF_Durable\<close> and \<open>KF_Restart\<close>: \<open>kiteframe-provider-sqlite\<close>. The two tables of
    its migrations, the statements of \<open>src/lib.rs\<close> as functions on them under the constraints of the
    schema, transactions that a fault of the database rolls back, and the decoding of rows;
    the list of stored invocations that the tables represent (\<open>represents\<close>), an operation
    on that list for each of the store's (\<open>durable_reserve\<close> and so on), and the simulation
    between them (\<open>refined\<close>). The tables interpret \<open>invocation_store\<close> and, with the ledger,
    \<open>effect_platform\<close>; \<open>durable_step\<close> adds the death of the process and the recovery on the
    next opening to the steps of a provider.

  \<^item> \<open>KF_Package\<close>: agent packages, \<open>kiteframe-contract/src\<close> (\<open>manifest.rs\<close>, \<open>feature.rs\<close>,
    \<open>package.rs\<close>, \<open>component.rs\<close>, \<open>binding.rs\<close>) and the digests of \<open>kiteframe-core/src/canonical.rs\<close>.
    The portable digest is proved to fix the content of the whole tree of nested agents
    (\<open>tree_content\<close>) where the hash function does not collide.
  \<^item> \<open>KF_Select\<close>, \<open>KF_Lock\<close> and \<open>KF_Resolve\<close>: \<open>kiteframe-resolver/src\<close> and the lock and resolved
    agent of the contract: choice of catalog descriptors (specified by \<open>newest_match\<close>), feature
    negotiation and model roles; making, verifying and atomically writing a lock; and the
    resolution of a package with its nested agents, specified by the inductive \<open>honoured\<close>. The version
    library is the record \<open>semver\<close> of its functions over a linear order of versions.

  \<^item> \<open>KF_Yaml\<close> and \<open>KF_Load\<close>: the source loader \<open>kiteframe-core/src\<close>. \<open>KF_Yaml\<close> is the strict scanner of
    \<open>yaml.rs\<close> as a state machine over the parser's events, proved to accept exactly the streams of
    documents (\<open>documents_within\<close>) that keep the limits and repeat no key. \<open>KF_Load\<close> holds \<open>path.rs\<close>,
    \<open>discover.rs\<close>, \<open>load.rs\<close> and \<open>target.rs\<close> over a file system given as a record of answers
    (\<open>file_system\<close>); a successful load is also the big-step relation \<open>loads\<close>, on whose rule
    induction the limits, the containment in the package directory and the freedom from path
    collisions rest. The recursion over nested agents is bounded by the depth limit, which is
    its termination measure.
  \<^item> \<open>KF_Fga\<close>: the OpenFGA backend \<open>kiteframe-openfga/src\<close>: configuration, requests, bounded reading
    of a response, and the decisions, as an \<open>authorization_backend\<close> of \<open>KF_Principal\<close>. The engine's answers
    are a parameter.
  \<^item> \<open>KF_Cli\<close>: the four commands of \<open>kiteframe-cli/src/command.rs\<close> as compositions of loader, locks and
    resolver, with the list of their effects: what \<open>compile\<close> writes, which locks of nested agents it
    reads, and the exit codes.

  Conventions. A Rust struct is a record whose fields carry a prefix, an enum a datatype, a
  \<open>BTreeMap\<close> a list of entries in strictly increasing key order, a string its UTF-8 bytes, a
  \<open>u64\<close> a 64-bit word with checked and saturating operations written out. A constructor that
  validates (\<open>try_new\<close>) is a function into a sum. Operations under a lock are functions from
  the state to a result and the new state; the time they read from the clock is an argument.
  All recursions are structural or over a measure, so no fuel is used anywhere.

  Not modelled: the HTTP transport and the Python bindings, which convert between the
  parts above and their callers; the generation of schema files; and the text that the
  command line composes for a terminal. What is outside the sources is a parameter: the serde
  stack, the YAML parser's event stream, SHA-256, the version and URL libraries, the operating system,
  and everything a deployment plugs in.
\<close>

end
